(* ===== verification/Prelude.thy ===== *)
theory Prelude
  imports Main "HOL-Library.Multiset" "HOL-Library.Monad_Syntax" "HOL-Library.Signed_Division"
begin

text \<open>
  Shared vocabulary of the development.

  \<^item> A Go runtime panic (index out of range, nil dereference, close of a nil channel) ends the
    whole process, since no goroutine of the game node recovers.  An operation that may panic has
    type \<open>'a option\<close> and returns \<open>None\<close> exactly where the Go code panics; \<open>Some s\<close> is a normal
    return with the new state.  \<open>wp m Q\<close> says that \<open>m\<close> does not panic and its result satisfies \<open>Q\<close>.
  \<^item> A Go pointer that may be nil is an \<open>'a option\<close> as well; dereferencing it is a bind.
  \<^item> Go's integer division and remainder truncate towards zero: \<open>sdiv\<close> and \<open>smod\<close>.
  \<^item> Go's \<open>int\<close> is \<open>int\<close>; \<open>idx\<close> and \<open>upd\<close> are array reads and writes with the bounds check of Go.
\<close>

section \<open>Operations that may panic\<close>

definition wp :: "'a option \<Rightarrow> ('a \<Rightarrow> bool) \<Rightarrow> bool" where
  "wp m Q \<longleftrightarrow> (case m of None \<Rightarrow> False | Some x \<Rightarrow> Q x)"

lemma wp_None [simp]: "\<not> wp None Q"
  by (simp add: wp_def)

lemma wp_Some [simp]: "wp (Some x) Q \<longleftrightarrow> Q x"
  by (simp add: wp_def)

lemma wp_bind [simp]: "wp (Option.bind m f) Q \<longleftrightarrow> wp m (\<lambda>x. wp (f x) Q)"
  by (cases m) (auto simp: wp_def)

lemma wp_if [simp]: "wp (if b then m else n) Q \<longleftrightarrow> (if b then wp m Q else wp n Q)"
  by simp

lemma wp_case_option [simp]:
  "wp (case x of None \<Rightarrow> m | Some y \<Rightarrow> f y) Q \<longleftrightarrow> (case x of None \<Rightarrow> wp m Q | Some y \<Rightarrow> wp (f y) Q)"
  by (cases x) auto

lemma wp_case_prod [simp]: "wp (case p of (a, b) \<Rightarrow> f a b) Q \<longleftrightarrow> (case p of (a, b) \<Rightarrow> wp (f a b) Q)"
  by (cases p) auto

lemma wp_iff: "wp m Q \<longleftrightarrow> (\<exists>x. m = Some x \<and> Q x)"
  by (cases m) auto

lemma wp_mono: "wp m P \<Longrightarrow> (\<And>x. P x \<Longrightarrow> Q x) \<Longrightarrow> wp m Q"
  by (cases m) auto

lemma wp_conj: "wp m P \<Longrightarrow> wp m Q \<Longrightarrow> wp m (\<lambda>x. P x \<and> Q x)"
  by (cases m) auto

lemma wp_SomeD: "wp m Q \<Longrightarrow> m = Some x \<Longrightarrow> Q x"
  by simp

text \<open>Handling a sequence of arguments one after the other.\<close>

primrec run_all :: "('a \<Rightarrow> 's \<Rightarrow> 's option) \<Rightarrow> 'a list \<Rightarrow> 's \<Rightarrow> 's option" where
  "run_all f [] s = Some s"
| "run_all f (a # as) s = Option.bind (f a s) (run_all f as)"

section \<open>Go arrays and slices\<close>

definition idx :: "'a list \<Rightarrow> int \<Rightarrow> 'a option" where
  "idx xs i = (if 0 \<le> i \<and> i < int (length xs) then Some (xs ! nat i) else None)"

definition upd :: "'a list \<Rightarrow> int \<Rightarrow> 'a \<Rightarrow> 'a list option" where
  "upd xs i x = (if 0 \<le> i \<and> i < int (length xs) then Some (xs[nat i := x]) else None)"

lemma idx_Some_iff: "idx xs i = Some x \<longleftrightarrow> 0 \<le> i \<and> i < int (length xs) \<and> xs ! nat i = x"
  by (auto simp: idx_def)

lemma idx_in_range: "0 \<le> i \<Longrightarrow> i < int (length xs) \<Longrightarrow> idx xs i = Some (xs ! nat i)"
  by (simp add: idx_def)

lemma idx_of_nat [simp]: "n < length xs \<Longrightarrow> idx xs (int n) = Some (xs ! n)"
  by (simp add: idx_def)

lemma upd_in_range: "0 \<le> i \<Longrightarrow> i < int (length xs) \<Longrightarrow> upd xs i x = Some (xs[nat i := x])"
  by (simp add: upd_def)

lemma upd_Some_iff: "upd xs i x = Some ys \<longleftrightarrow> 0 \<le> i \<and> i < int (length xs) \<and> ys = xs[nat i := x]"
  by (auto simp: upd_def)

lemma length_upd: "upd xs i x = Some ys \<Longrightarrow> length ys = length xs"
  by (auto simp: upd_Some_iff)

section \<open>Go arithmetic\<close>

lemma smod_nonneg: "0 \<le> a \<Longrightarrow> 0 < b \<Longrightarrow> a smod b = a mod (b::int)"
  by (cases "a = 0") (auto simp: signed_modulo_int_def)

lemma sdiv_nonneg: "0 \<le> a \<Longrightarrow> 0 < b \<Longrightarrow> a sdiv b = a div (b::int)"
  by (cases "a = 0") (auto simp: signed_divide_int_def)

section \<open>Lists and multisets\<close>

text \<open>Exchanging two elements of a slice, \<open>xs[i], xs[j] = xs[j], xs[i]\<close>, both indices in range.\<close>

definition swap_at :: "'a list \<Rightarrow> nat \<Rightarrow> nat \<Rightarrow> 'a list" where
  "swap_at xs i j = xs[i := xs ! j, j := xs ! i]"

lemma length_swap_at [simp]: "length (swap_at xs i j) = length xs"
  by (simp add: swap_at_def)

lemma mset_swap_at [simp]: "i < length xs \<Longrightarrow> j < length xs \<Longrightarrow> mset (swap_at xs i j) = mset xs"
  unfolding swap_at_def by (rule mset_swap)

lemma drop_Suc_nth: "i < length xs \<Longrightarrow> drop i xs = xs ! i # drop (Suc i) xs"
  by (rule Cons_nth_drop_Suc [symmetric])

lemma mset_drop_nth: "i < length xs \<Longrightarrow> mset (drop i xs) = add_mset (xs ! i) (mset (drop (Suc i) xs))"
  by (simp add: drop_Suc_nth)

lemma sum_list_update_int:
  fixes xs :: "int list"
  shows "i < length xs \<Longrightarrow> sum_list (xs[i := v]) = sum_list xs - xs ! i + v"
  by (induction xs arbitrary: i) (auto split: nat.splits)

lemma sum_list_update_nat:
  fixes xs :: "nat list"
  shows "i < length xs \<Longrightarrow> sum_list (xs[i := v]) + xs ! i = sum_list xs + v"
  by (induction xs arbitrary: i) (auto split: nat.splits)

lemma list_of_length4: "length xs = 4 \<longleftrightarrow> (\<exists>a b c d. xs = [a, b, c, d])"
  by (auto simp: numeral_eq_Suc length_Suc_conv)

lemma nat_lt4: "(i::int) \<in> {0, 1, 2, 3} \<longleftrightarrow> 0 \<le> i \<and> i < 4"
  by auto

section \<open>Go strings\<close>

text \<open>\<open>strings.Split\<close> by one character.\<close>

fun split_at :: "char \<Rightarrow> string \<Rightarrow> string list" where
  "split_at c [] = [[]]"
| "split_at c (x # xs) = (if x = c then [] # split_at c xs
     else case split_at c xs of [] \<Rightarrow> [[x]] | w # ws \<Rightarrow> (x # w) # ws)"

lemma split_at_word: "c \<notin> set w \<Longrightarrow> split_at c (w @ c # rest) = w # split_at c rest"
  by (induction w) auto

lemma split_at_last: "c \<notin> set w \<Longrightarrow> split_at c w = [w]"
  by (induction w) auto

text \<open>\<open>strings.HasPrefix\<close>.\<close>

definition HasPrefix :: "string \<Rightarrow> string \<Rightarrow> bool" where
  "HasPrefix s p \<longleftrightarrow> take (length p) s = p"

text \<open>Decimal digits, \<open>%d\<close> of a number that is not negative.\<close>

definition digit :: "nat \<Rightarrow> char" where
  "digit n = ''0123456789'' ! (n mod 10)"

fun decimal :: "nat \<Rightarrow> string" where
  "decimal n = (if n < 10 then [digit n] else decimal (n div 10) @ [digit n])"

declare decimal.simps [simp del]

lemma digit_inj: "digit a = digit b \<Longrightarrow> a mod 10 = b mod 10"
  using nth_eq_iff_index_eq [of "''0123456789''" "a mod 10" "b mod 10"] by (simp add: digit_def)

lemma decimal_not_empty: "decimal n \<noteq> []"
  by (simp add: decimal.simps [of n])

lemma decimal_inj: "decimal a = decimal b \<Longrightarrow> a = b"
proof (induction a arbitrary: b rule: decimal.induct)
  case (1 a)
  have d: "digit a = digit b" and q: "a < 10 \<longleftrightarrow> b < 10" "\<not> a < 10 \<Longrightarrow> decimal (a div 10) = decimal (b div 10)"
    using "1.prems" decimal_not_empty [of "a div 10"] decimal_not_empty [of "b div 10"]
    by (auto simp: decimal.simps [of a] decimal.simps [of b] split: if_splits)
  show ?case
  proof (cases "a < 10")
    case True
    then show ?thesis using digit_inj [OF d] q(1) by simp
  next
    case False
    then have "a div 10 = b div 10" using "1.IH" q(2) by blast
    then show ?thesis using digit_inj [OF d] by (metis div_mult_mod_eq)
  qed
qed

lemma decimal_no_dash: "CHR ''-'' \<notin> set (decimal n)"
proof (induction n rule: decimal.induct)
  case (1 n)
  have "digit n \<in> set ''0123456789''" unfolding digit_def by (rule nth_mem) simp
  moreover have "\<forall>c \<in> set ''0123456789''. c \<noteq> CHR ''-''" by simp
  ultimately have "digit n \<noteq> CHR ''-''" by blast
  then show ?case using 1 by (auto simp: decimal.simps [of n])
qed

text \<open>A word after the last separator is determined.\<close>

lemma last_word_eq: "c \<notin> set v \<Longrightarrow> c \<notin> set w \<Longrightarrow> a @ c # v = b @ c # w \<Longrightarrow> v = w"
proof -
  assume a: "c \<notin> set v" "c \<notin> set w" "a @ c # v = b @ c # w"
  have t: "takeWhile (\<lambda>x. x \<noteq> c) (rev (xs @ c # ys)) = rev ys" if "c \<notin> set ys" for xs ys
    using that by (induction ys rule: rev_induct) auto
  have "takeWhile (\<lambda>x. x \<noteq> c) (rev (a @ c # v)) = takeWhile (\<lambda>x. x \<noteq> c) (rev (b @ c # w))" by (simp only: a(3))
  then show "v = w" using t [OF a(1), of a] t [OF a(2), of b] by (simp only: rev_is_rev_conv)
qed

end
