(* ===== verification/Material.thy ===== *)
theory Material
  imports Prelude
begin

text \<open>
  Tiles, the wall and the dead wall: \<^verbatim>\<open>game/runtime/engines/mahjong/material.go\<close>.

  \<^item> \<open>TileType\<close> and \<open>Wind\<close> are Go integer types; clients may send any number, so they stay \<open>int\<close>.
  \<^item> \<open>DeckManager\<close> is the record of the Go struct without its \<open>rng\<close>: \<open>InitRound\<close> takes the random
    indices that \<^verbatim>\<open>rand.Shuffle\<close> draws as a parameter \<open>rnd\<close>.
  \<^item> A Go result \<open>(Tile, bool)\<close> is \<open>Tile option\<close>; the outer option is the panic of an index out of
    range in \<open>remain34\<close>.
  \<^item> \<open>unseen\<close> and \<open>stock\<close> abstract a deck to the tiles nobody has seen and to the tiles still on the
    table; the locale \<open>tile_supply\<close> is the contract of every operation that hands out a tile.
\<close>

section \<open>Data\<close>

type_synonym Wind = int
type_synonym TileType = int

definition WindEast :: Wind where [simp]: "WindEast = 0"
definition WindSouth :: Wind where [simp]: "WindSouth = 1"
definition WindWest :: Wind where [simp]: "WindWest = 2"
definition WindNorth :: Wind where [simp]: "WindNorth = 3"

definition Man1 :: TileType where [simp]: "Man1 = 0"
definition Man5 :: TileType where [simp]: "Man5 = 4"
definition Man9 :: TileType where [simp]: "Man9 = 8"
definition Pin1 :: TileType where [simp]: "Pin1 = 9"
definition Pin5 :: TileType where [simp]: "Pin5 = 13"
definition Pin9 :: TileType where [simp]: "Pin9 = 17"
definition So1 :: TileType where [simp]: "So1 = 18"
definition So5 :: TileType where [simp]: "So5 = 22"
definition So9 :: TileType where [simp]: "So9 = 26"
definition East :: TileType where [simp]: "East = 27"
definition South :: TileType where [simp]: "South = 28"
definition West :: TileType where [simp]: "West = 29"
definition North :: TileType where [simp]: "North = 30"
definition White :: TileType where [simp]: "White = 31"
definition Green :: TileType where [simp]: "Green = 32"
definition Red :: TileType where [simp]: "Red = 33"

definition TileLimit :: int where [simp]: "TileLimit = 136"

record Tile =
  tType :: TileType
  tID :: int

record Wang =
  KanTiles :: "Tile list"
  kanIndex :: nat
  DoraIndicators :: "Tile list"
  doraIndex :: nat
  UraDoraIndicators :: "Tile list"
  uraDoraIndex :: nat

record DeckManager =
  wall :: "Tile list"
  wallIndex :: nat
  wang :: Wang
  remain34 :: "int list"
  useRedFives :: bool

abbreviation mk_tile :: "TileType \<Rightarrow> int \<Rightarrow> Tile" where
  "mk_tile t i \<equiv> \<lparr>tType = t, tID = i\<rparr>"

text \<open>The zero value of Go's \<open>Tile{}\<close>.\<close>

abbreviation zero_tile :: Tile where
  "zero_tile \<equiv> mk_tile 0 0"

definition NewDeckManager :: "bool \<Rightarrow> DeckManager" where
  "NewDeckManager useRed = \<lparr>wall = [], wallIndex = 0,
     wang = \<lparr>KanTiles = replicate 4 zero_tile, kanIndex = 0,
             DoraIndicators = replicate 5 zero_tile, doraIndex = 0,
             UraDoraIndicators = replicate 5 zero_tile, uraDoraIndex = 0\<rparr>,
     remain34 = replicate 34 0, useRedFives = useRed\<rparr>"

section \<open>The full deck\<close>

definition generateSuitTiles :: "TileType \<Rightarrow> TileType \<Rightarrow> Tile list" where
  "generateSuitTiles start stop = concat (map (\<lambda>t. map (mk_tile t) [0..3]) [start..stop])"

definition generateHonorTiles :: "TileType \<Rightarrow> TileType \<Rightarrow> Tile list" where
  "generateHonorTiles start stop = concat (map (\<lambda>t. map (mk_tile t) [0..3]) [start..stop])"

definition initializeTiles :: "bool \<Rightarrow> Tile list" where
  "initializeTiles useRed = generateSuitTiles Man1 Man9 @ generateSuitTiles Pin1 Pin9
     @ generateSuitTiles So1 So9 @ generateHonorTiles East Red"

definition NewTileDeck :: "bool \<Rightarrow> Tile list" where
  "NewTileDeck useRed = initializeTiles useRed"

section \<open>Operations of the deck manager\<close>

text \<open>\<^verbatim>\<open>rand.Shuffle\<close> walks \<open>i\<close> from the last index down to 1 and exchanges \<open>i\<close> with a random \<open>j \<le> i\<close>.\<close>

fun shuffle_from :: "(nat \<Rightarrow> nat) \<Rightarrow> nat \<Rightarrow> 'a list \<Rightarrow> 'a list" where
  "shuffle_from rnd 0 xs = xs"
| "shuffle_from rnd (Suc i) xs = shuffle_from rnd i (swap_at xs (Suc i) (rnd (Suc i) mod Suc (Suc i)))"

definition shuffle :: "(nat \<Rightarrow> nat) \<Rightarrow> 'a list \<Rightarrow> 'a list" where
  "shuffle rnd xs = shuffle_from rnd (length xs - 1) xs"

definition InitRound :: "(nat \<Rightarrow> nat) \<Rightarrow> DeckManager \<Rightarrow> DeckManager" where
  "InitRound rnd dm =
     (let tiles = shuffle rnd (NewTileDeck (useRedFives dm));
          dm1 = dm\<lparr>wall := [], wallIndex := 0,
                   wang := (wang dm)\<lparr>kanIndex := 0, doraIndex := 0, uraDoraIndex := 0\<rparr>,
                   remain34 := replicate 34 4\<rparr>
      in if length tiles \<le> 14 then dm1
         else let deadStart = length tiles - 14; wangTiles = drop deadStart tiles
              in dm1\<lparr>wall := take deadStart tiles,
                     wang := (wang dm1)\<lparr>KanTiles := take 4 wangTiles,
                                        DoraIndicators := take 5 (drop 4 wangTiles),
                                        UraDoraIndicators := take 5 (drop 9 wangTiles)\<rparr>\<rparr>)"

text \<open>\<open>dm.remain34[int(t.Type)]--\<close>.\<close>

definition dec34 :: "DeckManager \<Rightarrow> Tile \<Rightarrow> DeckManager option" where
  "dec34 dm t = do {
     n \<leftarrow> idx (remain34 dm) (tType t);
     r \<leftarrow> upd (remain34 dm) (tType t) (n - 1);
     Some (dm\<lparr>remain34 := r\<rparr>)
   }"

definition Draw :: "DeckManager \<Rightarrow> (Tile option \<times> DeckManager) option" where
  "Draw dm =
     (if length (wall dm) \<le> wallIndex dm then Some (None, dm)
      else do {
        let t = wall dm ! wallIndex dm;
        dm' \<leftarrow> dec34 (dm\<lparr>wallIndex := Suc (wallIndex dm)\<rparr>) t;
        Some (Some t, dm')
      })"

definition Deal :: "DeckManager \<Rightarrow> (Tile option \<times> DeckManager) option" where
  "Deal dm = Draw dm"

definition DrawKanTile :: "DeckManager \<Rightarrow> (Tile option \<times> DeckManager) option" where
  "DrawKanTile dm =
     (if 4 \<le> kanIndex (wang dm) then Some (None, dm)
      else do {
        t \<leftarrow> idx (KanTiles (wang dm)) (int (kanIndex (wang dm)));
        dm' \<leftarrow> dec34 (dm\<lparr>wang := (wang dm)\<lparr>kanIndex := Suc (kanIndex (wang dm))\<rparr>\<rparr>) t;
        Some (Some t, dm')
      })"

definition RemainingKanTiles :: "DeckManager \<Rightarrow> int" where
  "RemainingKanTiles dm = 4 - int (kanIndex (wang dm))"

definition CanKan :: "DeckManager \<Rightarrow> bool" where
  "CanKan dm \<longleftrightarrow> kanIndex (wang dm) < 4"

definition RevealDoraIndicator :: "DeckManager \<Rightarrow> (Tile option \<times> DeckManager) option" where
  "RevealDoraIndicator dm =
     (if 5 \<le> doraIndex (wang dm) then Some (None, dm)
      else do {
        t \<leftarrow> idx (DoraIndicators (wang dm)) (int (doraIndex (wang dm)));
        dm' \<leftarrow> dec34 (dm\<lparr>wang := (wang dm)\<lparr>doraIndex := Suc (doraIndex (wang dm))\<rparr>\<rparr>) t;
        Some (Some t, dm')
      })"

definition RevealUraDoraIndicator :: "DeckManager \<Rightarrow> (Tile option \<times> DeckManager) option" where
  "RevealUraDoraIndicator dm =
     (if 5 \<le> uraDoraIndex (wang dm) then Some (None, dm)
      else do {
        t \<leftarrow> idx (UraDoraIndicators (wang dm)) (int (uraDoraIndex (wang dm)));
        dm' \<leftarrow> dec34 (dm\<lparr>wang := (wang dm)\<lparr>uraDoraIndex := Suc (uraDoraIndex (wang dm))\<rparr>\<rparr>) t;
        Some (Some t, dm')
      })"

definition GetDoraIndicators :: "DeckManager \<Rightarrow> Tile list" where
  "GetDoraIndicators dm = take (doraIndex (wang dm)) (DoraIndicators (wang dm))"

definition GetUraDoraIndicators :: "DeckManager \<Rightarrow> Tile list" where
  "GetUraDoraIndicators dm = take (uraDoraIndex (wang dm)) (UraDoraIndicators (wang dm))"

definition Visible34 :: "DeckManager \<Rightarrow> int list" where
  "Visible34 dm = map (\<lambda>i. let v = 4 - remain34 dm ! i; v = (if v < 0 then 0 else v)
                            in (if v > 4 then 4 else v)) [0..<34]"

section \<open>Round data\<close>

record Situation =
  DealerIndex :: int
  Honba :: int
  RoundWind :: Wind
  RoundNumber :: int
  RiichiSticks :: int

record Meld =
  mType :: string
  mTiles :: "Tile list"
  mFrom :: int

definition IsNumbered :: "TileType \<Rightarrow> bool" where
  "IsNumbered t \<longleftrightarrow> Man1 \<le> t \<and> t \<le> So9"

definition IsHonor :: "TileType \<Rightarrow> bool" where
  "IsHonor t \<longleftrightarrow> East \<le> t \<and> t \<le> Red"

definition IsFiveType :: "TileType \<Rightarrow> bool" where
  "IsFiveType t \<longleftrightarrow> t = Man5 \<or> t = Pin5 \<or> t = So5"

text \<open>\<open>Wind.String\<close> yields Chinese characters; a Go string is its UTF-8 bytes.\<close>

definition WindString :: "Wind \<Rightarrow> string" where
  "WindString w =
     (if w = WindEast then [CHR 0xE4, CHR 0xB8, CHR 0x9C]
      else if w = WindSouth then [CHR 0xE5, CHR 0x8D, CHR 0x97]
      else if w = WindWest then [CHR 0xE8, CHR 0xA5, CHR 0xBF]
      else if w = WindNorth then [CHR 0xE5, CHR 0x8C, CHR 0x97]
      else [CHR 0xE6, CHR 0x9C, CHR 0xAA, CHR 0xE7, CHR 0x9F, CHR 0xA5])"

definition WindNext :: "Wind \<Rightarrow> Wind" where
  "WindNext w = (w + 1) smod 4"

definition IsRedFive :: "Tile \<Rightarrow> bool" where
  "IsRedFive t \<longleftrightarrow> tID t = 0 \<and> (tType t = Man5 \<or> tType t = Pin5 \<or> tType t = So5)"

definition IsFive :: "Tile \<Rightarrow> bool" where
  "IsFive t \<longleftrightarrow> tType t = Man5 \<or> tType t = Pin5 \<or> tType t = So5"

definition GetTileValue :: "Tile \<Rightarrow> TileType" where
  "GetTileValue t = tType t"

definition RoundEndDrawExhaustive :: string where [simp]: "RoundEndDrawExhaustive = ''DRAW_EXHAUSTIVE''"
definition RoundEndDraw3Ron :: string where [simp]: "RoundEndDraw3Ron = ''DRAW_3RON''"
definition RoundEndDraw4Kan :: string where [simp]: "RoundEndDraw4Kan = ''DRAW_4KAN''"
definition RoundEndTsumo :: string where [simp]: "RoundEndTsumo = ''TSUMO''"
definition RoundEndRon :: string where [simp]: "RoundEndRon = ''RON''"

record HuClaim =
  WinnerSeat :: int
  HasLoser :: bool
  LoserSeat :: int
  WinTile :: Tile

record PlayerOperation =
  opType :: string
  opTiles :: "Tile list"

record PlayerReaction =
  Operations :: "PlayerOperation list"
  ChosenOp :: "PlayerOperation option"
  Responded :: bool

record ReactionAction =
  raType :: string
  PlayerSeat :: int
  raTiles :: "Tile list"

end
