(* ===== verification/Searcher.thy ===== *)
theory Searcher
  imports Material
begin

text \<open>
  The hand searcher: \<^verbatim>\<open>game/runtime/engines/mahjong/searcher.go\<close>.

  \<^item> \<open>Hand34\<close> is Go's \<open>[34]uint8\<close>: a list of 34 naturals below 256.  The only unguarded increment,
    in \<open>Hand34FromTiles\<close>, carries the wrap-around \<open>mod 256\<close>; every other write is guarded so that it
    stays in range.
  \<^item> \<open>canFormMelds\<close> gets the hand by pointer, writes to it and undoes the write on each way out; the
    model returns the hand with the verdict.
  \<^item> \<open>dfsNormalShanten\<close> undoes its writes in the same way; there each call is given the modified copy,
    and the pointer \<open>best\<close> is threaded as an accumulator.
  \<^item> The three caches of \<open>Searcher\<close> are maps keyed by the 35 bytes of \<open>keyWithFixedMelds\<close>; an
    operation returns the searcher with the cache entries it wrote.
\<close>

type_synonym Hand34 = "nat list"
type_synonym cache_key = "nat list"

record Candidate =
  DiscardType :: TileType
  DiscardOptions :: "Tile list"
  Waits :: "TileType list"
  Ukeire :: int

record Searcher =
  shantenCache :: "cache_key \<rightharpoonup> int"
  agariCache :: "cache_key \<rightharpoonup> bool"
  waitsCache :: "cache_key \<rightharpoonup> TileType list"

definition NewSearcher :: Searcher where
  "NewSearcher = \<lparr>shantenCache = Map.empty, agariCache = Map.empty, waitsCache = Map.empty\<rparr>"

section \<open>Tools\<close>

definition isNumberTile :: "nat \<Rightarrow> bool" where
  "isNumberTile i \<longleftrightarrow> Man1 \<le> int i \<and> int i \<le> So9"

definition suitOf :: "nat \<Rightarrow> int" where
  "suitOf i = (if Man1 \<le> int i \<and> int i \<le> Man9 then 0
     else if Pin1 \<le> int i \<and> int i \<le> Pin9 then 1
     else if So1 \<le> int i \<and> int i \<le> So9 then 2 else -1)"

definition kokushiTiles :: "nat list" where
  "kokushiTiles = map nat [Man1, Man9, Pin1, Pin9, So1, So9, East, South, West, North, White, Green, Red]"

definition keyWithFixedMelds :: "Hand34 \<Rightarrow> int \<Rightarrow> cache_key" where
  "keyWithFixedMelds h fixedMelds = h @ [nat (fixedMelds mod 256)]"

fun Hand34FromTiles_loop ::
    "Tile list \<Rightarrow> Hand34 \<Rightarrow> (TileType \<rightharpoonup> Tile list) \<Rightarrow> (Hand34 \<times> (TileType \<rightharpoonup> Tile list)) option" where
  "Hand34FromTiles_loop [] h opts = Some (h, opts)"
| "Hand34FromTiles_loop (t # ts) h opts = do {
     n \<leftarrow> idx h (tType t);
     h' \<leftarrow> upd h (tType t) ((n + 1) mod 256);
     Hand34FromTiles_loop ts h' (opts(tType t \<mapsto> (case opts (tType t) of None \<Rightarrow> [] | Some o' \<Rightarrow> o') @ [t]))
   }"

definition Hand34FromTiles :: "Tile list \<Rightarrow> (Hand34 \<times> (TileType \<rightharpoonup> Tile list)) option" where
  "Hand34FromTiles ts = Hand34FromTiles_loop ts (replicate 34 0) Map.empty"

text \<open>The loop that looks for the first tile type the hand still has.\<close>

definition firstTile :: "Hand34 \<Rightarrow> nat option" where
  "firstTile h = find (\<lambda>k. 0 < h ! k) [0..<length h]"

section \<open>Winning hands\<close>

fun canFormMelds :: "Hand34 \<Rightarrow> nat \<Rightarrow> bool \<times> Hand34" where
  "canFormMelds h 0 = (\<forall>i \<in> set [0..<length h]. h ! i = 0, h)"
| "canFormMelds h (Suc need) =
     (case firstTile h of
        None \<Rightarrow> (False, h)
      | Some i \<Rightarrow>
          let (formed, h) =
            (if 3 \<le> h ! i
             then let (ok, h1) = canFormMelds (h[i := h ! i - 3]) need
                  in (ok, h1[i := h1 ! i + 3])
             else (False, h))
          in if formed then (True, h)
             else if isNumberTile i \<and> i + 2 < 34 \<and> suitOf i = suitOf (i + 1) \<and> suitOf i = suitOf (i + 2)
             then if 0 < h ! i \<and> 0 < h ! (i + 1) \<and> 0 < h ! (i + 2)
                  then let (ok, h1) = canFormMelds
                             (h[i := h ! i - 1, i + 1 := h ! (i + 1) - 1, i + 2 := h ! (i + 2) - 1]) need
                       in (ok, h1[i := h1 ! i + 1, i + 1 := h1 ! (i + 1) + 1, i + 2 := h1 ! (i + 2) + 1])
                  else (False, h)
             else (False, h))"

definition IsAgariNormal :: "Hand34 \<Rightarrow> int \<Rightarrow> bool" where
  "IsAgariNormal h fixedMelds =
     (let need = 4 - fixedMelds
      in if need < 0 then False
         else list_ex (\<lambda>j. \<not> h ! j < 2 \<and> fst (canFormMelds (h[j := h ! j - 2]) (nat need))) [0..<34])"

definition IsAgariChiitoi :: "Hand34 \<Rightarrow> bool" where
  "IsAgariChiitoi h \<longleftrightarrow> 7 \<le> sum_list (map (\<lambda>i. h ! i div 2) [0..<34])"

definition kokushi_scan :: "Hand34 \<Rightarrow> int \<times> bool" where
  "kokushi_scan h = fold (\<lambda>i (unique, pair).
     if 0 < h ! i then (unique + 1, if 2 \<le> h ! i then True else pair) else (unique, pair))
     kokushiTiles (0, False)"

definition IsAgariKokushi :: "Hand34 \<Rightarrow> bool" where
  "IsAgariKokushi h = (let (unique, pair) = kokushi_scan h in unique = 13 \<and> pair)"

text \<open>The verdict \<open>IsAgariAll\<close> computes on a cache miss.\<close>

definition agari :: "Hand34 \<Rightarrow> int \<Rightarrow> bool" where
  "agari h fixedMelds =
     (if 0 < fixedMelds then IsAgariNormal h fixedMelds
      else IsAgariNormal h 0 \<or> IsAgariChiitoi h \<or> IsAgariKokushi h)"

definition IsAgariAll :: "Searcher \<Rightarrow> Hand34 \<Rightarrow> int \<Rightarrow> bool \<times> Searcher" where
  "IsAgariAll s h fixedMelds =
     (let key = keyWithFixedMelds h fixedMelds
      in case agariCache s key of
           Some v \<Rightarrow> (v, s)
         | None \<Rightarrow> let ok = agari h fixedMelds in (ok, s\<lparr>agariCache := (agariCache s)(key \<mapsto> ok)\<rparr>))"

section \<open>Waits\<close>

definition ukeireByWaits :: "Hand34 \<Rightarrow> TileType list \<Rightarrow> nat list option \<Rightarrow> int" where
  "ukeireByWaits h13 waits visible = fold (\<lambda>tt ukeire.
     let orig = int (h13 ! nat tt); add = 4 - orig;
         add = (case visible of
                  None \<Rightarrow> add
                | Some v \<Rightarrow> let add = add - int (v ! nat tt) in if add < 0 then 0 else add)
     in ukeire + add) waits 0"

fun waits_loop :: "Searcher \<Rightarrow> Hand34 \<Rightarrow> int \<Rightarrow> nat list \<Rightarrow> TileType list \<times> Searcher" where
  "waits_loop s h13 fixedMelds [] = ([], s)"
| "waits_loop s h13 fixedMelds (t # ts) =
     (if 4 \<le> h13 ! t then waits_loop s h13 fixedMelds ts
      else let (win, s1) = IsAgariAll s (h13[t := h13 ! t + 1]) fixedMelds;
               (ws, s2) = waits_loop s1 h13 fixedMelds ts
           in (if win then int t # ws else ws, s2))"

definition WaitsAndUkeire ::
    "Searcher \<Rightarrow> Hand34 \<Rightarrow> int \<Rightarrow> nat list option \<Rightarrow> (TileType list \<times> int) \<times> Searcher" where
  "WaitsAndUkeire s h13 fixedMelds visible =
     (let key = keyWithFixedMelds h13 fixedMelds
      in case waitsCache s key of
           Some v \<Rightarrow> ((v, ukeireByWaits h13 v visible), s)
         | None \<Rightarrow>
             let (waits, s1) = waits_loop s h13 fixedMelds [0..<34];
                 s2 = s1\<lparr>waitsCache := (waitsCache s1)(key \<mapsto> waits)\<rparr>
             in ((waits, ukeireByWaits h13 waits visible), s2))"

fun candidates_loop ::
    "Searcher \<Rightarrow> Hand34 \<Rightarrow> (TileType \<rightharpoonup> Tile list) \<Rightarrow> int \<Rightarrow> nat list option \<Rightarrow> nat list
      \<Rightarrow> Candidate list \<times> Searcher" where
  "candidates_loop s h14 opts fixedMelds visible [] = ([], s)"
| "candidates_loop s h14 opts fixedMelds visible (i # is) =
     (if h14 ! i = 0 then candidates_loop s h14 opts fixedMelds visible is
      else let ((waits, ukeire), s1) = WaitsAndUkeire s (h14[i := h14 ! i - 1]) fixedMelds visible;
               (out, s2) = candidates_loop s1 h14 opts fixedMelds visible is
           in (if waits = [] then out
               else \<lparr>DiscardType = int i,
                     DiscardOptions = (case opts (int i) of None \<Rightarrow> [] | Some o' \<Rightarrow> o'),
                     Waits = waits, Ukeire = ukeire\<rparr> # out, s2))"

definition SeekCandidates ::
    "Searcher \<Rightarrow> Tile list \<Rightarrow> int \<Rightarrow> nat list option \<Rightarrow> (Candidate list \<times> Searcher) option" where
  "SeekCandidates s hand14 fixedMelds visible = do {
     (h14, discardOpts) \<leftarrow> Hand34FromTiles hand14;
     Some (candidates_loop s h14 discardOpts fixedMelds visible [0..<34])
   }"

section \<open>Shanten\<close>

definition ShantenKokushi :: "Hand34 \<Rightarrow> int" where
  "ShantenKokushi h = (let (unique, pair) = kokushi_scan h; sh = 13 - unique
                       in if pair then sh - 1 else sh)"

definition ShantenChiitoi :: "Hand34 \<Rightarrow> int" where
  "ShantenChiitoi h =
     (let pairs = sum_list (map (\<lambda>i. int (h ! i div 2)) [0..<34]);
          unique = int (length (filter (\<lambda>i. 0 < h ! i) [0..<34]));
          sh = 6 - pairs
      in if unique < 7 then sh + (7 - unique) else sh)"

lemma firstTile_Some: "firstTile h = Some i \<Longrightarrow> i < length h \<and> 0 < h ! i \<and> (\<forall>k < i. h ! k = 0)"
  by (auto simp: firstTile_def find_Some_iff)

lemma firstTile_None: "firstTile h = None \<longleftrightarrow> (\<forall>k < length h. h ! k = 0)"
  by (auto simp: firstTile_def find_None_iff)

lemma sum_list_update_le: "v \<le> h ! i \<Longrightarrow> sum_list (h[i := v]) \<le> sum_list (h :: nat list)"
  using sum_list_update_nat [of i h v] by (cases "i < length h") (auto simp: list_update_beyond)

lemma sum_list_update_lt: "i < length h \<Longrightarrow> v < h ! i \<Longrightarrow> sum_list (h[i := v]) < sum_list (h :: nat list)"
  using sum_list_update_nat [of i h v] by simp

lemma sum_list_update2_lt:
  "i < length h \<Longrightarrow> v < h ! i \<Longrightarrow> i \<noteq> j \<Longrightarrow> w \<le> h ! j \<Longrightarrow>
   sum_list (h[i := v, j := w]) < sum_list (h :: nat list)"
  using sum_list_update_lt [of i h v] sum_list_update_le [of w "h[i := v]" j] by simp

lemma sum_list_update3_lt:
  "i < length h \<Longrightarrow> v < h ! i \<Longrightarrow> i \<noteq> j \<Longrightarrow> i \<noteq> k \<Longrightarrow> j \<noteq> k \<Longrightarrow> w \<le> h ! j \<Longrightarrow> x \<le> h ! k \<Longrightarrow>
   sum_list (h[i := v, j := w, k := x]) < sum_list (h :: nat list)"
  using sum_list_update2_lt [of i h v j w] sum_list_update_le [of x "h[i := v, j := w]" k] by simp

function dfsNormalShanten :: "Hand34 \<Rightarrow> int \<Rightarrow> int \<Rightarrow> int \<Rightarrow> int \<Rightarrow> int" where
  "dfsNormalShanten h m p t best =
     (if 4 < m then best
      else
        let t2 = (if 4 - m < t then 4 - m else t);
            sh = 8 - 2 * m - t2 - p;
            best = (if sh < best then sh else best)
        in case firstTile h of
             None \<Rightarrow> best
           | Some i \<Rightarrow>
               if \<not> isNumberTile i then
                 let best = (if 3 \<le> h ! i then dfsNormalShanten (h[i := h ! i - 3]) (m + 1) p t best else best);
                     best = (if p = 0 \<and> 2 \<le> h ! i then dfsNormalShanten (h[i := h ! i - 2]) m 1 t best else best)
                 in dfsNormalShanten (h[i := h ! i - 1]) m p t best
               else
                 let best = (if 3 \<le> h ! i then dfsNormalShanten (h[i := h ! i - 3]) (m + 1) p t best else best);
                     best = (if i + 2 < 34 \<and> suitOf i = suitOf (i + 1) \<and> suitOf i = suitOf (i + 2)
                                \<and> 0 < h ! i \<and> 0 < h ! (i + 1) \<and> 0 < h ! (i + 2)
                             then dfsNormalShanten
                                    (h[i := h ! i - 1, i + 1 := h ! (i + 1) - 1, i + 2 := h ! (i + 2) - 1])
                                    (m + 1) p t best
                             else best);
                     best = (if p = 0 \<and> 2 \<le> h ! i then dfsNormalShanten (h[i := h ! i - 2]) m 1 t best else best);
                     best = (if i + 1 < 34 \<and> suitOf i = suitOf (i + 1) \<and> 0 < h ! i \<and> 0 < h ! (i + 1)
                             then dfsNormalShanten (h[i := h ! i - 1, i + 1 := h ! (i + 1) - 1]) m p (t + 1) best
                             else best);
                     best = (if i + 2 < 34 \<and> suitOf i = suitOf (i + 2) \<and> 0 < h ! i \<and> 0 < h ! (i + 2)
                             then dfsNormalShanten (h[i := h ! i - 1, i + 2 := h ! (i + 2) - 1]) m p (t + 1) best
                             else best)
                 in dfsNormalShanten (h[i := h ! i - 1]) m p t best)"
  by pat_completeness auto
termination
  by (relation "measure (\<lambda>(h, m, p, t, best). sum_list h)")
     (auto dest!: firstTile_Some simp: sum_list_update_lt sum_list_update2_lt sum_list_update3_lt)

declare dfsNormalShanten.simps [simp del]

definition ShantenNormal :: "Hand34 \<Rightarrow> int \<Rightarrow> int" where
  "ShantenNormal h fixedMelds = dfsNormalShanten h fixedMelds 0 0 8"

text \<open>The value \<open>ShantenAll\<close> computes on a cache miss.\<close>

definition shanten :: "Hand34 \<Rightarrow> int \<Rightarrow> int" where
  "shanten h fixedMelds =
     (let best = ShantenNormal h fixedMelds
      in if fixedMelds = 0
         then let v = ShantenChiitoi h; best = (if v < best then v else best);
                  v = ShantenKokushi h
              in if v < best then v else best
         else best)"

definition ShantenAll :: "Searcher \<Rightarrow> Hand34 \<Rightarrow> int \<Rightarrow> int \<times> Searcher" where
  "ShantenAll s h fixedMelds =
     (let key = keyWithFixedMelds h fixedMelds
      in case shantenCache s key of
           Some v \<Rightarrow> (v, s)
         | None \<Rightarrow> let best = shanten h fixedMelds
                   in (best, s\<lparr>shantenCache := (shantenCache s)(key \<mapsto> best)\<rparr>))"

end
