(* ===== verification/Deck.thy ===== *)
theory Deck
  imports Material
begin

text \<open>
  Correctness of the deck manager.  The invariant \<open>deck_inv\<close> ties the counters \<open>remain34\<close> to the
  tiles that are still face down; \<open>tile_supply\<close> is the contract the engine relies on when it takes a
  tile from the wall, from the dead wall or turns an indicator.
\<close>

section \<open>Abstraction and invariant\<close>

definition valid_type :: "Tile \<Rightarrow> bool" where
  "valid_type t \<longleftrightarrow> 0 \<le> tType t \<and> tType t < 34"

text \<open>Tiles nobody has seen yet.\<close>

definition unseen :: "DeckManager \<Rightarrow> Tile multiset" where
  "unseen dm = mset (drop (wallIndex dm) (wall dm)) + mset (drop (kanIndex (wang dm)) (KanTiles (wang dm)))
     + mset (drop (doraIndex (wang dm)) (DoraIndicators (wang dm)))
     + mset (drop (uraDoraIndex (wang dm)) (UraDoraIndicators (wang dm)))"

text \<open>Tiles that are in no hand: the rest of the wall, the rest of the replacement tiles, and all
  indicators, turned or not.\<close>

definition stock :: "DeckManager \<Rightarrow> Tile multiset" where
  "stock dm = mset (drop (wallIndex dm) (wall dm)) + mset (drop (kanIndex (wang dm)) (KanTiles (wang dm)))
     + mset (DoraIndicators (wang dm)) + mset (UraDoraIndicators (wang dm))"

definition deck_shape :: "DeckManager \<Rightarrow> bool" where
  "deck_shape dm \<longleftrightarrow> length (remain34 dm) = 34 \<and> length (KanTiles (wang dm)) = 4
     \<and> length (DoraIndicators (wang dm)) = 5 \<and> length (UraDoraIndicators (wang dm)) = 5
     \<and> wallIndex dm \<le> length (wall dm) \<and> kanIndex (wang dm) \<le> 4 \<and> doraIndex (wang dm) \<le> 5
     \<and> uraDoraIndex (wang dm) \<le> 5"

definition type_count :: "Tile multiset \<Rightarrow> nat \<Rightarrow> nat" where
  "type_count M i = size (filter_mset (\<lambda>t. tType t = int i) M)"

definition deck_inv :: "DeckManager \<Rightarrow> bool" where
  "deck_inv dm \<longleftrightarrow> deck_shape dm \<and> (\<forall>t \<in># unseen dm. valid_type t)
     \<and> (\<forall>i < 34. remain34 dm ! i = int (type_count (unseen dm) i))"

lemma type_count_add [simp]:
  "type_count (add_mset t M) i = (if tType t = int i then Suc (type_count M i) else type_count M i)"
  by (simp add: type_count_def)

lemma type_count_empty [simp]: "type_count {#} i = 0"
  by (simp add: type_count_def)

lemma type_count_union [simp]: "type_count (M + N) i = type_count M i + type_count N i"
  by (simp add: type_count_def)

section \<open>The full deck and the shuffle\<close>

lemma mset_shuffle_from: "i < length xs \<or> i = 0 \<Longrightarrow> mset (shuffle_from rnd i xs) = mset xs"
proof (induction rnd i xs rule: shuffle_from.induct)
  case (2 rnd i xs)
  then have "rnd (Suc i) mod Suc (Suc i) < length xs"
    using mod_less_divisor [of "Suc (Suc i)" "rnd (Suc i)"] by linarith
  with 2 show ?case by simp
qed simp

lemma mset_shuffle [simp]: "mset (shuffle rnd xs) = mset xs"
  unfolding shuffle_def by (rule mset_shuffle_from) (cases xs, auto)

lemma length_shuffle [simp]: "length (shuffle rnd xs) = length xs"
  by (metis mset_shuffle size_mset)

lemma upto_0_3: "[0..3] = [0, 1, 2, 3 :: int]"
  by (simp add: upto_rec1)

lemma NewTileDeck_eq: "NewTileDeck b = concat (map (\<lambda>t. map (mk_tile t) [0..3]) [0..33])"
proof -
  have "[0..33] = [0..8] @ [9..17] @ [18..26] @ [27..33 :: int]"
    by (simp add: upto_rec1)
  then show ?thesis
    by (simp add: NewTileDeck_def initializeTiles_def generateSuitTiles_def generateHonorTiles_def)
qed

lemma length_NewTileDeck [simp]: "length (NewTileDeck b) = 136"
  by (simp add: NewTileDeck_eq length_concat upto_0_3 o_def sum_list_triv)

lemma set_NewTileDeck: "set (NewTileDeck b) = {mk_tile t i | t i. t \<in> {0..33} \<and> i \<in> {0..3}}"
  by (auto simp: NewTileDeck_eq)

lemma distinct_NewTileDeck: "distinct (NewTileDeck b)"
proof -
  have "distinct (concat (map (\<lambda>t. map (mk_tile t) [0..3]) ts))" if "distinct ts" for ts
    using that by (induction ts) (auto simp: distinct_map inj_on_def)
  then show ?thesis by (simp add: NewTileDeck_eq)
qed

lemma type_count_NewTileDeck: "i < 34 \<Longrightarrow> type_count (mset (NewTileDeck b)) i = 4"
proof -
  have "type_count (mset (concat (map (\<lambda>t. map (mk_tile t) [0..3]) ts))) i = 4 * count_list ts (int i)" for ts
    by (induction ts) (auto simp: upto_0_3)
  moreover have "count_list [0..33] (int i) = 1" if "i < 34"
    using that distinct_count_atmost_1 [of "[0..33 :: int]"] by (simp flip: count_mset)
  ultimately show "i < 34 \<Longrightarrow> ?thesis" by (simp add: NewTileDeck_eq)
qed

section \<open>A new round\<close>

lemma InitRound_simps:
  fixes rnd dm
  defines "ts \<equiv> shuffle rnd (NewTileDeck (useRedFives dm))"
  shows "wall (InitRound rnd dm) = take 122 ts" "wallIndex (InitRound rnd dm) = 0"
    "KanTiles (wang (InitRound rnd dm)) = take 4 (drop 122 ts)"
    "DoraIndicators (wang (InitRound rnd dm)) = take 5 (drop 126 ts)"
    "UraDoraIndicators (wang (InitRound rnd dm)) = take 5 (drop 131 ts)"
    "kanIndex (wang (InitRound rnd dm)) = 0" "doraIndex (wang (InitRound rnd dm)) = 0"
    "uraDoraIndex (wang (InitRound rnd dm)) = 0" "remain34 (InitRound rnd dm) = replicate 34 4"
    "useRedFives (InitRound rnd dm) = useRedFives dm"
  by (simp_all add: InitRound_def Let_def ts_def)

lemma deck_parts: "length ts = 136 \<Longrightarrow>
    take 122 ts @ take 4 (drop 122 ts) @ take 5 (drop 126 ts) @ take 5 (drop 131 ts) = ts"
  using append_take_drop_id [of 5 "drop 126 ts"] append_take_drop_id [of 4 "drop 122 ts"]
    append_take_drop_id [of 122 ts]
  by simp

lemma unseen_InitRound: "unseen (InitRound rnd dm) = mset (NewTileDeck (useRedFives dm))"
proof -
  let ?ts = "shuffle rnd (NewTileDeck (useRedFives dm))"
  have "unseen (InitRound rnd dm)
      = mset (take 122 ?ts @ take 4 (drop 122 ?ts) @ take 5 (drop 126 ?ts) @ take 5 (drop 131 ?ts))"
    by (simp add: unseen_def InitRound_simps)
  also have "\<dots> = mset ?ts" by (subst deck_parts) simp_all
  finally show ?thesis by simp
qed

lemma stock_InitRound: "stock (InitRound rnd dm) = mset (NewTileDeck (useRedFives dm))"
  using unseen_InitRound [of rnd dm] by (simp add: unseen_def stock_def InitRound_simps)

lemma deck_inv_InitRound: "deck_inv (InitRound rnd dm)"
  unfolding deck_inv_def unseen_InitRound
  by (auto simp: deck_shape_def InitRound_simps type_count_NewTileDeck set_NewTileDeck valid_type_def)

section \<open>Handing out tiles\<close>

text \<open>
  The contract of an operation that takes a tile out of a pool: it does not panic on a well-formed
  state, keeps the state well-formed, removes exactly the returned tile from the pool, and changes
  nothing when there is no tile left.
\<close>

locale tile_supply =
  fixes take_tile :: "'d \<Rightarrow> ('t option \<times> 'd) option"
    and inv :: "'d \<Rightarrow> bool"
    and pool :: "'d \<Rightarrow> 't multiset"
  assumes take_wp: "inv d \<Longrightarrow> wp (take_tile d) (\<lambda>(r, d'). inv d' \<and>
    (case r of None \<Rightarrow> d' = d | Some t \<Rightarrow> pool d = add_mset t (pool d')))"
begin

lemma take_inv: "inv d \<Longrightarrow> take_tile d = Some (r, d') \<Longrightarrow> inv d'"
  using take_wp [of d] by simp

lemma take_pool: "inv d \<Longrightarrow> take_tile d = Some (Some t, d') \<Longrightarrow> pool d = add_mset t (pool d')"
  using take_wp [of d] by simp

lemma take_none: "inv d \<Longrightarrow> take_tile d = Some (None, d') \<Longrightarrow> d' = d"
  using take_wp [of d] by simp

lemma take_from_pool: "inv d \<Longrightarrow> take_tile d = Some (Some t, d') \<Longrightarrow> t \<in># pool d"
  by (simp add: take_pool)

end

text \<open>A loop that takes up to \<open>n\<close> tiles and stops early when the pool is exhausted.\<close>

fun take_upto :: "('d \<Rightarrow> ('t option \<times> 'd) option) \<Rightarrow> nat \<Rightarrow> 'd \<Rightarrow> ('t list \<times> 'd) option" where
  "take_upto f 0 d = Some ([], d)"
| "take_upto f (Suc n) d = do {
     (r, d1) \<leftarrow> f d;
     (case r of None \<Rightarrow> Some ([], d1)
      | Some t \<Rightarrow> do { (ts, d2) \<leftarrow> take_upto f n d1; Some (t # ts, d2) })
   }"

context tile_supply
begin

lemma take_upto_wp:
  "inv d \<Longrightarrow> wp (take_upto take_tile n d)
     (\<lambda>(ts, d'). inv d' \<and> length ts \<le> n \<and> pool d = mset ts + pool d')"
proof (induction n arbitrary: d)
  case (Suc n)
  obtain r d1 where t: "take_tile d = Some (r, d1)" and i: "inv d1"
    and p: "case r of None \<Rightarrow> d1 = d | Some t \<Rightarrow> pool d = add_mset t (pool d1)"
    using take_wp [OF Suc.prems] by (auto simp: wp_iff)
  show ?case
  proof (cases r)
    case None
    with t i p show ?thesis by simp
  next
    case (Some x)
    with t p show ?thesis using Suc.IH [OF i] by (auto simp: wp_iff)
  qed
qed simp

end

section \<open>Every supplying operation meets the contract\<close>

lemma remain34_update_frame [simp]:
  "unseen (dm\<lparr>remain34 := r\<rparr>) = unseen dm" "stock (dm\<lparr>remain34 := r\<rparr>) = stock dm"
  by (simp_all add: unseen_def stock_def)

lemma deck_shape_remain34: "deck_shape dm \<Longrightarrow> length r = 34 \<Longrightarrow> deck_shape (dm\<lparr>remain34 := r\<rparr>)"
  by (simp add: deck_shape_def)

lemma dec34_eq:
  "valid_type t \<Longrightarrow> length (remain34 dm) = 34 \<Longrightarrow>
   dec34 dm t = Some (dm\<lparr>remain34 := (remain34 dm)[nat (tType t) := remain34 dm ! nat (tType t) - 1]\<rparr>)"
  by (simp add: dec34_def valid_type_def idx_in_range upd_in_range)

lemma dec34_inv:
  assumes "deck_inv dm" "deck_shape dm1" "remain34 dm1 = remain34 dm" "unseen dm = add_mset t (unseen dm1)"
  shows "\<exists>dm'. dec34 dm1 t = Some dm' \<and> deck_inv dm' \<and> unseen dm' = unseen dm1 \<and> stock dm' = stock dm1"
proof -
  from assms have t: "valid_type t" and len: "length (remain34 dm1) = 34"
    by (auto simp: deck_inv_def deck_shape_def)
  let ?dm = "dm1\<lparr>remain34 := (remain34 dm1)[nat (tType t) := remain34 dm1 ! nat (tType t) - 1]\<rparr>"
  have "deck_shape ?dm" using assms(2) len by (intro deck_shape_remain34) simp_all
  moreover have "remain34 ?dm ! i = int (type_count (unseen dm1) i)" if "i < 34" for i
    using that assms t len by (auto simp: deck_inv_def nth_list_update valid_type_def)
  ultimately have "deck_inv ?dm" using assms by (simp add: deck_inv_def)
  then show ?thesis using t len by (simp add: dec34_eq)
qed

lemma Draw_inv:
  assumes "deck_inv dm"
  obtains (empty) "Draw dm = Some (None, dm)" "wallIndex dm = length (wall dm)"
    | (tile) t dm' where "Draw dm = Some (Some t, dm')" "deck_inv dm'" "unseen dm = add_mset t (unseen dm')"
        "stock dm = add_mset t (stock dm')"
proof (cases "wallIndex dm < length (wall dm)")
  case False
  with assms show ?thesis by (intro empty) (auto simp: Draw_def deck_inv_def deck_shape_def)
next
  case True
  let ?dm1 = "dm\<lparr>wallIndex := Suc (wallIndex dm)\<rparr>" and ?t = "wall dm ! wallIndex dm"
  have u: "unseen dm = add_mset ?t (unseen ?dm1)" "stock dm = add_mset ?t (stock ?dm1)"
    using True by (simp_all add: unseen_def stock_def mset_drop_nth)
  moreover have "deck_shape ?dm1" using assms True by (simp add: deck_inv_def deck_shape_def)
  ultimately obtain dm' where "dec34 ?dm1 ?t = Some dm'" "deck_inv dm'" "unseen dm' = unseen ?dm1"
      "stock dm' = stock ?dm1"
    using dec34_inv [OF assms, of ?dm1 ?t] by auto
  with True u show ?thesis by (intro tile [of ?t dm']) (simp_all add: Draw_def)
qed

lemma DrawKanTile_inv:
  assumes "deck_inv dm"
  obtains (empty) "DrawKanTile dm = Some (None, dm)" "kanIndex (wang dm) = 4"
    | (tile) t dm' where "DrawKanTile dm = Some (Some t, dm')" "deck_inv dm'" "kanIndex (wang dm) < 4"
        "unseen dm = add_mset t (unseen dm')" "stock dm = add_mset t (stock dm')"
proof (cases "kanIndex (wang dm) < 4")
  case False
  with assms show ?thesis by (intro empty) (auto simp: DrawKanTile_def deck_inv_def deck_shape_def)
next
  case True
  let ?dm1 = "dm\<lparr>wang := (wang dm)\<lparr>kanIndex := Suc (kanIndex (wang dm))\<rparr>\<rparr>"
    and ?t = "KanTiles (wang dm) ! kanIndex (wang dm)"
  have len: "length (KanTiles (wang dm)) = 4" using assms by (simp add: deck_inv_def deck_shape_def)
  have u: "unseen dm = add_mset ?t (unseen ?dm1)" "stock dm = add_mset ?t (stock ?dm1)"
    using True len by (simp_all add: unseen_def stock_def mset_drop_nth)
  moreover have "deck_shape ?dm1" using assms True by (simp add: deck_inv_def deck_shape_def)
  ultimately obtain dm' where "dec34 ?dm1 ?t = Some dm'" "deck_inv dm'" "unseen dm' = unseen ?dm1"
      "stock dm' = stock ?dm1"
    using dec34_inv [OF assms, of ?dm1 ?t] by auto
  with True u len show ?thesis by (intro tile [of ?t dm']) (simp_all add: DrawKanTile_def)
qed

lemma RevealDoraIndicator_inv:
  assumes "deck_inv dm"
  obtains (empty) "RevealDoraIndicator dm = Some (None, dm)"
    | (tile) t dm' where "RevealDoraIndicator dm = Some (Some t, dm')" "deck_inv dm'"
        "unseen dm = add_mset t (unseen dm')" "stock dm' = stock dm"
proof (cases "doraIndex (wang dm) < 5")
  case False
  then show ?thesis by (intro empty) (simp add: RevealDoraIndicator_def)
next
  case True
  let ?dm1 = "dm\<lparr>wang := (wang dm)\<lparr>doraIndex := Suc (doraIndex (wang dm))\<rparr>\<rparr>"
    and ?t = "DoraIndicators (wang dm) ! doraIndex (wang dm)"
  have len: "length (DoraIndicators (wang dm)) = 5" using assms by (simp add: deck_inv_def deck_shape_def)
  have u: "unseen dm = add_mset ?t (unseen ?dm1)" "stock dm = stock ?dm1"
    using True len by (simp_all add: unseen_def stock_def mset_drop_nth)
  moreover have "deck_shape ?dm1" using assms True by (simp add: deck_inv_def deck_shape_def)
  ultimately obtain dm' where "dec34 ?dm1 ?t = Some dm'" "deck_inv dm'" "unseen dm' = unseen ?dm1"
      "stock dm' = stock ?dm1"
    using dec34_inv [OF assms, of ?dm1 ?t] by auto
  with True u len show ?thesis by (intro tile [of ?t dm']) (simp_all add: RevealDoraIndicator_def)
qed

lemma RevealUraDoraIndicator_inv:
  assumes "deck_inv dm"
  obtains (empty) "RevealUraDoraIndicator dm = Some (None, dm)"
    | (tile) t dm' where "RevealUraDoraIndicator dm = Some (Some t, dm')" "deck_inv dm'"
        "unseen dm = add_mset t (unseen dm')" "stock dm' = stock dm"
proof (cases "uraDoraIndex (wang dm) < 5")
  case False
  then show ?thesis by (intro empty) (simp add: RevealUraDoraIndicator_def)
next
  case True
  let ?dm1 = "dm\<lparr>wang := (wang dm)\<lparr>uraDoraIndex := Suc (uraDoraIndex (wang dm))\<rparr>\<rparr>"
    and ?t = "UraDoraIndicators (wang dm) ! uraDoraIndex (wang dm)"
  have len: "length (UraDoraIndicators (wang dm)) = 5" using assms by (simp add: deck_inv_def deck_shape_def)
  have u: "unseen dm = add_mset ?t (unseen ?dm1)" "stock dm = stock ?dm1"
    using True len by (simp_all add: unseen_def stock_def mset_drop_nth)
  moreover have "deck_shape ?dm1" using assms True by (simp add: deck_inv_def deck_shape_def)
  ultimately obtain dm' where "dec34 ?dm1 ?t = Some dm'" "deck_inv dm'" "unseen dm' = unseen ?dm1"
      "stock dm' = stock ?dm1"
    using dec34_inv [OF assms, of ?dm1 ?t] by auto
  with True u len show ?thesis by (intro tile [of ?t dm']) (simp_all add: RevealUraDoraIndicator_def)
qed

interpretation wall_unseen: tile_supply Draw deck_inv unseen
  by unfold_locales (rule Draw_inv, assumption, simp_all)

interpretation wall_stock: tile_supply Draw deck_inv stock
  by unfold_locales (rule Draw_inv, assumption, simp_all)

interpretation kan_unseen: tile_supply DrawKanTile deck_inv unseen
  by unfold_locales (rule DrawKanTile_inv, assumption, simp_all)

interpretation kan_stock: tile_supply DrawKanTile deck_inv stock
  by unfold_locales (rule DrawKanTile_inv, assumption, simp_all)

interpretation dora: tile_supply RevealDoraIndicator deck_inv unseen
  by unfold_locales (rule RevealDoraIndicator_inv, assumption, simp_all)

interpretation ura: tile_supply RevealUraDoraIndicator deck_inv unseen
  by unfold_locales (rule RevealUraDoraIndicator_inv, assumption, simp_all)

section \<open>The life of a deck\<close>

inductive deck_reach :: "DeckManager \<Rightarrow> bool" where
  init: "deck_reach (InitRound rnd dm)"
| draw: "deck_reach dm \<Longrightarrow> Draw dm = Some (r, dm') \<Longrightarrow> deck_reach dm'"
| kan: "deck_reach dm \<Longrightarrow> DrawKanTile dm = Some (r, dm') \<Longrightarrow> deck_reach dm'"
| dora: "deck_reach dm \<Longrightarrow> RevealDoraIndicator dm = Some (r, dm') \<Longrightarrow> deck_reach dm'"
| ura: "deck_reach dm \<Longrightarrow> RevealUraDoraIndicator dm = Some (r, dm') \<Longrightarrow> deck_reach dm'"

lemma deck_reach_inv: "deck_reach dm \<Longrightarrow> deck_inv dm \<and> (\<exists>b. unseen dm \<subseteq># mset (NewTileDeck b))"
proof (induction rule: deck_reach.induct)
  case (init rnd dm)
  then show ?case by (auto simp: deck_inv_InitRound unseen_InitRound)
next
  case (draw dm r dm')
  then show ?case using wall_unseen.take_wp [of dm]
    by (auto split: option.splits dest: mset_subset_eq_insertD intro: subset_mset.less_imp_le)
next
  case (kan dm r dm')
  then show ?case using kan_unseen.take_wp [of dm]
    by (auto split: option.splits dest: mset_subset_eq_insertD intro: subset_mset.less_imp_le)
next
  case (dora dm r dm')
  then show ?case using dora.take_wp [of dm]
    by (auto split: option.splits dest: mset_subset_eq_insertD intro: subset_mset.less_imp_le)
next
  case (ura dm r dm')
  then show ?case using ura.take_wp [of dm]
    by (auto split: option.splits dest: mset_subset_eq_insertD intro: subset_mset.less_imp_le)
qed

lemma type_count_mono: "M \<subseteq># N \<Longrightarrow> type_count M i \<le> type_count N i"
  by (simp add: type_count_def multiset_filter_mono size_mset_mono)

lemma deck_reach_count_le: "deck_reach dm \<Longrightarrow> i < 34 \<Longrightarrow> type_count (unseen dm) i \<le> 4"
  using deck_reach_inv type_count_mono type_count_NewTileDeck by metis

section \<open>Properties\<close>

text \<open>After \<open>InitRound\<close> the wall holds 122 tiles and the dead wall 4 replacement tiles and twice
  5 indicators; together they are a permutation of the 136 tiles of the deck, whatever the shuffle
  draws; every counter of \<open>remain34\<close> stands at 4 and nothing is drawn or turned.\<close>

lemma InitRound_partition:
  "let d = InitRound rnd dm in
     mset (wall d @ KanTiles (wang d) @ DoraIndicators (wang d) @ UraDoraIndicators (wang d))
       = mset (NewTileDeck (useRedFives dm))
     \<and> length (wall d) = 122 \<and> length (KanTiles (wang d)) = 4 \<and> length (DoraIndicators (wang d)) = 5
     \<and> length (UraDoraIndicators (wang d)) = 5 \<and> distinct (wall d) \<and> wallIndex d = 0
     \<and> kanIndex (wang d) = 0 \<and> doraIndex (wang d) = 0 \<and> uraDoraIndex (wang d) = 0
     \<and> remain34 d = replicate 34 4"
proof -
  have "distinct (shuffle rnd (NewTileDeck (useRedFives dm)))"
    by (metis distinct_NewTileDeck mset_eq_imp_distinct_iff mset_shuffle)
  then show ?thesis
    using stock_InitRound [of rnd dm] by (simp add: Let_def InitRound_simps stock_def add.assoc)
qed

text \<open>C14: along every sequence of draws, replacement draws and indicator reveals from a dealt
  round, \<open>Visible34\<close> reports for each tile type exactly four minus the number of face-down tiles of
  that type; the clamping to 0..4 in the code never changes a value.\<close>

theorem Visible34_exact:
  assumes "deck_reach dm" "i < 34"
  shows "Visible34 dm ! i = 4 - int (type_count (unseen dm) i)"
proof -
  from assms have "remain34 dm ! i = int (type_count (unseen dm) i)" "type_count (unseen dm) i \<le> 4"
    using deck_reach_inv deck_reach_count_le by (auto simp: deck_inv_def)
  with assms(2) show ?thesis by (simp add: Visible34_def)
qed

text \<open>C14 on a freshly shuffled deck.\<close>

theorem Visible34_exact_witness:
  "Visible34 (InitRound id (NewDeckManager True)) ! 3
     = 4 - int (type_count (unseen (InitRound id (NewDeckManager True))) 3)"
  by (rule Visible34_exact [OF deck_reach.init]) simp

end
