(* ===== verification/Agari.thy ===== *)
theory Agari
  imports Searcher Deck
begin

text \<open>
  The searcher against a declarative specification of a winning hand: a hand wins in the normal form
  when its tiles are one pair and the missing number of triplets and runs.  The recursive search is
  proved sound and complete, and the caches are proved transparent through the locale \<open>memo\<close>.
\<close>

section \<open>Specification\<close>

datatype block = Triplet nat | Run nat

fun block_ok :: "block \<Rightarrow> bool" where
  "block_ok (Triplet i) \<longleftrightarrow> i < 34"
| "block_ok (Run i) \<longleftrightarrow> i < 27 \<and> i mod 9 \<le> 6"

fun block_tiles :: "block \<Rightarrow> nat multiset" where
  "block_tiles (Triplet i) = {#i, i, i#}"
| "block_tiles (Run i) = {#i, i + 1, i + 2#}"

definition blocks_tiles :: "block list \<Rightarrow> nat multiset" where
  "blocks_tiles bs = sum_list (map block_tiles bs)"

definition hand_tiles :: "Hand34 \<Rightarrow> nat multiset" where
  "hand_tiles h = (\<Sum>k < length h. replicate_mset (h ! k) k)"

text \<open>\<open>n\<close> blocks make up exactly the tiles of the hand.\<close>

definition decomposes :: "Hand34 \<Rightarrow> nat \<Rightarrow> bool" where
  "decomposes h n \<longleftrightarrow> (\<exists>bs. length bs = n \<and> list_all block_ok bs \<and> hand_tiles h = blocks_tiles bs)"

definition wins_normal :: "Hand34 \<Rightarrow> nat \<Rightarrow> bool" where
  "wins_normal h n \<longleftrightarrow> (\<exists>j bs. j < 34 \<and> length bs = n \<and> list_all block_ok bs
     \<and> hand_tiles h = {#j, j#} + blocks_tiles bs)"

lemma blocks_tiles_simps [simp]:
  "blocks_tiles [] = {#}" "blocks_tiles (b # bs) = block_tiles b + blocks_tiles bs"
  by (simp_all add: blocks_tiles_def)

lemma blocks_tiles_remove1: "b \<in> set bs \<Longrightarrow> blocks_tiles bs = block_tiles b + blocks_tiles (remove1 b bs)"
  by (induction bs) auto

lemma in_blocks_tiles: "x \<in># blocks_tiles bs \<longleftrightarrow> (\<exists>b \<in> set bs. x \<in># block_tiles b)"
  by (induction bs) auto

lemma count_hand_tiles: "count (hand_tiles h) k = (if k < length h then h ! k else 0)"
  by (auto simp: hand_tiles_def count_sum)

lemma in_hand_tiles: "k \<in># hand_tiles h \<longleftrightarrow> k < length h \<and> 0 < h ! k"
  by (simp add: count_hand_tiles flip: count_greater_zero_iff)

lemma hand_tiles_empty: "hand_tiles h = {#} \<longleftrightarrow> (\<forall>k < length h. h ! k = 0)"
  by (auto simp: multiset_eq_iff count_hand_tiles)

lemma hand_tiles_add: "i < length h \<Longrightarrow> hand_tiles (h[i := h ! i + n]) = hand_tiles h + replicate_mset n i"
  by (rule multiset_eqI) (auto simp: count_hand_tiles nth_list_update)

lemma hand_tiles_sub:
  "i < length h \<Longrightarrow> n \<le> h ! i \<Longrightarrow> hand_tiles h = hand_tiles (h[i := h ! i - n]) + replicate_mset n i"
  by (rule multiset_eqI) (auto simp: count_hand_tiles nth_list_update)

lemma hand_tiles_triplet:
  "i < length h \<Longrightarrow> 3 \<le> h ! i \<Longrightarrow> hand_tiles h = block_tiles (Triplet i) + hand_tiles (h[i := h ! i - 3])"
  by (rule multiset_eqI) (auto simp: count_hand_tiles nth_list_update)

lemma hand_tiles_pair:
  "i < length h \<Longrightarrow> 2 \<le> h ! i \<Longrightarrow> hand_tiles h = {#i, i#} + hand_tiles (h[i := h ! i - 2])"
  by (rule multiset_eqI) (auto simp: count_hand_tiles nth_list_update)

lemma hand_tiles_run:
  assumes "i + 2 < length h" "0 < h ! i" "0 < h ! (i + 1)" "0 < h ! (i + 2)"
  shows "hand_tiles h = block_tiles (Run i)
     + hand_tiles (h[i := h ! i - 1, i + 1 := h ! (i + 1) - 1, i + 2 := h ! (i + 2) - 1])"
  using assms by (intro multiset_eqI) (auto simp: count_hand_tiles nth_list_update)

lemma run_guard:
  "(isNumberTile i \<and> i + 2 < 34 \<and> suitOf i = suitOf (i + 1) \<and> suitOf i = suitOf (i + 2)) \<longleftrightarrow> block_ok (Run i)"
proof (cases "i < 27")
  case True
  then have "i \<in> set [0..<27]" by simp
  then show ?thesis
    by (simp add: upt_rec isNumberTile_def suitOf_def) (elim disjE; simp)
qed (auto simp: isNumberTile_def)

section \<open>The search is sound and complete\<close>

lemma restore_triplet: "3 \<le> h ! i \<Longrightarrow> h[i := h ! i - 3, i := h[i := h ! i - 3] ! i + 3] = (h :: nat list)"
  by (cases "i < length h") (simp_all add: list_update_beyond)

lemma restore_run:
  fixes h :: "nat list"
  assumes "0 < h ! i" "0 < h ! (i + 1)" "0 < h ! (i + 2)" "i + 2 < length h"
    and "r = h[i := h ! i - 1, i + 1 := h ! (i + 1) - 1, i + 2 := h ! (i + 2) - 1]"
  shows "r[i := r ! i + 1, i + 1 := r ! (i + 1) + 1, i + 2 := r ! (i + 2) + 1] = h"
  using assms by (intro nth_equalityI) (auto simp: nth_list_update)

lemma canFormMelds_restores: "length h = 34 \<Longrightarrow> snd (canFormMelds h n) = h"
proof (induction n arbitrary: h)
  case (Suc n)
  show ?case
  proof (cases "firstTile h")
    case None
    then show ?thesis by simp
  next
    case (Some i)
    let ?t = "h[i := h ! i - 3]"
      and ?r = "h[i := h ! i - 1, i + 1 := h ! (i + 1) - 1, i + 2 := h ! (i + 2) - 1]"
    have t: "snd (canFormMelds ?t n) = ?t" and r: "snd (canFormMelds ?r n) = ?r"
      using Suc by simp_all
    show ?thesis unfolding canFormMelds.simps Some option.case case_prod_beta Let_def
      using Suc.prems by (simp only: t r restore_triplet restore_run [OF _ _ _ _ refl] fst_conv snd_conv if_True if_False
         simp_thms if_cancel cong: if_cong split: if_split)
  qed
qed simp

lemma canFormMelds_Suc:
  assumes "length h = 34"
  shows "fst (canFormMelds h (Suc n)) \<longleftrightarrow>
    (\<exists>i. firstTile h = Some i \<and>
      (3 \<le> h ! i \<and> fst (canFormMelds (h[i := h ! i - 3]) n) \<or>
       block_ok (Run i) \<and> 0 < h ! (i + 1) \<and> 0 < h ! (i + 2) \<and>
       fst (canFormMelds (h[i := h ! i - 1, i + 1 := h ! (i + 1) - 1, i + 2 := h ! (i + 2) - 1]) n)))"
proof (cases "firstTile h")
  case (Some i)
  then have "0 < h ! i" "i < 34" using firstTile_Some [of h i] assms by simp_all
  moreover have "snd (canFormMelds (h[i := h ! i - 3]) n) = h[i := h ! i - 3]"
    using assms by (intro canFormMelds_restores) simp
  moreover note run_guard [of i]
  ultimately show ?thesis using Some assms
    by (simp add: Let_def split: prod.splits del: block_ok.simps) auto
qed simp

text \<open>The least tile of a decomposed hand starts a run or is a triplet.\<close>

lemma first_block:
  assumes "hand_tiles h = M + blocks_tiles bs" "firstTile h = Some i" "i \<in># blocks_tiles bs"
  obtains "Triplet i \<in> set bs" | "Run i \<in> set bs"
proof -
  obtain b where b: "b \<in> set bs" "i \<in># block_tiles b" using assms(3) in_blocks_tiles by blast
  have least: "i \<le> x" if "x \<in># block_tiles b" for x
  proof -
    have "x \<in># hand_tiles h" using that b assms(1) by (auto simp: in_blocks_tiles)
    then show ?thesis using firstTile_Some [OF assms(2)] by (auto simp: in_hand_tiles not_less [symmetric])
  qed
  show ?thesis
  proof (cases b)
    case (Triplet j)
    with b that show ?thesis by auto
  next
    case (Run j)
    with b least [of j] that show ?thesis by auto
  qed
qed

lemma triplet_count: "Triplet i \<in> set bs \<Longrightarrow> 3 \<le> count (blocks_tiles bs) i"
  by (simp add: blocks_tiles_remove1)

lemma decomposes_0: "decomposes h 0 \<longleftrightarrow> (\<forall>k < length h. h ! k = 0)"
  by (simp add: decomposes_def hand_tiles_empty)

lemma decomposes_Suc:
  assumes len: "length h = 34"
  shows "decomposes h (Suc n) \<longleftrightarrow>
    (\<exists>i. firstTile h = Some i \<and>
      (3 \<le> h ! i \<and> decomposes (h[i := h ! i - 3]) n \<or>
       block_ok (Run i) \<and> 0 < h ! (i + 1) \<and> 0 < h ! (i + 2) \<and>
       decomposes (h[i := h ! i - 1, i + 1 := h ! (i + 1) - 1, i + 2 := h ! (i + 2) - 1]) n))"
    (is "?L \<longleftrightarrow> ?R")
proof
  assume ?L
  then obtain bs where bs: "length bs = Suc n" "list_all block_ok bs" "hand_tiles h = blocks_tiles bs"
    by (auto simp: decomposes_def)
  then obtain b where "b \<in> set bs" by (cases bs) auto
  moreover have "block_tiles b \<noteq> {#}" by (cases b) simp_all
  ultimately have "blocks_tiles bs \<noteq> {#}" by (simp add: blocks_tiles_remove1)
  then obtain i where i: "firstTile h = Some i"
    using bs(3) by (cases "firstTile h") (auto simp: firstTile_None hand_tiles_empty [symmetric])
  have i': "i < 34" "0 < h ! i" using firstTile_Some [OF i] len by auto
  then have "i \<in># blocks_tiles bs" using bs(3) len by (simp add: in_hand_tiles flip: bs(3))
  then consider (T) "Triplet i \<in> set bs" | (R) "Run i \<in> set bs"
    using first_block [of h "{#}" bs i] bs i by auto
  then show ?R
  proof cases
    case T
    then have "3 \<le> count (hand_tiles h) i" unfolding bs(3) by (rule triplet_count)
    then have "3 \<le> h ! i" using len i'(1) by (simp only: count_hand_tiles if_True)
    moreover have "hand_tiles (h[i := h ! i - 3]) = blocks_tiles (remove1 (Triplet i) bs)"
      using hand_tiles_triplet [of i h] blocks_tiles_remove1 [OF T] bs(3) len i' calculation by simp
    then have "decomposes (h[i := h ! i - 3]) n"
      using bs T by (auto simp: decomposes_def length_remove1 list_all_iff dest: notin_set_remove1
          intro!: exI [of _ "remove1 (Triplet i) bs"])
    ultimately show ?thesis using i by blast
  next
    case R
    then have ok: "block_ok (Run i)" using bs(2) by (auto simp: list_all_iff)
    have "i + 1 \<in># hand_tiles h" "i + 2 \<in># hand_tiles h"
      unfolding bs(3) blocks_tiles_remove1 [OF R] by simp_all
    then have pos: "0 < h ! (i + 1)" "0 < h ! (i + 2)" "i + 2 < 34" using len by (simp_all add: in_hand_tiles)
    let ?r = "h[i := h ! i - 1, i + 1 := h ! (i + 1) - 1, i + 2 := h ! (i + 2) - 1]"
    have "hand_tiles ?r = blocks_tiles (remove1 (Run i) bs)"
      using hand_tiles_run [of i h] blocks_tiles_remove1 [OF R] bs(3) len i' pos by simp
    then have "decomposes ?r n"
      using bs R by (auto simp: decomposes_def length_remove1 list_all_iff dest: notin_set_remove1
          intro!: exI [of _ "remove1 (Run i) bs"])
    then show ?thesis using i ok pos by blast
  qed
next
  assume ?R
  then obtain i where i: "firstTile h = Some i"
    and d: "3 \<le> h ! i \<and> decomposes (h[i := h ! i - 3]) n \<or>
       block_ok (Run i) \<and> 0 < h ! (i + 1) \<and> 0 < h ! (i + 2) \<and>
       decomposes (h[i := h ! i - 1, i + 1 := h ! (i + 1) - 1, i + 2 := h ! (i + 2) - 1]) n"
    by blast
  have i': "i < 34" "0 < h ! i" using firstTile_Some [OF i] len by auto
  from d show ?L
  proof (elim disjE conjE)
    assume "3 \<le> h ! i" "decomposes (h[i := h ! i - 3]) n"
    then obtain bs where "length bs = n" "list_all block_ok bs" "hand_tiles (h[i := h ! i - 3]) = blocks_tiles bs"
      by (auto simp: decomposes_def)
    then show ?L using hand_tiles_triplet [of i h] \<open>3 \<le> h ! i\<close> i' len
      by (auto simp: decomposes_def intro!: exI [of _ "Triplet i # bs"])
  next
    let ?r = "h[i := h ! i - 1, i + 1 := h ! (i + 1) - 1, i + 2 := h ! (i + 2) - 1]"
    assume r: "block_ok (Run i)" "0 < h ! (i + 1)" "0 < h ! (i + 2)" "decomposes ?r n"
    then obtain bs where "length bs = n" "list_all block_ok bs" "hand_tiles ?r = blocks_tiles bs"
      by (auto simp: decomposes_def)
    then show ?L using hand_tiles_run [of i h] r i' len
      by (auto simp: decomposes_def simp del: block_tiles.simps intro!: exI [of _ "Run i # bs"])
  qed
qed

lemma canFormMelds_decomposes: "length h = 34 \<Longrightarrow> fst (canFormMelds h n) \<longleftrightarrow> decomposes h n"
proof (induction n arbitrary: h)
  case 0
  then show ?case by (auto simp: decomposes_0)
next
  case (Suc n)
  then show ?case by (simp add: canFormMelds_Suc decomposes_Suc del: canFormMelds.simps)
qed

lemma IsAgariNormal_wins:
  assumes "length h = 34" "fixedMelds \<le> 4"
  shows "IsAgariNormal h fixedMelds \<longleftrightarrow> wins_normal h (nat (4 - fixedMelds))" (is "?L \<longleftrightarrow> ?R")
proof
  assume ?L
  then obtain j where j: "j < 34" "2 \<le> h ! j" "decomposes (h[j := h ! j - 2]) (nat (4 - fixedMelds))"
    using assms by (auto simp: IsAgariNormal_def Let_def list_ex_iff canFormMelds_decomposes)
  then obtain bs where "length bs = nat (4 - fixedMelds)" "list_all block_ok bs"
      "hand_tiles (h[j := h ! j - 2]) = blocks_tiles bs"
    by (auto simp: decomposes_def)
  then show ?R using hand_tiles_pair [of j h] j assms by (auto simp: wins_normal_def)
next
  assume ?R
  then obtain j bs where j: "j < 34" "length bs = nat (4 - fixedMelds)" "list_all block_ok bs"
      "hand_tiles h = {#j, j#} + blocks_tiles bs"
    by (auto simp: wins_normal_def)
  have "2 \<le> count (hand_tiles h) j" unfolding j(4) by simp
  then have 2: "2 \<le> h ! j" using j(1) assms(1) by (simp only: count_hand_tiles if_True)
  then have "decomposes (h[j := h ! j - 2]) (nat (4 - fixedMelds))"
    using hand_tiles_pair [of j h] j assms by (auto simp: decomposes_def)
  then show ?L using j 2 assms
    by (auto simp: IsAgariNormal_def Let_def list_ex_iff canFormMelds_decomposes not_less intro!: bexI [of _ j])
qed

text \<open>C4: The meld search is sound, complete and leaves the hand as it found it.  On any 34-counter hand,
  \<open>canFormMelds\<close> answers whether the tiles can be split into exactly the wanted number of triplets and
  runs with none left over, and every decrement it makes is undone on every path.\<close>

theorem canFormMelds_spec:
  assumes "length h = 34"
  shows "canFormMelds h n = (decomposes h n, h)"
  using canFormMelds_decomposes [OF assms] canFormMelds_restores [OF assms] by (simp add: prod_eq_iff)

text \<open>C4 on 1-2-3 of characters with a triplet of east winds.\<close>

theorem canFormMelds_spec_witness:
  "canFormMelds ([1, 1, 1] @ replicate 24 0 @ [3] @ replicate 6 0) 2
     = (True, [1, 1, 1] @ replicate 24 0 @ [3] @ replicate 6 0)
   \<and> decomposes ([1, 1, 1] @ replicate 24 0 @ [3] @ replicate 6 0) 2"
proof -
  let ?h = "[1, 1, 1] @ replicate 24 0 @ [3] @ replicate 6 (0::nat)"
  have "length ?h = 34" by simp
  note s = canFormMelds_spec [OF this, of 2]
  have "fst (canFormMelds ?h 2)" by code_simp
  then show ?thesis using s by (metis fst_conv)
qed

text \<open>\<open>IsAgariNormal\<close> accepts exactly the standard winning hands: with \<open>f\<close> melds already called, the
  concealed tiles are a pair and \<open>4 - f\<close> triplets or runs, nothing else.  More than four called melds
  are never accepted.\<close>

lemma IsAgariNormal_spec:
  assumes "length h = 34"
  shows "IsAgariNormal h fixedMelds \<longleftrightarrow> fixedMelds \<le> 4 \<and> wins_normal h (nat (4 - fixedMelds))"
proof (cases "fixedMelds \<le> 4")
  case True
  then show ?thesis using IsAgariNormal_wins [OF assms True] by simp
qed (simp add: IsAgariNormal_def)

section \<open>Seven pairs and thirteen orphans\<close>

lemma sum_halves:
  fixes h :: "nat list"
  shows "2 * sum_list (map (\<lambda>x. x div 2) h) + length (filter odd h) = sum_list h"
  by (induction h) (auto elim!: evenE oddE)

lemma map_nth_34: "length h = 34 \<Longrightarrow> map (\<lambda>i. g (h ! i)) [0..<34] = map g h"
  by (rule nth_equalityI) auto

lemma kokushi_scan_eq:
  "fold (\<lambda>i (unique, pair). if 0 < h ! i then (unique + 1, if 2 \<le> h ! i then True else pair) else (unique, pair)) xs (u, b)
   = (u + int (length (filter (\<lambda>i. 0 < h ! i) xs)), b \<or> (\<exists>i \<in> set xs. 2 \<le> (h ! i :: nat)))"
  by (induction xs arbitrary: u b) auto

text \<open>The two special hands.  On 14 tiles, \<open>IsAgariChiitoi\<close> holds exactly when every tile type occurs an
  even number of times, so four of a kind pass as two pairs, where the rules ask for seven different
  pairs.  \<open>IsAgariKokushi\<close> holds exactly when each of the thirteen terminals and honours is there and
  one of them twice.\<close>

lemma special_hands_spec:
  assumes "length h = 34" "sum_list h = 14"
  shows "(IsAgariChiitoi h \<longleftrightarrow> (\<forall>n \<in> set h. even n)) \<and>
    (IsAgariKokushi h \<longleftrightarrow> (\<forall>i \<in> set kokushiTiles. 0 < h ! i) \<and> (\<exists>i \<in> set kokushiTiles. 2 \<le> h ! i))"
proof
  have "IsAgariChiitoi h \<longleftrightarrow> 14 \<le> 2 * sum_list (map (\<lambda>x. x div 2) h)"
    using map_nth_34 [OF assms(1), of "\<lambda>x. x div 2"] by (auto simp: IsAgariChiitoi_def)
  also have "\<dots> \<longleftrightarrow> length (filter odd h) = 0" using sum_halves [of h] assms(2) by linarith
  finally show "IsAgariChiitoi h \<longleftrightarrow> (\<forall>n \<in> set h. even n)" by (simp add: filter_empty_conv)
  have 13: "length kokushiTiles = 13" by (simp add: kokushiTiles_def)
  have "length (filter (\<lambda>i. 0 < h ! i) kokushiTiles) = 13 \<longleftrightarrow> (\<forall>i \<in> set kokushiTiles. 0 < h ! i)"
    unfolding 13 [symmetric] by (metis filter_True length_filter_less less_irrefl)
  then show "IsAgariKokushi h \<longleftrightarrow> (\<forall>i \<in> set kokushiTiles. 0 < h ! i) \<and> (\<exists>i \<in> set kokushiTiles. 2 \<le> h ! i)"
    unfolding IsAgariKokushi_def kokushi_scan_def kokushi_scan_eq by auto
qed

end
