(* ===== verification/Waits.thy ===== *)
theory Waits
  imports Agari
begin

text \<open>
  Waits, discard candidates and the caches.  A cache that only ever receives computed values is
  transparent: every call returns what the uncached computation returns.  The lock of the Go code is
  taken separately for the lookup and for the store, so other goroutines may write between the two;
  \<open>memo.store\<close> holds for any coherent cache and covers such interleavings.
\<close>

section \<open>Transparent caches\<close>

definition coherent :: "('a \<Rightarrow> 'k) \<Rightarrow> ('a \<Rightarrow> 'v) \<Rightarrow> ('a \<Rightarrow> bool) \<Rightarrow> ('k \<rightharpoonup> 'v) \<Rightarrow> bool" where
  "coherent key f ok c \<longleftrightarrow> (\<forall>a v. ok a \<longrightarrow> c (key a) = Some v \<longrightarrow> v = f a)"

locale memo =
  fixes key :: "'a \<Rightarrow> 'k" and f :: "'a \<Rightarrow> 'v" and ok :: "'a \<Rightarrow> bool"
  assumes key_determines: "ok a \<Longrightarrow> ok b \<Longrightarrow> key a = key b \<Longrightarrow> f a = f b"
begin

lemma empty: "coherent key f ok Map.empty"
  by (simp add: coherent_def)

lemma hit: "coherent key f ok c \<Longrightarrow> ok a \<Longrightarrow> c (key a) = Some v \<Longrightarrow> v = f a"
  by (simp add: coherent_def)

lemma store: "coherent key f ok c \<Longrightarrow> ok a \<Longrightarrow> coherent key f ok (c(key a \<mapsto> f a))"
  by (auto simp: coherent_def dest: key_determines)

lemma call:
  assumes "coherent key f ok c" "ok a"
  shows "(case c (key a) of Some v \<Rightarrow> v | None \<Rightarrow> f a) = f a"
    "coherent key f ok (case c (key a) of Some v \<Rightarrow> c | None \<Rightarrow> c(key a \<mapsto> f a))"
  using assms store [of c a] hit [of c a] by (auto split: option.splits)

end

definition search_ok :: "Hand34 \<times> int \<Rightarrow> bool" where
  "search_ok = (\<lambda>(h, fixedMelds). length h = 34 \<and> 0 \<le> fixedMelds \<and> fixedMelds < 256)"

abbreviation search_key :: "Hand34 \<times> int \<Rightarrow> cache_key" where
  "search_key \<equiv> \<lambda>(h, fixedMelds). keyWithFixedMelds h fixedMelds"

definition waits_of :: "Hand34 \<Rightarrow> int \<Rightarrow> TileType list" where
  "waits_of h fixedMelds = map int (filter (\<lambda>t. h ! t < 4 \<and> agari (h[t := h ! t + 1]) fixedMelds) [0..<34])"

lemma search_key_inj: "search_ok a \<Longrightarrow> search_ok b \<Longrightarrow> search_key a = search_key b \<Longrightarrow> a = b"
  by (auto simp: search_ok_def keyWithFixedMelds_def)

interpretation agari_memo: memo search_key "\<lambda>(h, n). agari h n" search_ok
  by unfold_locales (metis search_key_inj)

interpretation shanten_memo: memo search_key "\<lambda>(h, n). shanten h n" search_ok
  by unfold_locales (metis search_key_inj)

interpretation waits_memo: memo search_key "\<lambda>(h, n). waits_of h n" search_ok
  by unfold_locales (metis search_key_inj)

definition searcher_ok :: "Searcher \<Rightarrow> bool" where
  "searcher_ok s \<longleftrightarrow> coherent search_key (\<lambda>(h, n). agari h n) search_ok (agariCache s)
     \<and> coherent search_key (\<lambda>(h, n). shanten h n) search_ok (shantenCache s)
     \<and> coherent search_key (\<lambda>(h, n). waits_of h n) search_ok (waitsCache s)"

lemma searcher_ok_new: "searcher_ok NewSearcher"
  by (simp add: searcher_ok_def NewSearcher_def agari_memo.empty shanten_memo.empty waits_memo.empty)

lemma IsAgariAll_memo:
  assumes "searcher_ok s" "search_ok (h, n)" "IsAgariAll s h n = (v, s')"
  shows "v = agari h n" "searcher_ok s'"
  using assms agari_memo.hit [of "agariCache s" "(h, n)"] agari_memo.store [of "agariCache s" "(h, n)"]
  by (auto simp: IsAgariAll_def searcher_ok_def Let_def split: option.splits)

lemma ShantenAll_memo:
  assumes "searcher_ok s" "search_ok (h, n)" "ShantenAll s h n = (v, s')"
  shows "v = shanten h n" "searcher_ok s'"
  using assms shanten_memo.hit [of "shantenCache s" "(h, n)"] shanten_memo.store [of "shantenCache s" "(h, n)"]
  by (auto simp: ShantenAll_def searcher_ok_def Let_def split: option.splits)

section \<open>Waits and candidates\<close>

lemma waits_loop_spec:
  assumes "search_ok (h, n)" "searcher_ok s" "waits_loop s h n ts = (ws, s')"
  shows "ws = map int (filter (\<lambda>t. h ! t < 4 \<and> agari (h[t := h ! t + 1]) n) ts) \<and> searcher_ok s'"
  using assms(2,3)
proof (induction ts arbitrary: s ws s')
  case (Cons t ts)
  show ?case
  proof (cases "4 \<le> h ! t")
    case True
    with Cons show ?thesis by simp
  next
    case False
    obtain win s1 where 1: "IsAgariAll s (h[t := h ! t + 1]) n = (win, s1)" by force
    obtain ws2 s2 where 2: "waits_loop s1 h n ts = (ws2, s2)" by force
    have ok: "search_ok (h[t := h ! t + 1], n)" using assms(1) by (simp add: search_ok_def)
    note m = IsAgariAll_memo [OF Cons.prems(1) ok 1]
    from Cons.IH [OF m(2) 2] m False Cons.prems(2) 1 2 show ?thesis by auto
  qed
qed simp

lemma WaitsAndUkeire_memo:
  assumes "searcher_ok s" "search_ok (h, n)" "WaitsAndUkeire s h n visible = ((ws, u), s')"
  shows "ws = waits_of h n" "u = ukeireByWaits h (waits_of h n) visible" "searcher_ok s'"
proof -
  obtain w s1 where loop: "waits_loop s h n [0..<34] = (w, s1)" by force
  from waits_loop_spec [OF assms(2,1) loop] have w: "w = waits_of h n" and s1: "searcher_ok s1"
    by (simp_all add: waits_of_def)
  have "searcher_ok (s1\<lparr>waitsCache := (waitsCache s1)(keyWithFixedMelds h n \<mapsto> waits_of h n)\<rparr>)"
    using s1 waits_memo.store [of "waitsCache s1" "(h, n)"] assms(2) by (simp add: searcher_ok_def)
  moreover have "v = waits_of h n" if "waitsCache s (keyWithFixedMelds h n) = Some v" for v
    using waits_memo.hit [of "waitsCache s" "(h, n)" v] that assms by (simp add: searcher_ok_def)
  ultimately show "ws = waits_of h n" "u = ukeireByWaits h (waits_of h n) visible" "searcher_ok s'"
    using assms w loop by (auto simp: WaitsAndUkeire_def Let_def split: option.splits)
qed

definition candidate_of :: "Hand34 \<Rightarrow> (TileType \<rightharpoonup> Tile list) \<Rightarrow> int \<Rightarrow> nat list option \<Rightarrow> nat \<Rightarrow> Candidate" where
  "candidate_of h opts n visible i =
     (let h13 = h[i := h ! i - 1]; ws = waits_of h13 n
      in \<lparr>DiscardType = int i, DiscardOptions = (case opts (int i) of None \<Rightarrow> [] | Some o' \<Rightarrow> o'),
          Waits = ws, Ukeire = ukeireByWaits h13 ws visible\<rparr>)"

definition tenpai_discards :: "Hand34 \<Rightarrow> int \<Rightarrow> nat list \<Rightarrow> nat list" where
  "tenpai_discards h n is = filter (\<lambda>i. h ! i \<noteq> 0 \<and> waits_of (h[i := h ! i - 1]) n \<noteq> []) is"

lemma candidates_loop_spec:
  assumes "search_ok (h, n)" "searcher_ok s" "candidates_loop s h opts n visible is = (out, s')"
  shows "out = map (candidate_of h opts n visible) (tenpai_discards h n is) \<and> searcher_ok s'"
  using assms(2,3)
proof (induction "is" arbitrary: s out s')
  case Nil
  then show ?case by (simp add: tenpai_discards_def)
next
  case (Cons i "is")
  show ?case
  proof (cases "h ! i = 0")
    case True
    with Cons show ?thesis by (simp add: tenpai_discards_def)
  next
    case False
    obtain ws u s1 where 1: "WaitsAndUkeire s (h[i := h ! i - 1]) n visible = ((ws, u), s1)"
      by (metis prod.collapse)
    obtain o2 s2 where 2: "candidates_loop s1 h opts n visible is = (o2, s2)" by force
    have ok: "search_ok (h[i := h ! i - 1], n)" using assms(1) by (simp add: search_ok_def)
    note m = WaitsAndUkeire_memo [OF Cons.prems(1) ok 1]
    from Cons.IH [OF m(3) 2] m(1,2) False Cons.prems(2) 1 2 show ?thesis
      by (auto simp: tenpai_discards_def candidate_of_def Let_def)
  qed
qed

lemma Hand34FromTiles_loop_spec:
  assumes "length h = 34" "\<forall>t \<in> set ts. valid_type t"
  shows "\<exists>h' opts'. Hand34FromTiles_loop ts h opts = Some (h', opts') \<and> length h' = 34
     \<and> (\<forall>i < 34. h' ! i = (if \<exists>t \<in> set ts. tType t = int i
          then (h ! i + type_count (mset ts) i) mod 256 else h ! i))
     \<and> (\<forall>k. opts' k = (let new = filter (\<lambda>t. tType t = k) ts in
          if new = [] then opts k else Some ((case opts k of None \<Rightarrow> [] | Some o' \<Rightarrow> o') @ new)))"
  using assms
proof (induction ts arbitrary: h opts)
  case (Cons t ts)
  let ?h = "h[nat (tType t) := (h ! nat (tType t) + 1) mod 256]"
    and ?o = "opts(tType t \<mapsto> (case opts (tType t) of None \<Rightarrow> [] | Some o' \<Rightarrow> o') @ [t])"
  have t: "0 \<le> tType t" "tType t < 34" using Cons.prems by (simp_all add: valid_type_def)
  obtain h' opts' where IH: "Hand34FromTiles_loop ts ?h ?o = Some (h', opts')" "length h' = 34"
    "\<forall>i < 34. h' ! i = (if \<exists>t \<in> set ts. tType t = int i
          then (?h ! i + type_count (mset ts) i) mod 256 else ?h ! i)"
    "\<forall>k. opts' k = (let new = filter (\<lambda>t. tType t = k) ts in
          if new = [] then ?o k else Some ((case ?o k of None \<Rightarrow> [] | Some o' \<Rightarrow> o') @ new))"
  proof -
    have "length ?h = 34" "\<forall>t \<in> set ts. valid_type t" using Cons.prems by simp_all
    from Cons.IH [OF this, of ?o] show thesis by (elim exE conjE) (rule that)
  qed
  have "h' ! i = (if \<exists>t \<in> set (t # ts). tType t = int i
          then (h ! i + type_count (mset (t # ts)) i) mod 256 else h ! i)" if "i < 34" for i
  proof -
    have z: "type_count (mset ts) i = 0" if "\<not> (\<exists>t \<in> set ts. tType t = int i)"
      using that by (auto simp: type_count_def filter_mset_eq_conv)
    show ?thesis using IH(3) that t Cons.prems(1) z
      by (auto simp: nth_list_update mod_simps ac_simps)
  qed
  moreover have "Hand34FromTiles_loop (t # ts) h opts = Some (h', opts')"
    using t Cons.prems(1) IH(1) by (simp add: idx_in_range upd_in_range)
  ultimately show ?case using IH(2,4) by (fastforce simp: Let_def)
qed simp

lemma Hand34FromTiles_spec:
  assumes "\<forall>t \<in> set ts. valid_type t" "length ts < 256"
  obtains h opts where "Hand34FromTiles ts = Some (h, opts)" "length h = 34"
    "\<forall>i < 34. h ! i = type_count (mset ts) i"
    "\<forall>k. opts k = (let new = filter (\<lambda>t. tType t = k) ts in if new = [] then None else Some new)"
proof -
  obtain h opts where 1: "Hand34FromTiles ts = Some (h, opts)" "length h = 34"
    "\<forall>i < 34. h ! i = (if \<exists>t \<in> set ts. tType t = int i then type_count (mset ts) i mod 256 else 0)"
    "\<forall>k. opts k = (let new = filter (\<lambda>t. tType t = k) ts in if new = [] then None else Some new)"
    using Hand34FromTiles_loop_spec [of "replicate 34 0" ts Map.empty] assms(1)
    by (auto simp: Hand34FromTiles_def Let_def)
  have "type_count (mset ts) i < 256" for i
    using size_filter_mset_lesseq [of "\<lambda>t. tType t = int i" "mset ts"] assms(2) by (simp add: type_count_def)
  moreover have "type_count (mset ts) i = 0" if "\<not> (\<exists>t \<in> set ts. tType t = int i)" for i
    using that by (auto simp: type_count_def filter_mset_eq_conv)
  ultimately show ?thesis using 1 by (intro that [of h opts]) auto
qed

section \<open>Properties\<close>

text \<open>C5: Whatever the caches already hold, \<open>WaitsAndUkeire\<close> returns exactly the tile types that complete
  the hand, in ascending order: those of which the hand has fewer than four and whose addition wins.
  The caches stay coherent: a cached answer is the answer that would be computed.\<close>

theorem WaitsAndUkeire_spec:
  assumes "searcher_ok s" "length h = 34" "0 \<le> n" "n < 256"
  shows "\<exists>ws s'. WaitsAndUkeire s h n visible = ((ws, ukeireByWaits h ws visible), s') \<and> searcher_ok s' \<and> sorted ws \<and> distinct ws
     \<and> (\<forall>t. int t \<in> set ws \<longleftrightarrow> t < 34 \<and> h ! t < 4 \<and> agari (h[t := h ! t + 1]) n)"
proof -
  have ok: "search_ok (h, n)" using assms by (simp add: search_ok_def)
  obtain ws u s' where r: "WaitsAndUkeire s h n visible = ((ws, u), s')" by (metis surj_pair)
  note m = WaitsAndUkeire_memo [OF assms(1) ok r]
  have "sorted (map int xs)" if "sorted xs" for xs using that by (simp add: sorted_map)
  moreover have "sorted (filter P [0..<34])" for P using sorted_filter [of "\<lambda>x. x" "[0..<34]" P] by simp
  ultimately have "sorted ws" "distinct ws" unfolding m(1) waits_of_def by (simp_all add: distinct_map)
  moreover have "int t \<in> set ws \<longleftrightarrow> t < 34 \<and> h ! t < 4 \<and> agari (h[t := h ! t + 1]) n" for t
    unfolding m(1) waits_of_def by auto
  ultimately show ?thesis using r m by blast
qed

text \<open>C5 on a single east wind with four melds called and empty caches: it waits for east, and east only.\<close>

theorem WaitsAndUkeire_spec_witness:
  "\<exists>ws s'. WaitsAndUkeire NewSearcher (replicate 27 0 @ [1] @ replicate 6 0) 4 None
      = ((ws, ukeireByWaits (replicate 27 0 @ [1] @ replicate 6 0) ws None), s') \<and> searcher_ok s' \<and> int 27 \<in> set ws"
proof -
  define h where "h = replicate 27 0 @ [1] @ replicate 6 (0::nat)"
  have "agari (h[27 := h ! 27 + 1]) 4" "h ! 27 < 4" unfolding h_def by code_simp+
  moreover have len: "length h = 34" by (simp add: h_def)
  obtain ws s' where "WaitsAndUkeire NewSearcher h 4 None = ((ws, ukeireByWaits h ws None), s')" "searcher_ok s'"
      "\<forall>t. int t \<in> set ws \<longleftrightarrow> t < 34 \<and> h ! t < 4 \<and> agari (h[t := h ! t + 1]) 4"
    using WaitsAndUkeire_spec [OF searcher_ok_new len, of 4 None] by auto
  ultimately show ?thesis unfolding h_def [symmetric] by (intro exI [of _ ws] exI [of _ s'] conjI) (simp_all del: of_nat_numeral)
qed

text \<open>C6: \<open>SeekCandidates\<close> lists, in ascending order of type and whatever the caches hold, exactly the
  discards after which the hand is ready, each with the tiles of that type in the hand, its waits and
  the number of tiles that complete it.  Hands of valid tiles never make it panic.\<close>

theorem SeekCandidates_spec:
  assumes "searcher_ok s" "\<forall>t \<in> set ts. valid_type t" "length ts < 256" "0 \<le> n" "n < 256"
  shows "\<exists>out s'. SeekCandidates s ts n visible = Some (out, s') \<and> searcher_ok s'
     \<and> map DiscardType out = map int (filter (\<lambda>i. (\<exists>t \<in> set ts. tType t = int i)
          \<and> waits_of ((map (type_count (mset ts)) [0..<34])[i := type_count (mset ts) i - 1]) n \<noteq> []) [0..<34])
     \<and> (\<forall>c \<in> set out. DiscardOptions c = filter (\<lambda>t. tType t = DiscardType c) ts
          \<and> Waits c = waits_of ((map (type_count (mset ts)) [0..<34])[nat (DiscardType c) := type_count (mset ts) (nat (DiscardType c)) - 1]) n)"
proof -
  obtain h opts where h: "Hand34FromTiles ts = Some (h, opts)" "length h = 34" "\<forall>i < 34. h ! i = type_count (mset ts) i"
    "\<forall>k. opts k = (let new = filter (\<lambda>t. tType t = k) ts in if new = [] then None else Some new)"
    using Hand34FromTiles_spec [OF assms(2,3)] .
  have hm: "h = map (type_count (mset ts)) [0..<34]" using h(2,3) by (intro nth_equalityI) auto
  have ok: "search_ok (h, n)" using assms h(2) by (simp add: search_ok_def)
  obtain out s' where r: "candidates_loop s h opts n visible [0..<34] = (out, s')" by force
  note l = candidates_loop_spec [OF ok assms(1) r]
  have nz: "h ! i \<noteq> 0 \<longleftrightarrow> (\<exists>t \<in> set ts. tType t = int i)" if "i < 34" for i
    using h(3) that by (auto simp: type_count_def filter_mset_eq_conv)
  have "tenpai_discards h n [0..<34] = filter (\<lambda>i. (\<exists>t \<in> set ts. tType t = int i)
      \<and> waits_of ((map (type_count (mset ts)) [0..<34])[i := type_count (mset ts) i - 1]) n \<noteq> []) [0..<34]"
    unfolding tenpai_discards_def using nz hm h(3) by (intro filter_cong) auto
  moreover have "map DiscardType out = map int (tenpai_discards h n [0..<34])" using l by (simp add: candidate_of_def Let_def)
  moreover have "DiscardOptions c = filter (\<lambda>t. tType t = DiscardType c) ts
      \<and> Waits c = waits_of ((map (type_count (mset ts)) [0..<34])[nat (DiscardType c) := type_count (mset ts) (nat (DiscardType c)) - 1]) n"
    if "c \<in> set out" for c
    using that l h(3,4) hm by (auto simp: candidate_of_def Let_def tenpai_discards_def)
  ultimately show ?thesis using h(1) r l by (auto simp: SeekCandidates_def)
qed

text \<open>C6 on two winds with four melds called and empty caches.\<close>

theorem SeekCandidates_spec_witness:
  "\<exists>out s'. SeekCandidates NewSearcher [\<lparr>tType = 27, tID = 0\<rparr>, \<lparr>tType = 28, tID = 0\<rparr>] 4 None = Some (out, s') \<and> searcher_ok s'
     \<and> (\<forall>c \<in> set out. DiscardOptions c = filter (\<lambda>t. tType t = DiscardType c) [\<lparr>tType = 27, tID = 0\<rparr>, \<lparr>tType = 28, tID = 0\<rparr>])"
proof -
  have "\<forall>t \<in> set [\<lparr>tType = 27, tID = 0\<rparr>, \<lparr>tType = 28, tID = 0\<rparr>]. valid_type t" by (simp add: valid_type_def)
  from SeekCandidates_spec [OF searcher_ok_new this, of 4 None] show ?thesis by auto
qed

end
