(* ===== verification/Shanten.thy ===== *)
theory Shanten
  imports Waits
begin

text \<open>
  What \<open>dfsNormalShanten\<close> of \<^verbatim>\<open>game/runtime/engines/mahjong/searcher.go\<close> computes: the least worth of all
  ways to take blocks, at most one pair and two-tile shapes out of the hand.
\<close>

section \<open>Groupings of a hand\<close>

text \<open>Two tiles of one suit that lack a third for a run: neighbours, or with a gap.\<close>

datatype taatsu = Side nat | Gap nat

fun taatsu_ok :: "taatsu \<Rightarrow> bool" where
  "taatsu_ok (Side i) \<longleftrightarrow> i < 27 \<and> i mod 9 \<le> 7"
| "taatsu_ok (Gap i) \<longleftrightarrow> i < 27 \<and> i mod 9 \<le> 6"

fun taatsu_tiles :: "taatsu \<Rightarrow> nat multiset" where
  "taatsu_tiles (Side i) = {#i, i + 1#}"
| "taatsu_tiles (Gap i) = {#i, i + 2#}"

definition group_tiles :: "block list \<Rightarrow> nat list \<Rightarrow> taatsu list \<Rightarrow> nat multiset" where
  "group_tiles bs qs ss = blocks_tiles bs + sum_list (map (\<lambda>q. {#q, q#}) qs) + sum_list (map taatsu_tiles ss)"

definition grouping :: "Hand34 \<Rightarrow> int \<Rightarrow> block list \<Rightarrow> nat list \<Rightarrow> taatsu list \<Rightarrow> bool" where
  "grouping h p bs qs ss \<longleftrightarrow> list_all block_ok bs \<and> list_all (\<lambda>q. q < 34) qs \<and> list_all taatsu_ok ss
     \<and> length qs \<le> (if p = 0 then 1 else 0) \<and> group_tiles bs qs ss \<subseteq># hand_tiles h"

text \<open>The distance of a grouping from a winning hand, with \<open>m\<close> melds, \<open>p\<close> pairs and \<open>t\<close> shapes set aside before.\<close>

definition worth :: "int \<Rightarrow> int \<Rightarrow> int \<Rightarrow> nat \<Rightarrow> nat \<Rightarrow> nat \<Rightarrow> int" where
  "worth m p t nb nq ns = 8 - 2 * (m + int nb) - min (t + int ns) (4 - (m + int nb)) - (p + int nq)"

definition worths :: "Hand34 \<Rightarrow> int \<Rightarrow> int \<Rightarrow> int \<Rightarrow> int set" where
  "worths h m p t = {worth m p t (length bs) (length qs) (length ss) | bs qs ss. grouping h p bs qs ss \<and> m + int (length bs) \<le> 4}"

lemma worthsI: "grouping h p bs qs ss \<Longrightarrow> m + int (length bs) \<le> 4 \<Longrightarrow> v = worth m p t (length bs) (length qs) (length ss) \<Longrightarrow> v \<in> worths h m p t"
  by (auto simp: worths_def)

lemma worthsE:
  assumes "v \<in> worths h m p t"
  obtains bs qs ss where "grouping h p bs qs ss" "m + int (length bs) \<le> 4" "v = worth m p t (length bs) (length qs) (length ss)"
  using assms by (auto simp: worths_def)

lemma group_tiles_simps [simp]:
  "group_tiles [] [] [] = {#}" "group_tiles (b # bs) qs ss = block_tiles b + group_tiles bs qs ss"
  "group_tiles bs (q # qs) ss = {#q, q#} + group_tiles bs qs ss" "group_tiles bs qs (s # ss) = taatsu_tiles s + group_tiles bs qs ss"
  by (simp_all add: group_tiles_def)

lemma taatsus_remove1: "s \<in> set ss \<Longrightarrow> sum_list (map taatsu_tiles ss) = taatsu_tiles s + sum_list (map taatsu_tiles (remove1 s ss))"
  by (induction ss) auto

lemma in_pairs: "x \<in># sum_list (map (\<lambda>q. {#q, q#}) qs) \<longleftrightarrow> x \<in> set qs"
  by (induction qs) auto

lemma in_taatsus: "x \<in># sum_list (map taatsu_tiles ss) \<longleftrightarrow> (\<exists>s \<in> set ss. x \<in># taatsu_tiles s)"
  by (induction ss) auto

text \<open>The smallest tile of the hand is the first tile of whatever part it is in.\<close>

lemma first_part:
  assumes "firstTile h = Some i" "group_tiles bs qs ss \<subseteq># hand_tiles h" "i \<in># group_tiles bs qs ss"
  obtains "Triplet i \<in> set bs" | "Run i \<in> set bs" | "i \<in> set qs" | "Side i \<in> set ss" | "Gap i \<in> set ss"
proof -
  have least: "i \<le> x" if "x \<in># group_tiles bs qs ss" for x
  proof -
    have "x \<in># hand_tiles h" using that assms(2) by (rule mset_subset_eqD [rotated])
    then show ?thesis using firstTile_Some [OF assms(1)] by (auto simp: in_hand_tiles) (metis not_le less_irrefl)
  qed
  from assms(3) consider (block) b where "b \<in> set bs" "i \<in># block_tiles b" | (pair) "i \<in> set qs"
    | (taatsu) s where "s \<in> set ss" "i \<in># taatsu_tiles s"
    by (auto simp: group_tiles_def in_blocks_tiles in_pairs in_taatsus)
  then show ?thesis
  proof cases
    case block
    have "i \<le> x" if "x \<in># block_tiles b" for x using that block(1) by (intro least) (auto simp: group_tiles_def in_blocks_tiles)
    then show ?thesis using block that by (cases b) force+
  next
    case taatsu
    have "i \<le> x" if "x \<in># taatsu_tiles s" for x using that taatsu(1) by (intro least) (auto simp: group_tiles_def in_taatsus)
    then show ?thesis using taatsu that by (cases s) force+
  qed (rule that(3))
qed

section \<open>Taking one part out of the hand\<close>

lemma hand_tiles_one: "i < length h \<Longrightarrow> 0 < h ! i \<Longrightarrow> hand_tiles h = add_mset i (hand_tiles (h[i := h ! i - 1]))"
  by (rule multiset_eqI) (auto simp: count_hand_tiles nth_list_update)

lemma hand_tiles_two:
  "i < length h \<Longrightarrow> j < length h \<Longrightarrow> i \<noteq> j \<Longrightarrow> 0 < h ! i \<Longrightarrow> 0 < h ! j \<Longrightarrow>
   hand_tiles h = {#i, j#} + hand_tiles (h[i := h ! i - 1, j := h ! j - 1])"
  by (rule multiset_eqI) (auto simp: count_hand_tiles nth_list_update)

lemma hand_tiles_ge: "replicate_mset n k + M \<subseteq># hand_tiles h \<Longrightarrow> 0 < n \<Longrightarrow> k < length h \<and> n \<le> h ! k"
proof -
  assume "replicate_mset n k + M \<subseteq># hand_tiles h" "0 < n"
  then have "n \<le> count (hand_tiles h) k" by (metis count_replicate_mset mset_subset_eq_add_left mset_subset_eq_count order_trans)
  then show ?thesis using \<open>0 < n\<close> by (auto simp: count_hand_tiles split: if_splits)
qed

text \<open>A part with tiles \<open>T\<close>, the hand \<open>h'\<close> without it and what changes in the counters.\<close>

lemma worths_block:
  assumes "block_ok b" "hand_tiles h = block_tiles b + hand_tiles h'" "v \<in> worths h' (m + 1) p t"
  shows "v \<in> worths h m p t"
proof -
  obtain bs qs ss where g: "grouping h' p bs qs ss" "m + 1 + int (length bs) \<le> 4" "v = worth (m + 1) p t (length bs) (length qs) (length ss)"
    using worthsE [OF assms(3)] .
  then show ?thesis using assms(1,2) by (intro worthsI [of _ _ "b # bs" qs ss]) (auto simp: grouping_def worth_def)
qed

lemma worths_pair:
  assumes "i < 34" "hand_tiles h = {#i, i#} + hand_tiles h'" "v \<in> worths h' m 1 t"
  shows "v \<in> worths h m 0 t"
proof -
  obtain bs qs ss where g: "grouping h' 1 bs qs ss" "m + int (length bs) \<le> 4" "v = worth m 1 t (length bs) (length qs) (length ss)"
    using worthsE [OF assms(3)] .
  then show ?thesis using assms(1,2) by (intro worthsI [of _ _ bs "[i]" ss]) (auto simp: grouping_def worth_def)
qed

lemma worths_taatsu:
  assumes "taatsu_ok s" "hand_tiles h = taatsu_tiles s + hand_tiles h'" "v \<in> worths h' m p (t + 1)"
  shows "v \<in> worths h m p t"
proof -
  obtain bs qs ss where g: "grouping h' p bs qs ss" "m + int (length bs) \<le> 4" "v = worth m p (t + 1) (length bs) (length qs) (length ss)"
    using worthsE [OF assms(3)] .
  then show ?thesis using assms(1,2) by (intro worthsI [of _ _ bs qs "s # ss"]) (auto simp: grouping_def worth_def)
qed

lemma worths_skip:
  assumes "hand_tiles h = add_mset i (hand_tiles h')" "v \<in> worths h' m p t"
  shows "v \<in> worths h m p t"
proof -
  obtain bs qs ss where g: "grouping h' p bs qs ss" "m + int (length bs) \<le> 4" "v = worth m p t (length bs) (length qs) (length ss)"
    using worthsE [OF assms(2)] .
  moreover have "hand_tiles h' \<subseteq># hand_tiles h" using assms(1) by simp
  ultimately show ?thesis by (intro worthsI [of _ _ bs qs ss]) (auto simp: grouping_def intro: subset_mset.order_trans)
qed

lemma in_hand: "x \<in># M \<Longrightarrow> M \<subseteq># hand_tiles h \<Longrightarrow> x < length h \<and> 0 < h ! x"
  using mset_subset_eqD [of M "hand_tiles h" x] by (simp add: in_hand_tiles)

lemma group_tiles_remove1:
  "b \<in> set bs \<Longrightarrow> group_tiles bs qs ss = block_tiles b + group_tiles (remove1 b bs) qs ss"
  "s \<in> set ss \<Longrightarrow> group_tiles bs qs ss = taatsu_tiles s + group_tiles bs qs (remove1 s ss)"
  unfolding group_tiles_def by (simp_all add: blocks_tiles_remove1 [of b bs] taatsus_remove1 [of s ss] ac_simps)

lemma list_all_remove1: "list_all P xs \<Longrightarrow> list_all P (remove1 x xs)"
  using set_remove1_subset [of x xs] by (auto simp: list_all_iff)

text \<open>Taking a known part out of a grouping.\<close>

lemma take_block:
  assumes "grouping h p bs qs ss" "m + int (length bs) \<le> 4" "b \<in> set bs" "hand_tiles h = block_tiles b + hand_tiles h'"
  shows "worth m p t (length bs) (length qs) (length ss) \<in> worths h' (m + 1) p t"
proof -
  have l: "length bs = Suc (length (remove1 b bs))" using length_pos_if_in_set [OF assms(3)] assms(3) by (simp add: length_remove1)
  have "grouping h' p (remove1 b bs) qs ss"
    using assms(1,4) by (auto simp: grouping_def group_tiles_remove1(1) [OF assms(3)] list_all_remove1)
  then show ?thesis using assms(2) unfolding l by (elim worthsI) (auto simp: worth_def)
qed

lemma take_pair:
  assumes "grouping h p bs qs ss" "m + int (length bs) \<le> 4" "i \<in> set qs" "hand_tiles h = {#i, i#} + hand_tiles h'"
  shows "worth m p t (length bs) (length qs) (length ss) \<in> worths h' m 1 t" "p = 0"
proof -
  show p: "p = 0" using assms(1,3) by (cases qs) (auto simp: grouping_def split: if_splits)
  have qs: "qs = [i]" using assms(1,3) by (cases qs) (auto simp: grouping_def split: if_splits)
  have "grouping h' 1 bs [] ss" using assms(1,4) unfolding qs by (auto simp: grouping_def)
  then show "worth m p t (length bs) (length qs) (length ss) \<in> worths h' m 1 t"
    using assms(2) by (elim worthsI) (auto simp: worth_def qs p)
qed

lemma take_taatsu:
  assumes "grouping h p bs qs ss" "m + int (length bs) \<le> 4" "s \<in> set ss" "hand_tiles h = taatsu_tiles s + hand_tiles h'"
  shows "worth m p t (length bs) (length qs) (length ss) \<in> worths h' m p (t + 1)"
proof -
  have l: "length ss = Suc (length (remove1 s ss))" using length_pos_if_in_set [OF assms(3)] assms(3) by (simp add: length_remove1)
  have "grouping h' p bs qs (remove1 s ss)"
    using assms(1,4) by (auto simp: grouping_def group_tiles_remove1(2) [OF assms(3)] list_all_remove1)
  then show ?thesis using assms(2) unfolding l by (elim worthsI) (auto simp: worth_def)
qed

lemma skip_tile:
  assumes "grouping h p bs qs ss" "m + int (length bs) \<le> 4" "i \<notin># group_tiles bs qs ss" "hand_tiles h = add_mset i (hand_tiles h')"
  shows "worth m p t (length bs) (length qs) (length ss) \<in> worths h' m p t"
proof -
  have "group_tiles bs qs ss \<subseteq># hand_tiles h'"
    using assms(1,3,4) by (metis Diff_eq_empty_iff_mset grouping_def minus_add_mset_if_not_in_lhs)
  then show ?thesis using assms(1,2) by (intro worthsI [of _ _ bs qs ss]) (auto simp: grouping_def)
qed

section \<open>One step of the search\<close>

abbreviation cut1 :: "Hand34 \<Rightarrow> nat \<Rightarrow> nat \<Rightarrow> Hand34" where
  "cut1 h i n \<equiv> h[i := h ! i - n]"

abbreviation cut2 :: "Hand34 \<Rightarrow> nat \<Rightarrow> nat \<Rightarrow> Hand34" where
  "cut2 h i j \<equiv> h[i := h ! i - 1, j := h ! j - 1]"

abbreviation cut3 :: "Hand34 \<Rightarrow> nat \<Rightarrow> Hand34" where
  "cut3 h i \<equiv> h[i := h ! i - 1, i + 1 := h ! (i + 1) - 1, i + 2 := h ! (i + 2) - 1]"

text \<open>The branches of the search at the first tile \<open>i\<close>, in the order of the code.\<close>

definition step_worths :: "Hand34 \<Rightarrow> nat \<Rightarrow> int \<Rightarrow> int \<Rightarrow> int \<Rightarrow> int set" where
  "step_worths h i m p t =
     (if 3 \<le> h ! i then worths (cut1 h i 3) (m + 1) p t else {})
   \<union> (if block_ok (Run i) \<and> 0 < h ! i \<and> 0 < h ! (i + 1) \<and> 0 < h ! (i + 2) then worths (cut3 h i) (m + 1) p t else {})
   \<union> (if p = 0 \<and> 2 \<le> h ! i then worths (cut1 h i 2) m 1 t else {})
   \<union> (if taatsu_ok (Side i) \<and> 0 < h ! i \<and> 0 < h ! (i + 1) then worths (cut2 h i (i + 1)) m p (t + 1) else {})
   \<union> (if taatsu_ok (Gap i) \<and> 0 < h ! i \<and> 0 < h ! (i + 2) then worths (cut2 h i (i + 2)) m p (t + 1) else {})
   \<union> worths (cut1 h i 1) m p t"

lemma step_worths_subset:
  assumes "length h = 34" "firstTile h = Some i"
  shows "step_worths h i m p t \<subseteq> worths h m p t"
proof
  have i: "i < 34" "0 < h ! i" using firstTile_Some [OF assms(2)] assms(1) by simp_all
  fix v assume "v \<in> step_worths h i m p t"
  then consider "3 \<le> h ! i" "v \<in> worths (cut1 h i 3) (m + 1) p t"
    | "block_ok (Run i)" "0 < h ! (i + 1)" "0 < h ! (i + 2)" "v \<in> worths (cut3 h i) (m + 1) p t"
    | "p = 0" "2 \<le> h ! i" "v \<in> worths (cut1 h i 2) m 1 t"
    | "taatsu_ok (Side i)" "0 < h ! (i + 1)" "v \<in> worths (cut2 h i (i + 1)) m p (t + 1)"
    | "taatsu_ok (Gap i)" "0 < h ! (i + 2)" "v \<in> worths (cut2 h i (i + 2)) m p (t + 1)"
    | "v \<in> worths (cut1 h i 1) m p t"
    by (auto simp: step_worths_def split: if_splits)
  then show "v \<in> worths h m p t"
  proof cases
    case 1
    show ?thesis by (rule worths_block [OF _ hand_tiles_triplet 1(2)]) (use 1 i assms(1) in auto)
  next
    case 2
    show ?thesis by (rule worths_block [OF 2(1) hand_tiles_run 2(4)]) (use 2 i assms(1) in auto)
  next
    case 3
    have "v \<in> worths h m 0 t" by (rule worths_pair [OF i(1) hand_tiles_pair 3(3)]) (use 3 i assms(1) in auto)
    then show ?thesis using 3(1) by simp
  next
    case 4
    have "hand_tiles h = taatsu_tiles (Side i) + hand_tiles (cut2 h i (i + 1))"
      unfolding taatsu_tiles.simps by (rule hand_tiles_two) (use 4 i assms(1) in auto)
    from worths_taatsu [OF 4(1) this 4(3)] show ?thesis .
  next
    case 5
    have "hand_tiles h = taatsu_tiles (Gap i) + hand_tiles (cut2 h i (i + 2))"
      unfolding taatsu_tiles.simps by (rule hand_tiles_two) (use 5 i assms(1) in auto)
    from worths_taatsu [OF 5(1) this 5(3)] show ?thesis .
  next
    case 6
    show ?thesis by (rule worths_skip [OF hand_tiles_one 6]) (use i assms(1) in auto)
  qed
qed

lemma worths_step_subset:
  assumes "length h = 34" "firstTile h = Some i"
  shows "worths h m p t \<subseteq> step_worths h i m p t"
proof
  have i: "i < 34" "0 < h ! i" using firstTile_Some [OF assms(2)] assms(1) by simp_all
  fix v assume "v \<in> worths h m p t"
  then obtain bs qs ss where g: "grouping h p bs qs ss" "m + int (length bs) \<le> 4" "v = worth m p t (length bs) (length qs) (length ss)"
    by (rule worthsE)
  have sub: "group_tiles bs qs ss \<subseteq># hand_tiles h" using g(1) by (simp add: grouping_def)
  note inh = in_hand [OF _ sub]
  show "v \<in> step_worths h i m p t"
  proof (cases "i \<in># group_tiles bs qs ss")
    case False
    have "v \<in> worths (cut1 h i 1) m p t"
      unfolding g(3) by (rule skip_tile [OF g(1,2) False hand_tiles_one]) (use i assms(1) in auto)
    then show ?thesis by (simp add: step_worths_def)
  next
    case True
    show ?thesis
    proof (cases rule: first_part [OF assms(2) sub True])
      case 1
      have "replicate_mset 3 i + group_tiles (remove1 (Triplet i) bs) qs ss \<subseteq># hand_tiles h"
        using sub unfolding group_tiles_remove1(1) [OF 1] by (simp add: numeral_eq_Suc)
      then have "3 \<le> h ! i" using hand_tiles_ge by fastforce
      then have "v \<in> worths (cut1 h i 3) (m + 1) p t"
        unfolding g(3) by (intro take_block [OF g(1,2) 1 hand_tiles_triplet]) (use i assms(1) in auto)
      with \<open>3 \<le> h ! i\<close> show ?thesis by (simp add: step_worths_def)
    next
      case 2
      have "i + 1 \<in># group_tiles bs qs ss" "i + 2 \<in># group_tiles bs qs ss"
        unfolding group_tiles_remove1(1) [OF 2] by simp_all
      then have r: "0 < h ! (i + 1)" "0 < h ! (i + 2)" "i + 2 < length h" using inh by blast+
      have ok: "block_ok (Run i)" using g(1) 2 unfolding grouping_def list_all_iff by blast
      have "v \<in> worths (cut3 h i) (m + 1) p t" unfolding g(3) by (rule take_block [OF g(1,2) 2 hand_tiles_run]) (use i r in auto)
      then show ?thesis using i r ok unfolding step_worths_def by (simp only: simp_thms if_True Un_iff)
    next
      case 3
      have "2 \<le> h ! i"
      proof -
        have "count (sum_list (map (\<lambda>q. {#q, q#}) qs)) i \<ge> 2" using 3 by (induction qs) auto
        then have "2 \<le> count (group_tiles bs qs ss) i" by (simp add: group_tiles_def)
        then have "2 \<le> count (hand_tiles h) i" using mset_subset_eq_count [OF sub, of i] by linarith
        then show ?thesis by (simp add: count_hand_tiles split: if_splits)
      qed
      then have cut: "hand_tiles h = {#i, i#} + hand_tiles (cut1 h i 2)" by (intro hand_tiles_pair) (use i assms(1) in auto)
      from take_pair [OF g(1,2) 3 cut] \<open>2 \<le> h ! i\<close> show ?thesis by (simp add: step_worths_def g(3))
    next
      case 4
      have "i + 1 \<in># group_tiles bs qs ss" unfolding group_tiles_remove1(2) [OF 4] by simp
      then have r: "0 < h ! (i + 1)" "i + 1 < length h" using inh by blast+
      have ok: "taatsu_ok (Side i)" using g(1) 4 unfolding grouping_def list_all_iff by blast
      have "hand_tiles h = taatsu_tiles (Side i) + hand_tiles (cut2 h i (i + 1))"
        unfolding taatsu_tiles.simps by (rule hand_tiles_two) (use i r in auto)
      from take_taatsu [OF g(1,2) 4 this, of t] show ?thesis
        using i r ok unfolding step_worths_def g(3) by (simp only: simp_thms if_True Un_iff)
    next
      case 5
      have "i + 2 \<in># group_tiles bs qs ss" unfolding group_tiles_remove1(2) [OF 5] by simp
      then have r: "0 < h ! (i + 2)" "i + 2 < length h" using inh by blast+
      have ok: "taatsu_ok (Gap i)" using g(1) 5 unfolding grouping_def list_all_iff by blast
      have "hand_tiles h = taatsu_tiles (Gap i) + hand_tiles (cut2 h i (i + 2))"
        unfolding taatsu_tiles.simps by (rule hand_tiles_two) (use i r in auto)
      from take_taatsu [OF g(1,2) 5 this, of t] show ?thesis
        using i r ok unfolding step_worths_def g(3) by (simp only: simp_thms if_True Un_iff)
    qed
  qed
qed

lemma worths_step: "length h = 34 \<Longrightarrow> firstTile h = Some i \<Longrightarrow> worths h m p t = step_worths h i m p t"
  using worths_step_subset step_worths_subset by blast

section \<open>The search computes the minimum\<close>

text \<open>\<open>r\<close> is the least of \<open>best\<close> and the values of \<open>V\<close>.\<close>

definition is_min :: "int \<Rightarrow> int \<Rightarrow> int set \<Rightarrow> bool" where
  "is_min r best V \<longleftrightarrow> r \<le> best \<and> (r = best \<or> r \<in> V) \<and> (\<forall>v \<in> V. r \<le> v)"

lemma is_min_empty: "is_min best best {}"
  by (simp add: is_min_def)

lemma is_min_single: "is_min (if v < best then v else best) best {v}"
  by (auto simp: is_min_def)

lemma is_min_then: "is_min r best V \<Longrightarrow> is_min r' r V' \<Longrightarrow> is_min r' best (V \<union> V')"
  by (fastforce simp: is_min_def)

lemma is_min_let: "is_min b best W \<Longrightarrow> (\<And>b. is_min b best W \<Longrightarrow> is_min (f b) best V) \<Longrightarrow> is_min (let b' = b in f b') best V"
  by simp

lemma is_min_branch:
  "is_min b best W \<Longrightarrow> (c \<Longrightarrow> is_min r b V) \<Longrightarrow> (\<And>b. is_min b best (W \<union> (if c then V else {})) \<Longrightarrow> is_min (f b) best U)
   \<Longrightarrow> is_min (let b' = (if c then r else b) in f b') best U"
  by (cases c) (simp_all add: is_min_then)

lemma number_tile: "isNumberTile i \<longleftrightarrow> i < 27"
  by (auto simp: isNumberTile_def)

lemma taatsu_guards:
  assumes "isNumberTile i"
  shows "i + 1 < 34 \<and> suitOf i = suitOf (i + 1) \<longleftrightarrow> taatsu_ok (Side i)" "i + 2 < 34 \<and> suitOf i = suitOf (i + 2) \<longleftrightarrow> taatsu_ok (Gap i)"
proof -
  have "i \<in> set [0..<27]" using assms by (simp add: number_tile)
  then show "i + 1 < 34 \<and> suitOf i = suitOf (i + 1) \<longleftrightarrow> taatsu_ok (Side i)" "i + 2 < 34 \<and> suitOf i = suitOf (i + 2) \<longleftrightarrow> taatsu_ok (Gap i)"
    by (simp_all add: upt_rec suitOf_def) (elim disjE; simp)+
qed

lemma base_worth: "m \<le> 4 \<Longrightarrow> worth m p t 0 0 0 \<in> worths h m p t"
  by (rule worthsI [of h p "[]" "[]" "[]"]) (auto simp: grouping_def)

lemma worths_empty_hand:
  assumes "firstTile h = None" "m \<le> 4"
  shows "worths h m p t = {worth m p t 0 0 0}"
proof -
  have "hand_tiles h = {#}" using assms(1) by (simp add: firstTile_None hand_tiles_empty)
  then have "bs = [] \<and> qs = [] \<and> ss = []" if "grouping h p bs qs ss" for bs qs ss
    using that by (cases bs; cases qs; cases ss) (auto simp: grouping_def elim!: block_tiles.elims taatsu_tiles.elims)
  then have "worths h m p t \<subseteq> {worth m p t 0 0 0}" by (fastforce elim: worthsE)
  then show ?thesis using base_worth [OF assms(2)] by blast
qed

text \<open>The search at a hand whose first tile is \<open>i\<close>, branch by branch.\<close>

lemma dfs_step:
  assumes "m \<le> 4" "firstTile h = Some i"
  shows "dfsNormalShanten h m p t best =
    (let b = (if worth m p t 0 0 0 < best then worth m p t 0 0 0 else best);
         b = (if 3 \<le> h ! i then dfsNormalShanten (cut1 h i 3) (m + 1) p t b else b);
         b = (if block_ok (Run i) \<and> 0 < h ! i \<and> 0 < h ! (i + 1) \<and> 0 < h ! (i + 2)
              then dfsNormalShanten (cut3 h i) (m + 1) p t b else b);
         b = (if p = 0 \<and> 2 \<le> h ! i then dfsNormalShanten (cut1 h i 2) m 1 t b else b);
         b = (if taatsu_ok (Side i) \<and> 0 < h ! i \<and> 0 < h ! (i + 1)
              then dfsNormalShanten (cut2 h i (i + 1)) m p (t + 1) b else b);
         b = (if taatsu_ok (Gap i) \<and> 0 < h ! i \<and> 0 < h ! (i + 2)
              then dfsNormalShanten (cut2 h i (i + 2)) m p (t + 1) b else b)
     in dfsNormalShanten (cut1 h i 1) m p t b)"
proof -
  have w: "8 - 2 * m - (if 4 - m < t then 4 - m else t) - p = worth m p t 0 0 0" by (auto simp: worth_def)
  have n4: "\<not> 4 < m" using assms(1) by simp
  show ?thesis
  proof (cases "isNumberTile i")
    case True
    have r: "i + 2 < 34 \<and> suitOf i = suitOf (i + 1) \<and> suitOf i = suitOf (i + 2) \<longleftrightarrow> block_ok (Run i)" using run_guard [of i] True by simp
    note tg = taatsu_guards [OF True]
    show ?thesis
      by (subst dfsNormalShanten.simps)
        (simp only: assms(2) n4 if_False if_True option.case True simp_thms w Let_def r [symmetric] tg [symmetric] conj_assoc)
  next
    case False
    then have "\<not> block_ok (Run i)" "\<not> taatsu_ok (Side i)" "\<not> taatsu_ok (Gap i)" by (auto simp: number_tile)
    then show ?thesis
      by (subst dfsNormalShanten.simps) (simp only: assms(2) n4 option.case False simp_thms w Let_def if_False if_True)
  qed
qed

lemma dfs_min: "length h = 34 \<Longrightarrow> is_min (dfsNormalShanten h m p t best) best (worths h m p t)"
proof (induction "sum_list h" arbitrary: h m p t best rule: less_induct)
  case less
  show ?case
  proof (cases "m \<le> 4")
    case False
    then have "worths h m p t = {}" by (auto simp: worths_def)
    moreover have "dfsNormalShanten h m p t best = best" using False by (subst dfsNormalShanten.simps) simp
    ultimately show ?thesis by (simp add: is_min_empty)
  next
    case m: True
    show ?thesis
    proof (cases "firstTile h")
      case None
      have "8 - 2 * m - (if 4 - m < t then 4 - m else t) - p = worth m p t 0 0 0" by (auto simp: worth_def)
      then have "dfsNormalShanten h m p t best = (if worth m p t 0 0 0 < best then worth m p t 0 0 0 else best)"
        using m by (subst dfsNormalShanten.simps) (simp add: None Let_def)
      then show ?thesis by (simp only: worths_empty_hand [OF None m] is_min_single)
    next
      case (Some i)
      have i: "i < length h" "0 < h ! i" using firstTile_Some [OF Some] by simp_all
      have IH: "is_min (dfsNormalShanten h' m' p' t' b) b (worths h' m' p' t')" if "sum_list h' < sum_list h" "length h' = 34" for h' m' p' t' b
        using less.hyps that by blast
      have l: "sum_list (cut1 h i n) < sum_list h" if "0 < n" for n using that i by (intro sum_list_update_lt) auto
      have "sum_list (cut2 h i j) < sum_list h" if "i \<noteq> j" for j using that i by (intro sum_list_update2_lt) auto
      moreover have "sum_list (cut3 h i) < sum_list h" using i by (intro sum_list_update3_lt) auto
      ultimately have "is_min (dfsNormalShanten h m p t best) best ({worth m p t 0 0 0} \<union> step_worths h i m p t)"
        unfolding dfs_step [OF m Some] step_worths_def Un_assoc [symmetric]
        apply (intro is_min_let [OF is_min_single])
        apply (erule is_min_branch, rule IH, simp add: l, simp add: less.prems)+
        apply (erule is_min_then, rule IH, simp add: l, simp add: less.prems)
        done
      moreover have "{worth m p t 0 0 0} \<union> step_worths h i m p t = worths h m p t"
        using base_worth [OF m] worths_step [OF less.prems Some] by blast
      ultimately show ?thesis by simp
    qed
  qed
qed

section \<open>What the shanten number is\<close>

lemma ShantenNormal_min:
  assumes "length h = 34" "0 \<le> n" "n \<le> 4"
  shows "ShantenNormal h n \<in> worths h n 0 0" "v \<in> worths h n 0 0 \<Longrightarrow> ShantenNormal h n \<le> v"
proof -
  have m: "is_min (ShantenNormal h n) 8 (worths h n 0 0)" unfolding ShantenNormal_def by (rule dfs_min [OF assms(1)])
  then show "ShantenNormal h n \<le> v" if "v \<in> worths h n 0 0" using that by (simp add: is_min_def)
  have e: "8 - 2 * n \<in> worths h n 0 0"
    by (rule worthsI [of h 0 "[]" "[]" "[]"]) (use assms in \<open>auto simp: grouping_def worth_def\<close>)
  then have "ShantenNormal h n \<le> 8 - 2 * n" using m by (simp add: is_min_def)
  moreover have "ShantenNormal h n = 8 \<or> ShantenNormal h n \<in> worths h n 0 0" using m by (auto simp: is_min_def)
  ultimately show "ShantenNormal h n \<in> worths h n 0 0" using e assms(2) by (cases "n = 0") auto
qed

lemma size_hand_tiles: "size (hand_tiles h) = sum_list h"
proof -
  have "size (\<Sum>k < n. replicate_mset (h ! k) k) = (\<Sum>k < n. h ! k)" for n by (induction n) auto
  then show ?thesis by (simp add: hand_tiles_def sum_list_sum_nth atLeast0LessThan)
qed

lemma size_group_tiles: "size (group_tiles bs qs ss) = 3 * length bs + 2 * length qs + 2 * length ss"
proof -
  have "size (block_tiles b) = 3" for b by (cases b) auto
  then have "size (blocks_tiles bs) = 3 * length bs" by (induction bs) auto
  moreover have "size (sum_list (map (\<lambda>q. {#q, q#}) qs)) = 2 * length qs" by (induction qs) auto
  moreover have "size (taatsu_tiles s) = 2" for s by (cases s) auto
  then have "size (sum_list (map taatsu_tiles ss)) = 2 * length ss" by (induction ss) auto
  ultimately show ?thesis by (simp add: group_tiles_def)
qed

lemma worth_bounds:
  assumes "grouping h 0 bs qs ss" "n + int (length bs) \<le> 4"
  shows "- 1 \<le> worth n 0 0 (length bs) (length qs) (length ss)"
    "worth n 0 0 (length bs) (length qs) (length ss) = - 1 \<Longrightarrow> length qs = 1 \<and> n + int (length bs) = 4"
  using assms by (auto simp: grouping_def worth_def min_def split: if_splits)

text \<open>A hand of as many tiles as four blocks and a pair wins exactly when its least worth is below zero.\<close>

lemma worth_wins:
  assumes "length h = 34" "0 \<le> n" "n \<le> 4" "int (sum_list h) = 14 - 3 * n"
  shows "- 1 \<in> worths h n 0 0 \<longleftrightarrow> wins_normal h (nat (4 - n))"
proof
  assume "- 1 \<in> worths h n 0 0"
  then obtain bs qs ss where g: "grouping h 0 bs qs ss" "n + int (length bs) \<le> 4" "worth n 0 0 (length bs) (length qs) (length ss) = - 1"
    by (auto elim!: worthsE)
  have l: "length qs = 1" "n + int (length bs) = 4" using worth_bounds(2) [OF g] by auto
  then obtain q where q: "qs = [q]" by (auto simp: length_Suc_conv)
  have sub: "group_tiles bs qs ss \<subseteq># hand_tiles h" using g(1) by (simp add: grouping_def)
  then have "size (group_tiles bs qs ss) \<le> size (hand_tiles h)" by (rule size_mset_mono)
  then have ss: "ss = []" using assms(4) l by (simp add: size_group_tiles size_hand_tiles flip: length_0_conv)
  have "group_tiles bs qs ss = hand_tiles h"
    using sub mset_subset_size [of "group_tiles bs qs ss" "hand_tiles h"] assms(4) l ss
    by (auto simp: size_group_tiles size_hand_tiles subset_mset.less_le)
  then show "wins_normal h (nat (4 - n))" using g(1) l unfolding wins_normal_def
    by (intro exI [of _ q] exI [of _ bs]) (auto simp: grouping_def q ss group_tiles_def)
next
  assume "wins_normal h (nat (4 - n))"
  then obtain j bs where w: "j < 34" "length bs = nat (4 - n)" "list_all block_ok bs" "hand_tiles h = {#j, j#} + blocks_tiles bs"
    by (auto simp: wins_normal_def)
  have "grouping h 0 bs [j] []" using w by (simp add: grouping_def group_tiles_def)
  then show "- 1 \<in> worths h n 0 0" by (rule worthsI) (use w(2) assms(2,3) in \<open>auto simp: worth_def\<close>)
qed

text \<open>C20: the shanten number the search returns is attained by some way of taking melds, at most one pair
  and two-tile shapes out of the hand, and no way of doing so is closer to a winning hand: the
  depth-first search with its shared best value misses nothing.\<close>

theorem ShantenNormal_spec:
  assumes "length h = 34" "0 \<le> n" "n \<le> 4"
  shows "(\<exists>bs qs ss. grouping h 0 bs qs ss \<and> n + int (length bs) \<le> 4
            \<and> ShantenNormal h n = worth n 0 0 (length bs) (length qs) (length ss))
       \<and> (\<forall>bs qs ss. grouping h 0 bs qs ss \<and> n + int (length bs) \<le> 4
            \<longrightarrow> ShantenNormal h n \<le> worth n 0 0 (length bs) (length qs) (length ss))"
  using ShantenNormal_min [OF assms] by (blast elim: worthsE intro: worthsI)

text \<open>C20 on a lone east wind with four melds called: nothing can be grouped, the distance is zero.\<close>

theorem ShantenNormal_spec_witness:
  "ShantenNormal (replicate 27 0 @ [1] @ replicate 6 0) 4 = 0
   \<and> (\<exists>bs qs ss. grouping (replicate 27 0 @ [1] @ replicate 6 0) 0 bs qs ss \<and> worth 4 0 0 (length bs) (length qs) (length ss) = 0)"
proof -
  define h where "h = replicate 27 0 @ [1] @ replicate 6 (0 :: nat)"
  have v: "ShantenNormal h 4 = 0" unfolding h_def by code_simp
  have "length h = 34" by (simp add: h_def)
  from ShantenNormal_spec [OF this, of 4] v show ?thesis unfolding h_def [symmetric] by (simp only: v) force
qed

text \<open>C21: the shanten number and the winning test agree.  With \<open>n\<close> melds called and \<open>14 - 3 n\<close> tiles in hand
  the number is \<open>- 1\<close> exactly for the hands \<open>IsAgariNormal\<close> accepts, and it lies between \<open>- 1\<close> and \<open>8 - 2 n\<close>.\<close>

theorem ShantenNormal_agari:
  assumes "length h = 34" "0 \<le> n" "n \<le> 4" "int (sum_list h) = 14 - 3 * n"
  shows "(ShantenNormal h n = - 1 \<longleftrightarrow> IsAgariNormal h n) \<and> - 1 \<le> ShantenNormal h n \<and> ShantenNormal h n \<le> 8 - 2 * n"
proof -
  note m = ShantenNormal_min [OF assms(1-3)]
  have lo: "- 1 \<le> ShantenNormal h n" using m(1) worth_bounds(1) by (auto elim!: worthsE)
  have "8 - 2 * n \<in> worths h n 0 0"
    by (rule worthsI [of h 0 "[]" "[]" "[]"]) (use assms in \<open>auto simp: grouping_def worth_def\<close>)
  moreover have "ShantenNormal h n = - 1 \<longleftrightarrow> - 1 \<in> worths h n 0 0" using m lo by (metis order_antisym)
  ultimately show ?thesis using m(2) lo by (simp add: worth_wins [OF assms] IsAgariNormal_wins [OF assms(1,3)])
qed

text \<open>C21 on a pair of east winds with four melds called, a winning hand.\<close>

theorem ShantenNormal_agari_witness:
  "IsAgariNormal (replicate 27 0 @ [2] @ replicate 6 0) 4 \<and> ShantenNormal (replicate 27 0 @ [2] @ replicate 6 0) 4 = - 1"
proof -
  have "IsAgariNormal (replicate 27 0 @ [2] @ replicate 6 0) 4" by code_simp
  then show ?thesis using ShantenNormal_agari [of "replicate 27 0 @ [2] @ replicate 6 0" 4] by (simp add: sum_list_replicate)
qed

text \<open>Two pairs are a ready hand the search does not recognise.  With three melds called, a pair of east and a
  pair of south winds wait for either wind, yet the shanten number is one: a second pair is never counted as a shape.\<close>

lemma ShantenNormal_two_pairs:
  "waits_of (replicate 27 0 @ [2, 2] @ replicate 5 0) 3 = [27, 28]
   \<and> ShantenNormal (replicate 27 0 @ [2, 2] @ replicate 5 0) 3 = 1"
  by code_simp

end
