(* ===== verification/Player.thy ===== *)
theory Player
  imports Deck
begin

text \<open>
  The state of one seat: \<^verbatim>\<open>game/runtime/engines/mahjong/player_image.go\<close>.  \<open>DiscardedTiles\<close>, a Go set,
  is a set; \<open>TenpaiWaits\<close>, of which the engine only takes the length, is an association list.
  \<open>holding\<close> abstracts a player to the tiles he holds, has discarded or has melded.
\<close>

record TenpaiWaitState =
  Furiten :: bool
  RonHasYaku :: bool
  TsumoHasYaku :: bool

record PlayerImage =
  UserID :: string
  SeatIndex :: int
  Tiles :: "Tile list"
  DiscardPile :: "Tile list"
  Melds :: "Meld list"
  IsRiichi :: bool
  IsWaiting :: bool
  DiscardedTiles :: "TileType set"
  NewestTile :: "Tile option"
  Points :: int
  TenpaiWaits :: "(TileType \<times> TenpaiWaitState) list"
  TenpaiValid :: bool

definition NewPlayerImage :: "string \<Rightarrow> int \<Rightarrow> int \<Rightarrow> PlayerImage" where
  "NewPlayerImage userID seatIndex initialPoints =
     \<lparr>UserID = userID, SeatIndex = seatIndex, Tiles = [], DiscardPile = [], Melds = [],
      IsRiichi = False, IsWaiting = False, DiscardedTiles = {}, NewestTile = None,
      Points = initialPoints, TenpaiWaits = [], TenpaiValid = False\<rparr>"

definition AddDiscardedTile :: "Tile \<Rightarrow> PlayerImage \<Rightarrow> PlayerImage" where
  "AddDiscardedTile t p = p\<lparr>DiscardedTiles := insert (tType t) (DiscardedTiles p)\<rparr>"

definition HasDiscardedTile :: "TileType \<Rightarrow> PlayerImage \<Rightarrow> bool" where
  "HasDiscardedTile tt p \<longleftrightarrow> tt \<in> DiscardedTiles p"

definition SetNewestTile :: "Tile option \<Rightarrow> PlayerImage \<Rightarrow> PlayerImage" where
  "SetNewestTile t p = p\<lparr>NewestTile := t\<rparr>"

definition GetNewestTile :: "PlayerImage \<Rightarrow> Tile option" where
  "GetNewestTile p = NewestTile p"

definition AddPoints :: "int \<Rightarrow> PlayerImage \<Rightarrow> PlayerImage" where
  "AddPoints n p = p\<lparr>Points := Points p + n\<rparr>"

definition SubtractPoints :: "int \<Rightarrow> PlayerImage \<Rightarrow> PlayerImage" where
  "SubtractPoints n p = p\<lparr>Points := Points p - n\<rparr>"

definition GetPoints :: "PlayerImage \<Rightarrow> int" where
  "GetPoints p = Points p"

definition AddTile :: "Tile \<Rightarrow> PlayerImage \<Rightarrow> PlayerImage" where
  "AddTile t p = p\<lparr>Tiles := Tiles p @ [t]\<rparr>"

definition DrawTile :: "Tile \<Rightarrow> PlayerImage \<Rightarrow> PlayerImage" where
  "DrawTile t p = p\<lparr>Tiles := Tiles p @ [t], NewestTile := Some t\<rparr>"

text \<open>The loop of \<open>RemoveTile\<close> over the slice: the first tile equal to \<open>t\<close> is cut out.\<close>

fun cut_tile :: "Tile \<Rightarrow> Tile list \<Rightarrow> Tile list option" where
  "cut_tile t [] = None"
| "cut_tile t (x # xs) =
     (if tType x = tType t \<and> tID x = tID t then Some xs else map_option (Cons x) (cut_tile t xs))"

definition RemoveTile :: "Tile \<Rightarrow> PlayerImage \<Rightarrow> bool \<times> PlayerImage" where
  "RemoveTile t p = (case cut_tile t (Tiles p) of
     None \<Rightarrow> (False, p) | Some ts \<Rightarrow> (True, p\<lparr>Tiles := ts\<rparr>))"

definition DiscardTile :: "Tile \<Rightarrow> PlayerImage \<Rightarrow> bool \<times> PlayerImage" where
  "DiscardTile t p = (case RemoveTile t p of
     (False, p1) \<Rightarrow> (False, p1)
   | (True, p1) \<Rightarrow>
       let p2 = AddDiscardedTile t (p1\<lparr>DiscardPile := DiscardPile p1 @ [t]\<rparr>)
       in (True, case NewestTile p2 of
                   Some n \<Rightarrow> if tType n = tType t \<and> tID n = tID t then p2\<lparr>NewestTile := None\<rparr> else p2
                 | None \<Rightarrow> p2))"

definition DiscardNewestOrLast :: "PlayerImage \<Rightarrow> Tile option \<times> PlayerImage" where
  "DiscardNewestOrLast p =
     (if length (Tiles p) \<noteq> 14 then (None, p)
      else let t = (case NewestTile p of Some n \<Rightarrow> n | None \<Rightarrow> last (Tiles p))
           in case DiscardTile t p of (False, p1) \<Rightarrow> (None, p1) | (True, p1) \<Rightarrow> (Some t, p1))"

section \<open>Abstraction\<close>

definition meld_tiles :: "Meld list \<Rightarrow> Tile multiset" where
  "meld_tiles ms = sum_list (map (\<lambda>m. mset (mTiles m)) ms)"

definition holding :: "PlayerImage \<Rightarrow> Tile multiset" where
  "holding p = mset (Tiles p) + mset (DiscardPile p) + meld_tiles (Melds p)"

lemma meld_tiles_simps [simp]:
  "meld_tiles [] = {#}" "meld_tiles (m # ms) = mset (mTiles m) + meld_tiles ms"
  "meld_tiles (ms @ ms') = meld_tiles ms + meld_tiles ms'"
  by (simp_all add: meld_tiles_def)

lemma Tile_eq_iff: "(x :: Tile) = y \<longleftrightarrow> tType x = tType y \<and> tID x = tID y"
  by (cases x, cases y) simp

lemma cut_tile_Some: "cut_tile t xs = Some ys \<Longrightarrow> mset xs = add_mset t (mset ys)"
  by (induction xs arbitrary: ys) (auto simp flip: Tile_eq_iff split: if_splits)

lemma cut_tile_None: "cut_tile t xs = None \<longleftrightarrow> t \<notin> set xs"
  by (induction xs) (auto simp flip: Tile_eq_iff)

lemma cut_tile_eq: "cut_tile t xs = (if t \<in> set xs then Some (remove1 t xs) else None)"
  by (induction xs) (auto simp flip: Tile_eq_iff)

lemma RemoveTile_cases:
  obtains (absent) "t \<notin> set (Tiles p)" "RemoveTile t p = (False, p)"
    | (present) "t \<in> set (Tiles p)" "RemoveTile t p = (True, p\<lparr>Tiles := remove1 t (Tiles p)\<rparr>)"
  by (cases "t \<in> set (Tiles p)") (auto simp: RemoveTile_def cut_tile_eq)

lemma DiscardTile_eq:
  "DiscardTile t p =
     (if t \<in> set (Tiles p)
      then (True, p\<lparr>Tiles := remove1 t (Tiles p), DiscardPile := DiscardPile p @ [t],
                    DiscardedTiles := insert (tType t) (DiscardedTiles p),
                    NewestTile := (if NewestTile p = Some t then None else NewestTile p)\<rparr>)
      else (False, p))"
  by (cases rule: RemoveTile_cases [of t p])
     (auto simp: DiscardTile_def AddDiscardedTile_def Let_def split: option.splits simp flip: Tile_eq_iff)

lemma holding_simps [simp]:
  "holding (AddTile t p) = add_mset t (holding p)"
  "holding (DrawTile t p) = add_mset t (holding p)"
  "holding (AddPoints n p) = holding p"
  by (simp_all add: holding_def AddTile_def DrawTile_def AddPoints_def)

lemma holding_DiscardTile: "DiscardTile t p = (b, p') \<Longrightarrow> holding p' = holding p"
  by (auto simp: DiscardTile_eq holding_def split: if_splits)

lemma DiscardNewestOrLast_Some:
  assumes "DiscardNewestOrLast p = (Some t, p')"
  shows "DiscardTile t p = (True, p')" "length (Tiles p) = 14"
  using assms by (auto simp: DiscardNewestOrLast_def Let_def split: if_splits option.splits prod.splits bool.splits)

lemma DiscardNewestOrLast_None: "DiscardNewestOrLast p = (None, p') \<Longrightarrow> p' = p"
  by (auto simp: DiscardNewestOrLast_def Let_def DiscardTile_eq split: if_splits option.splits prod.splits bool.splits)

section \<open>Properties\<close>

text \<open>\<open>DiscardTile\<close> succeeds exactly when the tile is in the hand; then exactly one copy leaves the
  hand, becomes the last tile of the discard pile and its type is furiten from then on, the melds,
  points and riichi flags are untouched; otherwise nothing changes.\<close>

lemma DiscardTile_spec:
  "DiscardTile t p = (b, p') \<longleftrightarrow>
     (if t \<in> set (Tiles p)
      then b \<and> p' = p\<lparr>Tiles := remove1 t (Tiles p), DiscardPile := DiscardPile p @ [t],
                      DiscardedTiles := insert (tType t) (DiscardedTiles p),
                      NewestTile := (if NewestTile p = Some t then None else NewestTile p)\<rparr>
      else \<not> b \<and> p' = p)"
  by (auto simp: DiscardTile_eq)

end
