(* ===== verification/Options.thy ===== *)
theory Options
  imports Player
begin

text \<open>
  What the other players may do with a discarded tile:
  \<^verbatim>\<open>game/runtime/engines/mahjong/checker.go\<close> and \<^verbatim>\<open>game/runtime/engines/mahjong/opt_selector.go\<close>.

  The engine's array \<open>Players\<close> is a parameter; an index outside the array panics, \<open>None\<close>.  The map of
  reactions is an association list with distinct seats.
\<close>

type_synonym reactions = "(int \<times> PlayerReaction) list"

section \<open>Checks\<close>

definition canHu :: "PlayerImage option list \<Rightarrow> int \<Rightarrow> Tile \<Rightarrow> bool option" where
  "canHu players seatIndex tile = do {
     player \<leftarrow> idx players seatIndex;
     Some (case player of None \<Rightarrow> False | Some p \<Rightarrow> if \<not> IsWaiting p then False else False)
   }"

definition count_type :: "TileType \<Rightarrow> Tile list \<Rightarrow> nat" where
  "count_type tt ts = length (filter (\<lambda>t. tType t = tt) ts)"

definition canGang :: "PlayerImage option list \<Rightarrow> int \<Rightarrow> Tile \<Rightarrow> bool option" where
  "canGang players seatIndex tile = do {
     player \<leftarrow> idx players seatIndex;
     Some (case player of None \<Rightarrow> False | Some p \<Rightarrow> 3 \<le> count_type (tType tile) (Tiles p))
   }"

definition canPeng :: "PlayerImage option list \<Rightarrow> int \<Rightarrow> Tile \<Rightarrow> bool option" where
  "canPeng players seatIndex tile = do {
     player \<leftarrow> idx players seatIndex;
     Some (case player of None \<Rightarrow> False | Some p \<Rightarrow> 2 \<le> count_type (tType tile) (Tiles p))
   }"

definition canChi :: "PlayerImage option list \<Rightarrow> int \<Rightarrow> Tile \<Rightarrow> bool option" where
  "canChi players seatIndex tile = do {
     player \<leftarrow> idx players seatIndex;
     Some (case player of None \<Rightarrow> False | Some p \<Rightarrow> False)
   }"

section \<open>Options\<close>

definition isSameTile :: "Tile \<Rightarrow> Tile \<Rightarrow> bool" where
  "isSameTile tile1 tile2 = (if tType tile1 \<noteq> tType tile2 then False else True)"

definition getPengOptions :: "PlayerImage option list \<Rightarrow> int \<Rightarrow> Tile \<Rightarrow> PlayerOperation list option" where
  "getPengOptions players seatIndex droppedTile = do {
     ok \<leftarrow> canPeng players seatIndex droppedTile;
     if \<not> ok then Some []
     else do {
       player \<leftarrow> idx players seatIndex;
       p \<leftarrow> player;
       let m = filter (\<lambda>t. isSameTile t droppedTile) (Tiles p);
       if length m < 2 then Some []
       else Some (concat (map (\<lambda>i. map (\<lambda>j. \<lparr>opType = ''PENG'', opTiles = [m ! i, m ! j]\<rparr>) [i + 1..<length m]) [0..<length m]))
     }
   }"

definition getGangOptions :: "PlayerImage option list \<Rightarrow> int \<Rightarrow> Tile \<Rightarrow> PlayerOperation list option" where
  "getGangOptions players seatIndex droppedTile = do {
     ok \<leftarrow> canGang players seatIndex droppedTile;
     if \<not> ok then Some []
     else do {
       player \<leftarrow> idx players seatIndex;
       case player of
         None \<Rightarrow> Some []
       | Some p \<Rightarrow>
           let m = filter (\<lambda>t. isSameTile t droppedTile) (Tiles p)
           in if length m < 3 then Some []
              else Some (concat (map (\<lambda>i. concat (map (\<lambda>j. map (\<lambda>k.
                       \<lparr>opType = ''GANG'', opTiles = [m ! i, m ! j, m ! k]\<rparr>)
                     [j + 1..<length m]) [i + 1..<length m])) [0..<length m]))
     }
   }"

definition findChiCombinations :: "Tile list \<Rightarrow> Tile \<Rightarrow> Tile list list" where
  "findChiCombinations hand droppedTile = []"

definition getChiOptions :: "PlayerImage option list \<Rightarrow> int \<Rightarrow> Tile \<Rightarrow> PlayerOperation list option" where
  "getChiOptions players seatIndex droppedTile = do {
     ok \<leftarrow> canChi players seatIndex droppedTile;
     if \<not> ok then Some []
     else do {
       player \<leftarrow> idx players seatIndex;
       p \<leftarrow> player;
       Some (map (\<lambda>combo. \<lparr>opType = ''CHI'', opTiles = combo\<rparr>) (findChiCombinations (Tiles p) droppedTile))
     }
   }"

text \<open>One iteration of the loop over the seats: the operations of seat \<open>i\<close>.\<close>

definition seatOperations :: "PlayerImage option list \<Rightarrow> int \<Rightarrow> Tile \<Rightarrow> int \<Rightarrow> PlayerOperation list option" where
  "seatOperations players droppingPlayer droppedTile i = do {
     hu \<leftarrow> canHu players i droppedTile;
     gangOps \<leftarrow> getGangOptions players i droppedTile;
     pengOps \<leftarrow> getPengOptions players i droppedTile;
     chiOps \<leftarrow> (if (droppingPlayer + 1) smod 4 = i then getChiOptions players i droppedTile else Some []);
     Some ((if hu then [\<lparr>opType = ''HU'', opTiles = [droppedTile]\<rparr>] else []) @ gangOps @ pengOps @ chiOps)
   }"

fun operations_loop :: "PlayerImage option list \<Rightarrow> int \<Rightarrow> Tile \<Rightarrow> int \<Rightarrow> int list \<Rightarrow> reactions option" where
  "operations_loop players droppingPlayer droppedTile excludeSeat [] = Some []"
| "operations_loop players droppingPlayer droppedTile excludeSeat (i # is) =
     (if i = excludeSeat then operations_loop players droppingPlayer droppedTile excludeSeat is
      else do {
        playerOps \<leftarrow> seatOperations players droppingPlayer droppedTile i;
        rest \<leftarrow> operations_loop players droppingPlayer droppedTile excludeSeat is;
        Some (if 0 < length playerOps
              then (i, \<lparr>Operations = playerOps, ChosenOp = None, Responded = False\<rparr>) # rest else rest)
      })"

definition calculateAvailableOperations :: "PlayerImage option list \<Rightarrow> int \<Rightarrow> int \<Rightarrow> reactions option" where
  "calculateAvailableOperations players droppingPlayer excludeSeat = do {
     obj \<leftarrow> idx players droppingPlayer;
     case obj of
       None \<Rightarrow> Some []
     | Some p \<Rightarrow>
         if length (DiscardPile p) = 0 then Some []
         else operations_loop players droppingPlayer (last (DiscardPile p)) excludeSeat [0, 1, 2, 3]
   }"

section \<open>What is offered\<close>

lemma same_filter: "filter (\<lambda>t. isSameTile t d) ts = filter (\<lambda>t. tType t = tType d) ts"
  by (simp add: isSameTile_def)

lemma getPengOptions_eq:
  assumes "idx players i = Some (Some p)" "m = filter (\<lambda>t. tType t = tType d) (Tiles p)"
  shows "getPengOptions players i d = Some [\<lparr>opType = ''PENG'', opTiles = [m ! a, m ! b]\<rparr>. a \<leftarrow> [0..<length m], b \<leftarrow> [a + 1..<length m]]"
proof (cases "length m < 2")
  case True
  then have "[0..<length m] = [] \<or> [0..<length m] = [0] \<and> length m = 1" by (cases "length m") auto
  with True show ?thesis using assms
    by (auto simp: getPengOptions_def canPeng_def count_type_def same_filter)
next
  case False
  then show ?thesis using assms by (simp add: getPengOptions_def canPeng_def count_type_def same_filter Let_def)
qed

lemma getGangOptions_eq:
  assumes "idx players i = Some (Some p)" "m = filter (\<lambda>t. tType t = tType d) (Tiles p)"
  shows "getGangOptions players i d = Some [\<lparr>opType = ''GANG'', opTiles = [m ! a, m ! b, m ! c]\<rparr>.
     a \<leftarrow> [0..<length m], b \<leftarrow> [a + 1..<length m], c \<leftarrow> [b + 1..<length m]]"
proof (cases "length m < 3")
  case True
  then consider "length m = 0" | "length m = 1" | "length m = 2" by linarith
  then have "[\<lparr>opType = ''GANG'', opTiles = [m ! a, m ! b, m ! c]\<rparr>.
     a \<leftarrow> [0..<length m], b \<leftarrow> [a + 1..<length m], c \<leftarrow> [b + 1..<length m]] = ([] :: PlayerOperation list)"
    by cases (simp_all add: upt_rec)
  with True show ?thesis using assms by (simp add: getGangOptions_def canGang_def count_type_def same_filter)
next
  case False
  then show ?thesis using assms by (simp add: getGangOptions_def canGang_def count_type_def same_filter Let_def)
qed

lemma seatOperations_eq:
  assumes "idx players i = Some (Some p)"
  obtains gs ps where "seatOperations players dp d i = Some (gs @ ps)"
    "getGangOptions players i d = Some gs" "getPengOptions players i d = Some ps"
  using assms that getGangOptions_eq [OF assms refl] getPengOptions_eq [OF assms refl]
  by (simp add: seatOperations_def canHu_def getChiOptions_def canChi_def)

text \<open>An operation offered by the engine: peng with two, gang with three of the matching tiles in hand.\<close>

definition offered :: "PlayerImage option list \<Rightarrow> Tile \<Rightarrow> int \<Rightarrow> PlayerOperation \<Rightarrow> bool" where
  "offered players d i op \<longleftrightarrow> (\<exists>p. idx players i = Some (Some p) \<and> (\<forall>t \<in> set (opTiles op). tType t = tType d)
     \<and> mset (opTiles op) \<subseteq># mset (Tiles p)
     \<and> (opType op = ''PENG'' \<and> length (opTiles op) = 2 \<or> opType op = ''GANG'' \<and> length (opTiles op) = 3))"

lemma nths2_subset: "a < b \<Longrightarrow> b < length m \<Longrightarrow> mset [m ! a, m ! b] \<subseteq># mset m"
proof (induction m arbitrary: a b)
  case (Cons x m)
  then obtain b' where b: "b = Suc b'" by (cases b) auto
  show ?case
  proof (cases a)
    case 0
    with Cons.prems b show ?thesis by simp
  next
    case (Suc a')
    with Cons b have "mset [m ! a', m ! b'] \<subseteq># mset m" by simp
    then show ?thesis using Suc b by (simp add: subset_mset.le_add_same_cancel1 add_mset_commute mset_subset_eq_add_mset_cancel
      subset_mset.order_trans [of _ "mset m"])
  qed
qed simp

lemma pair_positions:
  assumes "{#x, y#} \<subseteq># mset m"
  obtains a b where "a < b" "b < length m" "{#m ! a, m ! b#} = {#x, y#}"
  using assms
proof (induction m arbitrary: thesis)
  case (Cons z m)
  consider "z = x" "y \<in> set m" | "z = y" "x \<in> set m" | "{#x, y#} \<subseteq># mset m"
    using Cons.prems(2) by (cases "z = x"; cases "z = y") (auto simp: insert_subset_eq_iff diff_add_mset_swap)
  then show ?case
  proof cases
    case 1
    then obtain k where "k < length m" "m ! k = y" by (auto simp: in_set_conv_nth)
    with 1 show ?thesis using Cons.prems(1) [of 0 "Suc k"] by simp
  next
    case 2
    then obtain k where "k < length m" "m ! k = x" by (auto simp: in_set_conv_nth)
    with 2 show ?thesis using Cons.prems(1) [of 0 "Suc k"] by (simp add: add_mset_commute)
  next
    case 3
    then obtain a b where "a < b" "b < length m" "{#m ! a, m ! b#} = {#x, y#}" using Cons.IH by blast
    then show ?thesis using Cons.prems(1) [of "Suc a" "Suc b"] by simp
  qed
qed simp

lemma nths3_subset: "a < b \<Longrightarrow> b < c \<Longrightarrow> c < length m \<Longrightarrow> mset [m ! a, m ! b, m ! c] \<subseteq># mset m"
proof (induction m arbitrary: a b c)
  case (Cons x m)
  then obtain b' c' where b: "b = Suc b'" "c = Suc c'" by (cases b; cases c) auto
  show ?case
  proof (cases a)
    case 0
    with Cons.prems b nths2_subset [of b' c' m] show ?thesis by (simp add: add_mset_commute)
  next
    case (Suc a')
    with Cons b have "mset [m ! a', m ! b', m ! c'] \<subseteq># mset m" by simp
    then show ?thesis using Suc b by (simp add: subset_mset.order_trans [of _ "mset m"])
  qed
qed simp

lemma seatOperations_offered:
  assumes "idx players i = Some (Some p)"
  shows "wp (seatOperations players dp d i) (\<lambda>ops. \<forall>op \<in> set ops. offered players d i op)"
proof -
  define m where "m = filter (\<lambda>t. tType t = tType d) (Tiles p)"
  obtain gs ps where ops: "seatOperations players dp d i = Some (gs @ ps)"
    and gs: "getGangOptions players i d = Some gs" and ps: "getPengOptions players i d = Some ps"
    using seatOperations_eq [OF assms] .
  have m: "mset m \<subseteq># mset (Tiles p)" "\<forall>t \<in> set m. tType t = tType d" by (auto simp: m_def)
  have "offered players d i op" if "op \<in> set ps" for op
  proof -
    from that obtain a b where "a < b" "b < length m" "op = \<lparr>opType = ''PENG'', opTiles = [m ! a, m ! b]\<rparr>"
      using ps unfolding getPengOptions_eq [OF assms m_def] by (auto simp: Suc_le_eq)
    with nths2_subset [of a b m] m assms show ?thesis by (auto simp: offered_def)
  qed
  moreover have "offered players d i op" if "op \<in> set gs" for op
  proof -
    from that obtain a b c where "a < b" "b < c" "c < length m" "op = \<lparr>opType = ''GANG'', opTiles = [m ! a, m ! b, m ! c]\<rparr>"
      using gs unfolding getGangOptions_eq [OF assms m_def] by (auto simp: Suc_le_eq)
    with nths3_subset [of a b c m] m assms show ?thesis by (auto simp: offered_def)
  qed
  ultimately show ?thesis using ops by auto
qed

text \<open>The reactions a discard opens: seats other than the discarder's, each with something to choose.\<close>

definition reactions_ok :: "PlayerImage option list \<Rightarrow> Tile \<Rightarrow> int \<Rightarrow> reactions \<Rightarrow> bool" where
  "reactions_ok players d excludeSeat rs \<longleftrightarrow> distinct (map fst rs) \<and>
     (\<forall>e \<in> set rs. fst e \<in> {0, 1, 2, 3} - {excludeSeat} \<and> Operations (snd e) \<noteq> [] \<and> ChosenOp (snd e) = None
        \<and> \<not> Responded (snd e) \<and> (\<forall>op \<in> set (Operations (snd e)). offered players d (fst e) op))"

lemma operations_loop_eq:
  "\<forall>i \<in> set is. seatOperations players dp d i = Some (ops i) \<Longrightarrow>
   operations_loop players dp d ex is = Some (map (\<lambda>i. (i, \<lparr>Operations = ops i, ChosenOp = None, Responded = False\<rparr>))
     (filter (\<lambda>i. i \<noteq> ex \<and> ops i \<noteq> []) is))"
  by (induction "is") auto

lemma calculateAvailableOperations_eq:
  assumes "length players = 4" "\<forall>p \<in> set players. p \<noteq> None" "0 \<le> dp" "dp < 4"
    "players ! nat dp = Some p"
  obtains ops where "\<forall>i \<in> {0, 1, 2, 3}. seatOperations players dp (last (DiscardPile p)) i = Some (ops i)"
    "\<forall>i \<in> {0, 1, 2, 3}. \<forall>op \<in> set (ops i). offered players (last (DiscardPile p)) i op"
    "calculateAvailableOperations players dp ex = Some (if DiscardPile p = [] then []
       else map (\<lambda>i. (i, \<lparr>Operations = ops i, ChosenOp = None, Responded = False\<rparr>))
         (filter (\<lambda>i. i \<noteq> ex \<and> ops i \<noteq> []) [0, 1, 2, 3]))"
proof -
  let ?d = "last (DiscardPile p)"
  have "\<exists>q. idx players i = Some (Some q)" if "i \<in> {0, 1, 2, 3}" for i
  proof -
    have "idx players i = Some (players ! nat i)" "players ! nat i \<in> set players"
      using that assms(1) by (auto simp: idx_def)
    then show ?thesis using assms(2) by fastforce
  qed
  note at = this
  have "\<forall>i \<in> {0, 1, 2, 3}. \<exists>ops. seatOperations players dp ?d i = Some ops \<and> (\<forall>op \<in> set ops. offered players ?d i op)"
  proof
    fix i :: int assume "i \<in> {0, 1, 2, 3}"
    from at [OF this] obtain q where "idx players i = Some (Some q)" ..
    from seatOperations_offered [OF this] show "\<exists>ops. seatOperations players dp ?d i = Some ops \<and> (\<forall>op \<in> set ops. offered players ?d i op)"
      unfolding wp_iff .
  qed
  then obtain ops where ops: "\<forall>i \<in> {0, 1, 2, 3}. seatOperations players dp ?d i = Some (ops i) \<and> (\<forall>op \<in> set (ops i). offered players ?d i op)"
    using bchoice [of "{0, 1, 2, 3}" "\<lambda>i ops. seatOperations players dp ?d i = Some ops \<and> (\<forall>op \<in> set ops. offered players ?d i op)"] by blast
  then have "operations_loop players dp ?d ex [0, 1, 2, 3] = Some (map (\<lambda>i. (i, \<lparr>Operations = ops i, ChosenOp = None, Responded = False\<rparr>))
         (filter (\<lambda>i. i \<noteq> ex \<and> ops i \<noteq> []) [0, 1, 2, 3]))"
    by (intro operations_loop_eq) simp
  then have "calculateAvailableOperations players dp ex = Some (if DiscardPile p = [] then []
       else map (\<lambda>i. (i, \<lparr>Operations = ops i, ChosenOp = None, Responded = False\<rparr>))
         (filter (\<lambda>i. i \<noteq> ex \<and> ops i \<noteq> []) [0, 1, 2, 3]))"
    using assms unfolding calculateAvailableOperations_def by (simp add: idx_in_range)
  with ops show ?thesis by (intro that [of ops]) auto
qed

lemma calculateAvailableOperations_wp:
  assumes "length players = 4" "\<forall>p \<in> set players. p \<noteq> None" "0 \<le> dp" "dp < 4"
    "players ! nat dp = Some p"
  shows "wp (calculateAvailableOperations players dp ex)
     (\<lambda>rs. reactions_ok players (last (DiscardPile p)) ex rs \<and> (DiscardPile p = [] \<longrightarrow> rs = []))"
  by (rule calculateAvailableOperations_eq [OF assms, of ex]) (simp add: reactions_ok_def)

text \<open>C15: With four players present and a discard on the pile, the operations offered to the others
  are correct and complete: only other seats get a reaction, every offered operation is a peng of
  two or an open gang of three tiles of the discard's type which that seat holds, and whoever holds
  two such tiles is offered the peng with them.\<close>

theorem calculateAvailableOperations_spec:
  assumes "length players = 4" "\<forall>p \<in> set players. p \<noteq> None" "0 \<le> dp" "dp < 4"
    "players ! nat dp = Some p" "DiscardPile p \<noteq> []"
  shows "\<exists>rs. calculateAvailableOperations players dp ex = Some rs \<and> reactions_ok players (last (DiscardPile p)) ex rs
     \<and> (\<forall>i \<in> {0, 1, 2, 3} - {ex}. \<forall>q x y. players ! nat i = Some q \<longrightarrow> {#x, y#} \<subseteq># mset (Tiles q)
          \<longrightarrow> tType x = tType (last (DiscardPile p)) \<longrightarrow> tType y = tType (last (DiscardPile p))
          \<longrightarrow> (\<exists>r op. (i, r) \<in> set rs \<and> op \<in> set (Operations r) \<and> opType op = ''PENG'' \<and> mset (opTiles op) = {#x, y#}))"
proof -
  let ?d = "last (DiscardPile p)"
  obtain ops where ops: "\<forall>i \<in> {0, 1, 2, 3}. seatOperations players dp ?d i = Some (ops i)"
    "\<forall>i \<in> {0, 1, 2, 3}. \<forall>op \<in> set (ops i). offered players ?d i op"
    "calculateAvailableOperations players dp ex = Some (if DiscardPile p = [] then []
       else map (\<lambda>i. (i, \<lparr>Operations = ops i, ChosenOp = None, Responded = False\<rparr>)) (filter (\<lambda>i. i \<noteq> ex \<and> ops i \<noteq> []) [0, 1, 2, 3]))"
    using calculateAvailableOperations_eq [OF assms(1-5)] .
  have peng: "\<exists>op \<in> set (ops i). opType op = ''PENG'' \<and> mset (opTiles op) = {#x, y#}"
    if i: "i \<in> {0, 1, 2, 3}" and q: "players ! nat i = Some q" and xy: "{#x, y#} \<subseteq># mset (Tiles q)"
      "tType x = tType ?d" "tType y = tType ?d" for i q x y
  proof -
    have at: "idx players i = Some (Some q)" using i q assms(1) by (auto simp: idx_def)
    define m where "m = filter (\<lambda>t. tType t = tType ?d) (Tiles q)"
    have "{#x, y#} \<subseteq># mset m" using xy multiset_filter_mono [OF xy(1), of "\<lambda>t. tType t = tType ?d"] by (simp add: m_def)
    from pair_positions [OF this] obtain a b where ab: "a < b" "b < length m" "{#m ! a, m ! b#} = {#x, y#}" .
    obtain gs ps where s: "seatOperations players dp ?d i = Some (gs @ ps)" "getPengOptions players i ?d = Some ps"
      using seatOperations_eq [OF at] .
    have "\<lparr>opType = ''PENG'', opTiles = [m ! a, m ! b]\<rparr> \<in> set ps"
      using ab(1,2) s(2) unfolding getPengOptions_eq [OF at m_def] by (force simp: Suc_le_eq)
    moreover have "ops i = gs @ ps" using ops(1) i s(1) by auto
    ultimately show ?thesis using ab(3) by force
  qed
  have "reactions_ok players ?d ex (the (calculateAvailableOperations players dp ex))"
    using calculateAvailableOperations_wp [OF assms(1-5), of ex] by (auto simp: wp_iff)
  moreover have "\<exists>r op. (i, r) \<in> set (the (calculateAvailableOperations players dp ex)) \<and> op \<in> set (Operations r)
      \<and> opType op = ''PENG'' \<and> mset (opTiles op) = {#x, y#}"
    if "i \<in> {0, 1, 2, 3} - {ex}" "players ! nat i = Some q" "{#x, y#} \<subseteq># mset (Tiles q)"
      "tType x = tType ?d" "tType y = tType ?d" for i q x y
  proof -
    from peng [of i q x y] that obtain op where op: "op \<in> set (ops i)" "opType op = ''PENG''" "mset (opTiles op) = {#x, y#}"
      by auto
    then have "(i, \<lparr>Operations = ops i, ChosenOp = None, Responded = False\<rparr>) \<in> set (the (calculateAvailableOperations players dp ex))"
      using that(1) unfolding ops(3) using assms(6) by auto
    then show ?thesis using op by (intro exI conjI) auto
  qed
  ultimately show ?thesis unfolding ops(3) option.sel by blast
qed

text \<open>C15: seat 0 has discarded an east wind, seat 1 holds two more.\<close>

theorem calculateAvailableOperations_spec_witness:
  "\<exists>rs. calculateAvailableOperations
       [Some ((NewPlayerImage ''a'' 0 25000)\<lparr>DiscardPile := [\<lparr>tType = 27, tID = 0\<rparr>]\<rparr>),
        Some ((NewPlayerImage ''b'' 1 25000)\<lparr>Tiles := [\<lparr>tType = 27, tID = 1\<rparr>, \<lparr>tType = 27, tID = 2\<rparr>]\<rparr>),
        Some (NewPlayerImage ''c'' 2 25000), Some (NewPlayerImage ''d'' 3 25000)] 0 0 = Some rs
     \<and> (\<exists>r op. (1, r) \<in> set rs \<and> op \<in> set (Operations r) \<and> opType op = ''PENG'')"
proof -
  define ps where "ps = [Some ((NewPlayerImage ''a'' 0 25000)\<lparr>DiscardPile := [\<lparr>tType = 27, tID = 0\<rparr>]\<rparr>),
        Some ((NewPlayerImage ''b'' 1 25000)\<lparr>Tiles := [\<lparr>tType = 27, tID = 1\<rparr>, \<lparr>tType = 27, tID = 2\<rparr>]\<rparr>),
        Some (NewPlayerImage ''c'' 2 25000), Some (NewPlayerImage ''d'' 3 25000)]"
  define p where "p = (NewPlayerImage ''a'' 0 25000)\<lparr>DiscardPile := [\<lparr>tType = 27, tID = 0\<rparr>]\<rparr>"
  have 0: "length ps = 4" "\<forall>p \<in> set ps. p \<noteq> None" "ps ! nat 0 = Some p" "DiscardPile p \<noteq> []" by (simp_all add: ps_def p_def)
  note s = calculateAvailableOperations_spec [of ps 0 p 0, OF 0(1,2) _ _ 0(3,4), simplified]
  have last: "tType (last (DiscardPile p)) = 27" by (simp add: p_def)
  have q: "ps ! 1 = Some ((NewPlayerImage ''b'' 1 25000)\<lparr>Tiles := [\<lparr>tType = 27, tID = 1\<rparr>, \<lparr>tType = 27, tID = 2\<rparr>]\<rparr>)" by (simp add: ps_def)
  show ?thesis unfolding ps_def [symmetric] using s last q by fastforce
qed

end
