(* ===== verification/Ticker.thy ===== *)
theory Ticker
  imports Material
begin

text \<open>
  Turn manager and player clocks: \<^verbatim>\<open>game/runtime/engines/mahjong/turn_manager.go\<close>.

  A clock runs a goroutine, \<open>timerLoop\<close>.  \<open>tLoop\<close> is where that goroutine stands: not running, spawned
  but not yet registered (\<open>pt.cancel\<close> still belongs to an earlier run, or is nil), waiting on its
  context, its context cancelled, or its context expired.  The three sections of \<open>timerLoop\<close> that hold
  the lock, or end the wait, are the operations \<open>timer_register\<close>, \<open>timer_expire\<close>, \<open>timer_timeout\<close> and
  \<open>timer_canceled\<close>; they happen between the steps of the actor.  \<open>cancelSet\<close> says that \<open>pt.cancel\<close> is not nil;
  calling it acts on the goroutine that registered it, and only while that one waits.

  Times are in seconds.  \<open>onStop\<close> and \<open>onStateChange\<close> have no effect in the engine and are left out;
  \<open>onTimeout\<close> queues a timeout event, see the engine.
\<close>

datatype TickerState = StateIdle | StateRunning | StateStopped | StateTimeout

datatype TurnState =
  TurnStateIdle | TurnStateWaitMain | TurnStateSelecting | TurnStateWaitReactions | TurnStateApplyOperation

datatype timer_loop = LoopNone | LoopSpawned int | LoopWaiting | LoopCancelled | LoopExpired

record PlayerTicker =
  Available :: int
  RoundStartTime :: int
  tState :: TickerState
  isRunning :: bool
  cancelSet :: bool
  tLoop :: timer_loop

record TurnManager =
  TurnPointer :: int
  tmState :: TurnState
  Tickers :: "PlayerTicker option list"

definition DefaultMaxRoundTime :: int where [simp]: "DefaultMaxRoundTime = 30"

section \<open>Clocks\<close>

definition NewPlayerTicker :: "int \<Rightarrow> PlayerTicker" where
  "NewPlayerTicker totalTime = \<lparr>Available = totalTime, RoundStartTime = 0, tState = StateIdle,
     isRunning = False, cancelSet = False, tLoop = LoopNone\<rparr>"

text \<open>\<open>Start\<close> returns whether it failed, \<open>err != nil\<close>.\<close>

definition Start :: "int \<Rightarrow> int \<Rightarrow> PlayerTicker \<Rightarrow> bool \<times> PlayerTicker" where
  "Start now duration pt =
     (if isRunning pt then (True, pt)
      else if Available pt < duration then (True, pt)
      else (False, pt\<lparr>isRunning := True, tState := StateRunning, RoundStartTime := now,
                     tLoop := LoopSpawned duration\<rparr>))"

definition Stop :: "PlayerTicker \<Rightarrow> bool \<times> PlayerTicker" where
  "Stop pt = (if \<not> isRunning pt \<or> \<not> cancelSet pt then (False, pt)
              else (True, if tLoop pt = LoopWaiting then pt\<lparr>tLoop := LoopCancelled\<rparr> else pt))"

definition SetAvailable :: "int \<Rightarrow> PlayerTicker \<Rightarrow> PlayerTicker" where
  "SetAvailable available pt = pt\<lparr>Available := available\<rparr>"

definition GetState :: "PlayerTicker \<Rightarrow> TickerState" where
  "GetState pt = tState pt"

text \<open>The sections of \<open>timerLoop\<close>; \<open>None\<close> when the goroutine is not at that section.\<close>

definition timer_register :: "PlayerTicker \<Rightarrow> PlayerTicker option" where
  "timer_register pt = (case tLoop pt of
     LoopSpawned duration \<Rightarrow> Some (pt\<lparr>cancelSet := True, tLoop := LoopWaiting\<rparr>) | _ \<Rightarrow> None)"

definition timer_expire :: "PlayerTicker \<Rightarrow> PlayerTicker option" where
  "timer_expire pt = (if tLoop pt = LoopWaiting then Some (pt\<lparr>tLoop := LoopExpired\<rparr>) else None)"

definition timer_timeout :: "PlayerTicker \<Rightarrow> PlayerTicker option" where
  "timer_timeout pt = (if tLoop pt = LoopExpired
     then Some (pt\<lparr>tState := StateTimeout, isRunning := False, Available := 0, tLoop := LoopNone\<rparr>) else None)"

definition timer_canceled :: "int \<Rightarrow> PlayerTicker \<Rightarrow> PlayerTicker option" where
  "timer_canceled now pt = (if tLoop pt = LoopCancelled
     then let usedTime = now - RoundStartTime pt
          in Some (pt\<lparr>Available := max 0 (Available pt - usedTime), tState := StateStopped,
                     isRunning := False, tLoop := LoopNone\<rparr>)
     else None)"

text \<open>
  Between \<open>Stop\<close> and a later \<open>Start\<close> of the same handler the cancelled goroutine may or may not have
  run its last section; \<open>settled\<close> says which.
\<close>

definition settle :: "bool \<Rightarrow> int \<Rightarrow> PlayerTicker \<Rightarrow> PlayerTicker" where
  "settle settled now pt = (if settled then (case timer_canceled now pt of None \<Rightarrow> pt | Some pt' \<Rightarrow> pt') else pt)"

section \<open>Turn manager\<close>

definition NewTurnManager :: "PlayerTicker option list \<Rightarrow> TurnManager" where
  "NewTurnManager tickers = \<lparr>TurnPointer = 0, tmState = TurnStateIdle, Tickers = tickers\<rparr>"

definition NextTurn :: "TurnManager \<Rightarrow> int \<times> TurnManager" where
  "NextTurn tm = (let p = (TurnPointer tm + 1) smod 4 in (p, tm\<lparr>TurnPointer := p\<rparr>))"

definition GetPlayerTicker :: "TurnManager \<Rightarrow> int \<Rightarrow> PlayerTicker option" where
  "GetPlayerTicker tm seatIndex = Option.bind (idx (Tickers tm) seatIndex) id"

definition put_ticker :: "int \<Rightarrow> PlayerTicker \<Rightarrow> TurnManager \<Rightarrow> TurnManager" where
  "put_ticker seatIndex pt tm = tm\<lparr>Tickers := (Tickers tm)[nat seatIndex := Some pt]\<rparr>"

definition stop_ticker :: "int \<Rightarrow> TurnManager \<Rightarrow> TurnManager option" where
  "stop_ticker i tm = do {
     pt \<leftarrow> GetPlayerTicker tm i;
     Some (if GetState pt = StateRunning then put_ticker i (snd (Stop pt)) tm else tm)
   }"

definition stopAllTickers :: "TurnManager \<Rightarrow> TurnManager option" where
  "stopAllTickers tm = do {
     tm \<leftarrow> stop_ticker 0 tm; tm \<leftarrow> stop_ticker 1 tm; tm \<leftarrow> stop_ticker 2 tm; stop_ticker 3 tm
   }"

text \<open>\<open>EnterDropPhase\<close> returns whether it failed; \<open>None\<close> is a nil clock.\<close>

definition EnterDropPhase :: "bool \<Rightarrow> int \<Rightarrow> int \<Rightarrow> int \<Rightarrow> TurnManager \<Rightarrow> (bool \<times> TurnManager) option" where
  "EnterDropPhase settled now seatIndex roundCompensation tm =
     (if seatIndex < 0 \<or> 4 \<le> seatIndex then Some (True, tm)
      else do {
        tm \<leftarrow> stopAllTickers tm;
        let tm = tm\<lparr>TurnPointer := seatIndex, tmState := TurnStateWaitMain\<rparr>;
        ticker \<leftarrow> GetPlayerTicker tm seatIndex;
        let ticker = settle settled now ticker;
        let allocatedTime = Available ticker + roundCompensation;
        let allocatedTime = (if allocatedTime > DefaultMaxRoundTime then DefaultMaxRoundTime else allocatedTime);
        let (err, ticker) = Start now allocatedTime (SetAvailable allocatedTime ticker);
        Some (err, put_ticker seatIndex ticker tm)
      })"

definition EnterSelectingPhase :: "TurnManager \<Rightarrow> TurnManager option" where
  "EnterSelectingPhase tm = do { tm \<leftarrow> stopAllTickers tm; Some (tm\<lparr>tmState := TurnStateSelecting\<rparr>) }"

definition EnterReactingPhase :: "TurnManager \<Rightarrow> TurnManager option" where
  "EnterReactingPhase tm = do { tm \<leftarrow> stopAllTickers tm; Some (tm\<lparr>tmState := TurnStateWaitReactions\<rparr>) }"

definition EnterChoosingPhase :: "TurnManager \<Rightarrow> TurnManager option" where
  "EnterChoosingPhase tm = do { tm \<leftarrow> stopAllTickers tm; Some (tm\<lparr>tmState := TurnStateApplyOperation\<rparr>) }"

definition GetAllPlayerTimerStates :: "TurnManager \<Rightarrow> TickerState list option" where
  "GetAllPlayerTimerStates tm = do {
     a \<leftarrow> GetPlayerTicker tm 0; b \<leftarrow> GetPlayerTicker tm 1; c \<leftarrow> GetPlayerTicker tm 2; d \<leftarrow> GetPlayerTicker tm 3;
     Some (map GetState [a, b, c, d])
   }"

section \<open>Invariant\<close>

text \<open>
  The clock runs exactly while its goroutine is alive, so at most one goroutine per clock exists, and
  the state shown to the clients agrees.  Remaining time is never negative.
\<close>

definition ticker_ok :: "PlayerTicker \<Rightarrow> bool" where
  "ticker_ok pt \<longleftrightarrow> (isRunning pt \<longleftrightarrow> tLoop pt \<noteq> LoopNone) \<and> (isRunning pt \<longleftrightarrow> tState pt = StateRunning)
     \<and> (tLoop pt \<in> {LoopWaiting, LoopCancelled, LoopExpired} \<longrightarrow> cancelSet pt) \<and> 0 \<le> Available pt"

definition tm_ok :: "TurnManager \<Rightarrow> bool" where
  "tm_ok tm \<longleftrightarrow> length (Tickers tm) = 4 \<and> (\<forall>t \<in> set (Tickers tm). \<exists>pt. t = Some pt \<and> ticker_ok pt)
     \<and> 0 \<le> TurnPointer tm \<and> TurnPointer tm < 4"

lemma ticker_ok_new: "0 \<le> n \<Longrightarrow> ticker_ok (NewPlayerTicker n)"
  by (simp add: ticker_ok_def NewPlayerTicker_def)

lemma ticker_ok_Start: "ticker_ok pt \<Longrightarrow> ticker_ok (snd (Start now d pt))"
  by (auto simp: ticker_ok_def Start_def)

lemma ticker_ok_Stop: "ticker_ok pt \<Longrightarrow> ticker_ok (snd (Stop pt))"
  by (auto simp: ticker_ok_def Stop_def)

lemma ticker_ok_SetAvailable: "ticker_ok pt \<Longrightarrow> 0 \<le> n \<Longrightarrow> ticker_ok (SetAvailable n pt)"
  by (auto simp: ticker_ok_def SetAvailable_def)

lemma ticker_ok_loop:
  "ticker_ok pt \<Longrightarrow> timer_register pt = Some pt' \<Longrightarrow> ticker_ok pt'"
  "ticker_ok pt \<Longrightarrow> timer_expire pt = Some pt' \<Longrightarrow> ticker_ok pt'"
  "ticker_ok pt \<Longrightarrow> timer_timeout pt = Some pt' \<Longrightarrow> ticker_ok pt'"
  "ticker_ok pt \<Longrightarrow> timer_canceled now pt = Some pt' \<Longrightarrow> ticker_ok pt'"
  by (auto simp: ticker_ok_def timer_register_def timer_expire_def timer_timeout_def timer_canceled_def Let_def
      split: timer_loop.splits if_splits)

lemma ticker_ok_settle: "ticker_ok pt \<Longrightarrow> ticker_ok (settle b now pt)"
  using ticker_ok_loop(4) by (auto simp: settle_def split: option.splits)

lemma GetPlayerTicker_ok:
  assumes "tm_ok tm" "0 \<le> i" "i < 4"
  obtains pt where "GetPlayerTicker tm i = Some pt" "ticker_ok pt"
proof -
  have "(Tickers tm) ! nat i \<in> set (Tickers tm)" using assms by (auto simp: tm_ok_def)
  then obtain pt where "(Tickers tm) ! nat i = Some pt" "ticker_ok pt" using assms(1) by (auto simp: tm_ok_def)
  then show ?thesis using assms by (intro that [of pt]) (auto simp: GetPlayerTicker_def idx_in_range tm_ok_def)
qed

lemma tm_ok_put: "tm_ok tm \<Longrightarrow> ticker_ok pt \<Longrightarrow> tm_ok (put_ticker i pt tm)"
  by (auto simp: tm_ok_def put_ticker_def dest!: set_update_subset_insert [THEN subsetD])

lemma put_ticker_frame [simp]:
  "TurnPointer (put_ticker i pt tm) = TurnPointer tm" "tmState (put_ticker i pt tm) = tmState tm"
  by (simp_all add: put_ticker_def)

lemma tm_ok_state [simp]: "tm_ok (tm\<lparr>tmState := s\<rparr>) = tm_ok tm"
  by (simp add: tm_ok_def)

lemma tm_ok_pointer: "tm_ok tm \<Longrightarrow> 0 \<le> p \<Longrightarrow> p < 4 \<Longrightarrow> tm_ok (tm\<lparr>TurnPointer := p\<rparr>)"
  by (simp add: tm_ok_def)

definition tm_step :: "TurnManager \<Rightarrow> TurnManager \<Rightarrow> bool" where
  "tm_step tm tm' \<longleftrightarrow> tm_ok tm' \<and> TurnPointer tm' = TurnPointer tm \<and> tmState tm' = tmState tm"

lemma stop_ticker_wp: "tm_ok tm \<Longrightarrow> 0 \<le> i \<Longrightarrow> i < 4 \<Longrightarrow> wp (stop_ticker i tm) (tm_step tm)"
  by (rule GetPlayerTicker_ok [of tm i]) (auto simp: stop_ticker_def tm_step_def tm_ok_put ticker_ok_Stop)

lemma stopAllTickers_wp:
  assumes "tm_ok tm"
  shows "wp (stopAllTickers tm) (tm_step tm)"
proof -
  have s: "wp (stop_ticker i tm') (tm_step tm)" if "tm_step tm tm'" "0 \<le> i" "i < 4" for tm' i
    using stop_ticker_wp [of tm' i] that by (auto simp: tm_step_def intro: wp_mono)
  have "tm_step tm tm" using assms by (simp add: tm_step_def)
  then have "wp (stop_ticker 0 tm) (\<lambda>a. wp (stop_ticker 1 a) (\<lambda>b. wp (stop_ticker 2 b) (\<lambda>c. wp (stop_ticker 3 c) (tm_step tm))))"
    by (intro wp_mono [OF s] s) simp_all
  then show ?thesis by (simp add: stopAllTickers_def)
qed

lemma NextTurn_ok:
  assumes "tm_ok tm" "NextTurn tm = (p, tm')"
  shows "tm_ok tm'" "p = TurnPointer tm'" "0 \<le> p" "p < 4" "tmState tm' = tmState tm"
  using assms by (auto simp: NextTurn_def Let_def smod_nonneg tm_ok_def)

lemma EnterDropPhase_wp:
  assumes "tm_ok tm" "0 \<le> seat" "seat < 4" "0 \<le> c"
  shows "wp (EnterDropPhase b now seat c tm) (\<lambda>(err, tm'). tm_ok tm' \<and> TurnPointer tm' = seat \<and> tmState tm' = TurnStateWaitMain)"
proof -
  have step: "wp (EnterDropPhase b now seat c tm) (\<lambda>(err, tm'). tm_ok tm' \<and> TurnPointer tm' = seat \<and> tmState tm' = TurnStateWaitMain)"
    if "stopAllTickers tm = Some t" "tm_ok t" for t
  proof -
    let ?t = "t\<lparr>TurnPointer := seat, tmState := TurnStateWaitMain\<rparr>"
    have t: "tm_ok ?t" using that(2) assms(2,3) tm_ok_pointer by simp
    obtain pt where pt: "GetPlayerTicker ?t seat = Some pt" "ticker_ok pt" using GetPlayerTicker_ok [OF t assms(2,3)] .
    have "ticker_ok (settle b now pt)" by (rule ticker_ok_settle) (rule pt)
    moreover from this have "0 \<le> Available (settle b now pt)" by (simp add: ticker_ok_def)
    ultimately have "ticker_ok (snd (Start now a (SetAvailable a (settle b now pt))))" if "0 \<le> a" for a
      using that by (intro ticker_ok_Start ticker_ok_SetAvailable)
    then show ?thesis using assms(2-4) that(1) pt(1) t \<open>0 \<le> Available (settle b now pt)\<close>
      by (auto simp: EnterDropPhase_def Let_def case_prod_unfold intro!: tm_ok_put)
  qed
  from stopAllTickers_wp [OF assms(1)] obtain t where "stopAllTickers tm = Some t" "tm_ok t"
    by (auto simp: wp_iff tm_step_def)
  then show ?thesis by (rule step)
qed

lemma Enter_phase_wp:
  assumes "tm_ok tm"
  shows "wp (EnterSelectingPhase tm) (\<lambda>t. tm_ok t \<and> TurnPointer t = TurnPointer tm \<and> tmState t = TurnStateSelecting)"
    "wp (EnterReactingPhase tm) (\<lambda>t. tm_ok t \<and> TurnPointer t = TurnPointer tm \<and> tmState t = TurnStateWaitReactions)"
    "wp (EnterChoosingPhase tm) (\<lambda>t. tm_ok t \<and> TurnPointer t = TurnPointer tm \<and> tmState t = TurnStateApplyOperation)"
  using stopAllTickers_wp [OF assms]
  by (auto simp: EnterSelectingPhase_def EnterReactingPhase_def EnterChoosingPhase_def tm_step_def wp_iff)

text \<open>The clock of a seat as \<open>EnterDropPhase\<close> finds it when it starts it.\<close>

definition clock_at_start :: "bool \<Rightarrow> int \<Rightarrow> PlayerTicker \<Rightarrow> PlayerTicker" where
  "clock_at_start settled now pt = settle settled now (if GetState pt = StateRunning then snd (Stop pt) else pt)"

lemma stop_ticker_other:
  assumes "stop_ticker i tm = Some tm'" "0 \<le> i" "0 \<le> j" "i \<noteq> j"
  shows "GetPlayerTicker tm' j = GetPlayerTicker tm j"
  using assms by (auto simp: stop_ticker_def put_ticker_def GetPlayerTicker_def idx_def split: bind_splits if_splits)

lemma stop_ticker_same:
  assumes "stop_ticker i tm = Some tm'" "GetPlayerTicker tm i = Some pt"
  shows "GetPlayerTicker tm' i = Some (if GetState pt = StateRunning then snd (Stop pt) else pt)"
  using assms by (auto simp: stop_ticker_def put_ticker_def GetPlayerTicker_def idx_def split: bind_splits if_splits)

lemma stopAllTickers_clock:
  assumes "stopAllTickers tm = Some tm'" "GetPlayerTicker tm i = Some pt" "0 \<le> i" "i < 4"
  shows "GetPlayerTicker tm' i = Some (if GetState pt = StateRunning then snd (Stop pt) else pt)"
proof -
  obtain a b c where s: "stop_ticker 0 tm = Some a" "stop_ticker 1 a = Some b" "stop_ticker 2 b = Some c" "stop_ticker 3 c = Some tm'"
    using assms(1) by (auto simp: stopAllTickers_def split: bind_splits)
  consider "i = 0" | "i = 1" | "i = 2" | "i = 3" using assms(3,4) by linarith
  then show ?thesis
    by cases (use assms(2) stop_ticker_same [OF s(1)] stop_ticker_same [OF s(2)] stop_ticker_same [OF s(3)] stop_ticker_same [OF s(4)]
      stop_ticker_other [OF s(1), of i] stop_ticker_other [OF s(2), of i] stop_ticker_other [OF s(3), of i] stop_ticker_other [OF s(4), of i] in simp_all)
qed

text \<open>Entering the drop phase for a seat of a well-formed turn manager never panics. It reports an
  error exactly when the goroutine of that seat's clock is still alive, that is, when a clock that
  was running has been cancelled in the same step but has not run its last section yet. When it
  succeeds, exactly this clock is started, with the time left plus the compensation, at most 30
  seconds, and it is this seat's turn to discard.\<close>

lemma EnterDropPhase_spec:
  assumes "tm_ok tm" "0 \<le> seat" "seat < 4" "0 \<le> compensation" "GetPlayerTicker tm seat = Some pt"
  shows "\<exists>err tm' pt'. EnterDropPhase settled now seat compensation tm = Some (err, tm')
     \<and> err = isRunning (clock_at_start settled now pt)
     \<and> tmState tm' = TurnStateWaitMain \<and> TurnPointer tm' = seat
     \<and> GetPlayerTicker tm' seat = Some pt'
     \<and> Available pt' = min 30 (Available (clock_at_start settled now pt) + compensation)
     \<and> (\<not> err \<longrightarrow> isRunning pt' \<and> tLoop pt' = LoopSpawned (Available pt') \<and> RoundStartTime pt' = now)"
proof -
  obtain t where t: "stopAllTickers tm = Some t" "tm_step tm t" using stopAllTickers_wp [OF assms(1)] by (auto simp: wp_iff)
  have len: "seat < int (length (Tickers t))" using t(2) assms(3) by (simp add: tm_step_def tm_ok_def)
  have "GetPlayerTicker t seat = Some (if GetState pt = StateRunning then snd (Stop pt) else pt)"
    by (rule stopAllTickers_clock [OF t(1) assms(5,2,3)])
  then have clock: "settle settled now (the (GetPlayerTicker (t\<lparr>TurnPointer := seat, tmState := TurnStateWaitMain\<rparr>) seat))
      = clock_at_start settled now pt" "GetPlayerTicker (t\<lparr>TurnPointer := seat, tmState := TurnStateWaitMain\<rparr>) seat \<noteq> None"
    by (simp_all add: GetPlayerTicker_def clock_at_start_def)
  then show ?thesis using t(1) assms(2,3) len
    by (auto simp: EnterDropPhase_def Let_def Start_def SetAvailable_def GetPlayerTicker_def put_ticker_def idx_in_range)
qed

end
