(* ===== verification/Persist.thy ===== *)
theory Persist
  imports Player
begin

text \<open>
  The game record: \<^verbatim>\<open>game/runtime/engines/mahjong/persist.go\<close> with the entities
  \<^verbatim>\<open>game/domain/entity/game_record.go\<close> and \<^verbatim>\<open>game/domain/entity/round_record.go\<close>.

  \<open>currentRound\<close> is a Go pointer to the record appended last to \<open>rounds\<close>; here it is the index of that
  record, so that writing through the pointer changes the element of \<open>rounds\<close>.  \<open>saved\<close> is what the
  goroutine of \<open>FinalizeGame\<close> hands to the repository.  Object identifiers (\<open>oid\<close>) and the clock
  (\<open>now\<close>) are parameters.  The mutex makes every operation atomic.
\<close>

section \<open>Entities\<close>

datatype bval = VNil | VInt int | VTile Tile | VTiles "Tile list"

record RoundEvent =
  Sequence :: nat
  EventType :: string
  Timestamp :: int
  evSeatIndex :: int
  Data :: "(string \<times> bval) list"

record HuClaimDTO =
  dWinnerSeat :: int
  dLoserSeat :: int
  dWinTile :: Tile
  dHan :: int
  dFu :: int
  dYaku :: "string list"
  dPoints :: int

record RoundResult =
  EndType :: string
  Claims :: "HuClaimDTO list"
  Delta :: "int list"
  rPoints :: "int list"
  Reason :: string
  NextDealer :: int

record RoundRecord =
  rrID :: string
  GameRecordID :: string
  rrRoundNumber :: int
  rrRoundWind :: string
  rrDealerIndex :: int
  rrHonba :: int
  Events :: "RoundEvent list"
  rrResult :: "RoundResult option"
  rrStartTime :: int
  rrEndTime :: int
  rrDuration :: int
  rrCreatedAt :: int

record PlayerRankingDTO =
  rkSeatIndex :: int
  rkUserID :: string
  rkPoints :: int
  Rank :: int

record PlayerInfo =
  piUserID :: string
  piSeatIndex :: int
  Nickname :: string

record GameRecord =
  grID :: string
  grRoomID :: string
  GameType :: string
  grPlayers :: "PlayerInfo list"
  grStartTime :: int
  grEndTime :: int
  grDuration :: int
  FinalResult :: "(PlayerRankingDTO list \<times> int list) option"
  Status :: string
  grCreatedAt :: int

definition NewGameRecord :: "string \<Rightarrow> int \<Rightarrow> string \<Rightarrow> string \<Rightarrow> PlayerInfo list \<Rightarrow> GameRecord" where
  "NewGameRecord oid now roomID gameType players =
     \<lparr>grID = oid, grRoomID = roomID, GameType = gameType, grPlayers = players, grStartTime = now,
      grEndTime = 0, grDuration = 0, FinalResult = None, Status = ''in_progress'', grCreatedAt = now\<rparr>"

definition CompleteGame :: "int \<Rightarrow> PlayerRankingDTO list \<times> int list \<Rightarrow> GameRecord \<Rightarrow> GameRecord" where
  "CompleteGame now finalResult gr = gr\<lparr>grEndTime := now, grDuration := now - grStartTime gr,
     FinalResult := Some finalResult, Status := ''completed''\<rparr>"

definition AbortGame :: "int \<Rightarrow> GameRecord \<Rightarrow> GameRecord" where
  "AbortGame now gr = gr\<lparr>grEndTime := now, grDuration := now - grStartTime gr, Status := ''aborted''\<rparr>"

definition NewRoundRecord :: "string \<Rightarrow> int \<Rightarrow> string \<Rightarrow> int \<Rightarrow> string \<Rightarrow> int \<Rightarrow> int \<Rightarrow> RoundRecord" where
  "NewRoundRecord oid now gameRecordID roundNumber roundWind dealerIndex honba =
     \<lparr>rrID = oid, GameRecordID = gameRecordID, rrRoundNumber = roundNumber, rrRoundWind = roundWind,
      rrDealerIndex = dealerIndex, rrHonba = honba, Events = [], rrResult = None, rrStartTime = now,
      rrEndTime = 0, rrDuration = 0, rrCreatedAt = now\<rparr>"

definition AddEvent :: "int \<Rightarrow> string \<Rightarrow> int \<Rightarrow> (string \<times> bval) list \<Rightarrow> RoundRecord \<Rightarrow> RoundRecord" where
  "AddEvent now eventType seatIndex data rr = rr\<lparr>Events := Events rr @
     [\<lparr>Sequence = length (Events rr), EventType = eventType, Timestamp = now, evSeatIndex = seatIndex, Data = data\<rparr>]\<rparr>"

definition rrCompleteRound :: "int \<Rightarrow> RoundResult \<Rightarrow> RoundRecord \<Rightarrow> RoundRecord" where
  "rrCompleteRound now result rr = rr\<lparr>rrEndTime := now, rrDuration := now - rrStartTime rr, rrResult := Some result\<rparr>"

section \<open>The persister\<close>

record GamePersister =
  gameRecord :: GameRecord
  rounds :: "RoundRecord list"
  currentRound :: "nat option"
  pClosed :: bool
  saved :: "(GameRecord \<times> RoundRecord list) list"

definition NewGamePersister :: "string \<Rightarrow> int \<Rightarrow> string \<Rightarrow> PlayerInfo list \<Rightarrow> GamePersister" where
  "NewGamePersister oid now roomID players =
     \<lparr>gameRecord = NewGameRecord oid now roomID ''riichi_mahjong_4p'' players, rounds = [],
      currentRound = None, pClosed = False, saved = []\<rparr>"

definition GetGameRecordID :: "GamePersister \<Rightarrow> string" where
  "GetGameRecordID gp = grID (gameRecord gp)"

text \<open>\<open>gp.currentRound.AddEvent(...)\<close>, guarded by \<open>gp.closed || gp.currentRound == nil\<close>.\<close>

definition on_round :: "(RoundRecord \<Rightarrow> RoundRecord) \<Rightarrow> GamePersister \<Rightarrow> GamePersister" where
  "on_round f gp = (if pClosed gp then gp
     else case currentRound gp of
            None \<Rightarrow> gp
          | Some i \<Rightarrow> gp\<lparr>rounds := (rounds gp)[i := f (rounds gp ! i)]\<rparr>)"

definition StartRound :: "string \<Rightarrow> int \<Rightarrow> int \<Rightarrow> string \<Rightarrow> int \<Rightarrow> int \<Rightarrow> GamePersister \<Rightarrow> GamePersister" where
  "StartRound oid now roundNumber roundWind dealerIndex honba gp =
     (if pClosed gp then gp
      else let rr = NewRoundRecord oid now (grID (gameRecord gp)) roundNumber roundWind dealerIndex honba;
               gp = gp\<lparr>currentRound := Some (length (rounds gp)), rounds := rounds gp @ [rr]\<rparr>
           in on_round (AddEvent now ''round_start'' (-1)
                [(''dora_indicators'', VNil), (''current_turn'', VInt dealerIndex)]) gp)"

definition RecordDrawTile :: "int \<Rightarrow> int \<Rightarrow> Tile \<Rightarrow> GamePersister \<Rightarrow> GamePersister" where
  "RecordDrawTile now seatIndex tile = on_round (AddEvent now ''draw_tile'' seatIndex [(''tile'', VTile tile)])"

definition RecordDiscardTile :: "int \<Rightarrow> int \<Rightarrow> Tile \<Rightarrow> GamePersister \<Rightarrow> GamePersister" where
  "RecordDiscardTile now seatIndex tile = on_round (AddEvent now ''discard_tile'' seatIndex [(''tile'', VTile tile)])"

definition RecordChi :: "int \<Rightarrow> int \<Rightarrow> int \<Rightarrow> Tile list \<Rightarrow> GamePersister \<Rightarrow> GamePersister" where
  "RecordChi now seatIndex fromSeat tiles = on_round
     (AddEvent now ''chi'' seatIndex [(''from_seat'', VInt fromSeat), (''tiles'', VTiles tiles)])"

definition RecordPeng :: "int \<Rightarrow> int \<Rightarrow> int \<Rightarrow> Tile list \<Rightarrow> GamePersister \<Rightarrow> GamePersister" where
  "RecordPeng now seatIndex fromSeat tiles = on_round
     (AddEvent now ''peng'' seatIndex [(''from_seat'', VInt fromSeat), (''tiles'', VTiles tiles)])"

definition RecordGang :: "int \<Rightarrow> int \<Rightarrow> int \<Rightarrow> Tile list \<Rightarrow> GamePersister \<Rightarrow> GamePersister" where
  "RecordGang now seatIndex fromSeat tiles = on_round
     (AddEvent now ''gang'' seatIndex [(''from_seat'', VInt fromSeat), (''tiles'', VTiles tiles)])"

definition RecordAnkan :: "int \<Rightarrow> int \<Rightarrow> Tile list \<Rightarrow> GamePersister \<Rightarrow> GamePersister" where
  "RecordAnkan now seatIndex tiles = on_round (AddEvent now ''ankan'' seatIndex [(''tiles'', VTiles tiles)])"

definition RecordKakan :: "int \<Rightarrow> int \<Rightarrow> int \<Rightarrow> Tile list \<Rightarrow> GamePersister \<Rightarrow> GamePersister" where
  "RecordKakan now seatIndex fromSeat tiles = on_round
     (AddEvent now ''kakan'' seatIndex [(''from_seat'', VInt fromSeat), (''tiles'', VTiles tiles)])"

definition RecordRiichi :: "int \<Rightarrow> int \<Rightarrow> GamePersister \<Rightarrow> GamePersister" where
  "RecordRiichi now seatIndex = on_round (AddEvent now ''riichi'' seatIndex [])"

definition RecordRon :: "int \<Rightarrow> int \<Rightarrow> int \<Rightarrow> Tile \<Rightarrow> GamePersister \<Rightarrow> GamePersister" where
  "RecordRon now winnerSeat loserSeat winTile = on_round (AddEvent now ''ron'' winnerSeat
     [(''winner_seat'', VInt winnerSeat), (''loser_seat'', VInt loserSeat), (''win_tile'', VTile winTile)])"

definition RecordTsumo :: "int \<Rightarrow> int \<Rightarrow> Tile \<Rightarrow> GamePersister \<Rightarrow> GamePersister" where
  "RecordTsumo now winnerSeat winTile = on_round (AddEvent now ''tsumo'' winnerSeat
     [(''winner_seat'', VInt winnerSeat), (''win_tile'', VTile winTile)])"

definition CompleteRound :: "int \<Rightarrow> string \<Rightarrow> HuClaimDTO list \<Rightarrow> int list \<Rightarrow> int list \<Rightarrow> string \<Rightarrow> int \<Rightarrow> GamePersister \<Rightarrow> GamePersister" where
  "CompleteRound now endType claims delta points reason nextDealer =
     on_round (\<lambda>rr. AddEvent now ''round_end'' (-1) [] (rrCompleteRound now
       \<lparr>EndType = endType, Claims = claims, Delta = delta, rPoints = points, Reason = reason, NextDealer = nextDealer\<rparr> rr))"

definition FinalizeGame :: "int \<Rightarrow> PlayerRankingDTO list \<Rightarrow> int list \<Rightarrow> GamePersister \<Rightarrow> GamePersister" where
  "FinalizeGame now finalRankings finalPoints gp =
     (if pClosed gp then gp
      else let gr = CompleteGame now (finalRankings, finalPoints) (gameRecord gp)
           in gp\<lparr>pClosed := True, gameRecord := gr, saved := saved gp @ [(gr, rounds gp)]\<rparr>)"

section \<open>Well-formed records\<close>

text \<open>
  Events are numbered consecutively from 0, starting with the start of the round; the record written
  to is the last one; nothing is saved before the game is final and then exactly once.
\<close>

definition round_ok :: "RoundRecord \<Rightarrow> bool" where
  "round_ok rr \<longleftrightarrow> map Sequence (Events rr) = [0..<length (Events rr)]
     \<and> Events rr \<noteq> [] \<and> EventType (hd (Events rr)) = ''round_start''"

definition persister_ok :: "GamePersister \<Rightarrow> bool" where
  "persister_ok gp \<longleftrightarrow> (\<forall>rr \<in> set (rounds gp). round_ok rr \<and> GameRecordID rr = grID (gameRecord gp))
     \<and> currentRound gp = (if rounds gp = [] then None else Some (length (rounds gp) - 1))
     \<and> saved gp = (if pClosed gp then [(gameRecord gp, rounds gp)] else [])
     \<and> (pClosed gp \<longleftrightarrow> Status (gameRecord gp) = ''completed'')"

lemma persister_ok_new: "persister_ok (NewGamePersister oid now roomID players)"
  by (simp add: persister_ok_def NewGamePersister_def NewGameRecord_def)

lemma round_ok_AddEvent:
  assumes "map Sequence (Events rr) = [0..<length (Events rr)]"
    "Events rr \<noteq> [] \<longrightarrow> EventType (hd (Events rr)) = ''round_start''" "Events rr = [] \<longrightarrow> et = ''round_start''"
  shows "round_ok (AddEvent now et seat d rr)"
  using assms by (cases "Events rr = []") (simp_all add: round_ok_def AddEvent_def)

lemma AddEvent_id [simp]: "GameRecordID (AddEvent now et seat d rr) = GameRecordID rr"
  "GameRecordID (rrCompleteRound now res rr) = GameRecordID rr"
  by (simp_all add: AddEvent_def rrCompleteRound_def)

lemma round_ok_complete [simp]: "round_ok (rrCompleteRound now res rr) = round_ok rr"
  by (simp add: round_ok_def rrCompleteRound_def)

lemma round_ok_AddEvent' [simp]: "round_ok rr \<Longrightarrow> round_ok (AddEvent now et seat d rr)"
  by (rule round_ok_AddEvent) (simp_all add: round_ok_def)

lemma persister_ok_on_round:
  assumes "persister_ok gp" "\<And>rr. round_ok rr \<Longrightarrow> round_ok (f rr)" "\<And>rr. GameRecordID (f rr) = GameRecordID rr"
  shows "persister_ok (on_round f gp)"
  using assms unfolding persister_ok_def on_round_def
  by (auto dest!: set_update_subset_insert [THEN subsetD])

lemma persister_ok_StartRound: "persister_ok gp \<Longrightarrow> persister_ok (StartRound oid now n w d h gp)"
  by (auto simp: StartRound_def persister_ok_def on_round_def Let_def NewRoundRecord_def list_update_append nth_append
      intro!: round_ok_AddEvent)

lemma persister_ok_FinalizeGame: "persister_ok gp \<Longrightarrow> persister_ok (FinalizeGame now rk pts gp)"
  by (auto simp: FinalizeGame_def persister_ok_def Let_def CompleteGame_def)

lemma persister_ok_Record:
  assumes "persister_ok gp"
  shows "persister_ok (RecordDrawTile now s t gp)" "persister_ok (RecordDiscardTile now s t gp)"
    "persister_ok (RecordChi now s f ts gp)" "persister_ok (RecordPeng now s f ts gp)" "persister_ok (RecordGang now s f ts gp)"
    "persister_ok (RecordAnkan now s ts gp)" "persister_ok (RecordKakan now s f ts gp)" "persister_ok (RecordRiichi now s gp)"
    "persister_ok (RecordRon now s f t gp)" "persister_ok (RecordTsumo now s t gp)"
    "persister_ok (CompleteRound now e cs dl ps rsn nd gp)"
  unfolding RecordDrawTile_def RecordDiscardTile_def RecordChi_def RecordPeng_def RecordGang_def RecordAnkan_def
    RecordKakan_def RecordRiichi_def RecordRon_def RecordTsumo_def CompleteRound_def
  by (simp_all add: persister_ok_on_round [OF assms])

end
