(* ===== verification/Yaku.thy ===== *)
theory Yaku
  imports Player
begin

text \<open>
  Scoring patterns: \<^verbatim>\<open>game/runtime/engines/mahjong/yaku.go\<close>.

  The Go map of tile counts is an association list with distinct keys.  Go visits a map in an
  unspecified order: \<open>rng\<close> is the order in which a \<open>range\<close> statement visits the entries, a parameter of
  every checker that ranges over the counts.  The checkers are proved independent of it.
\<close>

datatype Yaku =
    YakuRiichi | YakuTsumo | YakuPinfu | YakuIppeiko | YakuRyanpeiko | YakuYakuhai | YakuTanyao
  | YakuSanshoku | YakuIttsu | YakuChanta | YakuJunchan | YakuHonroto | YakuChinroto | YakuHonitsu
  | YakuChinitsu | YakuToitoi | YakuSananko | YakuSankantsu | YakuChiitoi | YakuKokushi | YakuSuuankou
  | YakuSuuankouTanki | YakuDaisushi | YakuKokushi13 | YakuChuuren | YakuJunseiChuuren | YakuKazoeYakuman

record YakuContext =
  Claim :: HuClaim
  Winner :: "PlayerImage option"
  ySituation :: "Situation option"
  EndKind :: string

type_synonym counts = "(TileType \<times> int) list"
type_synonym range_order = "counts \<Rightarrow> counts"

definition isHonor :: "TileType \<Rightarrow> bool" where
  "isHonor tt \<longleftrightarrow> East \<le> tt"

definition suitOfTileType :: "TileType \<Rightarrow> int" where
  "suitOfTileType tt = (if Man1 \<le> tt \<and> tt \<le> Man9 then 0
     else if Pin1 \<le> tt \<and> tt \<le> Pin9 then 1
     else if So1 \<le> tt \<and> tt \<le> So9 then 2 else -1)"

definition numberIndex :: "TileType \<Rightarrow> int" where
  "numberIndex tt = (if Man1 \<le> tt \<and> tt \<le> Man9 then tt - Man1
     else if Pin1 \<le> tt \<and> tt \<le> Pin9 then tt - Pin1
     else if So1 \<le> tt \<and> tt \<le> So9 then tt - So1 else -1)"

definition kokushiTileTypes :: "TileType list" where
  "kokushiTileTypes = [Man1, Man9, Pin1, Pin9, So1, So9, East, South, West, North, White, Green, Red]"

definition isKokushiTileType :: "TileType \<Rightarrow> bool" where
  "isKokushiTileType tt \<longleftrightarrow> tt \<in> {Man1, Man9, Pin1, Pin9, So1, So9, East, South, West, North, White, Green, Red}"

text \<open>\<open>counts[tt]++\<close> and \<open>counts[tt]\<close> (0 when the key is missing).\<close>

fun count_inc :: "TileType \<Rightarrow> counts \<Rightarrow> counts" where
  "count_inc tt [] = [(tt, 1)]"
| "count_inc tt ((k, c) # cs) = (if k = tt then (k, c + 1) # cs else (k, c) # count_inc tt cs)"

definition count_of :: "counts \<Rightarrow> TileType \<Rightarrow> int" where
  "count_of cs tt = (case map_of cs tt of None \<Rightarrow> 0 | Some c \<Rightarrow> c)"

definition count_tiles :: "Tile list \<Rightarrow> counts \<times> int \<Rightarrow> counts \<times> int" where
  "count_tiles ts acc = fold (\<lambda>t (cs, total). (count_inc (tType t) cs, total + 1)) ts acc"

definition buildTileTypeCountsForClaim :: "YakuContext \<Rightarrow> counts \<times> int" where
  "buildTileTypeCountsForClaim ctx =
     (case Winner ctx of
        None \<Rightarrow> ([], 0)
      | Some w \<Rightarrow>
          let acc = count_tiles (Tiles w) ([], 0);
              acc = fold (\<lambda>m. count_tiles (mTiles m)) (Melds w) acc
          in if HasLoser (Claim ctx) then count_tiles [WinTile (Claim ctx)] acc else acc)"

section \<open>Checkers\<close>

text \<open>The first loop of \<open>checkSuuankouTanki\<close>: the number of triplets, \<open>None\<close> for \<open>return false\<close>.\<close>

fun triplets_loop :: "counts \<Rightarrow> int \<Rightarrow> int option" where
  "triplets_loop [] trip = Some trip"
| "triplets_loop ((tt, c) # cs) trip =
     (if c = 0 then triplets_loop cs trip
      else if c = 2 then triplets_loop cs trip
      else if c = 3 \<or> c = 4 then triplets_loop cs (trip + 1)
      else None)"

definition pairs_loop :: "counts \<Rightarrow> TileType \<times> int" where
  "pairs_loop cs = fold (\<lambda>(tt, c) (pair, pairCount).
     if c = 2 then (tt, pairCount + 1) else (pair, pairCount)) cs (-1, 0)"

definition checkSuuankouTanki :: "range_order \<Rightarrow> YakuContext \<Rightarrow> bool" where
  "checkSuuankouTanki rng ctx =
     (case Winner ctx of
        None \<Rightarrow> False
      | Some w \<Rightarrow>
          if length (Melds w) \<noteq> 0 then False
          else let (counts, total) = buildTileTypeCountsForClaim ctx
               in if total \<noteq> 14 then False
                  else case triplets_loop (rng counts) 0 of
                    None \<Rightarrow> False
                  | Some trip \<Rightarrow>
                      let (pair, pairCount) = pairs_loop (rng counts)
                      in if trip \<noteq> 4 \<or> pairCount \<noteq> 1 then False
                         else pair = tType (WinTile (Claim ctx)))"

definition checkDaisushi :: "YakuContext \<Rightarrow> bool" where
  "checkDaisushi ctx = (let counts = fst (buildTileTypeCountsForClaim ctx)
     in 3 \<le> count_of counts East \<and> 3 \<le> count_of counts South
        \<and> 3 \<le> count_of counts West \<and> 3 \<le> count_of counts North)"

definition checkKokushi13 :: "range_order \<Rightarrow> YakuContext \<Rightarrow> bool" where
  "checkKokushi13 rng ctx =
     (case Winner ctx of
        None \<Rightarrow> False
      | Some w \<Rightarrow>
          if length (Melds w) \<noteq> 0 then False
          else let (counts, total) = buildTileTypeCountsForClaim ctx
               in if total \<noteq> 14 then False
                  else let winTT = tType (WinTile (Claim ctx))
                  in if \<not> list_all (\<lambda>(tt, c). c = 0 \<or> isKokushiTileType tt \<and> \<not> 2 < c) (rng counts) then False
                     else list_all (\<lambda>tt. if tt = winTT then count_of counts tt = 2 else count_of counts tt = 1)
                            kokushiTileTypes)"

text \<open>The loop of \<open>checkJunseiChuuren\<close> over the counts; its state is \<open>suit\<close> and \<open>c9\<close>.\<close>

fun chuuren_loop :: "counts \<Rightarrow> int \<Rightarrow> int list \<Rightarrow> (int \<times> int list) option" where
  "chuuren_loop [] suit c9 = Some (suit, c9)"
| "chuuren_loop ((tt, c) # cs) suit c9 =
     (if c = 0 then chuuren_loop cs suit c9
      else if isHonor tt then None
      else let s = suitOfTileType tt
           in if s < 0 then None
              else if suit \<noteq> -1 \<and> suit \<noteq> s then None
              else let n = numberIndex tt
                   in if n < 0 then None else chuuren_loop cs s (c9[nat n := c]))"

definition checkJunseiChuuren :: "range_order \<Rightarrow> YakuContext \<Rightarrow> bool" where
  "checkJunseiChuuren rng ctx =
     (case Winner ctx of
        None \<Rightarrow> False
      | Some w \<Rightarrow>
          if length (Melds w) \<noteq> 0 then False
          else let (counts, total) = buildTileTypeCountsForClaim ctx;
                   winTT = tType (WinTile (Claim ctx))
               in if total \<noteq> 14 then False
                  else if isHonor winTT then False
                  else case chuuren_loop (rng counts) (-1) (replicate 9 0) of
                    None \<Rightarrow> False
                  | Some (suit, c9) \<Rightarrow>
                      if suit = -1 then False
                      else if suitOfTileType winTT \<noteq> suit then False
                      else let i = numberIndex winTT
                           in if i < 0 then False
                              else c9[nat i := c9 ! nat i - 1] = [3, 1, 1, 1, 1, 1, 1, 1, 3])"

text \<open>The registry: identifiers with their check functions, in the order of the Go slice.\<close>

definition RiichiMahjong4pYakuRegistry :: "range_order \<Rightarrow> (Yaku \<times> (YakuContext \<Rightarrow> int \<times> int)) list" where
  "RiichiMahjong4pYakuRegistry rng =
     [(YakuSuuankouTanki, \<lambda>ctx. if checkSuuankouTanki rng ctx then (0, 2) else (0, 0)),
      (YakuDaisushi, \<lambda>ctx. if checkDaisushi ctx then (0, 2) else (0, 0)),
      (YakuKokushi13, \<lambda>ctx. if checkKokushi13 rng ctx then (0, 2) else (0, 0)),
      (YakuJunseiChuuren, \<lambda>ctx. if checkJunseiChuuren rng ctx then (0, 2) else (0, 0))]
     @ map (\<lambda>y. (y, \<lambda>ctx. (0, 0)))
         [YakuRiichi, YakuTsumo, YakuPinfu, YakuIppeiko, YakuRyanpeiko, YakuYakuhai, YakuTanyao,
          YakuSanshoku, YakuIttsu, YakuChanta, YakuJunchan, YakuHonroto, YakuChinroto, YakuHonitsu,
          YakuChinitsu, YakuToitoi, YakuSananko, YakuSankantsu, YakuChiitoi, YakuKokushi]"

definition winner_of :: "PlayerImage option list \<Rightarrow> HuClaim \<Rightarrow> PlayerImage option" where
  "winner_of players claim = (if 0 \<le> WinnerSeat claim \<and> WinnerSeat claim < 4
     then (case idx players (WinnerSeat claim) of None \<Rightarrow> None | Some p \<Rightarrow> p) else None)"

definition GetFanfuAndYakus ::
    "range_order \<Rightarrow> PlayerImage option list \<Rightarrow> Situation option \<Rightarrow> HuClaim \<Rightarrow> int \<times> int \<times> Yaku list" where
  "GetFanfuAndYakus rng players sit claim =
     (let ctx = \<lparr>Claim = claim, Winner = winner_of players claim, ySituation = sit, EndKind = ''''\<rparr>
      in (0, 0, map fst (filter (\<lambda>(y, check). 0 < fst (check ctx) \<or> 0 < snd (check ctx))
                   (RiichiMahjong4pYakuRegistry rng))))"

definition evalClaimYakuman ::
    "range_order \<Rightarrow> PlayerImage option list \<Rightarrow> Situation option \<Rightarrow> HuClaim \<Rightarrow> string \<Rightarrow> int \<times> int \<times> Yaku list" where
  "evalClaimYakuman rng players sit claim endKind =
     (let ctx = \<lparr>Claim = claim, Winner = winner_of players claim, ySituation = sit, EndKind = endKind\<rparr>
      in fold (\<lambda>(y, check) (hanSum, yakumanMultSum, results).
            let (han, ym) = check ctx
            in if 0 < han \<or> 0 < ym then (hanSum + han, yakumanMultSum + ym, results @ [y])
               else (hanSum, yakumanMultSum, results))
          (RiichiMahjong4pYakuRegistry rng) (0, 0, []))"

definition roundUpTo100 :: "int \<Rightarrow> int" where
  "roundUpTo100 x = - ((- x) div 100) * 100"

end
