(* ===== verification/YakuSpec.thy ===== *)
theory YakuSpec
  imports Yaku
begin

text \<open>
  What the yakuman checkers decide, as statements on the multiset of the winning tile types: the
  counts map represents that multiset (\<open>counts_ok\<close>), whatever order Go ranges over it in.
\<close>

section \<open>What the checkers decide\<close>

text \<open>The types of the winning tiles, as a multiset.\<close>

definition win_types :: "YakuContext \<Rightarrow> TileType multiset" where
  "win_types ctx = (case Winner ctx of None \<Rightarrow> {#} | Some w \<Rightarrow>
     image_mset tType (mset (Tiles w) + (\<Sum>m\<leftarrow>Melds w. mset (mTiles m))
       + (if HasLoser (Claim ctx) then {#WinTile (Claim ctx)#} else {#})))"

definition closed_win :: "YakuContext \<Rightarrow> bool" where
  "closed_win ctx \<longleftrightarrow> (\<exists>w. Winner ctx = Some w \<and> Melds w = []) \<and> size (win_types ctx) = 14"

text \<open>A counts map stands for a multiset of tile types.\<close>

definition counts_ok :: "TileType multiset \<Rightarrow> counts \<Rightarrow> bool" where
  "counts_ok M cs \<longleftrightarrow> distinct (map fst cs) \<and> (\<forall>e \<in> set cs. 0 < snd e) \<and> (\<forall>k. count_of cs k = int (count M k))"

definition range_ok :: "range_order \<Rightarrow> bool" where
  "range_ok rng \<longleftrightarrow> (\<forall>cs. mset (rng cs) = mset cs)"

lemma count_of_simps [simp]:
  "count_of [] k = 0" "count_of ((k', c) # cs) k = (if k' = k then c else count_of cs k)"
  by (auto simp: count_of_def)

lemma count_of_inc: "count_of (count_inc tt cs) k = count_of cs k + (if k = tt then 1 else 0)"
  by (induction cs) (auto simp: count_of_def)

lemma keys_inc: "fst ` set (count_inc tt cs) = insert tt (fst ` set cs)"
  by (induction tt cs rule: count_inc.induct) (simp_all add: insert_commute)

lemma distinct_inc: "distinct (map fst cs) \<Longrightarrow> distinct (map fst (count_inc tt cs))"
  by (induction cs) (auto simp: keys_inc)

lemma positive_inc: "\<forall>e \<in> set cs. 0 < snd e \<Longrightarrow> \<forall>e \<in> set (count_inc tt cs). 0 < snd e"
  by (induction tt cs rule: count_inc.induct) (simp_all split: if_split)

lemma counts_ok_inc: "counts_ok M cs \<Longrightarrow> counts_ok (add_mset tt M) (count_inc tt cs)"
  unfolding counts_ok_def by (intro conjI distinct_inc positive_inc) (simp_all add: count_of_inc)

lemma count_tiles_ok:
  assumes "counts_ok M (fst acc)" "snd acc = int (size M)"
  shows "counts_ok (M + image_mset tType (mset ts)) (fst (count_tiles ts acc))
    \<and> snd (count_tiles ts acc) = int (size (M + image_mset tType (mset ts)))"
  using assms
proof (induction ts arbitrary: M acc)
  case (Cons t ts)
  have "snd (count_inc (tType t) (fst acc), snd acc + 1) = int (size (add_mset (tType t) M))"
    using Cons.prems by simp
  from Cons.IH [OF _ this] counts_ok_inc [OF Cons.prems(1)] show ?case
    by (simp add: count_tiles_def case_prod_unfold)
qed (simp add: count_tiles_def)

lemma count_melds_ok:
  assumes "counts_ok M (fst acc)" "snd acc = int (size M)"
  shows "counts_ok (M + image_mset tType (\<Sum>m\<leftarrow>ms. mset (mTiles m))) (fst (fold (\<lambda>m. count_tiles (mTiles m)) ms acc))
    \<and> snd (fold (\<lambda>m. count_tiles (mTiles m)) ms acc) = int (size (M + image_mset tType (\<Sum>m\<leftarrow>ms. mset (mTiles m))))"
  using assms
proof (induction ms arbitrary: M acc)
  case (Cons m ms)
  from count_tiles_ok [OF Cons.prems, of "mTiles m"] Cons.IH [of "M + image_mset tType (mset (mTiles m))" "count_tiles (mTiles m) acc"]
  show ?case by (simp add: ac_simps)
qed simp

lemma buildTileTypeCountsForClaim_ok:
  obtains cs where "buildTileTypeCountsForClaim ctx = (cs, int (size (win_types ctx)))" "counts_ok (win_types ctx) cs"
proof (cases "Winner ctx")
  case None
  then show ?thesis by (intro that [of "[]"]) (simp_all add: buildTileTypeCountsForClaim_def win_types_def counts_ok_def)
next
  case (Some w)
  let ?hand = "image_mset tType (mset (Tiles w))" and ?melds = "image_mset tType (\<Sum>m\<leftarrow>Melds w. mset (mTiles m))"
  define acc where "acc = fold (\<lambda>m. count_tiles (mTiles m)) (Melds w) (count_tiles (Tiles w) ([], 0))"
  have "counts_ok {#} []" by (simp add: counts_ok_def)
  from count_tiles_ok [of "{#}" "([], 0)" "Tiles w"] this
  have "counts_ok ?hand (fst (count_tiles (Tiles w) ([], 0)))" "snd (count_tiles (Tiles w) ([], 0)) = int (size ?hand)"
    by simp_all
  from count_melds_ok [OF this, of "Melds w"]
  have acc: "counts_ok (?hand + ?melds) (fst acc)" "snd acc = int (size (?hand + ?melds))" by (simp_all add: acc_def)
  from count_tiles_ok [OF acc, of "[WinTile (Claim ctx)]"] acc
  have "counts_ok (win_types ctx) (fst (buildTileTypeCountsForClaim ctx)) \<and>
    snd (buildTileTypeCountsForClaim ctx) = int (size (win_types ctx))"
    using Some by (simp add: buildTileTypeCountsForClaim_def win_types_def flip: acc_def)
  then show ?thesis by (intro that [of "fst (buildTileTypeCountsForClaim ctx)"]) (auto simp: prod_eq_iff)
qed

lemma count_of_in: "distinct (map fst cs) \<Longrightarrow> (k, c) \<in> set cs \<Longrightarrow> count_of cs k = c"
  by (simp add: count_of_def)

lemma count_of_notin: "k \<notin> fst ` set cs \<Longrightarrow> count_of cs k = 0"
  by (simp add: count_of_def map_of_eq_None_iff [symmetric])

lemma counts_ok_set:
  assumes "counts_ok M cs"
  shows "(k, c) \<in> set cs \<longleftrightarrow> c = int (count M k) \<and> 0 < c"
proof
  assume "(k, c) \<in> set cs"
  with assms count_of_in [of cs k c] show "c = int (count M k) \<and> 0 < c" by (auto simp: counts_ok_def)
next
  assume c: "c = int (count M k) \<and> 0 < c"
  then have "count_of cs k \<noteq> 0" using assms by (simp add: counts_ok_def)
  then obtain c' where c': "(k, c') \<in> set cs" using count_of_notin [of k cs] by force
  with count_of_in [of cs k c'] assms c show "(k, c) \<in> set cs" by (simp add: counts_ok_def)
qed

lemma ball_counts:
  assumes "counts_ok M cs"
  shows "(\<forall>e \<in> set cs. P (fst e) (snd e)) \<longleftrightarrow> (\<forall>k. count M k \<noteq> 0 \<longrightarrow> P k (int (count M k)))"
proof -
  have "(\<forall>e \<in> set cs. P (fst e) (snd e)) \<longleftrightarrow> (\<forall>k c. (k, c) \<in> set cs \<longrightarrow> P k c)" by force
  then show ?thesis by (auto simp: counts_ok_set [OF assms])
qed

lemma counts_ok_range: "range_ok rng \<Longrightarrow> counts_ok M cs \<Longrightarrow> counts_ok M (rng cs)"
proof -
  assume r: "range_ok rng" and c: "counts_ok M cs"
  have m: "mset (rng cs) = mset cs" using r by (simp add: range_ok_def)
  have s: "set (rng cs) = set cs" by (rule mset_eq_setD [OF m])
  have "distinct (map fst (rng cs)) = distinct (map fst cs)"
    by (rule mset_eq_imp_distinct_iff) (simp add: m)
  moreover from this have "count_of (rng cs) = count_of cs" if "distinct (map fst cs)"
    using map_of_inject_set [of "rng cs" cs] that s by (simp add: count_of_def fun_eq_iff)
  ultimately show ?thesis using c s by (auto simp: counts_ok_def)
qed

lemma count_of_ok: "counts_ok M cs \<Longrightarrow> count_of cs k = int (count M k)"
  by (simp add: counts_ok_def)

lemma checker_split:
  assumes "range_ok rng"
  obtains cs where "buildTileTypeCountsForClaim ctx = (cs, int (size (win_types ctx)))"
    "counts_ok (win_types ctx) cs" "counts_ok (win_types ctx) (rng cs)"
  using buildTileTypeCountsForClaim_ok counts_ok_range [OF assms] by metis

lemma count_kokushi: "count (mset kokushiTileTypes) k = (if k \<in> set kokushiTileTypes then 1 else 0)"
  by (simp add: distinct_count_atmost_1 [THEN iffD1, rule_format] kokushiTileTypes_def)

lemma isKokushi_iff: "isKokushiTileType k \<longleftrightarrow> k \<in> set kokushiTileTypes"
  by (simp add: isKokushiTileType_def kokushiTileTypes_def)

lemma one_each_and_one_more:
  assumes "w \<in> K"
  shows "(\<forall>k. f k = 0 \<or> k \<in> K \<and> f k \<le> 2) \<and> (\<forall>k \<in> K. f k = (if k = w then 2 else 1))
     \<longleftrightarrow> (\<forall>k. f k = (if w = k then Suc (if k \<in> K then 1 else 0) else if k \<in> K then 1 else (0::nat)))"
  unfolding Ball_def all_conj_distrib [symmetric] by (rule all_cong1) (use assms in auto)

lemma checkKokushi13_iff:
  assumes "range_ok rng"
  shows "checkKokushi13 rng ctx \<longleftrightarrow> closed_win ctx \<and> tType (WinTile (Claim ctx)) \<in> set kokushiTileTypes
     \<and> win_types ctx = add_mset (tType (WinTile (Claim ctx))) (mset kokushiTileTypes)" (is "?L \<longleftrightarrow> ?R")
proof -
  let ?w = "tType (WinTile (Claim ctx))" and ?M = "win_types ctx"
  obtain cs where cs: "buildTileTypeCountsForClaim ctx = (cs, int (size ?M))" "counts_ok ?M cs" "counts_ok ?M (rng cs)"
    using checker_split [OF assms] .
  have "list_all (\<lambda>(tt, c). c = 0 \<or> isKokushiTileType tt \<and> \<not> 2 < c) (rng cs)
      \<longleftrightarrow> (\<forall>k. count ?M k \<noteq> 0 \<longrightarrow> int (count ?M k) = 0 \<or> isKokushiTileType k \<and> \<not> 2 < int (count ?M k))"
    unfolding list_all_iff case_prod_unfold by (rule ball_counts [OF cs(3)])
  also have "\<dots> \<longleftrightarrow> (\<forall>k. count ?M k = 0 \<or> k \<in> set kokushiTileTypes \<and> count ?M k \<le> 2)"
    by (rule all_cong1) (auto simp: isKokushi_iff simp flip: count_eq_zero_iff)
  finally have only: "list_all (\<lambda>(tt, c). c = 0 \<or> isKokushiTileType tt \<and> \<not> 2 < c) (rng cs) \<longleftrightarrow> \<dots>" .
  have "?L \<longleftrightarrow> closed_win ctx \<and> (\<forall>k. count ?M k = 0 \<or> k \<in> set kokushiTileTypes \<and> count ?M k \<le> 2)
      \<and> (\<forall>k \<in> set kokushiTileTypes. count ?M k = (if k = ?w then 2 else 1))"
  proof (cases "Winner ctx")
    case (Some w)
    have win: "list_all (\<lambda>tt. if tt = ?w then count_of cs tt = 2 else count_of cs tt = 1) kokushiTileTypes
        \<longleftrightarrow> (\<forall>k \<in> set kokushiTileTypes. count ?M k = (if k = ?w then 2 else 1))"
      by (auto simp: list_all_iff count_of_ok [OF cs(2)])
    show ?thesis unfolding checkKokushi13_def Some cs(1) Let_def prod.case option.case only win closed_win_def
      by auto
  qed (simp add: checkKokushi13_def closed_win_def)
  also have "\<dots> \<longleftrightarrow> ?R"
  proof (cases "?w \<in> set kokushiTileTypes")
    case True
    have "(\<forall>k. count ?M k = 0 \<or> k \<in> set kokushiTileTypes \<and> count ?M k \<le> 2)
      \<and> (\<forall>k \<in> set kokushiTileTypes. count ?M k = (if k = ?w then 2 else 1))
      \<longleftrightarrow> (\<forall>k. count ?M k = count (add_mset ?w (mset kokushiTileTypes)) k)"
      by (simp only: one_each_and_one_more [OF True] count_add_mset count_kokushi)
    then show ?thesis using True by (simp only: multiset_eq_iff simp_thms)
  next
    case False
    have "?M = mset kokushiTileTypes" if
      "\<forall>k. count ?M k = 0 \<or> k \<in> set kokushiTileTypes \<and> count ?M k \<le> 2"
      "\<forall>k \<in> set kokushiTileTypes. count ?M k = (if k = ?w then 2 else 1)"
      using that False by (intro multiset_eqI) (auto simp: count_kokushi)
    moreover have "size (mset kokushiTileTypes) \<noteq> 14" by (simp add: kokushiTileTypes_def)
    ultimately show ?thesis using False by (metis closed_win_def)
  qed
  finally show ?thesis .
qed

text \<open>Four concealed triplets.\<close>

lemma triplets_loop_eq: "triplets_loop cs n =
    (if \<forall>e \<in> set cs. snd e \<in> {0, 2, 3, 4} then Some (n + int (length (filter (\<lambda>e. snd e \<in> {3, 4}) cs))) else None)"
proof (induction cs arbitrary: n)
  case (Cons e cs)
  obtain tt c where "e = (tt, c)" by force
  with Cons show ?case by simp
qed simp

lemma distinct_singleton: "distinct xs \<Longrightarrow> xs = [x] \<longleftrightarrow> set xs = {x}"
  by (cases xs) (auto dest!: subset_singletonD)

lemma pairs_loop_eq: "pairs_loop cs = (let ps = filter (\<lambda>e. snd e = 2) cs
    in (if ps = [] then -1 else fst (last ps), int (length ps)))"
proof -
  have "fold (\<lambda>(tt, c) (pair, pairCount). if c = 2 then (tt, pairCount + 1) else (pair, pairCount)) cs (p, n)
    = (let ps = filter (\<lambda>e. snd e = 2) cs in (if ps = [] then p else fst (last ps), n + int (length ps)))" for p n
    by (induction cs arbitrary: p n) (auto simp: Let_def)
  then show ?thesis by (simp add: pairs_loop_def)
qed

lemma counts_ok_size: "counts_ok M cs \<Longrightarrow> sum_list (map snd cs) = int (size M)"
proof -
  assume c: "counts_ok M cs"
  have keys: "set (map fst cs) = set_mset M"
    using counts_ok_set [OF c] by (force simp: image_iff)
  have "map snd cs = map (\<lambda>k. int (count M k)) (map fst cs)"
    using counts_ok_set [OF c] by auto
  then have "sum_list (map snd cs) = (\<Sum>k \<in> set (map fst cs). int (count M k))"
    using c by (simp only: sum_list_distinct_conv_sum_set counts_ok_def)
  then show ?thesis unfolding keys by (simp add: size_multiset_overloaded_eq)
qed

lemma triplets_sum:
  assumes "\<forall>e \<in> set cs. snd e \<in> {0, 2, 3, 4}"
  shows "sum_list (map snd cs) = 2 * int (length (filter (\<lambda>e. snd e = 2) cs))
      + 3 * int (length (filter (\<lambda>e. snd e \<in> {3, 4}) cs)) + int (length (filter (\<lambda>e. snd e = 4) cs))"
  using assms by (induction cs) auto

lemma pair_and_triplets:
  "(\<forall>k. f k \<in> {0, 2, 3}) \<and> (\<forall>k. f k = 2 \<longleftrightarrow> k = w) \<longleftrightarrow> f w = 2 \<and> (\<forall>k. k \<noteq> w \<longrightarrow> f k \<in> {0, 3::nat})"
  by auto

lemma checkSuuankouTanki_iff:
  assumes "range_ok rng"
  shows "checkSuuankouTanki rng ctx \<longleftrightarrow> closed_win ctx \<and> count (win_types ctx) (tType (WinTile (Claim ctx))) = 2
     \<and> (\<forall>k. k \<noteq> tType (WinTile (Claim ctx)) \<longrightarrow> count (win_types ctx) k \<in> {0, 3})" (is "?L \<longleftrightarrow> ?R")
proof -
  let ?w = "tType (WinTile (Claim ctx))" and ?M = "win_types ctx"
  obtain cs where cs: "buildTileTypeCountsForClaim ctx = (cs, int (size ?M))" "counts_ok ?M cs" "counts_ok ?M (rng cs)"
    using checker_split [OF assms] .
  let ?ps = "filter (\<lambda>e. snd e = 2) (rng cs)" and ?ts = "filter (\<lambda>e. snd e \<in> {3, 4}) (rng cs)"
    and ?qs = "filter (\<lambda>e. snd e = 4) (rng cs)" and ?small = "\<forall>e \<in> set (rng cs). snd e \<in> {0, 2, 3, 4}"
  have "?L \<longleftrightarrow> closed_win ctx \<and> ?small \<and> length ?ts = 4 \<and> length ?ps = 1 \<and> fst (last ?ps) = ?w"
    by (auto simp: checkSuuankouTanki_def cs(1) closed_win_def triplets_loop_eq pairs_loop_eq Let_def
        split: option.splits if_splits)
  also have "\<dots> \<longleftrightarrow> closed_win ctx \<and> ?small \<and> ?qs = [] \<and> ?ps = [(?w, 2)]"
  proof -
    have "size ?M = 14 \<Longrightarrow> ?small \<Longrightarrow> 14 = 2 * int (length ?ps) + 3 * int (length ?ts) + int (length ?qs)"
      using triplets_sum [of "rng cs"] counts_ok_size [OF cs(3)] by simp
    moreover have "length ?ps = 1 \<and> fst (last ?ps) = ?w \<longleftrightarrow> ?ps = [(?w, 2)]"
    proof -
      have "snd (last ?ps) = 2" if "?ps \<noteq> []" using last_in_set [OF that] by simp
      then show ?thesis by (cases ?ps) (auto simp: prod_eq_iff)
    qed
    ultimately show ?thesis unfolding closed_win_def by auto
  qed
  also have "\<dots> \<longleftrightarrow> closed_win ctx \<and> (\<forall>e \<in> set (rng cs). snd e \<in> {0, 2, 3}) \<and> set ?ps = {(?w, 2)}"
  proof -
    have "distinct ?ps" using cs(3) by (simp add: counts_ok_def distinct_map)
    then show ?thesis by (auto simp: filter_empty_conv distinct_singleton)
  qed
  also have "\<dots> \<longleftrightarrow> closed_win ctx \<and> (\<forall>k. count ?M k \<noteq> 0 \<longrightarrow> int (count ?M k) \<in> {0, 2, 3})
      \<and> (\<forall>k c. (k, c) \<in> set (rng cs) \<and> c = 2 \<longleftrightarrow> k = ?w \<and> c = 2)"
    using ball_counts [OF cs(3), of "\<lambda>k c. c \<in> {0, 2, 3}"] by (simp add: set_eq_iff)
  also have "\<dots> \<longleftrightarrow> closed_win ctx \<and> (\<forall>k. count ?M k \<in> {0, 2, 3}) \<and> (\<forall>k. count ?M k = 2 \<longleftrightarrow> k = ?w)"
    unfolding counts_ok_set [OF cs(3)] by (intro conj_cong all_cong1 refl) (auto simp flip: count_eq_zero_iff)
  also have "\<dots> \<longleftrightarrow> ?R" by (simp only: pair_and_triplets)
  finally show ?thesis .
qed

text \<open>Nine gates: 1112345678999 of a suit with the winning tile on top.\<close>

definition nine_gates :: "int \<Rightarrow> TileType multiset" where
  "nine_gates s = mset (map (\<lambda>i. 9 * s + i) [0, 0, 0, 1, 2, 3, 4, 5, 6, 7, 8, 8, 8])"

lemma suit_number:
  "suitOfTileType k = s \<and> s \<noteq> -1 \<longleftrightarrow> s \<in> {0, 1, 2} \<and> 9 * s \<le> k \<and> k < 9 * s + 9"
  "suitOfTileType k \<noteq> -1 \<Longrightarrow> numberIndex k = k - 9 * suitOfTileType k"
  "suitOfTileType k \<noteq> -1 \<Longrightarrow> \<not> isHonor k"
  "suitOfTileType k = -1 \<or> 0 \<le> suitOfTileType k"
  by (auto simp: suitOfTileType_def numberIndex_def isHonor_def)

lemma chuuren_loop_Cons:
  assumes "c \<noteq> 0"
  shows "chuuren_loop ((tt, c) # cs) suit c9 =
    (if suitOfTileType tt \<noteq> -1 \<and> (suit = -1 \<or> suit = suitOfTileType tt)
     then chuuren_loop cs (suitOfTileType tt) (c9[nat (numberIndex tt) := c]) else None)"
  using assms by (auto simp: Let_def suitOfTileType_def numberIndex_def isHonor_def)

text \<open>Started with a suit \<open>s\<close> of its own, the loop succeeds when all keys have suit \<open>s\<close>.\<close>

lemma chuuren_loop_suit:
  assumes "\<forall>e \<in> set cs. 0 < snd e" "s \<noteq> -1"
  shows "chuuren_loop cs s c9 = (if \<forall>e \<in> set cs. suitOfTileType (fst e) = s
    then Some (s, fold (\<lambda>e c9. c9[nat (fst e - 9 * s) := snd e]) cs c9) else None)"
  using assms
proof (induction cs arbitrary: c9)
  case (Cons e cs)
  obtain tt c where e: "e = (tt, c)" by force
  then have "c \<noteq> 0" using Cons.prems by simp
  note step = chuuren_loop_Cons [OF this, of tt cs s c9]
  show ?case
  proof (cases "suitOfTileType tt = s")
    case True
    then have "numberIndex tt = tt - 9 * s" using Cons.prems(2) suit_number(2) [of tt] by simp
    then show ?thesis using Cons True unfolding e step by simp
  next
    case False
    then show ?thesis using Cons.prems(2) unfolding e step by simp
  qed
qed simp

lemma fold_update_nth:
  assumes "distinct (map fst cs)" "\<forall>e \<in> set cs. 9 * s \<le> fst e \<and> fst e < 9 * s + 9" "length c9 = 9"
    "\<forall>e \<in> set cs. 0 < snd e"
  shows "length (fold (\<lambda>e c9. c9[nat (fst e - 9 * s) := snd e]) cs c9) = 9 \<and>
    (\<forall>n < 9. fold (\<lambda>e c9. c9[nat (fst e - 9 * s) := snd e]) cs c9 ! n
      = (if count_of cs (9 * s + int n) = 0 then c9 ! n else count_of cs (9 * s + int n)))"
  using assms
proof (induction cs arbitrary: c9)
  case (Cons e cs)
  obtain tt c where e: "e = (tt, c)" by force
  let ?c9 = "c9[nat (tt - 9 * s) := c]"
  have tt: "9 * s \<le> tt" "tt < 9 * s + 9" "0 < c" and new: "tt \<notin> fst ` set cs" using Cons.prems e by auto
  have "n = nat (tt - 9 * s) \<longleftrightarrow> 9 * s + int n = tt" for n using tt by auto
  then show ?case using Cons.IH [of ?c9] Cons.prems tt count_of_notin [OF new]
    by (auto simp: e nth_list_update)
qed simp

lemma count_nine_gates:
  "n < 9 \<Longrightarrow> int (count (nine_gates s) (9 * s + int n)) = [3, 1, 1, 1, 1, 1, 1, 1, 3] ! n"
  "k < 9 * s \<or> 9 * s + 9 \<le> k \<Longrightarrow> count (nine_gates s) k = 0"
  by (auto simp: nine_gates_def numeral_eq_Suc less_Suc_eq)

lemma gates_list:
  assumes "length c9 = 9" "i < 9"
  shows "c9[i := c9 ! i - 1] = [3, 1, 1, 1, 1, 1, 1, 1, 3] \<longleftrightarrow>
    (\<forall>n < 9. c9 ! n = [3, 1, 1, 1, 1, 1, 1, 1, 3] ! n + (if n = i then 1 else (0::int)))"
proof -
  have "c9[i := c9 ! i - 1] = b \<longleftrightarrow> (\<forall>n < 9. c9 ! n = b ! n + (if n = i then 1 else 0))" if "length b = 9" for b
    using assms that by (auto simp: list_eq_iff_nth_eq nth_list_update)
  then show ?thesis by simp
qed

lemma gates_mset:
  assumes "w = 9 * s + int i" "i < 9"
  shows "(\<forall>k. count M k = count (add_mset w (nine_gates s)) k) \<longleftrightarrow>
    (\<forall>k. count M k \<noteq> 0 \<longrightarrow> 9 * s \<le> k \<and> k < 9 * s + 9) \<and>
    (\<forall>n < 9. int (count M (9 * s + int n)) = [3, 1, 1, 1, 1, 1, 1, 1, 3] ! n + (if n = i then 1 else 0))"
    (is "?L \<longleftrightarrow> ?band \<and> ?at")
proof (intro iffI allI)
  have g: "int (count (add_mset w (nine_gates s)) (9 * s + int n)) = [3, 1, 1, 1, 1, 1, 1, 1, 3] ! n + (if n = i then 1 else 0)"
    if "n < 9" for n using count_nine_gates(1) [OF that, of s] assms by (cases "n = i") simp_all
  have out: "count (add_mset w (nine_gates s)) k = 0" if "k < 9 * s \<or> 9 * s + 9 \<le> k" for k
    using count_nine_gates(2) [OF that] that assms by auto
  show "?band \<and> ?at" if ?L using that g out by (metis not_le)
  show "count M k = count (add_mset w (nine_gates s)) k" if "?band \<and> ?at" for k
  proof (cases "9 * s \<le> k \<and> k < 9 * s + 9")
    case True
    then have "k = 9 * s + int (nat (k - 9 * s))" "nat (k - 9 * s) < 9" by auto
    then show ?thesis using that g [of "nat (k - 9 * s)"] by (metis of_nat_eq_iff)
  next
    case False
    then show ?thesis using that out [of k] by (metis not_le)
  qed
qed

lemma chuuren_loop_start:
  assumes "c \<noteq> 0"
  shows "chuuren_loop ((tt, c) # cs) (-1) c9 =
    (if suitOfTileType tt = -1 then None else chuuren_loop ((tt, c) # cs) (suitOfTileType tt) c9)"
  by (simp only: chuuren_loop_Cons [OF assms]) simp

lemma checkJunseiChuuren_suit:
  assumes "range_ok rng" "w = tType (WinTile (Claim ctx))" "s = suitOfTileType w"
    "buildTileTypeCountsForClaim ctx = (cs, int (size (win_types ctx)))" "counts_ok (win_types ctx) (rng cs)"
  shows "checkJunseiChuuren rng ctx \<longleftrightarrow> closed_win ctx \<and> s \<noteq> -1 \<and> (\<forall>e \<in> set (rng cs). suitOfTileType (fst e) = s)
     \<and> (let c9 = fold (\<lambda>e c9. c9[nat (fst e - 9 * s) := snd e]) (rng cs) (replicate 9 0); i = nat (w - 9 * s)
        in c9[i := c9 ! i - 1] = [3, 1, 1, 1, 1, 1, 1, 1, 3])"
proof (cases "closed_win ctx")
  case True
  then obtain p where p: "Winner ctx = Some p" "Melds p = []" "size (win_types ctx) = 14" by (auto simp: closed_win_def)
  from p(3) counts_ok_size [OF assms(5)] have "rng cs \<noteq> []" by auto
  then obtain tt c cs1 where c1: "rng cs = (tt, c) # cs1" by (metis list.exhaust surj_pair)
  have pos: "\<forall>e \<in> set (rng cs). 0 < snd e" using assms(5) by (simp add: counts_ok_def)
  then have "c \<noteq> 0" by (simp add: c1)
  note start = chuuren_loop_start [OF this, of tt cs1 "replicate 9 0", folded c1]
  have "checkJunseiChuuren rng ctx \<longleftrightarrow> s \<noteq> -1 \<and> (\<exists>c9. chuuren_loop (rng cs) (-1) (replicate 9 0) = Some (s, c9)
      \<and> c9[nat (w - 9 * s) := c9 ! nat (w - 9 * s) - 1] = [3, 1, 1, 1, 1, 1, 1, 1, 3])"
    using p suit_number(2-4) [of w] assms(2-4) suit_number(1) [of w s]
    by (auto simp: checkJunseiChuuren_def Let_def split: option.splits)
  also have "\<dots> \<longleftrightarrow> s \<noteq> -1 \<and> (\<forall>e \<in> set (rng cs). suitOfTileType (fst e) = s)
     \<and> (let c9 = fold (\<lambda>e c9. c9[nat (fst e - 9 * s) := snd e]) (rng cs) (replicate 9 0); i = nat (w - 9 * s)
        in c9[i := c9 ! i - 1] = [3, 1, 1, 1, 1, 1, 1, 1, 3])"
  proof (cases "suitOfTileType tt = -1")
    case True
    then have "s \<noteq> -1 \<Longrightarrow> \<not> (\<forall>e \<in> set (rng cs). suitOfTileType (fst e) = s)" by (simp add: c1)
    then show ?thesis using True by (auto simp: start)
  next
    case False
    show ?thesis
    proof (cases "suitOfTileType tt = s")
      case True
      with False show ?thesis unfolding start by (simp add: chuuren_loop_suit [OF pos] Let_def)
    next
      case other: False
      have "\<not> (\<forall>e \<in> set (rng cs). suitOfTileType (fst e) = s)" using other by (simp add: c1)
      moreover have "chuuren_loop (rng cs) (suitOfTileType tt) (replicate 9 0) \<noteq> Some (s, c9)" for c9
        using other chuuren_loop_suit [OF pos False] by simp
      ultimately show ?thesis using False unfolding start by simp
    qed
  qed
  finally show ?thesis using True by simp
qed (auto simp: checkJunseiChuuren_def closed_win_def assms(4) split: option.splits)

lemma checkJunseiChuuren_iff:
  assumes "range_ok rng"
  shows "checkJunseiChuuren rng ctx \<longleftrightarrow> closed_win ctx
     \<and> (\<exists>s \<in> {0, 1, 2}. 9 * s \<le> tType (WinTile (Claim ctx)) \<and> tType (WinTile (Claim ctx)) < 9 * s + 9
          \<and> win_types ctx = add_mset (tType (WinTile (Claim ctx))) (nine_gates s))"
proof -
  define w where "w = tType (WinTile (Claim ctx))"
  define s where "s = suitOfTileType w"
  let ?M = "win_types ctx"
  obtain cs where cs: "buildTileTypeCountsForClaim ctx = (cs, int (size ?M))" "counts_ok ?M (rng cs)"
    using checker_split [OF assms] by metis
  define c9 where "c9 = fold (\<lambda>e c9. c9[nat (fst e - 9 * s) := snd e]) (rng cs) (replicate 9 0)"
  define i where "i = nat (w - 9 * s)"
  have "(\<forall>e \<in> set (rng cs). suitOfTileType (fst e) = s) \<longleftrightarrow> (\<forall>k. count ?M k \<noteq> 0 \<longrightarrow> 9 * s \<le> k \<and> k < 9 * s + 9)"
    (is "?all \<longleftrightarrow> ?band") and s3: "s \<in> {0, 1, 2}" and w: "w = 9 * s + int i" "i < 9" if "s \<noteq> -1"
  proof -
    have "suitOfTileType k = s \<longleftrightarrow> s \<in> {0, 1, 2} \<and> 9 * s \<le> k \<and> k < 9 * s + 9" for k
      using suit_number(1) [of k s] that by simp
    moreover from this [of w] show s3: "s \<in> {0, 1, 2}" and "w = 9 * s + int i" "i < 9" by (auto simp: s_def i_def)
    ultimately show "?all \<longleftrightarrow> ?band" using ball_counts [OF cs(2), of "\<lambda>k c. 9 * s \<le> k \<and> k < 9 * s + 9"] by simp
  qed
  note band = this
  have c9: "length c9 = 9 \<and> (\<forall>n < 9. c9 ! n = int (count ?M (9 * s + int n)))" if "s \<noteq> -1" "\<forall>e \<in> set (rng cs). suitOfTileType (fst e) = s"
    using fold_update_nth [of "rng cs" s "replicate 9 0"] cs(2) that suit_number(1) [of _ s]
    by (auto simp: c9_def counts_ok_def)
  have "checkJunseiChuuren rng ctx \<longleftrightarrow> closed_win ctx \<and> s \<noteq> -1 \<and> ?band \<and> c9[i := c9 ! i - 1] = [3, 1, 1, 1, 1, 1, 1, 1, 3]"
    using checkJunseiChuuren_suit [OF assms w_def s_def cs] band(1) by (simp add: c9_def i_def Let_def) blast
  also have "\<dots> \<longleftrightarrow> closed_win ctx \<and> s \<noteq> -1 \<and> ?M = add_mset w (nine_gates s)"
  proof (cases "s = -1 \<or> \<not> ?band")
    case True
    then show ?thesis using gates_mset [of w s i ?M] w unfolding multiset_eq_iff by blast
  next
    case False
    then have "length c9 = 9" and at: "\<forall>n < 9. c9 ! n = int (count ?M (9 * s + int n))"
      using c9 band(1) by simp_all
    then have "c9[i := c9 ! i - 1] = [3, 1, 1, 1, 1, 1, 1, 1, 3] \<longleftrightarrow>
      (\<forall>n < 9. int (count ?M (9 * s + int n)) = [3, 1, 1, 1, 1, 1, 1, 1, 3] ! n + (if n = i then 1 else 0))"
      using gates_list [of c9 i] w(2) False by simp
    then show ?thesis using gates_mset [OF w, of ?M] False unfolding multiset_eq_iff by blast
  qed
  also have "\<dots> \<longleftrightarrow> closed_win ctx \<and> (\<exists>s \<in> {0, 1, 2}. 9 * s \<le> w \<and> w < 9 * s + 9 \<and> ?M = add_mset w (nine_gates s))"
  proof -
    have "(\<exists>s \<in> {0, 1, 2}. 9 * s \<le> w \<and> w < 9 * s + 9 \<and> ?M = add_mset w (nine_gates s))
      \<longleftrightarrow> (\<exists>s'. (suitOfTileType w = s' \<and> s' \<noteq> -1) \<and> ?M = add_mset w (nine_gates s'))"
      unfolding suit_number(1) by blast
    then show ?thesis unfolding s_def by blast
  qed
  finally show ?thesis unfolding w_def .
qed

lemma checkDaisushi_iff:
  "checkDaisushi ctx \<longleftrightarrow> (\<forall>wind \<in> {East, South, West, North}. 3 \<le> count (win_types ctx) wind)"
proof -
  obtain cs where "buildTileTypeCountsForClaim ctx = (cs, int (size (win_types ctx)))" "counts_ok (win_types ctx) cs"
    using buildTileTypeCountsForClaim_ok .
  then show ?thesis by (simp add: checkDaisushi_def count_of_ok)
qed

section \<open>The registry\<close>

lemma registry_idle:
  "fold (\<lambda>(y, check) (h, m, r). let (han, ym) = check ctx
      in if 0 < han \<or> 0 < ym then (h + han, m + ym, r @ [y]) else (h, m, r))
    (map (\<lambda>y. (y, \<lambda>ctx. (0::int, 0::int))) ys) acc = acc"
  by (induction ys) auto

lemma evalClaimYakuman_eq:
  assumes "ctx = \<lparr>Claim = claim, Winner = winner_of players claim, ySituation = sit, EndKind = endKind\<rparr>"
  shows "evalClaimYakuman rng players sit claim endKind =
    (let ys = filter (\<lambda>y. case y of YakuSuuankouTanki \<Rightarrow> checkSuuankouTanki rng ctx | YakuDaisushi \<Rightarrow> checkDaisushi ctx
           | YakuKokushi13 \<Rightarrow> checkKokushi13 rng ctx | YakuJunseiChuuren \<Rightarrow> checkJunseiChuuren rng ctx | _ \<Rightarrow> False)
           [YakuSuuankouTanki, YakuDaisushi, YakuKokushi13, YakuJunseiChuuren]
     in (0, 2 * int (length ys), ys))"
  unfolding evalClaimYakuman_def RiichiMahjong4pYakuRegistry_def Let_def assms [symmetric] fold_append o_apply registry_idle
  by simp

text \<open>The patterns exclude one another, except that four wind triplets may also be four concealed ones.\<close>

lemma kokushi_excludes:
  assumes "range_ok rng" "checkKokushi13 rng ctx"
  shows "\<not> checkSuuankouTanki rng ctx" "\<not> checkDaisushi ctx" "\<not> checkJunseiChuuren rng ctx"
proof -
  let ?w = "tType (WinTile (Claim ctx))"
  have M: "win_types ctx = add_mset ?w (mset kokushiTileTypes)" "?w \<in> set kokushiTileTypes"
    using checkKokushi13_iff [OF assms(1)] assms(2) by auto
  have c: "count (win_types ctx) k = (if ?w = k then 2 else if k \<in> set kokushiTileTypes then 1 else 0)" for k
    using M(2) unfolding M(1) count_add_mset count_kokushi by auto
  have "\<exists>k. k \<noteq> ?w \<and> count (win_types ctx) k = 1"
    by (rule exI [of _ "if ?w = East then South else East"]) (simp add: c kokushiTileTypes_def)
  then show "\<not> checkSuuankouTanki rng ctx" using checkSuuankouTanki_iff [OF assms(1)] by fastforce
  show "\<not> checkDaisushi ctx" unfolding checkDaisushi_iff c by (auto split: if_splits)
  have "31 \<in># win_types ctx" by (simp add: M(1) kokushiTileTypes_def)
  moreover have "31 \<notin># add_mset v (nine_gates s)" if "s \<in> {0, 1, 2}" "9 * s \<le> v" "v < 9 * s + 9" for s v
    using that by (auto simp: nine_gates_def)
  ultimately show "\<not> checkJunseiChuuren rng ctx" using checkJunseiChuuren_iff [OF assms(1)] by metis
qed

lemma chuuren_excludes:
  assumes "range_ok rng" "checkJunseiChuuren rng ctx"
  shows "\<not> checkSuuankouTanki rng ctx" "\<not> checkDaisushi ctx"
proof -
  let ?w = "tType (WinTile (Claim ctx))"
  obtain s where s: "s \<in> {0, 1, 2}" "9 * s \<le> ?w" "?w < 9 * s + 9" "win_types ctx = add_mset ?w (nine_gates s)"
    using checkJunseiChuuren_iff [OF assms(1)] assms(2) by blast
  have "East \<notin># win_types ctx" using s(1,3) unfolding s(4) by (auto simp: nine_gates_def)
  then show "\<not> checkDaisushi ctx" unfolding checkDaisushi_iff by (auto simp: not_in_iff)
  have "\<exists>k. k \<noteq> ?w \<and> count (win_types ctx) k = 1"
  proof (cases "?w = 9 * s + 1")
    case True
    then have "count (win_types ctx) (9 * s + 2) = 1" unfolding s(4) by (simp add: nine_gates_def)
    with True show ?thesis by (intro exI [of _ "9 * s + 2"]) simp
  next
    case False
    then have "count (win_types ctx) (9 * s + 1) = 1" unfolding s(4) by (simp add: nine_gates_def)
    with False show ?thesis by (intro exI [of _ "9 * s + 1"]) simp
  qed
  then show "\<not> checkSuuankouTanki rng ctx" using checkSuuankouTanki_iff [OF assms(1)] by fastforce
qed

lemma evalClaimYakuman_range:
  assumes "range_ok rng" "evalClaimYakuman rng players sit claim endKind = (han, ym, ys)"
  shows "han = 0" "ym \<in> {0, 2, 4}"
proof -
  define ctx where "ctx = \<lparr>Claim = claim, Winner = winner_of players claim, ySituation = sit, EndKind = endKind\<rparr>"
  from evalClaimYakuman_eq [OF ctx_def, of rng] assms(2) kokushi_excludes [OF assms(1), of ctx] chuuren_excludes [OF assms(1), of ctx]
  show "han = 0" "ym \<in> {0, 2, 4}" by (auto split: if_splits)
qed

section \<open>Properties\<close>

text \<open>C12: The four yakuman checkers decide their patterns, whatever order Go visits the map of counts in.  On
  the winner's tiles, melds and the ron tile: four concealed triplets with a pair wait on the winning
  tile; three or more of each wind; the thirteen terminals and honours with the winning tile doubled;
  1112345678999 of the winning tile's suit plus that tile.  All but the second need a closed hand of
  14 tiles.\<close>

theorem yakuman_checkers:
  assumes "range_ok rng"
  shows "(checkSuuankouTanki rng ctx \<longleftrightarrow> closed_win ctx \<and> count (win_types ctx) (tType (WinTile (Claim ctx))) = 2
       \<and> (\<forall>k. k \<noteq> tType (WinTile (Claim ctx)) \<longrightarrow> count (win_types ctx) k \<in> {0, 3}))
    \<and> (checkDaisushi ctx \<longleftrightarrow> (\<forall>wind \<in> {East, South, West, North}. 3 \<le> count (win_types ctx) wind))
    \<and> (checkKokushi13 rng ctx \<longleftrightarrow> closed_win ctx \<and> tType (WinTile (Claim ctx)) \<in> set kokushiTileTypes
       \<and> win_types ctx = add_mset (tType (WinTile (Claim ctx))) (mset kokushiTileTypes))
    \<and> (checkJunseiChuuren rng ctx \<longleftrightarrow> closed_win ctx
       \<and> (\<exists>s \<in> {0, 1, 2}. 9 * s \<le> tType (WinTile (Claim ctx)) \<and> tType (WinTile (Claim ctx)) < 9 * s + 9
            \<and> win_types ctx = add_mset (tType (WinTile (Claim ctx))) (nine_gates s)))"
  using checkSuuankouTanki_iff [OF assms, of ctx] checkDaisushi_iff [of ctx] checkKokushi13_iff [OF assms, of ctx]
    checkJunseiChuuren_iff [OF assms, of ctx] by blast

text \<open>A thirteen-orphans hand won on the east wind.\<close>

definition orphans :: YakuContext where
  "orphans = \<lparr>Claim = \<lparr>WinnerSeat = 0, HasLoser = True, LoserSeat = 1, WinTile = \<lparr>tType = East, tID = 1\<rparr>\<rparr>,
     Winner = Some ((NewPlayerImage ''a'' 0 25000)\<lparr>Tiles := map (\<lambda>tt. \<lparr>tType = tt, tID = 0\<rparr>) kokushiTileTypes\<rparr>),
     ySituation = None, EndKind = RoundEndRon\<rparr>"

text \<open>C12 on a thirteen-orphans hand won on the east wind.\<close>

theorem yakuman_checkers_witness:
  "checkKokushi13 (\<lambda>cs. cs) orphans \<and> closed_win orphans \<and> win_types orphans = add_mset East (mset kokushiTileTypes)"
proof -
  have r: "range_ok (\<lambda>cs. cs)" by (simp add: range_ok_def)
  have "checkKokushi13 (\<lambda>cs. cs) orphans" by code_simp
  moreover have "tType (WinTile (Claim orphans)) = East" by (simp add: orphans_def)
  ultimately show ?thesis using yakuman_checkers [OF r, of orphans] by metis
qed

text \<open>The yakuman evaluation of a claim never awards han; its multiple is two for each pattern found and
  at most four.  The patterns exclude one another except four wind triplets with four concealed
  triplets.  The result does not depend on the order in which Go visits its maps.\<close>

lemma evalClaimYakuman_spec:
  assumes "range_ok rng" "range_ok rng'"
  shows "evalClaimYakuman rng players sit claim endKind = evalClaimYakuman rng' players sit claim endKind
    \<and> (\<exists>ys. evalClaimYakuman rng players sit claim endKind = (0, 2 * int (length ys), ys) \<and> length ys \<le> 2
         \<and> (length ys = 2 \<longrightarrow> ys = [YakuSuuankouTanki, YakuDaisushi]))"
proof -
  define ctx where "ctx = \<lparr>Claim = claim, Winner = winner_of players claim, ySituation = sit, EndKind = endKind\<rparr>"
  note e = evalClaimYakuman_eq [OF ctx_def]
  note ex = kokushi_excludes [OF assms(1), of ctx] chuuren_excludes [OF assms(1), of ctx]
  have "checkSuuankouTanki rng ctx = checkSuuankouTanki rng' ctx" "checkKokushi13 rng ctx = checkKokushi13 rng' ctx"
    "checkJunseiChuuren rng ctx = checkJunseiChuuren rng' ctx"
    by (simp_all only: checkSuuankouTanki_iff [OF assms(1)] checkSuuankouTanki_iff [OF assms(2)] checkKokushi13_iff [OF assms(1)]
        checkKokushi13_iff [OF assms(2)] checkJunseiChuuren_iff [OF assms(1)] checkJunseiChuuren_iff [OF assms(2)])
  then have "evalClaimYakuman rng players sit claim endKind = evalClaimYakuman rng' players sit claim endKind"
    unfolding e by simp
  moreover have "\<exists>ys. evalClaimYakuman rng players sit claim endKind = (0, 2 * int (length ys), ys) \<and> length ys \<le> 2
      \<and> (length ys = 2 \<longrightarrow> ys = [YakuSuuankouTanki, YakuDaisushi])"
    unfolding e Let_def by (rule exI, rule conjI, rule refl) (use ex in auto)
  ultimately show ?thesis by blast
qed

end
