(* ===== verification/Score.thy ===== *)
theory Score
  imports YakuSpec
begin

text \<open>
  Points of a winning hand: \<^verbatim>\<open>game/runtime/engines/mahjong/score_calculator.go\<close>.  The engine's
  \<open>Players\<close> and \<open>Situation\<close> are parameters.  A nil \<open>Situation\<close>, a seat outside 0..3 and a meld without
  tiles make the Go code panic: \<open>None\<close>.
\<close>

definition isYaochu :: "TileType \<Rightarrow> bool" where
  "isYaochu tileType =
     (if East \<le> tileType \<and> tileType \<le> Red then True
      else tileType = Man1 \<or> tileType = Man9 \<or> tileType = Pin1 \<or> tileType = Pin9 \<or> tileType = So1 \<or> tileType = So9)"

definition calculateBasePoints :: "int \<Rightarrow> int \<Rightarrow> int" where
  "calculateBasePoints han fu = roundUpTo100 (fu * 2 ^ nat (2 + han))"

definition getFixedPoints :: "int \<Rightarrow> string \<Rightarrow> bool \<Rightarrow> int" where
  "getFixedPoints han endKind isDealer =
     (if endKind = RoundEndRon then
        if han = 5 then (if isDealer then 12000 else 8000)
        else if 6 \<le> han \<and> han \<le> 7 then (if isDealer then 18000 else 12000)
        else if 8 \<le> han \<and> han \<le> 10 then (if isDealer then 24000 else 16000)
        else if 11 \<le> han \<and> han \<le> 12 then (if isDealer then 36000 else 24000)
        else 0
      else
        if han = 5 then (if isDealer then 4000 else 2000)
        else if 6 \<le> han \<and> han \<le> 7 then (if isDealer then 6000 else 3000)
        else if 8 \<le> han \<and> han \<le> 10 then (if isDealer then 8000 else 4000)
        else if 11 \<le> han \<and> han \<le> 12 then (if isDealer then 12000 else 6000)
        else 0)"

definition checkPinfu :: "HuClaim \<Rightarrow> PlayerImage \<Rightarrow> bool" where
  "checkPinfu claim winner = (if 0 < length (Melds winner) then False else False)"

definition calculatePairFu :: "HuClaim \<Rightarrow> PlayerImage \<Rightarrow> int" where
  "calculatePairFu claim winner = 0"

fun calculateMeldFu_loop :: "Meld list \<Rightarrow> int \<Rightarrow> int option" where
  "calculateMeldFu_loop [] fu = Some fu"
| "calculateMeldFu_loop (m # ms) fu = do {
     t \<leftarrow> idx (mTiles m) 0;
     let yaochu = isYaochu (tType t);
     calculateMeldFu_loop ms
       (if mType m = ''Ankan'' then (if yaochu then fu + 32 else fu + 16)
        else if mType m = ''Kakan'' \<or> mType m = ''Gang'' then (if yaochu then fu + 16 else fu + 8)
        else if mType m = ''Peng'' then (if yaochu then fu + 4 else fu + 2)
        else fu)
   }"

definition calculateMeldFu :: "PlayerImage \<Rightarrow> int option" where
  "calculateMeldFu winner = calculateMeldFu_loop (Melds winner) 0"

definition calculateWaitFu :: "HuClaim \<Rightarrow> PlayerImage \<Rightarrow> int" where
  "calculateWaitFu claim winner = 0"

definition calculateFu :: "PlayerImage option list \<Rightarrow> HuClaim \<Rightarrow> string \<Rightarrow> int option" where
  "calculateFu players claim endKind = do {
     w \<leftarrow> idx players (WinnerSeat claim);
     case w of
       None \<Rightarrow> Some 0
     | Some winner \<Rightarrow>
         let fu = (if endKind = RoundEndTsumo then 20 + 2 else 20)
         in if checkPinfu claim winner then Some (if endKind = RoundEndRon then 30 else 20)
            else do {
              meldFu \<leftarrow> calculateMeldFu winner;
              Some (((fu + calculatePairFu claim winner + meldFu + calculateWaitFu claim winner + 9) sdiv 10) * 10)
            }
   }"

definition callHuPoints ::
    "range_order \<Rightarrow> PlayerImage option list \<Rightarrow> Situation option \<Rightarrow> HuClaim \<Rightarrow> string \<Rightarrow> (int \<times> int \<times> int \<times> Yaku list) option" where
  "callHuPoints rng players situation claim endKind = do {
     let (han, yakumanMult, yakus) = evalClaimYakuman rng players situation claim endKind;
     sit \<leftarrow> situation;
     let isDealer = (WinnerSeat claim = DealerIndex sit);
     let honba = Honba sit;
     if 0 < yakumanMult then
       let base = 8000 * yakumanMult;
           points = (if endKind = RoundEndRon
                     then (if isDealer then base * 6 else base * 4) + 300 * honba
                     else (if isDealer then base * 2 else base) + 100 * honba)
       in Some (han, 0, points, yakus)
     else if 5 \<le> han then
       let points = getFixedPoints han endKind isDealer
       in Some (han, 0, if endKind = RoundEndRon then points + 300 * honba else points + 100 * honba, yakus)
     else do {
       fu \<leftarrow> calculateFu players claim endKind;
       let basePoints = calculateBasePoints han fu;
       let points = (if endKind = RoundEndRon
                     then (if isDealer then basePoints * 6 else basePoints * 4)
                     else (if isDealer then basePoints * 2 else basePoints));
       Some (han, fu, points + 100 * honba, yakus)
     }
   }"

section \<open>Rounding and fu\<close>

lemma roundUpTo100_props:
  "x \<le> roundUpTo100 x" "roundUpTo100 x < x + 100" "100 dvd roundUpTo100 x"
  using pos_mod_bound [of 100 "- x"] pos_mod_sign [of 100 "- x"] div_mult_mod_eq [of "- x" 100]
  by (auto simp: roundUpTo100_def)

definition meld_ok :: "Meld \<Rightarrow> bool" where
  "meld_ok m \<longleftrightarrow> mTiles m \<noteq> []"

text \<open>The fu of one meld, by its type and whether it is of terminals or honours.\<close>

definition meld_fu :: "Meld \<Rightarrow> int" where
  "meld_fu m = (let f = (if isYaochu (tType (hd (mTiles m))) then 2 else 1)
     in if mType m = ''Ankan'' then 16 * f
        else if mType m = ''Kakan'' \<or> mType m = ''Gang'' then 8 * f
        else if mType m = ''Peng'' then 2 * f else 0)"

lemma calculateMeldFu_loop_eq:
  "\<forall>m \<in> set ms. meld_ok m \<Longrightarrow> calculateMeldFu_loop ms fu = Some (fu + sum_list (map meld_fu ms))"
proof (induction ms arbitrary: fu)
  case (Cons m ms)
  obtain t ts where t: "mTiles m = t # ts" using Cons.prems by (cases "mTiles m") (auto simp: meld_ok_def)
  with Cons show ?case by (simp add: idx_def meld_fu_def Let_def)
qed simp

lemma meld_fu_nonneg: "0 \<le> meld_fu m"
  by (simp add: meld_fu_def Let_def)

lemma sum_meld_fu_nonneg: "0 \<le> sum_list (map meld_fu ms)"
  by (rule sum_list_nonneg) (auto simp: meld_fu_nonneg)

definition base_fu :: "string \<Rightarrow> int" where
  "base_fu endKind = (if endKind = RoundEndTsumo then 22 else 20)"

lemma calculateFu_eq:
  assumes "0 \<le> WinnerSeat claim" "nat (WinnerSeat claim) < length players"
    "players ! nat (WinnerSeat claim) = Some w" "\<forall>m \<in> set (Melds w). meld_ok m"
  shows "calculateFu players claim endKind = Some ((base_fu endKind + sum_list (map meld_fu (Melds w)) + 9) div 10 * 10)"
  using assms sum_meld_fu_nonneg [of "Melds w"]
  by (simp add: calculateFu_def idx_in_range nat_less_iff checkPinfu_def calculateMeldFu_def calculateMeldFu_loop_eq
      calculatePairFu_def calculateWaitFu_def base_fu_def sdiv_nonneg ac_simps)

section \<open>The points of a claim\<close>

text \<open>
  What a claim is worth: yakuman hands by their multiple, all others by fu alone, since no registered
  checker awards han.
\<close>

definition claim_points :: "Situation \<Rightarrow> HuClaim \<Rightarrow> string \<Rightarrow> int \<Rightarrow> PlayerImage \<Rightarrow> int" where
  "claim_points sit claim endKind ym w =
     (let dealer = (WinnerSeat claim = DealerIndex sit);
          f = (if endKind = RoundEndRon then (if dealer then 6 else 4) else (if dealer then 2 else 1))
      in if 0 < ym then f * 8000 * ym + (if endKind = RoundEndRon then 300 else 100) * Honba sit
         else f * roundUpTo100 (4 * ((base_fu endKind + sum_list (map meld_fu (Melds w)) + 9) div 10 * 10)) + 100 * Honba sit)"

lemma callHuPoints_eq:
  assumes "range_ok rng" "0 \<le> WinnerSeat claim" "nat (WinnerSeat claim) < length players"
    "players ! nat (WinnerSeat claim) = Some w" "\<forall>m \<in> set (Melds w). meld_ok m"
    "evalClaimYakuman rng players (Some sit) claim endKind = (han, ym, ys)"
  shows "\<exists>fu. callHuPoints rng players (Some sit) claim endKind = Some (0, fu, claim_points sit claim endKind ym w, ys)"
proof -
  have "han = 0" using evalClaimYakuman_range [OF assms(1,6)] by simp
  then show ?thesis using assms(6)
    by (auto simp: callHuPoints_def calculateFu_eq [OF assms(2-5)] claim_points_def calculateBasePoints_def Let_def ac_simps)
qed

lemma claim_points_bounds:
  assumes "0 \<le> Honba sit"
  shows "100 \<le> claim_points sit claim endKind ym w"
proof -
  define x where "x = 4 * ((base_fu endKind + sum_list (map meld_fu (Melds w)) + 9) div 10 * 10)"
  have "80 \<le> x" unfolding x_def using sum_meld_fu_nonneg [of "Melds w"] by (simp add: base_fu_def) linarith
  moreover have "100 dvd roundUpTo100 x" "x \<le> roundUpTo100 x" by (rule roundUpTo100_props)+
  ultimately obtain k where "roundUpTo100 x = 100 * k" "80 \<le> 100 * k" by (auto elim!: dvdE)
  then have "0 < k" by simp
  with \<open>roundUpTo100 x = 100 * k\<close> have "100 \<le> roundUpTo100 x" by simp
  then show ?thesis using assms unfolding claim_points_def x_def [symmetric] Let_def by auto
qed

section \<open>Properties\<close>



text \<open>Points are rounded to the next full hundred: the result is the least multiple of 100 that is not
  smaller.\<close>

lemma roundUpTo100_spec:
  "x \<le> roundUpTo100 x \<and> roundUpTo100 x < x + 100 \<and> 100 dvd roundUpTo100 x \<and> (\<forall>y. x \<le> 100 * y \<longleftrightarrow> roundUpTo100 x \<le> 100 * y)"
proof -
  obtain k where k: "roundUpTo100 x = 100 * k" using roundUpTo100_props(3) [of x] by (elim dvdE)
  have "x \<le> 100 * y \<longleftrightarrow> roundUpTo100 x \<le> 100 * y" for y
  proof -
    have "x \<le> 100 * y \<longleftrightarrow> k \<le> y" using roundUpTo100_props(1,2) [of x] unfolding k by (intro iffI) linarith+
    then show ?thesis by (simp add: k)
  qed
  then show ?thesis using roundUpTo100_props [of x] by blast
qed

end
