(* ===== verification/EngineState.thy ===== *)
theory EngineState
  imports Options Ticker Persist Score
begin

text \<open>
  The state of the engine, the struct \<open>RiichiMahjong4p\<close> of
  \<^verbatim>\<open>game/runtime/engines/mahjong/riichi_mahjong_4p_engine.go\<close>, with the users of
  \<^verbatim>\<open>game/runtime/share/user_info.go\<close> and the events of \<^verbatim>\<open>game/runtime/share/game_message.go\<close>.

  \<^item> A pointer field that may be nil is an option.  \<open>Worker\<close>, the node object the engine sends through,
    is its node id.
  \<^item> \<open>gameEvents\<close> is the buffered channel of capacity 256, nil before \<open>InitializeEngine\<close>.
  \<^item> \<open>outbox\<close> records, in order, what the engine hands to the node: push packets and requests to
    destroy the room.  JSON encoding of the transferred structures is not modelled; a payload is the
    structure itself.
  \<^item> What a handler takes from outside its arguments is in the environment \<open>env\<close>: the clock, the
    random numbers of the shuffle, fresh object ids, the order in which Go visits its maps, and
    whether a cancelled clock goroutine has finished when its clock is started again.
\<close>

section \<open>Users and events\<close>

record UserInfo =
  uiUserID :: string
  ConnectorNodeID :: string
  IsOnline :: bool
  uiSeatIndex :: int

definition NewUserInfo :: "string \<Rightarrow> string \<Rightarrow> UserInfo" where
  "NewUserInfo userID connectorNodeID =
     \<lparr>uiUserID = userID, ConnectorNodeID = connectorNodeID, IsOnline = True, uiSeatIndex = 0\<rparr>"

definition SetOffline :: "UserInfo \<Rightarrow> UserInfo" where
  "SetOffline u = u\<lparr>IsOnline := False\<rparr>"

definition SetOnline :: "string \<Rightarrow> UserInfo \<Rightarrow> UserInfo" where
  "SetOnline connectorNodeID u = u\<lparr>IsOnline := True, ConnectorNodeID := connectorNodeID\<rparr>"

datatype GameEvent =
    DropTileEvent string Tile
  | PengTileEvent string
  | HuEvent string
  | RongHuEvent string
  | TouchHuEvent string
  | ReconnectEvent string
  | GangEvent string
  | AnkanEvent string Tile
  | KakanEvent string Tile
  | ChiEvent string
  | RiichiEvent string
  | TimeoutEvent int
  | StartRoundEvent

fun GetEventType :: "GameEvent \<Rightarrow> string" where
  "GetEventType (DropTileEvent u t) = ''DropTile''"
| "GetEventType (PengTileEvent u) = ''Peng''"
| "GetEventType (HuEvent u) = ''Hu''"
| "GetEventType (RongHuEvent u) = ''RongHu''"
| "GetEventType (TouchHuEvent u) = ''TouchHu''"
| "GetEventType (ReconnectEvent u) = ''Reconnect''"
| "GetEventType (GangEvent u) = ''Gang''"
| "GetEventType (AnkanEvent u t) = ''Ankan''"
| "GetEventType (KakanEvent u t) = ''Kakan''"
| "GetEventType (ChiEvent u) = ''Chi''"
| "GetEventType (RiichiEvent u) = ''Riichi''"
| "GetEventType (TimeoutEvent i) = ''Timeout''"
| "GetEventType StartRoundEvent = ''StartRound''"

section \<open>Messages\<close>

record SituationDTO =
  sdDealerIndex :: int
  sdRoundWind :: string
  sdRoundNumber :: int
  sdHonba :: int
  sdRiichiSticks :: int

datatype payload =
    MatchSuccessDTO string "(string \<times> string) list"
  | OperationsDTO "PlayerOperation list"
  | RoundStartDTO "Tile list" SituationDTO "Tile list" int
  | DrawTileDTO Tile
  | DiscardTileDTO int Tile
  | RiichiDTO int
  | MeldActionDTO string int int "Tile list"
  | RonDTO int int Tile
  | TsumoDTO int Tile
  | RoundEndDTO RoundResult
  | GameEndDTO "PlayerRankingDTO option list"
  | GameStateUpdateDTO SituationDTO int string "int list"

record packet =
  Source :: string
  Destination :: string
  Route :: string
  PushUser :: "string list"
  BodyRoute :: string
  Body :: payload

datatype effect = Push packet | DestroyRoom string

section \<open>Engine\<close>

datatype GameState = GameWaiting | GameInProgress | GamePaused | GameFinished

datatype start_timer = TimerNil | TimerArmed | TimerDone

record LastDiscard =
  Seat :: int
  ldTile :: Tile
  Valid :: bool

record engine =
  egState :: GameState
  Worker :: "string option"
  RoomID :: string
  UserMap :: "(string \<rightharpoonup> UserInfo) option"
  egSituation :: "Situation option"
  Players :: "PlayerImage option list"
  egDeck :: "DeckManager option"
  egTurn :: "TurnManager option"
  roundStartTimer :: start_timer
  lastDiscard :: LastDiscard
  Persister :: "GamePersister option"
  gameEvents :: "GameEvent list option"
  closed :: bool
  closeOnce :: bool
  Reactions :: reactions
  outbox :: "effect list"

record env =
  now :: int
  rnd :: "nat \<Rightarrow> nat"
  oid :: string
  rangeCounts :: range_order
  rangeReactions :: "nat \<Rightarrow> reactions \<Rightarrow> reactions"
  rangeGroups :: "(string \<times> string list) list \<Rightarrow> (string \<times> string list) list"
  settled :: "int \<Rightarrow> bool"

definition env_ok :: "env \<Rightarrow> bool" where
  "env_ok en \<longleftrightarrow> range_ok (rangeCounts en) \<and> (\<forall>n rs. mset (rangeReactions en n rs) = mset rs)
     \<and> (\<forall>gs. mset (rangeGroups en gs) = mset gs)"

text \<open>A plain environment for concrete examples: Go maps are visited in insertion order.\<close>

definition plain_env :: env where
  "plain_env = \<lparr>now = 0, rnd = (\<lambda>n. 0), oid = ''0'', rangeCounts = (\<lambda>cs. cs), rangeReactions = (\<lambda>n rs. rs),
     rangeGroups = (\<lambda>gs. gs), settled = (\<lambda>i. True)\<rparr>"

lemma plain_env_ok: "env_ok plain_env"
  by (simp add: env_ok_def plain_env_def range_ok_def)

text \<open>Reading \<open>eg.Players[i]\<close> and writing through the pointer found there.\<close>

definition player_at :: "engine \<Rightarrow> int \<Rightarrow> PlayerImage option option" where
  "player_at eg i = idx (Players eg) i"

definition put_player :: "int \<Rightarrow> PlayerImage \<Rightarrow> engine \<Rightarrow> engine" where
  "put_player i p eg = eg\<lparr>Players := (Players eg)[nat i := Some p]\<rparr>"

definition getSeatIndex :: "engine \<Rightarrow> string \<Rightarrow> int option" where
  "getSeatIndex eg userID = (case UserMap eg of None \<Rightarrow> None | Some m \<Rightarrow> map_option uiSeatIndex (m userID))"

end
