(* ===== verification/Push.thy ===== *)
theory Push
  imports EngineState
begin

text \<open>
  Messages to the clients: \<^verbatim>\<open>game/runtime/engines/mahjong/push.go\<close>.  Every broadcast writes its event to
  the game record, if there is one, and hands one packet per connector node to the worker.  A send
  error of the worker is only logged, so a packet in \<open>outbox\<close> is an attempt to send.
\<close>

section \<open>Sending\<close>

fun group_add :: "string \<Rightarrow> string \<Rightarrow> (string \<times> string list) list \<Rightarrow> (string \<times> string list) list" where
  "group_add c u [] = [(c, [u])]"
| "group_add c u ((k, us) # gs) = (if k = c then (k, us @ [u]) # gs else (k, us) # group_add c u gs)"

definition connector_of :: "engine \<Rightarrow> string \<Rightarrow> string option" where
  "connector_of eg userID = (if userID = '''' then None
     else case UserMap eg of
            None \<Rightarrow> None
          | Some m \<Rightarrow> (case m userID of
                         None \<Rightarrow> None
                       | Some ui \<Rightarrow> if ConnectorNodeID ui = '''' then None else Some (ConnectorNodeID ui)))"

definition connector_groups :: "engine \<Rightarrow> string list \<Rightarrow> (string \<times> string list) list" where
  "connector_groups eg users = fold (\<lambda>u gs. case connector_of eg u of None \<Rightarrow> gs | Some c \<Rightarrow> group_add c u gs) users []"

definition dispatchPush :: "env \<Rightarrow> string list \<Rightarrow> string \<Rightarrow> string \<Rightarrow> payload \<Rightarrow> engine \<Rightarrow> engine option" where
  "dispatchPush en users connectorRoute clientRoute data eg =
     (if length users = 0 then Some eg
      else let groups = connector_groups eg users
           in if groups = [] then Some eg
              else do {
                node \<leftarrow> Worker eg;
                Some (eg\<lparr>outbox := outbox eg @ map (\<lambda>(c, us). Push \<lparr>Source = node, Destination = c,
                  Route = connectorRoute, PushUser = us, BodyRoute = clientRoute, Body = data\<rparr>) (rangeGroups en groups)\<rparr>)
              })"

text \<open>The user ids of the seated players, as every broadcast collects them.\<close>

definition userIDs :: "engine \<Rightarrow> string list" where
  "userIDs eg = concat (map (\<lambda>p. case p of None \<Rightarrow> [] | Some p \<Rightarrow> if UserID p \<noteq> '''' then [UserID p] else []) (Players eg))"

definition record_event :: "(GamePersister \<Rightarrow> GamePersister) \<Rightarrow> engine \<Rightarrow> engine" where
  "record_event f eg = eg\<lparr>Persister := map_option f (Persister eg)\<rparr>"

section \<open>Broadcasts\<close>

definition pushMatchSuccessMessage :: "env \<Rightarrow> (string \<times> UserInfo) list \<Rightarrow> engine \<Rightarrow> engine option" where
  "pushMatchSuccessMessage en users eg = do {
     node \<leftarrow> Worker eg;
     dispatchPush en (map fst users) ''matching.success'' ''matching.success''
       (MatchSuccessDTO node (map (\<lambda>(u, ui). (u, ConnectorNodeID ui)) users)) eg
   }"

fun broadcastOperations_loop :: "env \<Rightarrow> reactions \<Rightarrow> engine \<Rightarrow> engine option" where
  "broadcastOperations_loop en [] eg = Some eg"
| "broadcastOperations_loop en ((seatIndex, reaction) # rs) eg =
     (if length (Operations reaction) = 0 then broadcastOperations_loop en rs eg
      else do {
        p \<leftarrow> Option.bind (player_at eg seatIndex) id;
        if UserID p = '''' then broadcastOperations_loop en rs eg
        else do {
          eg \<leftarrow> dispatchPush en [UserID p] ''game.push'' ''gameplay.operations.reaction''
                 (OperationsDTO (Operations reaction)) eg;
          broadcastOperations_loop en rs eg
        }
      })"

definition broadcastOperations :: "env \<Rightarrow> reactions \<Rightarrow> engine \<Rightarrow> engine option" where
  "broadcastOperations en reactions eg = broadcastOperations_loop en (rangeReactions en 0 reactions) eg"

definition situationDTO :: "Situation \<Rightarrow> SituationDTO" where
  "situationDTO s = \<lparr>sdDealerIndex = DealerIndex s, sdRoundWind = WindString (RoundWind s),
     sdRoundNumber = RoundNumber s, sdHonba = Honba s, sdRiichiSticks = RiichiSticks s\<rparr>"

fun broadcastRoundStart_loop ::
    "env \<Rightarrow> Tile list \<Rightarrow> SituationDTO \<Rightarrow> PlayerImage option list \<Rightarrow> engine \<Rightarrow> engine option" where
  "broadcastRoundStart_loop en dora sit [] eg = Some eg"
| "broadcastRoundStart_loop en dora sit (None # ps) eg = broadcastRoundStart_loop en dora sit ps eg"
| "broadcastRoundStart_loop en dora sit (Some p # ps) eg =
     (if UserID p = '''' then broadcastRoundStart_loop en dora sit ps eg
      else do {
        tm \<leftarrow> egTurn eg;
        eg \<leftarrow> dispatchPush en [UserID p] ''game.push'' ''gameplay.round.start''
               (RoundStartDTO dora sit (Tiles p) (TurnPointer tm)) eg;
        broadcastRoundStart_loop en dora sit ps eg
      })"

definition broadcastRoundStart :: "env \<Rightarrow> engine \<Rightarrow> engine option" where
  "broadcastRoundStart en eg = (case egDeck eg of
     None \<Rightarrow> Some eg
   | Some dm \<Rightarrow> do {
       s \<leftarrow> egSituation eg;
       broadcastRoundStart_loop en (GetDoraIndicators dm) (situationDTO s) (Players eg) eg
     })"

definition pushDrawTile :: "env \<Rightarrow> int \<Rightarrow> Tile \<Rightarrow> engine \<Rightarrow> engine option" where
  "pushDrawTile en seatIndex tile eg = do {
     player \<leftarrow> player_at eg seatIndex;
     case player of
       None \<Rightarrow> Some eg
     | Some p \<Rightarrow>
         if UserID p = '''' then Some eg
         else dispatchPush en [UserID p] ''game.push'' ''gameplay.draw'' (DrawTileDTO tile)
                (record_event (RecordDrawTile (now en) seatIndex tile) eg)
   }"

definition broadcastDiscard :: "env \<Rightarrow> int \<Rightarrow> Tile \<Rightarrow> engine \<Rightarrow> engine option" where
  "broadcastDiscard en seatIndex tile eg =
     (let eg = record_event (RecordDiscardTile (now en) seatIndex tile) eg
      in dispatchPush en (userIDs eg) ''game.push'' ''gameplay.discard'' (DiscardTileDTO seatIndex tile) eg)"

definition broadcastRiichi :: "env \<Rightarrow> int \<Rightarrow> engine \<Rightarrow> engine option" where
  "broadcastRiichi en seatIndex eg =
     (let eg = record_event (RecordRiichi (now en) seatIndex) eg
      in dispatchPush en (userIDs eg) ''game.push'' ''gameplay.riichi'' (RiichiDTO seatIndex) eg)"

definition broadcastMeldAction :: "env \<Rightarrow> string \<Rightarrow> int \<Rightarrow> int \<Rightarrow> Tile list \<Rightarrow> engine \<Rightarrow> engine option" where
  "broadcastMeldAction en actionType seatIndex fromSeat tiles eg =
     (let eg = (if actionType = ''CHI'' then record_event (RecordChi (now en) seatIndex fromSeat tiles) eg
                else if actionType = ''PENG'' then record_event (RecordPeng (now en) seatIndex fromSeat tiles) eg
                else if actionType = ''GANG'' then record_event (RecordGang (now en) seatIndex fromSeat tiles) eg
                else eg);
          route = (if actionType = ''PENG'' then ''gameplay.peng''
                   else if actionType = ''GANG'' then ''gameplay.gang'' else ''gameplay.chi'')
      in dispatchPush en (userIDs eg) ''game.push'' route (MeldActionDTO actionType seatIndex fromSeat tiles) eg)"

definition broadcastAnkan :: "env \<Rightarrow> int \<Rightarrow> Tile list \<Rightarrow> engine \<Rightarrow> engine option" where
  "broadcastAnkan en seatIndex tiles eg =
     (let eg = record_event (RecordAnkan (now en) seatIndex tiles) eg
      in dispatchPush en (userIDs eg) ''game.push'' ''gameplay.ankan'' (MeldActionDTO ''ANKAN'' seatIndex (-1) tiles) eg)"

definition broadcastKakan :: "env \<Rightarrow> int \<Rightarrow> int \<Rightarrow> Tile list \<Rightarrow> engine \<Rightarrow> engine option" where
  "broadcastKakan en seatIndex fromSeat tiles eg =
     (let eg = record_event (RecordKakan (now en) seatIndex fromSeat tiles) eg
      in dispatchPush en (userIDs eg) ''game.push'' ''gameplay.kakan'' (MeldActionDTO ''KAKAN'' seatIndex fromSeat tiles) eg)"

definition broadcastRon :: "env \<Rightarrow> int \<Rightarrow> int \<Rightarrow> Tile \<Rightarrow> engine \<Rightarrow> engine option" where
  "broadcastRon en winnerSeat loserSeat winTile eg =
     (let eg = record_event (RecordRon (now en) winnerSeat loserSeat winTile) eg
      in dispatchPush en (userIDs eg) ''game.push'' ''gameplay.ron'' (RonDTO winnerSeat loserSeat winTile) eg)"

definition broadcastTsumo :: "env \<Rightarrow> int \<Rightarrow> Tile \<Rightarrow> engine \<Rightarrow> engine option" where
  "broadcastTsumo en winnerSeat winTile eg =
     (let eg = record_event (RecordTsumo (now en) winnerSeat winTile) eg
      in dispatchPush en (userIDs eg) ''game.push'' ''gameplay.tsumo'' (TsumoDTO winnerSeat winTile) eg)"

text \<open>\<open>points[i]\<close> stays 0 for a seat without a player.\<close>

definition current_points :: "engine \<Rightarrow> int list" where
  "current_points eg = map (\<lambda>p. case p of None \<Rightarrow> 0 | Some p \<Rightarrow> Points p) (Players eg)"

definition broadcastRoundEnd ::
    "env \<Rightarrow> string \<Rightarrow> HuClaimDTO list \<Rightarrow> int list \<Rightarrow> string \<Rightarrow> int \<Rightarrow> engine \<Rightarrow> engine option" where
  "broadcastRoundEnd en endType claims delta reason nextDealer eg =
     (let points = current_points eg;
          eg = record_event (CompleteRound (now en) endType claims delta points reason nextDealer) eg
      in dispatchPush en (userIDs eg) ''game.push'' ''gameplay.round.end''
           (RoundEndDTO \<lparr>EndType = endType, Claims = claims, Delta = delta, rPoints = points, Reason = reason,
                         NextDealer = nextDealer\<rparr>) eg)"

section \<open>Final ranking\<close>

text \<open>The list the ranking sorts: (seat, points, user id) of the players present, by seat.\<close>

type_synonym standing = "int \<times> int \<times> string"

definition playerList :: "engine \<Rightarrow> standing list" where
  "playerList eg = concat (map (\<lambda>i. case Players eg ! i of None \<Rightarrow> []
     | Some p \<Rightarrow> [(int i, Points p, UserID p)]) [0..<length (Players eg)])"

abbreviation st_points :: "standing \<Rightarrow> int" where
  "st_points s \<equiv> fst (snd s)"

text \<open>The inner loop \<open>for j := i + 1; ...\<close> and the outer loop, exchanging on a strictly larger value.\<close>

fun rank_inner :: "nat \<Rightarrow> nat list \<Rightarrow> standing list \<Rightarrow> standing list" where
  "rank_inner i [] xs = xs"
| "rank_inner i (j # js) xs = rank_inner i js (if st_points (xs ! i) < st_points (xs ! j) then swap_at xs i j else xs)"

fun rank_outer :: "nat list \<Rightarrow> standing list \<Rightarrow> standing list" where
  "rank_outer [] xs = xs"
| "rank_outer (i # is) xs = rank_outer is (rank_inner i [i + 1..<length xs] xs)"

definition rank_sort :: "standing list \<Rightarrow> standing list" where
  "rank_sort xs = rank_outer [0..<length xs - 1] xs"

definition rankingDTO :: "nat \<Rightarrow> standing \<Rightarrow> PlayerRankingDTO" where
  "rankingDTO rank p = \<lparr>rkSeatIndex = fst p, rkUserID = snd (snd p), rkPoints = st_points p, Rank = int rank + 1\<rparr>"

definition finalRankings :: "engine \<Rightarrow> PlayerRankingDTO list" where
  "finalRankings eg = (let xs = rank_sort (playerList eg) in map (\<lambda>r. rankingDTO r (xs ! r)) [0..<length xs])"

definition broadcastGameEnd :: "env \<Rightarrow> engine \<Rightarrow> engine option" where
  "broadcastGameEnd en eg =
     (let final = finalRankings eg;
          rankings = fold (\<lambda>r rk. rk[nat (rkSeatIndex r) := Some r]) final (replicate 4 None);
          eg = record_event (FinalizeGame (now en) final (current_points eg)) eg
      in dispatchPush en (userIDs eg) ''game.push'' ''gameplay.game.end'' (GameEndDTO rankings) eg)"

definition broadcastStateUpdate :: "env \<Rightarrow> engine \<Rightarrow> engine option" where
  "broadcastStateUpdate en eg = do {
     s \<leftarrow> egSituation eg;
     tm \<leftarrow> egTurn eg;
     let turnStateStr = (case tmState tm of
           TurnStateIdle \<Rightarrow> ''idle'' | TurnStateWaitMain \<Rightarrow> ''waitMain'' | TurnStateSelecting \<Rightarrow> ''selecting''
         | TurnStateWaitReactions \<Rightarrow> ''waitReactions'' | TurnStateApplyOperation \<Rightarrow> ''applyOperation'');
     dispatchPush en (userIDs eg) ''game.push'' ''gameplay.state.update''
       (GameStateUpdateDTO (situationDTO s) (TurnPointer tm) turnStateStr (current_points eg)) eg
   }"

section \<open>Claims\<close>

text \<open>\<open>int(yaku)\<close>: the position in the declaration order; \<open>fmt.Sprintf("Yaku%d", ...)\<close>.\<close>

definition all_yaku :: "Yaku list" where
  "all_yaku = [YakuRiichi, YakuTsumo, YakuPinfu, YakuIppeiko, YakuRyanpeiko, YakuYakuhai, YakuTanyao,
     YakuSanshoku, YakuIttsu, YakuChanta, YakuJunchan, YakuHonroto, YakuChinroto, YakuHonitsu,
     YakuChinitsu, YakuToitoi, YakuSananko, YakuSankantsu, YakuChiitoi, YakuKokushi, YakuSuuankou,
     YakuSuuankouTanki, YakuDaisushi, YakuKokushi13, YakuChuuren, YakuJunseiChuuren, YakuKazoeYakuman]"

definition yaku_int :: "Yaku \<Rightarrow> nat" where
  "yaku_int y = length (takeWhile (\<lambda>x. x \<noteq> y) all_yaku)"

definition convertHuClaimToDTOWithFanFu ::
    "HuClaim \<Rightarrow> string \<Rightarrow> int \<Rightarrow> int \<Rightarrow> int \<Rightarrow> Yaku list \<Rightarrow> HuClaimDTO" where
  "convertHuClaimToDTOWithFanFu claim endKind han fu points yakus =
     \<lparr>dWinnerSeat = WinnerSeat claim, dLoserSeat = LoserSeat claim, dWinTile = WinTile claim,
      dHan = han, dFu = fu, dYaku = map (\<lambda>y. ''Yaku'' @ decimal (yaku_int y)) yakus, dPoints = points\<rparr>"

section \<open>Broadcasts leave the game alone\<close>

text \<open>A quiet operation changes only the outbox and the game record, which stays well formed.\<close>

definition quiet :: "engine \<Rightarrow> engine \<Rightarrow> bool" where
  "quiet eg eg' \<longleftrightarrow> (\<exists>ob ps. eg' = eg\<lparr>outbox := ob, Persister := ps\<rparr>
     \<and> (pred_option persister_ok (Persister eg) \<longrightarrow> pred_option persister_ok ps))"

lemma quiet_refl: "quiet eg eg"
  unfolding quiet_def by (intro exI [of _ "outbox eg"] exI [of _ "Persister eg"]) simp

lemma quiet_outbox: "quiet eg (eg\<lparr>outbox := ob\<rparr>)"
  unfolding quiet_def by (intro exI [of _ ob] exI [of _ "Persister eg"]) simp

lemma quiet_trans: "quiet a b \<Longrightarrow> quiet b c \<Longrightarrow> quiet a c"
  unfolding quiet_def by fastforce

lemma quiet_record: "(\<And>gp. persister_ok gp \<Longrightarrow> persister_ok (f gp)) \<Longrightarrow> quiet eg (record_event f eg)"
  unfolding quiet_def record_event_def
  by (intro exI [of _ "outbox eg"] exI [of _ "map_option f (Persister eg)"]) (cases "Persister eg"; simp)

lemma quiet_frame:
  assumes "quiet eg eg'"
  shows "egState eg' = egState eg" "Worker eg' = Worker eg" "RoomID eg' = RoomID eg" "UserMap eg' = UserMap eg"
    "egSituation eg' = egSituation eg" "Players eg' = Players eg" "egDeck eg' = egDeck eg" "egTurn eg' = egTurn eg"
    "lastDiscard eg' = lastDiscard eg" "gameEvents eg' = gameEvents eg" "closed eg' = closed eg" "Reactions eg' = Reactions eg"
    "roundStartTimer eg' = roundStartTimer eg" "closeOnce eg' = closeOnce eg"
  using assms by (auto simp: quiet_def)

lemma dispatchPush_quiet: "Worker eg \<noteq> None \<Longrightarrow> wp (dispatchPush en us cr r d eg) (quiet eg)"
  by (auto simp: dispatchPush_def Let_def quiet_refl quiet_outbox)

lemma recorded_push_quiet:
  assumes "Worker eg \<noteq> None" "\<And>gp. persister_ok gp \<Longrightarrow> persister_ok (f gp)"
  shows "wp (dispatchPush en us cr r d (record_event f eg)) (quiet eg)"
proof -
  have "Worker (record_event f eg) \<noteq> None" using assms(1) by (simp add: record_event_def)
  from dispatchPush_quiet [OF this] show ?thesis
    by (rule wp_mono) (rule quiet_trans [OF quiet_record [OF assms(2)]])
qed

lemma broadcasts_quiet:
  assumes "Worker eg \<noteq> None"
  shows "wp (broadcastDiscard en s t eg) (quiet eg)" "wp (broadcastRiichi en s eg) (quiet eg)"
    "wp (broadcastMeldAction en a s f ts eg) (quiet eg)" "wp (broadcastAnkan en s ts eg) (quiet eg)"
    "wp (broadcastKakan en s f ts eg) (quiet eg)" "wp (broadcastRon en s f t eg) (quiet eg)"
    "wp (broadcastTsumo en s t eg) (quiet eg)" "wp (broadcastRoundEnd en et cs dl rsn nd eg) (quiet eg)"
    "wp (broadcastGameEnd en eg) (quiet eg)"
  unfolding broadcastDiscard_def broadcastRiichi_def broadcastMeldAction_def broadcastAnkan_def broadcastKakan_def
    broadcastRon_def broadcastTsumo_def broadcastRoundEnd_def broadcastGameEnd_def Let_def
  using recorded_push_quiet [OF assms] dispatchPush_quiet [OF assms]
  by (simp_all add: persister_ok_Record persister_ok_FinalizeGame)

lemma pushDrawTile_quiet:
  assumes "Worker eg \<noteq> None" "0 \<le> seat" "seat < int (length (Players eg))"
  shows "wp (pushDrawTile en seat t eg) (quiet eg)"
  using assms recorded_push_quiet [OF assms(1)]
  by (auto simp: pushDrawTile_def player_at_def idx_in_range quiet_refl persister_ok_Record split: option.splits)

lemma broadcastOperations_loop_quiet:
  assumes "Worker eg \<noteq> None" "\<forall>e \<in> set rs. \<exists>p. player_at eg (fst e) = Some (Some p)"
  shows "wp (broadcastOperations_loop en rs eg) (quiet eg)"
  using assms
proof (induction rs arbitrary: eg)
  case (Cons e rs)
  obtain s r where e: "e = (s, r)" by force
  obtain p where p: "player_at eg s = Some (Some p)" using Cons.prems(2) e by auto
  have "wp (broadcastOperations_loop en rs eg') (quiet eg)" if "quiet eg eg'" for eg'
    using Cons.IH [of eg'] Cons.prems quiet_frame [OF that] quiet_trans [OF that] by (auto simp: player_at_def elim!: wp_mono)
  then show ?case using quiet_refl [of eg]
    by (auto simp: e p intro!: wp_mono [OF dispatchPush_quiet [OF Cons.prems(1)]])
qed (simp add: quiet_refl)

lemma broadcastOperations_quiet:
  assumes "env_ok en" "Worker eg \<noteq> None" "\<forall>e \<in> set rs. \<exists>p. player_at eg (fst e) = Some (Some p)"
  shows "wp (broadcastOperations en rs eg) (quiet eg)"
proof -
  have "set (rangeReactions en 0 rs) = set rs" using assms(1) by (auto simp: env_ok_def dest: mset_eq_setD)
  then show ?thesis using assms broadcastOperations_loop_quiet [of eg "rangeReactions en 0 rs"]
    by (simp add: broadcastOperations_def)
qed

lemma broadcastRoundStart_loop_quiet:
  assumes "Worker eg \<noteq> None" "egTurn eg \<noteq> None"
  shows "wp (broadcastRoundStart_loop en dora sit ps eg) (quiet eg)"
  using assms
proof (induction ps arbitrary: eg)
  case (Cons q ps)
  show ?case
  proof (cases q)
    case None
    with Cons show ?thesis by simp
  next
    case (Some p)
    have "wp (broadcastRoundStart_loop en dora sit ps eg') (quiet eg)" if "quiet eg eg'" for eg'
      using Cons.IH [of eg'] Cons.prems quiet_frame [OF that] quiet_trans [OF that] by (auto elim!: wp_mono)
    then show ?thesis using Cons.prems(2) quiet_refl [of eg]
      by (auto simp: Some intro!: wp_mono [OF dispatchPush_quiet [OF Cons.prems(1)]])
  qed
qed (simp add: quiet_refl)

lemma broadcastRoundStart_quiet:
  "Worker eg \<noteq> None \<Longrightarrow> egTurn eg \<noteq> None \<Longrightarrow> egSituation eg \<noteq> None \<Longrightarrow> wp (broadcastRoundStart en eg) (quiet eg)"
  using broadcastRoundStart_loop_quiet [of eg] quiet_refl [of eg]
  by (auto simp: broadcastRoundStart_def split: option.splits)

end
