(* ===== verification/Settle.thy ===== *)
theory Settle
  imports Push
begin

text \<open>
  The end of a round in \<^verbatim>\<open>game/runtime/engines/mahjong/riichi_mahjong_4p_engine.go\<close>: event queue,
  termination, the payments of every ending, \<open>finalizeRound\<close> and the end of the game.  \<open>None\<close> is a
  panic.  The reasons of a drawn round are Chinese words, given as their UTF-8 bytes.
\<close>

definition reason_exhaustive :: string where
  "reason_exhaustive = [CHR 0xE8, CHR 0x8D, CHR 0x92, CHR 0xE7, CHR 0x89, CHR 0x8C, CHR 0xE6, CHR 0xB5, CHR 0x81,
     CHR 0xE5, CHR 0xB1, CHR 0x80]"

definition reason_3ron :: string where
  "reason_3ron = [CHR 0xE4, CHR 0xB8, CHR 0x89, CHR 0xE5, CHR 0xAE, CHR 0xB6, CHR 0xE7, CHR 0x82, CHR 0xB9,
     CHR 0xE9, CHR 0x93, CHR 0xB3]"

definition reason_4kan :: string where
  "reason_4kan = [CHR 0xE5, CHR 0x9B, CHR 0x9B, CHR 0xE6, CHR 0x9D, CHR 0xA0, CHR 0xE6, CHR 0x95, CHR 0xA3,
     CHR 0xE4, CHR 0xBA, CHR 0x86]"

section \<open>Queue and termination\<close>

definition NotifyEvent :: "GameEvent \<Rightarrow> engine \<Rightarrow> engine" where
  "NotifyEvent event eg =
     (if closed eg then eg
      else case gameEvents eg of
             None \<Rightarrow> eg
           | Some q \<Rightarrow> if length q < 256 then eg\<lparr>gameEvents := Some (q @ [event])\<rparr> else eg)"

definition requestDestroyRoom :: "engine \<Rightarrow> engine" where
  "requestDestroyRoom eg = (case Worker eg of
     None \<Rightarrow> eg
   | Some w \<Rightarrow> if RoomID eg = '''' then eg else eg\<lparr>outbox := outbox eg @ [DestroyRoom (RoomID eg)]\<rparr>)"

definition Terminate :: "engine \<Rightarrow> engine" where
  "Terminate eg = requestDestroyRoom eg"

definition HappenDamageError :: "engine \<Rightarrow> engine" where
  "HappenDamageError eg = Terminate eg"

definition setLastDiscard :: "int \<Rightarrow> Tile \<Rightarrow> engine \<Rightarrow> engine" where
  "setLastDiscard seat tile eg = eg\<lparr>lastDiscard := \<lparr>Seat = seat, ldTile = tile, Valid = True\<rparr>\<rparr>"

definition clearLastDiscard :: "engine \<Rightarrow> engine" where
  "clearLastDiscard eg = eg\<lparr>lastDiscard := (lastDiscard eg)\<lparr>Valid := False\<rparr>\<rparr>"

definition handlerGameOverEvent :: "env \<Rightarrow> engine \<Rightarrow> engine option" where
  "handlerGameOverEvent en eg = do { eg \<leftarrow> broadcastGameEnd en eg; Some (Terminate eg) }"

section \<open>Settling a round\<close>

text \<open>\<open>delta[i] += x\<close> on the Go array \<open>[4]int\<close>.\<close>

definition delta_add :: "int \<Rightarrow> int \<Rightarrow> int list \<Rightarrow> int list option" where
  "delta_add i x delta = do { d \<leftarrow> idx delta i; upd delta i (d + x) }"

definition apply_delta :: "int list \<Rightarrow> PlayerImage option list \<Rightarrow> PlayerImage option list" where
  "apply_delta delta ps = map2 (\<lambda>d p. case p of None \<Rightarrow> None
     | Some p \<Rightarrow> Some (if d \<noteq> 0 then AddPoints d p else p)) delta ps"

definition maxPoints :: "PlayerImage option list \<Rightarrow> int" where
  "maxPoints ps = fold (\<lambda>p m. case p of None \<Rightarrow> m | Some p \<Rightarrow> if Points p > m then Points p else m) ps (-1)"

definition finalizeRound :: "env \<Rightarrow> int list \<Rightarrow> int \<Rightarrow> engine \<Rightarrow> engine option" where
  "finalizeRound en delta stickWinner eg =
     (case egSituation eg of
        None \<Rightarrow> Some eg
      | Some sit \<Rightarrow> do {
          (delta, sit) \<leftarrow>
            (if 0 \<le> stickWinner \<and> stickWinner < 4 \<and> 0 < RiichiSticks sit
             then do { delta \<leftarrow> delta_add stickWinner (RiichiSticks sit * 1000) delta;
                       Some (delta, sit\<lparr>RiichiSticks := 0\<rparr>) }
             else Some (delta, sit));
          let eg = eg\<lparr>egSituation := Some sit, Players := apply_delta delta (Players eg)\<rparr>;
          if list_ex (\<lambda>p. case p of None \<Rightarrow> False | Some p \<Rightarrow> Points p < 0) (Players eg)
          then handlerGameOverEvent en eg
          else
            let gameEnd = (4 < RoundNumber sit \<and> 30000 \<le> maxPoints (Players eg));
                eg = (if 4 < RoundNumber sit \<and> \<not> 30000 \<le> maxPoints (Players eg)
                      then eg\<lparr>egSituation := Some (sit\<lparr>RoundNumber := 1\<rparr>)\<rparr> else eg)
            in if gameEnd then handlerGameOverEvent en eg
               else Some (NotifyEvent StartRoundEvent (clearLastDiscard (eg\<lparr>Reactions := []\<rparr>)))
        })"

text \<open>The dealer stays and the honba grows, or the deal passes to the next seat.\<close>

definition dealer_stays :: "Situation \<Rightarrow> Situation" where
  "dealer_stays s = s\<lparr>Honba := Honba s + 1\<rparr>"

definition dealer_passes :: "Situation \<Rightarrow> Situation" where
  "dealer_passes s = s\<lparr>Honba := 0, DealerIndex := (DealerIndex s + 1) smod 4, RoundNumber := RoundNumber s + 1\<rparr>"

section \<open>Endings\<close>

definition is_tenpai :: "PlayerImage option \<Rightarrow> bool" where
  "is_tenpai p = (case p of None \<Rightarrow> False | Some p \<Rightarrow> TenpaiValid p \<and> 0 < length (TenpaiWaits p))"

text \<open>The penalties of an exhaustive draw: \<open>delta\<close> by the tenpai flags of the seats.\<close>

definition noten_delta :: "bool list \<Rightarrow> int list" where
  "noten_delta ten =
     (let w = int (length (filter id ten)); l = int (length (filter Not ten))
      in if 0 < w \<and> w < 4 then map (\<lambda>t. if t then 3000 sdiv w else - (3000 sdiv l)) ten else map (\<lambda>t. 0) ten)"

definition LeadNormalDrawEnding :: "env \<Rightarrow> engine \<Rightarrow> engine option" where
  "LeadNormalDrawEnding en eg = do {
     sit \<leftarrow> egSituation eg;
     let ten = map is_tenpai (Players eg);
     let dealer = DealerIndex sit;
     let dealerTenpai = (0 \<le> dealer \<and> dealer < 4 \<and> ten ! nat dealer);
     let delta = noten_delta ten;
     let sit = (if dealerTenpai then dealer_stays sit else dealer_passes sit);
     eg \<leftarrow> broadcastRoundEnd en RoundEndDrawExhaustive [] delta reason_exhaustive (DealerIndex sit)
            (eg\<lparr>egSituation := Some sit\<rparr>);
     finalizeRound en delta (-1) eg
   }"

definition LeadHalfwayDrawEnding :: "env \<Rightarrow> string \<Rightarrow> engine \<Rightarrow> engine option" where
  "LeadHalfwayDrawEnding en reason eg = do {
     sit \<leftarrow> egSituation eg;
     let delta = replicate 4 0;
     let sit = dealer_stays sit;
     let endType = (if reason = reason_4kan then RoundEndDraw4Kan else RoundEndDraw3Ron);
     eg \<leftarrow> broadcastRoundEnd en endType [] delta reason (DealerIndex sit) (eg\<lparr>egSituation := Some sit\<rparr>);
     finalizeRound en delta (-1) eg
   }"

definition revealUraDoraIndicators :: "engine \<Rightarrow> engine option" where
  "revealUraDoraIndicators eg = (case egDeck eg of
     None \<Rightarrow> Some eg
   | Some dm \<Rightarrow> do {
       (ts, dm) \<leftarrow> take_upto RevealUraDoraIndicator (length (GetDoraIndicators dm)) dm;
       Some (eg\<lparr>egDeck := Some dm\<rparr>)
     })"

definition selectStickWinnerRonA :: "HuClaim list \<Rightarrow> int" where
  "selectStickWinnerRonA claims =
     (case claims of
        [] \<Rightarrow> -1
      | c0 # _ \<Rightarrow>
          let loser = LoserSeat c0
          in fst (fold (\<lambda>c (best, bestDist).
               let w = WinnerSeat c; d = (w - loser + 4) smod 4
               in if d = 0 then (best, bestDist)
                  else if d < bestDist then (w, d) else (best, bestDist)) claims (-1, 5)))"

definition reveal_if_riichi :: "int \<Rightarrow> engine \<Rightarrow> engine option" where
  "reveal_if_riichi seat eg = do {
     winner \<leftarrow> player_at eg seat;
     case winner of
       None \<Rightarrow> Some eg
     | Some w \<Rightarrow> if IsRiichi w then revealUraDoraIndicators eg else Some eg
   }"

fun ron_loop :: "env \<Rightarrow> HuClaim list \<Rightarrow> int list \<Rightarrow> HuClaimDTO list \<Rightarrow> engine \<Rightarrow> (int list \<times> HuClaimDTO list \<times> engine) option" where
  "ron_loop en [] delta dtos eg = Some (delta, dtos, eg)"
| "ron_loop en (c # cs) delta dtos eg = do {
     eg \<leftarrow> reveal_if_riichi (WinnerSeat c) eg;
     (han, fu, points, yakus) \<leftarrow> callHuPoints (rangeCounts en) (Players eg) (egSituation eg) c RoundEndRon;
     if points = 0 then ron_loop en cs delta dtos eg
     else do {
       delta \<leftarrow> delta_add (WinnerSeat c) points delta;
       delta \<leftarrow> (if HasLoser c then delta_add (LoserSeat c) (- points) delta else Some delta);
       ron_loop en cs delta (dtos @ [convertHuClaimToDTOWithFanFu c RoundEndRon han fu points yakus]) eg
     }
   }"

definition LeadRonEnding :: "env \<Rightarrow> HuClaim list \<Rightarrow> engine \<Rightarrow> engine option" where
  "LeadRonEnding en claims eg =
     (case egSituation eg of
        None \<Rightarrow> Some eg
      | Some sit \<Rightarrow> do {
          let stickWinner = selectStickWinnerRonA claims;
          let dealerWin = list_ex (\<lambda>c. WinnerSeat c = DealerIndex sit) claims;
          (delta, claimDTOs, eg) \<leftarrow> ron_loop en claims (replicate 4 0) [] eg;
          let sit = (if dealerWin then dealer_stays sit else dealer_passes sit);
          eg \<leftarrow> broadcastRoundEnd en RoundEndRon claimDTOs delta '''' (DealerIndex sit) (eg\<lparr>egSituation := Some sit\<rparr>);
          finalizeRound en delta stickWinner eg
        })"

text \<open>The two payment loops of a self-drawn win.\<close>

fun tsumo_loop :: "int \<Rightarrow> int \<Rightarrow> int \<Rightarrow> int list \<Rightarrow> int list \<Rightarrow> int list option" where
  "tsumo_loop winner dealer points [] delta = Some delta"
| "tsumo_loop winner dealer points (i # is) delta =
     (if i = winner then tsumo_loop winner dealer points is delta
      else do {
        let pay = (if winner = dealer then points else if i = dealer then points * 2 else points);
        delta \<leftarrow> delta_add i (- pay) delta;
        delta \<leftarrow> delta_add winner pay delta;
        tsumo_loop winner dealer points is delta
      })"

definition LeadTsumoEnding :: "env \<Rightarrow> HuClaim \<Rightarrow> engine \<Rightarrow> engine option" where
  "LeadTsumoEnding en claim eg =
     (case egSituation eg of
        None \<Rightarrow> Some eg
      | Some sit \<Rightarrow> do {
          let winner = WinnerSeat claim;
          let dealer = DealerIndex sit;
          eg \<leftarrow> reveal_if_riichi winner eg;
          (han, fu, points, yakus) \<leftarrow> callHuPoints (rangeCounts en) (Players eg) (egSituation eg) claim RoundEndTsumo;
          if points = 0 then Some eg
          else do {
            delta \<leftarrow> tsumo_loop winner dealer points [0, 1, 2, 3] (replicate 4 0);
            let sit = (if winner = dealer then dealer_stays sit else dealer_passes sit);
            eg \<leftarrow> broadcastRoundEnd en RoundEndTsumo [convertHuClaimToDTOWithFanFu claim RoundEndTsumo han fu points yakus]
                   delta '''' (DealerIndex sit) (eg\<lparr>egSituation := Some sit\<rparr>);
            finalizeRound en delta winner eg
          }
        })"

definition stop_clocks :: "engine \<Rightarrow> engine option" where
  "stop_clocks eg = (case egTurn eg of
     None \<Rightarrow> Some eg
   | Some tm \<Rightarrow> do { tm \<leftarrow> stopAllTickers tm; Some (eg\<lparr>egTurn := Some tm\<rparr>) })"

definition handleRoundOverEvent :: "env \<Rightarrow> HuClaim list \<Rightarrow> string \<Rightarrow> engine \<Rightarrow> engine option" where
  "handleRoundOverEvent en claims endKind eg = do {
     eg \<leftarrow> stop_clocks eg;
     if egSituation eg = None then Some eg
     else if endKind = RoundEndDrawExhaustive then LeadNormalDrawEnding en eg
     else if endKind = RoundEndDraw3Ron then LeadHalfwayDrawEnding en reason_3ron eg
     else if endKind = RoundEndDraw4Kan then LeadHalfwayDrawEnding en reason_4kan eg
     else if endKind = RoundEndTsumo then
       (case claims of [] \<Rightarrow> Some (HappenDamageError eg) | c # _ \<Rightarrow> LeadTsumoEnding en c eg)
     else if endKind = RoundEndRon then
       (case claims of [] \<Rightarrow> Some (HappenDamageError eg) | _ \<Rightarrow> LeadRonEnding en claims eg)
     else Some eg
   }"

end
