(* ===== verification/Engine.thy ===== *)
theory Engine
  imports Settle
begin

text \<open>
  The event handlers of \<^verbatim>\<open>game/runtime/engines/mahjong/riichi_mahjong_4p_engine.go\<close>: one operation per
  handler, on the engine state, \<open>None\<close> for a panic.  Handlers run one after the other in the actor
  goroutine.  Arguments that are Go pointers into the state are looked up again where the code writes
  through them, so aliasing of two seats is kept.
\<close>

definition DefaultRoundCompensation :: int where [simp]: "DefaultRoundCompensation = 5"
definition DefaultInitialPoint :: int where [simp]: "DefaultInitialPoint = 25000"
definition UseRedFive :: bool where [simp]: "UseRedFive = True"

section \<open>Turns\<close>

definition enter_drop :: "env \<Rightarrow> int \<Rightarrow> engine \<Rightarrow> (bool \<times> engine) option" where
  "enter_drop en seatIndex eg = do {
     tm \<leftarrow> egTurn eg;
     (err, tm) \<leftarrow> EnterDropPhase (settled en seatIndex) (now en) seatIndex DefaultRoundCompensation tm;
     Some (err, eg\<lparr>egTurn := Some tm\<rparr>)
   }"

definition DropTurn :: "env \<Rightarrow> int \<Rightarrow> bool \<Rightarrow> engine \<Rightarrow> engine option" where
  "DropTurn en seatIndex needTile eg =
     (let enter = (\<lambda>eg. do {
            (err, eg) \<leftarrow> enter_drop en seatIndex eg;
            Some (if err then HappenDamageError eg else eg)
          })
      in if needTile then
           (case egDeck eg of
              None \<Rightarrow> Some (HappenDamageError eg)
            | Some dm \<Rightarrow> do {
                (r, dm) \<leftarrow> Draw dm;
                let eg = eg\<lparr>egDeck := Some dm\<rparr>;
                case r of
                  None \<Rightarrow> handleRoundOverEvent en [] RoundEndDrawExhaustive eg
                | Some t \<Rightarrow> do {
                    player \<leftarrow> player_at eg seatIndex;
                    eg \<leftarrow> (case player of
                             None \<Rightarrow> Some eg
                           | Some p \<Rightarrow> pushDrawTile en seatIndex t (put_player seatIndex (DrawTile t p) eg));
                    enter eg
                  }
              })
         else enter eg)"

section \<open>Dealing\<close>

definition reset_player :: "PlayerImage \<Rightarrow> PlayerImage" where
  "reset_player p = p\<lparr>Tiles := [], DiscardPile := [], Melds := [], IsRiichi := False, IsWaiting := False,
     NewestTile := None, DiscardedTiles := {}, TenpaiWaits := [], TenpaiValid := False\<rparr>"

text \<open>The double loop dealing 13 tiles to each seat; \<open>False\<close> when the wall is exhausted, \<open>return\<close>.\<close>

fun deal_loop :: "int list \<Rightarrow> engine \<Rightarrow> (bool \<times> engine) option" where
  "deal_loop [] eg = Some (True, eg)"
| "deal_loop (i # is) eg = do {
     dm \<leftarrow> egDeck eg;
     (r, dm) \<leftarrow> Deal dm;
     let eg = eg\<lparr>egDeck := Some dm\<rparr>;
     case r of
       None \<Rightarrow> Some (False, eg)
     | Some t \<Rightarrow> do {
         player \<leftarrow> player_at eg i;
         deal_loop is (case player of None \<Rightarrow> eg | Some p \<Rightarrow> put_player i (AddTile t p) eg)
       }
   }"

definition distributeCard :: "engine \<Rightarrow> engine option" where
  "distributeCard eg = do {
     let eg = eg\<lparr>Players := map (map_option reset_player) (Players eg)\<rparr>;
     (ok, eg) \<leftarrow> deal_loop (concat (replicate 13 [0, 1, 2, 3])) eg;
     if \<not> ok then Some eg
     else do {
       sit \<leftarrow> egSituation eg;
       let dealer = DealerIndex sit;
       if 0 \<le> dealer \<and> dealer < 4 then do {
         dm \<leftarrow> egDeck eg;
         (r, dm) \<leftarrow> Deal dm;
         let eg = eg\<lparr>egDeck := Some dm\<rparr>;
         case r of
           None \<Rightarrow> Some eg
         | Some t \<Rightarrow> do {
             player \<leftarrow> player_at eg dealer;
             Some (case player of None \<Rightarrow> eg | Some p \<Rightarrow> put_player dealer (DrawTile t p) eg)
           }
       }
       else Some eg
     }
   }"

definition handleStartRoundEvent :: "env \<Rightarrow> engine \<Rightarrow> engine option" where
  "handleStartRoundEvent en eg = do {
     let dm = InitRound (rnd en) (case egDeck eg of None \<Rightarrow> NewDeckManager UseRedFive | Some dm \<Rightarrow> dm);
     (r, dm) \<leftarrow> RevealDoraIndicator dm;
     eg \<leftarrow> distributeCard (eg\<lparr>egDeck := Some dm\<rparr>);
     eg \<leftarrow> (case Persister eg of
              None \<Rightarrow> Some eg
            | Some gp \<Rightarrow> do {
                sit \<leftarrow> egSituation eg;
                Some (record_event (StartRound (oid en) (now en) (RoundNumber sit) (WindString (RoundWind sit))
                        (DealerIndex sit) (Honba sit)) eg)
              });
     eg \<leftarrow> broadcastRoundStart en eg;
     sit \<leftarrow> egSituation eg;
     DropTurn en (DealerIndex sit) True eg
   }"

section \<open>Discards\<close>

fun start_reaction_clocks :: "env \<Rightarrow> reactions \<Rightarrow> TurnManager \<Rightarrow> TurnManager option" where
  "start_reaction_clocks en [] tm = Some tm"
| "start_reaction_clocks en ((seatIndex, r) # rs) tm = do {
     ticker \<leftarrow> GetPlayerTicker tm seatIndex;
     let ticker = settle (settled en seatIndex) (now en) ticker;
     let allocatedTime = Available ticker + 3;
     let (err, ticker) = Start (now en) allocatedTime (SetAvailable allocatedTime ticker);
     start_reaction_clocks en rs (put_ticker seatIndex ticker tm)
   }"

definition waitReaction :: "env \<Rightarrow> int \<Rightarrow> engine \<Rightarrow> engine option" where
  "waitReaction en excludeSeat eg = do {
     tm \<leftarrow> egTurn eg;
     if tmState tm \<noteq> TurnStateWaitMain then Some eg
     else do {
       tm \<leftarrow> EnterSelectingPhase tm;
       reactions \<leftarrow> calculateAvailableOperations (Players eg) (TurnPointer tm) excludeSeat;
       let eg = eg\<lparr>egTurn := Some tm, Reactions := reactions\<rparr>;
       if length (Reactions eg) = 0 then
         let (nextPlayer, tm) = NextTurn tm
         in DropTurn en nextPlayer True (eg\<lparr>egTurn := Some tm\<rparr>)
       else do {
         eg \<leftarrow> broadcastOperations en (Reactions eg) eg;
         tm \<leftarrow> egTurn eg;
         if tmState tm \<noteq> TurnStateSelecting then Some eg
         else do {
           tm \<leftarrow> EnterReactingPhase tm;
           tm \<leftarrow> start_reaction_clocks en (rangeReactions en 1 (Reactions eg)) tm;
           Some (eg\<lparr>egTurn := Some tm\<rparr>)
         }
       }
     }
   }"

text \<open>\<open>ticker.Stop()\<close> on the clock of a seat.\<close>

definition stop_clock :: "int \<Rightarrow> engine \<Rightarrow> (bool \<times> engine) option" where
  "stop_clock seatIndex eg = do {
     tm \<leftarrow> egTurn eg;
     ticker \<leftarrow> GetPlayerTicker tm seatIndex;
     let (ok, ticker) = Stop ticker;
     Some (ok, eg\<lparr>egTurn := Some (put_ticker seatIndex ticker tm)\<rparr>)
   }"

definition handleDropTileEvent :: "env \<Rightarrow> string \<Rightarrow> Tile \<Rightarrow> engine \<Rightarrow> engine option" where
  "handleDropTileEvent en userID tile eg = do {
     tm \<leftarrow> egTurn eg;
     if tmState tm \<noteq> TurnStateWaitMain then Some eg
     else case getSeatIndex eg userID of
       None \<Rightarrow> Some eg
     | Some seatIndex \<Rightarrow>
         if seatIndex \<noteq> TurnPointer tm then Some eg
         else do {
           (ok, eg) \<leftarrow> stop_clock seatIndex eg;
           if \<not> ok then Some eg
           else do {
             player \<leftarrow> player_at eg seatIndex;
             case player of
               None \<Rightarrow> Some eg
             | Some p \<Rightarrow>
                 let (ok, p) = DiscardTile tile p; eg = put_player seatIndex p eg
                 in if \<not> ok then Some eg
                    else do {
                      eg \<leftarrow> broadcastDiscard en seatIndex tile (setLastDiscard seatIndex tile eg);
                      waitReaction en seatIndex eg
                    }
           }
         }
   }"

definition handleDropTimeout :: "env \<Rightarrow> int \<Rightarrow> engine \<Rightarrow> engine option" where
  "handleDropTimeout en seatIndex eg = do {
     player \<leftarrow> player_at eg seatIndex;
     case player of
       None \<Rightarrow> Some (HappenDamageError eg)
     | Some p \<Rightarrow>
         if length (Tiles p) = 0 then Some (HappenDamageError eg)
         else let (r, p) = DiscardNewestOrLast p; eg = put_player seatIndex p eg
              in case r of
                   None \<Rightarrow> Some (HappenDamageError eg)
                 | Some t \<Rightarrow> waitReaction en seatIndex (setLastDiscard seatIndex t eg)
   }"

section \<open>Reactions\<close>

definition isReactionComplete :: "engine \<Rightarrow> bool" where
  "isReactionComplete eg = list_all (\<lambda>(s, r). Responded r) (Reactions eg)"

definition chose :: "string \<Rightarrow> PlayerReaction \<Rightarrow> bool" where
  "chose ty r = (case ChosenOp r of None \<Rightarrow> False | Some op \<Rightarrow> opType op = ty)"

definition find_choice :: "string \<Rightarrow> reactions \<Rightarrow> ReactionAction option" where
  "find_choice ty rs = (case find (\<lambda>(s, r). chose ty r) rs of
     None \<Rightarrow> None
   | Some (s, r) \<Rightarrow> Some \<lparr>raType = ty, PlayerSeat = s,
        raTiles = (case ChosenOp r of None \<Rightarrow> [] | Some op \<Rightarrow> opTiles op)\<rparr>)"

definition selectBestReaction :: "env \<Rightarrow> engine \<Rightarrow> ReactionAction option" where
  "selectBestReaction en eg =
     (case find_choice ''GANG'' (rangeReactions en 3 (Reactions eg)) of
        Some a \<Rightarrow> Some a
      | None \<Rightarrow> (case find_choice ''PENG'' (rangeReactions en 4 (Reactions eg)) of
                  Some a \<Rightarrow> Some a
                | None \<Rightarrow> find_choice ''CHI'' (rangeReactions en 5 (Reactions eg))))"

text \<open>\<open>caller.RemoveTile(t1) && caller.RemoveTile(t2) ...\<close>, stopping at the first failure.\<close>

fun remove_tiles :: "Tile list \<Rightarrow> PlayerImage \<Rightarrow> bool \<times> PlayerImage" where
  "remove_tiles [] p = (True, p)"
| "remove_tiles (t # ts) p = (case RemoveTile t p of (False, p1) \<Rightarrow> (False, p1) | (True, p1) \<Rightarrow> remove_tiles ts p1)"

definition pop_discard :: "PlayerImage \<Rightarrow> PlayerImage" where
  "pop_discard p = p\<lparr>DiscardPile := butlast (DiscardPile p)\<rparr>"

definition add_meld :: "Meld \<Rightarrow> PlayerImage \<Rightarrow> PlayerImage" where
  "add_meld m p = p\<lparr>Melds := Melds p @ [m]\<rparr>"

text \<open>The common body of the three cases: \<open>n\<close> own tiles, the meld's type, whether a tile is drawn.\<close>

definition call_meld :: "env \<Rightarrow> ReactionAction \<Rightarrow> nat \<Rightarrow> string \<Rightarrow> bool \<Rightarrow> int \<Rightarrow> Tile \<Rightarrow> engine \<Rightarrow> engine option" where
  "call_meld en action n meldType needTile discarder called eg =
     (if length (raTiles action) \<noteq> n then Some (HappenDamageError eg)
      else do {
        caller \<leftarrow> Option.bind (player_at eg (PlayerSeat action)) id;
        let (ok, caller) = remove_tiles (raTiles action) caller;
        let eg = put_player (PlayerSeat action) caller eg;
        if \<not> ok then Some (HappenDamageError eg)
        else do {
          d \<leftarrow> Option.bind (player_at eg discarder) id;
          let eg = put_player discarder (pop_discard d) eg;
          caller \<leftarrow> Option.bind (player_at eg (PlayerSeat action)) id;
          let meldTiles = called # raTiles action;
          let eg = put_player (PlayerSeat action)
                     (add_meld \<lparr>mType = meldType, mTiles = meldTiles, mFrom = discarder\<rparr> caller) eg;
          eg \<leftarrow> broadcastMeldAction en (raType action) (PlayerSeat action) discarder meldTiles (clearLastDiscard eg);
          DropTurn en (PlayerSeat action) needTile eg
        }
      })"

definition executeReaction :: "env \<Rightarrow> ReactionAction \<Rightarrow> engine \<Rightarrow> engine option" where
  "executeReaction en action eg =
     (if \<not> Valid (lastDiscard eg) then Some (HappenDamageError eg)
      else do {
        let discarder = Seat (lastDiscard eg);
        discarderPlayer \<leftarrow> player_at eg discarder;
        case discarderPlayer of
          None \<Rightarrow> Some (HappenDamageError eg)
        | Some d \<Rightarrow>
            if length (DiscardPile d) = 0 then Some (HappenDamageError eg)
            else let called = last (DiscardPile d)
            in if tType called \<noteq> tType (ldTile (lastDiscard eg)) \<or> tID called \<noteq> tID (ldTile (lastDiscard eg))
               then Some (HappenDamageError eg)
               else do {
                 caller \<leftarrow> player_at eg (PlayerSeat action);
                 case caller of
                   None \<Rightarrow> Some (HappenDamageError eg)
                 | Some c \<Rightarrow>
                     if raType action = ''PENG'' then call_meld en action 2 ''Peng'' False discarder called eg
                     else if raType action = ''CHI'' then call_meld en action 2 ''Chi'' False discarder called eg
                     else if raType action = ''GANG'' then call_meld en action 3 ''Gang'' True discarder called eg
                     else Some (HappenDamageError eg)
               }
      })"

definition ron_claims :: "env \<Rightarrow> engine \<Rightarrow> HuClaim list" where
  "ron_claims en eg = map (\<lambda>(w, r). \<lparr>WinnerSeat = w, HasLoser = True, LoserSeat = Seat (lastDiscard eg),
       WinTile = ldTile (lastDiscard eg)\<rparr>)
     (filter (\<lambda>(s, r). chose ''HU'' r) (rangeReactions en 2 (Reactions eg)))"

definition handleReactionComplete :: "env \<Rightarrow> engine \<Rightarrow> engine option" where
  "handleReactionComplete en eg = do {
     tm \<leftarrow> egTurn eg;
     if tmState tm \<noteq> TurnStateWaitReactions then Some (HappenDamageError eg)
     else do {
       tm \<leftarrow> EnterChoosingPhase tm;
       let eg = eg\<lparr>egTurn := Some tm\<rparr>;
       let claims = ron_claims en eg;
       if 0 < length claims then
         if 3 \<le> length claims then handleRoundOverEvent en [] RoundEndDraw3Ron eg
         else handleRoundOverEvent en claims RoundEndRon eg
       else case selectBestReaction en eg of
         None \<Rightarrow>
           let (nextPlayer, tm) = NextTurn tm
           in do { (err, eg) \<leftarrow> enter_drop en nextPlayer (eg\<lparr>egTurn := Some tm\<rparr>); Some eg }
       | Some action \<Rightarrow> executeReaction en action eg
     }
   }"

definition respond :: "int \<Rightarrow> PlayerOperation \<Rightarrow> reactions \<Rightarrow> reactions" where
  "respond seat op rs = map (\<lambda>(s, r). (s, if s = seat then r\<lparr>ChosenOp := Some op, Responded := True\<rparr> else r)) rs"

definition recordPlayerResponse :: "env \<Rightarrow> int \<Rightarrow> PlayerOperation \<Rightarrow> engine \<Rightarrow> engine option" where
  "recordPlayerResponse en seatIndex chosenOp eg = do {
     (ok, eg) \<leftarrow> stop_clock seatIndex eg;
     if \<not> ok then Some eg
     else case map_of (Reactions eg) seatIndex of
       None \<Rightarrow> Some eg
     | Some reaction \<Rightarrow>
         let eg = eg\<lparr>Reactions := respond seatIndex chosenOp (Reactions eg)\<rparr>
         in if isReactionComplete eg then handleReactionComplete en eg else Some eg
   }"

text \<open>The handlers of peng, gang, chi and ron differ only in the type of the operation they look for.\<close>

definition handle_reaction :: "env \<Rightarrow> string \<Rightarrow> string \<Rightarrow> engine \<Rightarrow> engine option" where
  "handle_reaction en ty userID eg = do {
     tm \<leftarrow> egTurn eg;
     if tmState tm \<noteq> TurnStateWaitReactions then Some eg
     else case getSeatIndex eg userID of
       None \<Rightarrow> Some eg
     | Some seatIndex \<Rightarrow>
         (case map_of (Reactions eg) seatIndex of
            None \<Rightarrow> Some eg
          | Some reaction \<Rightarrow>
              (case find (\<lambda>op. opType op = ty) (Operations reaction) of
                 None \<Rightarrow> Some eg
               | Some op \<Rightarrow> recordPlayerResponse en seatIndex op eg))
   }"

definition handlePengEvent :: "env \<Rightarrow> string \<Rightarrow> engine \<Rightarrow> engine option" where
  "handlePengEvent en userID eg = handle_reaction en ''PENG'' userID eg"

definition handleGangEvent :: "env \<Rightarrow> string \<Rightarrow> engine \<Rightarrow> engine option" where
  "handleGangEvent en userID eg = handle_reaction en ''GANG'' userID eg"

definition handleChiEvent :: "env \<Rightarrow> string \<Rightarrow> engine \<Rightarrow> engine option" where
  "handleChiEvent en userID eg = handle_reaction en ''CHI'' userID eg"

definition handleReactionHuEvent :: "env \<Rightarrow> string \<Rightarrow> engine \<Rightarrow> engine option" where
  "handleReactionHuEvent en userID eg = handle_reaction en ''HU'' userID eg"

definition handleReactionTimeout :: "env \<Rightarrow> int \<Rightarrow> engine \<Rightarrow> engine option" where
  "handleReactionTimeout en seatIndex eg = recordPlayerResponse en seatIndex \<lparr>opType = ''SKIP'', opTiles = []\<rparr> eg"

definition handleRongHuEvent :: "env \<Rightarrow> string \<Rightarrow> engine \<Rightarrow> engine option" where
  "handleRongHuEvent en userID eg = do {
     eg \<leftarrow> (if Valid (lastDiscard eg)
            then (case getSeatIndex eg userID of
                    None \<Rightarrow> Some eg
                  | Some seatIndex \<Rightarrow> broadcastRon en seatIndex (Seat (lastDiscard eg)) (ldTile (lastDiscard eg)) eg)
            else Some eg);
     handleReactionHuEvent en userID eg
   }"

definition handleTouchHuEvent :: "env \<Rightarrow> string \<Rightarrow> engine \<Rightarrow> engine option" where
  "handleTouchHuEvent en userID eg = (case getSeatIndex eg userID of
     None \<Rightarrow> Some eg
   | Some seatIndex \<Rightarrow> do {
       player \<leftarrow> player_at eg seatIndex;
       case player of
         None \<Rightarrow> Some eg
       | Some p \<Rightarrow>
           (case NewestTile p of
              None \<Rightarrow> Some eg
            | Some t \<Rightarrow> do {
                eg \<leftarrow> broadcastTsumo en seatIndex t eg;
                handleRoundOverEvent en [\<lparr>WinnerSeat = seatIndex, HasLoser = False, LoserSeat = 0, WinTile = t\<rparr>]
                  RoundEndTsumo eg
              })
     })"

definition handleReconnectEvent :: "env \<Rightarrow> string \<Rightarrow> engine \<Rightarrow> engine option" where
  "handleReconnectEvent en userID eg = Some eg"

definition handleTimeoutEvent :: "env \<Rightarrow> int \<Rightarrow> engine \<Rightarrow> engine option" where
  "handleTimeoutEvent en seatIndex eg = do {
     tm \<leftarrow> egTurn eg;
     (case tmState tm of
        TurnStateWaitMain \<Rightarrow> handleDropTimeout en seatIndex eg
      | TurnStateWaitReactions \<Rightarrow> handleReactionTimeout en seatIndex eg
      | _ \<Rightarrow> Some eg)
   }"

definition handleRiichiEvent :: "env \<Rightarrow> string \<Rightarrow> engine \<Rightarrow> engine option" where
  "handleRiichiEvent en userID eg = (case getSeatIndex eg userID of
     None \<Rightarrow> Some eg
   | Some seatIndex \<Rightarrow> do {
       player \<leftarrow> player_at eg seatIndex;
       case player of
         None \<Rightarrow> Some eg
       | Some p \<Rightarrow> do {
           let eg = put_player seatIndex (AddPoints (-1000) (p\<lparr>IsRiichi := True, IsWaiting := True\<rparr>)) eg;
           sit \<leftarrow> egSituation eg;
           broadcastRiichi en seatIndex (eg\<lparr>egSituation := Some (sit\<lparr>RiichiSticks := RiichiSticks sit + 1\<rparr>)\<rparr>)
         }
     })"

section \<open>Kans in one's own turn\<close>

definition is_kan :: "Meld \<Rightarrow> bool" where
  "is_kan m \<longleftrightarrow> mType m = ''Gang'' \<or> mType m = ''Kakan'' \<or> mType m = ''Ankan''"

definition CheckFourKanDraw :: "engine \<Rightarrow> bool" where
  "CheckFourKanDraw eg =
     (let totalKans = sum_list (map (\<lambda>p. case p of None \<Rightarrow> 0 | Some p \<Rightarrow> length (filter is_kan (Melds p))) (Players eg))
      in if 4 \<le> totalKans then (case egDeck eg of None \<Rightarrow> False | Some dm \<Rightarrow> RemainingKanTiles dm < 4) else False)"

text \<open>The backward loop that takes up to four tiles of a type out of the hand.\<close>

fun ankan_loop :: "TileType \<Rightarrow> nat \<Rightarrow> Tile list \<Rightarrow> Tile list \<Rightarrow> Tile list \<times> Tile list" where
  "ankan_loop tt 0 tiles ankanTiles = (tiles, ankanTiles)"
| "ankan_loop tt (Suc i) tiles ankanTiles =
     (if length ankanTiles < 4
      then if tType (tiles ! i) = tt
           then ankan_loop tt i (take i tiles @ drop (Suc i) tiles) (ankanTiles @ [tiles ! i])
           else ankan_loop tt i tiles ankanTiles
      else (tiles, ankanTiles))"

text \<open>The common tail: stop the clock, broadcast, push the drawn tile, go on with the same seat.\<close>

definition after_kan :: "env \<Rightarrow> int \<Rightarrow> Tile \<Rightarrow> (engine \<Rightarrow> engine option) \<Rightarrow> engine \<Rightarrow> engine option" where
  "after_kan en seatIndex kanTile broadcast eg = do {
     (ok, eg) \<leftarrow> stop_clock seatIndex eg;
     eg \<leftarrow> broadcast eg;
     eg \<leftarrow> pushDrawTile en seatIndex kanTile eg;
     (err, eg) \<leftarrow> enter_drop en seatIndex eg;
     Some (if err then HappenDamageError eg else eg)
   }"

definition handleAnkanEvent :: "env \<Rightarrow> string \<Rightarrow> Tile \<Rightarrow> engine \<Rightarrow> engine option" where
  "handleAnkanEvent en userID tile eg = do {
     tm \<leftarrow> egTurn eg;
     if tmState tm \<noteq> TurnStateWaitMain then Some eg
     else case getSeatIndex eg userID of
       None \<Rightarrow> Some eg
     | Some seatIndex \<Rightarrow>
         if seatIndex \<noteq> TurnPointer tm then Some eg
         else do {
           player \<leftarrow> player_at eg seatIndex;
           case player of
             None \<Rightarrow> Some eg
           | Some p \<Rightarrow>
               if count_type (tType tile) (Tiles p) < 4 then Some eg
               else let (tiles, ankanTiles) = ankan_loop (tType tile) (length (Tiles p)) (Tiles p) []
               in if length ankanTiles \<noteq> 4 then Some (HappenDamageError (put_player seatIndex (p\<lparr>Tiles := tiles\<rparr>) eg))
                  else
                    let p = add_meld \<lparr>mType = ''Ankan'', mTiles = ankanTiles, mFrom = -1\<rparr> (p\<lparr>Tiles := tiles\<rparr>);
                        eg = put_player seatIndex p eg
                    in if CheckFourKanDraw eg then handleRoundOverEvent en [] RoundEndDraw4Kan eg
                       else case egDeck eg of
                         None \<Rightarrow> Some (HappenDamageError eg)
                       | Some dm \<Rightarrow>
                           if \<not> CanKan dm then Some (HappenDamageError eg)
                           else do {
                             (r, dm) \<leftarrow> DrawKanTile dm;
                             let eg = eg\<lparr>egDeck := Some dm\<rparr>;
                             case r of
                               None \<Rightarrow> Some (HappenDamageError eg)
                             | Some kanTile \<Rightarrow>
                                 after_kan en seatIndex kanTile (broadcastAnkan en seatIndex ankanTiles)
                                   (put_player seatIndex (DrawTile kanTile p) eg)
                           }
         }
   }"

definition peng_index :: "TileType \<Rightarrow> Meld list \<Rightarrow> nat option" where
  "peng_index tt ms = find (\<lambda>i. mType (ms ! i) = ''Peng'' \<and> 0 < length (mTiles (ms ! i))
     \<and> tType (hd (mTiles (ms ! i))) = tt) [0..<length ms]"

definition upgrade_peng :: "nat \<Rightarrow> Tile \<Rightarrow> PlayerImage \<Rightarrow> PlayerImage" where
  "upgrade_peng i tile p = p\<lparr>Melds := (Melds p)[i := (Melds p ! i)\<lparr>mType := ''Kakan'', mTiles := mTiles (Melds p ! i) @ [tile]\<rparr>]\<rparr>"

text \<open>Taking an upgrade back: the tile returns to the hand, the meld is a peng without its last tile.\<close>

definition revert_kakan :: "nat \<Rightarrow> Tile \<Rightarrow> PlayerImage \<Rightarrow> PlayerImage" where
  "revert_kakan i tile p = (AddTile tile p)\<lparr>Melds := (Melds p)[i := (Melds p ! i)\<lparr>mType := ''Peng'', mTiles := butlast (mTiles (Melds p ! i))\<rparr>]\<rparr>"

definition handleKakanEvent :: "env \<Rightarrow> string \<Rightarrow> Tile \<Rightarrow> engine \<Rightarrow> engine option" where
  "handleKakanEvent en userID tile eg = do {
     tm \<leftarrow> egTurn eg;
     if tmState tm \<noteq> TurnStateWaitMain then Some eg
     else case getSeatIndex eg userID of
       None \<Rightarrow> Some eg
     | Some seatIndex \<Rightarrow>
         if seatIndex \<noteq> TurnPointer tm then Some eg
         else do {
           player \<leftarrow> player_at eg seatIndex;
           case player of
             None \<Rightarrow> Some eg
           | Some p \<Rightarrow>
               let (ok, p) = RemoveTile tile p
               in if \<not> ok then Some eg
                  else case peng_index (tType tile) (Melds p) of
                    None \<Rightarrow> Some (put_player seatIndex (AddTile tile p) eg)
                  | Some i \<Rightarrow>
                      let p = upgrade_peng i tile p; eg = put_player seatIndex p eg;
                          revert = put_player seatIndex (revert_kakan i tile p)
                      in case egDeck eg of
                           None \<Rightarrow> Some (revert (HappenDamageError eg))
                         | Some dm \<Rightarrow>
                             if CheckFourKanDraw eg then handleRoundOverEvent en [] RoundEndDraw4Kan (revert eg)
                             else if \<not> CanKan dm then Some (revert (HappenDamageError eg))
                             else do {
                               (r, dm) \<leftarrow> DrawKanTile dm;
                               let eg = eg\<lparr>egDeck := Some dm\<rparr>;
                               case r of
                                 None \<Rightarrow> Some (revert (HappenDamageError eg))
                               | Some kanTile \<Rightarrow>
                                   after_kan en seatIndex kanTile
                                     (broadcastKakan en seatIndex (mFrom (Melds p ! i)) (mTiles (Melds p ! i)))
                                     (put_player seatIndex (DrawTile kanTile p) eg)
                             }
         }
   }"

section \<open>The actor\<close>

fun processEvent :: "env \<Rightarrow> GameEvent \<Rightarrow> engine \<Rightarrow> engine option" where
  "processEvent en (DropTileEvent u t) eg = handleDropTileEvent en u t eg"
| "processEvent en (PengTileEvent u) eg = handlePengEvent en u eg"
| "processEvent en (GangEvent u) eg = handleGangEvent en u eg"
| "processEvent en (AnkanEvent u t) eg = handleAnkanEvent en u t eg"
| "processEvent en (KakanEvent u t) eg = handleKakanEvent en u t eg"
| "processEvent en (ChiEvent u) eg = handleChiEvent en u eg"
| "processEvent en (RongHuEvent u) eg = handleRongHuEvent en u eg"
| "processEvent en (TouchHuEvent u) eg = handleTouchHuEvent en u eg"
| "processEvent en (RiichiEvent u) eg = handleRiichiEvent en u eg"
| "processEvent en (ReconnectEvent u) eg = handleReconnectEvent en u eg"
| "processEvent en (TimeoutEvent s) eg = handleTimeoutEvent en s eg"
| "processEvent en StartRoundEvent eg = handleStartRoundEvent en eg"
| "processEvent en (HuEvent u) eg = Some eg"

section \<open>Life cycle\<close>

definition zero_discard :: LastDiscard where
  "zero_discard = \<lparr>Seat = 0, ldTile = zero_tile, Valid = False\<rparr>"

definition NewRiichiMahjong4p :: "string option \<Rightarrow> engine" where
  "NewRiichiMahjong4p worker =
     \<lparr>egState = GameWaiting, Worker = worker, RoomID = '''', UserMap = None,
      egSituation = Some \<lparr>DealerIndex = 0, Honba = 0, RoundWind = WindEast, RoundNumber = 1, RiichiSticks = 0\<rparr>,
      Players = replicate 4 None, egDeck = None, egTurn = None, roundStartTimer = TimerNil, lastDiscard = zero_discard,
      Persister = None, gameEvents = None, closed = False, closeOnce = False, Reactions = [], outbox = []\<rparr>"

definition Clone :: "engine \<Rightarrow> engine option" where
  "Clone eg = do {
     s \<leftarrow> egSituation eg;
     Some \<lparr>egState = GameWaiting, Worker = Worker eg, RoomID = '''', UserMap = None,
       egSituation = Some \<lparr>DealerIndex = DealerIndex s, Honba = Honba s, RoundWind = RoundWind s,
                           RoundNumber = RoundNumber s, RiichiSticks = RiichiSticks s\<rparr>,
       Players = replicate 4 None, egDeck = Some (NewDeckManager UseRedFive), egTurn = None,
       roundStartTimer = TimerNil, lastDiscard = zero_discard, Persister = None, gameEvents = None, closed = False,
       closeOnce = False, Reactions = [], outbox = []\<rparr>
   }"

text \<open>
  \<open>users\<close> is the user map in the order the initialising loop visits it; a fifth user would be an index
  out of range.  \<open>repo\<close> says that the worker has a record repository.  The goroutine that pushes the
  match message is run in place.
\<close>

definition seat_users :: "(string \<times> UserInfo) list \<Rightarrow> (string \<times> UserInfo) list" where
  "seat_users users = map2 (\<lambda>i (u, ui). (u, ui\<lparr>uiSeatIndex := int i\<rparr>)) [0..<length users] users"

definition seats_of :: "'a list \<Rightarrow> 'a option list" where
  "seats_of xs = map Some xs @ replicate (4 - length xs) None"

definition InitializeEngine :: "env \<Rightarrow> bool \<Rightarrow> string \<Rightarrow> (string \<times> UserInfo) list \<Rightarrow> engine \<Rightarrow> engine option" where
  "InitializeEngine en repo roomID users eg =
     (if 4 < length users then None
      else
        let us = seat_users users;
            eg = eg\<lparr>RoomID := roomID, UserMap := Some (map_of us), closed := False, gameEvents := Some [],
                    Players := map2 (\<lambda>p u. case u of None \<Rightarrow> p
                       | Some (uid, ui) \<Rightarrow> Some (NewPlayerImage (uiUserID ui) (uiSeatIndex ui) DefaultInitialPoint))
                       (Players eg) (seats_of us),
                    egTurn := Some (NewTurnManager (map (map_option (\<lambda>u. NewPlayerTicker DefaultMaxRoundTime)) (seats_of us))),
                    egState := GameWaiting,
                    Persister := (if Worker eg \<noteq> None \<and> repo
                       then Some (NewGamePersister (oid en) (now en) roomID (map (\<lambda>(u, ui). \<lparr>piUserID = u, piSeatIndex = uiSeatIndex ui, Nickname = []\<rparr>) us))
                       else Persister eg)\<rparr>
        in do {
          eg \<leftarrow> pushMatchSuccessMessage en us eg;
          Some (eg\<lparr>roundStartTimer := TimerArmed\<rparr>)
        })"

text \<open>The callback of the start timer.\<close>

definition start_timer_fires :: "engine \<Rightarrow> engine option" where
  "start_timer_fires eg = (if roundStartTimer eg = TimerArmed
     then Some (NotifyEvent StartRoundEvent (eg\<lparr>roundStartTimer := TimerDone, egState := GameInProgress\<rparr>)) else None)"

text \<open>\<open>Close\<close>, after the actor has left its loop.  Closing the nil channel of an engine that was never
  initialised panics.\<close>

definition Close :: "engine \<Rightarrow> engine option" where
  "Close eg =
     (if closeOnce eg then Some eg
      else do {
        q \<leftarrow> gameEvents eg;
        eg \<leftarrow> stop_clocks (eg\<lparr>closeOnce := True, closed := True, Worker := None, egState := GameFinished,
                roundStartTimer := (if roundStartTimer eg = TimerArmed then TimerDone else roundStartTimer eg)\<rparr>);
        Some (eg\<lparr>egTurn := None, Reactions := [], UserMap := None, Players := replicate 4 None, egDeck := None\<rparr>)
      })"

end
