(* ===== verification/EngineInv.thy ===== *)
theory EngineInv
  imports Engine
begin

text \<open>
  The invariant of the engine and its preservation by every handler.  \<open>base_inv K\<close>: the structure is in
  place (four players, four clocks, a situation with a valid dealer, users with valid seats) and the
  points on the table, riichi sticks included, add up to \<open>K\<close>.  \<open>dealt\<close>: the stock of the deck and what
  the players hold, have discarded or have melded make up exactly the 136 tiles.  \<open>react_ok\<close>: while the
  engine waits for reactions, whoever may react has the tiles of each of his options in hand.  A
  preservation lemma is a total-correctness statement: the handler does not panic.
\<close>

section \<open>Definitions\<close>

definition full_deck :: "Tile multiset" where
  "full_deck = mset (NewTileDeck True)"

definition seat_ok :: "int \<Rightarrow> bool" where
  "seat_ok i \<longleftrightarrow> 0 \<le> i \<and> i < 4"

definition player_ok :: "PlayerImage \<Rightarrow> bool" where
  "player_ok p \<longleftrightarrow> (\<forall>m \<in> set (Melds p). meld_ok m)"

definition players_ok :: "PlayerImage option list \<Rightarrow> bool" where
  "players_ok ps \<longleftrightarrow> length ps = 4 \<and> (\<forall>q \<in> set ps. \<exists>p. q = Some p \<and> player_ok p)"

definition points_of :: "PlayerImage option \<Rightarrow> int" where
  "points_of q = (case q of None \<Rightarrow> 0 | Some p \<Rightarrow> Points p)"

definition held_by :: "PlayerImage option \<Rightarrow> Tile multiset" where
  "held_by q = (case q of None \<Rightarrow> {#} | Some p \<Rightarrow> holding p)"

definition table :: "PlayerImage option list \<Rightarrow> Tile multiset" where
  "table ps = sum_list (map held_by ps)"

definition situation_ok :: "Situation \<Rightarrow> bool" where
  "situation_ok s \<longleftrightarrow> seat_ok (DealerIndex s) \<and> 0 \<le> Honba s \<and> 0 \<le> RiichiSticks s"

definition bank :: "PlayerImage option list \<Rightarrow> Situation option \<Rightarrow> int" where
  "bank ps sit = sum_list (map points_of ps) + (case sit of None \<Rightarrow> 0 | Some s \<Rightarrow> 1000 * RiichiSticks s)"

definition users_ok :: "(string \<rightharpoonup> UserInfo) option \<Rightarrow> bool" where
  "users_ok um \<longleftrightarrow> (\<exists>m. um = Some m \<and> (\<forall>u ui. m u = Some ui \<longrightarrow> seat_ok (uiSeatIndex ui)))"

definition event_ok :: "GameEvent \<Rightarrow> bool" where
  "event_ok ev \<longleftrightarrow> (case ev of TimeoutEvent s \<Rightarrow> seat_ok s | _ \<Rightarrow> True)"

definition queue_ok :: "GameEvent list option \<Rightarrow> bool" where
  "queue_ok q \<longleftrightarrow> (case q of None \<Rightarrow> False | Some evs \<Rightarrow> length evs \<le> 256 \<and> (\<forall>ev \<in> set evs. event_ok ev))"

definition base_inv :: "int \<Rightarrow> engine \<Rightarrow> bool" where
  "base_inv K eg \<longleftrightarrow> Worker eg \<noteq> None \<and> players_ok (Players eg) \<and> (\<exists>tm. egTurn eg = Some tm \<and> tm_ok tm)
     \<and> (\<exists>s. egSituation eg = Some s \<and> situation_ok s) \<and> users_ok (UserMap eg)
     \<and> (\<forall>e \<in> set (Reactions eg). seat_ok (fst e)) \<and> seat_ok (Seat (lastDiscard eg))
     \<and> pred_option persister_ok (Persister eg) \<and> queue_ok (gameEvents eg)
     \<and> bank (Players eg) (egSituation eg) = K"

definition dealt_on :: "DeckManager option \<Rightarrow> PlayerImage option list \<Rightarrow> bool" where
  "dealt_on d ps \<longleftrightarrow> (\<exists>dm. d = Some dm \<and> deck_inv dm \<and> stock dm + table ps = full_deck)"

definition dealt :: "engine \<Rightarrow> bool" where
  "dealt eg \<longleftrightarrow> dealt_on (egDeck eg) (Players eg)"

definition option_tiles :: "PlayerReaction \<Rightarrow> Tile list set" where
  "option_tiles r = opTiles ` (set (Operations r) \<union> set_option (ChosenOp r))"

definition reactions_live :: "PlayerImage option list \<Rightarrow> reactions \<Rightarrow> bool" where
  "reactions_live ps rs \<longleftrightarrow> (\<forall>e \<in> set rs. \<forall>p. ps ! nat (fst e) = Some p \<longrightarrow>
     (\<forall>ts \<in> option_tiles (snd e). mset ts \<subseteq># mset (Tiles p)))"

definition react_ok :: "engine \<Rightarrow> bool" where
  "react_ok eg \<longleftrightarrow> (\<forall>tm. egTurn eg = Some tm \<longrightarrow> tmState tm = TurnStateWaitReactions \<longrightarrow>
     reactions_live (Players eg) (Reactions eg))"

definition live :: "int \<Rightarrow> engine \<Rightarrow> bool" where
  "live K eg \<longleftrightarrow> base_inv K eg \<and> dealt eg \<and> react_ok eg"

text \<open>Before the first deal: no turn has begun and nobody has drawn a tile.\<close>

definition fresh :: "engine \<Rightarrow> bool" where
  "fresh eg \<longleftrightarrow> (\<exists>tm. egTurn eg = Some tm \<and> tmState tm = TurnStateIdle)
     \<and> (\<forall>q \<in> set (Players eg). \<forall>p. q = Some p \<longrightarrow> NewestTile p = None)"

definition eg_inv :: "int \<Rightarrow> engine \<Rightarrow> bool" where
  "eg_inv K eg \<longleftrightarrow> base_inv K eg \<and> (fresh eg \<or> dealt eg \<and> react_ok eg)"

section \<open>Players\<close>

lemma players_ok_at:
  assumes "players_ok ps" "seat_ok i"
  obtains p where "idx ps i = Some (Some p)" "ps ! nat i = Some p" "nat i < length ps" "player_ok p"
proof -
  have n: "nat i < length ps" using assms by (auto simp: players_ok_def seat_ok_def)
  then have "ps ! nat i \<in> set ps" by simp
  then obtain p where "ps ! nat i = Some p" "player_ok p" using assms(1) by (auto simp: players_ok_def)
  with n show ?thesis using assms(2) by (intro that [of p]) (auto simp: idx_def seat_ok_def)
qed

lemma players_ok_update: "players_ok ps \<Longrightarrow> player_ok p \<Longrightarrow> players_ok (ps[n := Some p])"
  by (auto simp: players_ok_def dest!: set_update_subset_insert [THEN subsetD])

lemma table_update:
  "n < length ps \<Longrightarrow> ps ! n = Some p \<Longrightarrow> table (ps[n := Some p']) + holding p = table ps + holding p'"
proof (induction ps arbitrary: n)
  case (Cons q ps)
  show ?case
  proof (cases n)
    case 0
    with Cons.prems show ?thesis by (simp add: table_def held_by_def ac_simps)
  next
    case (Suc k)
    with Cons have "table (ps[k := Some p']) + holding p = table ps + holding p'" by simp
    with Suc show ?thesis by (simp add: table_def ac_simps)
  qed
qed simp

lemma table_same: "n < length ps \<Longrightarrow> ps ! n = Some p \<Longrightarrow> holding p' = holding p \<Longrightarrow> table (ps[n := Some p']) = table ps"
  using table_update [of n ps p p'] by simp

lemma bank_update:
  assumes "n < length ps" "ps ! n = Some p"
  shows "bank (ps[n := Some p']) sit = bank ps sit - Points p + Points p'"
proof -
  have "sum_list (map points_of (ps[n := Some p'])) = sum_list (map points_of ps) - Points p + Points p'"
    using assms sum_list_update_int [of n "map points_of ps" "Points p'"] by (simp add: map_update points_of_def)
  then show ?thesis by (simp add: bank_def)
qed

lemma points_frame [simp]:
  "Points (AddTile t p) = Points p" "Points (DrawTile t p) = Points p"
  "Points (AddPoints x p) = Points p + x" "Melds (AddPoints x p) = Melds p"
  "Melds (AddTile t p) = Melds p" "Melds (DrawTile t p) = Melds p"
  by (simp_all add: AddTile_def DrawTile_def AddPoints_def)

lemma player_ok_frame [simp]:
  "player_ok (AddTile t p) = player_ok p" "player_ok (DrawTile t p) = player_ok p" "player_ok (AddPoints x p) = player_ok p"
  by (simp_all add: player_ok_def)

lemma NewTileDeck_red: "NewTileDeck b = NewTileDeck True"
  by (simp add: NewTileDeck_eq)

section \<open>What the invariant gives and what keeps it\<close>

lemma base_invD:
  assumes "base_inv K eg"
  obtains tm s where "egTurn eg = Some tm" "tm_ok tm" "egSituation eg = Some s" "situation_ok s"
    "Worker eg \<noteq> None" "players_ok (Players eg)"
  using assms by (auto simp: base_inv_def)

lemma player_at_ok:
  assumes "base_inv K eg" "seat_ok i"
  obtains p where "player_at eg i = Some (Some p)" "Players eg ! nat i = Some p" "nat i < length (Players eg)" "player_ok p"
proof -
  have "players_ok (Players eg)" using assms(1) by (simp add: base_inv_def)
  from players_ok_at [OF this assms(2)] show ?thesis using that by (metis player_at_def)
qed

lemma getSeatIndex_ok: "base_inv K eg \<Longrightarrow> getSeatIndex eg u = Some i \<Longrightarrow> seat_ok i"
  by (auto simp: base_inv_def getSeatIndex_def users_ok_def split: option.splits)

lemma quiet_inv:
  assumes "quiet eg eg'"
  shows "base_inv K eg \<Longrightarrow> base_inv K eg'" "dealt eg \<Longrightarrow> dealt eg'" "react_ok eg \<Longrightarrow> react_ok eg'" "fresh eg \<Longrightarrow> fresh eg'"
    "live K eg \<Longrightarrow> live K eg'"
  using assms by (auto simp: quiet_def base_inv_def dealt_def react_ok_def fresh_def live_def)

lemma wp_quiet: "wp m (quiet eg) \<Longrightarrow> (\<And>eg'. quiet eg eg' \<Longrightarrow> Q eg') \<Longrightarrow> wp m Q"
  by (rule wp_mono)

lemma inv_HappenDamageError [simp]:
  "base_inv K (HappenDamageError eg) = base_inv K eg" "dealt (HappenDamageError eg) = dealt eg"
  "react_ok (HappenDamageError eg) = react_ok eg" "live K (HappenDamageError eg) = live K eg"
  "fresh (HappenDamageError eg) = fresh eg" "base_inv K (Terminate eg) = base_inv K eg" "dealt (Terminate eg) = dealt eg"
  "react_ok (Terminate eg) = react_ok eg" "live K (Terminate eg) = live K eg"
  by (auto simp: HappenDamageError_def Terminate_def requestDestroyRoom_def base_inv_def dealt_def react_ok_def live_def
      fresh_def split: option.splits)

text \<open>Changing one player without touching points and tiles.\<close>

lemma base_put_player:
  assumes "base_inv K eg" "Players eg ! nat i = Some p" "nat i < length (Players eg)" "player_ok p'"
  shows "base_inv (K - Points p + Points p') (put_player i p' eg)"
  using assms by (auto simp: base_inv_def put_player_def players_ok_update bank_update)

lemma dealt_put_player:
  assumes "dealt eg" "Players eg ! nat i = Some p" "nat i < length (Players eg)" "holding p' = holding p"
  shows "dealt (put_player i p' eg)"
  using assms by (auto simp: dealt_def dealt_on_def put_player_def table_same)

lemma live_put_player:
  assumes "live K eg" "Players eg ! nat i = Some p" "nat i < length (Players eg)" "player_ok p'" "holding p' = holding p"
    "Points p' = Points p" "Tiles p' = Tiles p \<or> (\<forall>tm. egTurn eg = Some tm \<longrightarrow> tmState tm \<noteq> TurnStateWaitReactions)"
  shows "live K (put_player i p' eg)"
proof -
  have "react_ok (put_player i p' eg)"
    using assms(1-3,7) by (auto simp: live_def react_ok_def reactions_live_def put_player_def nth_list_update)
  then show ?thesis
    using base_put_player [of K eg i p p'] dealt_put_player [of eg i p p'] assms by (simp add: live_def)
qed

lemma put_player_frame [simp]:
  "Worker (put_player i p eg) = Worker eg" "egTurn (put_player i p eg) = egTurn eg" "egDeck (put_player i p eg) = egDeck eg"
  "egSituation (put_player i p eg) = egSituation eg" "Reactions (put_player i p eg) = Reactions eg"
  "lastDiscard (put_player i p eg) = lastDiscard eg" "UserMap (put_player i p eg) = UserMap eg"
  "length (Players (put_player i p eg)) = length (Players eg)"
  by (simp_all add: put_player_def)

lemma NotifyEvent_inv:
  "base_inv K eg \<Longrightarrow> event_ok ev \<Longrightarrow> base_inv K (NotifyEvent ev eg)"
  "dealt (NotifyEvent ev eg) = dealt eg" "react_ok (NotifyEvent ev eg) = react_ok eg" "fresh (NotifyEvent ev eg) = fresh eg"
  by (auto simp: NotifyEvent_def base_inv_def queue_ok_def dealt_def react_ok_def fresh_def split: option.splits)

end
