(* ===== verification/SettleInv.thy ===== *)
theory SettleInv
  imports EngineInv
begin

text \<open>
  The endings of a round keep the invariant: what the winners get the others pay, and the riichi sticks
  go to at most one of them.
\<close>

section \<open>Payments\<close>

text \<open>A payment vector for the four seats that creates no points.\<close>

definition zero_sum :: "int list \<Rightarrow> bool" where
  "zero_sum delta \<longleftrightarrow> length delta = 4 \<and> sum_list delta = 0"

lemma delta_add_wp:
  "seat_ok i \<Longrightarrow> length d = 4 \<Longrightarrow> wp (delta_add i x d) (\<lambda>d'. length d' = 4 \<and> sum_list d' = sum_list d + x)"
  by (auto simp: delta_add_def seat_ok_def idx_in_range upd_in_range sum_list_update_int)

lemma noten_delta_zero_sum: "length ten = 4 \<Longrightarrow> zero_sum (noten_delta ten)"
  unfolding list_of_length4 zero_sum_def noten_delta_def
  by (elim exE, hypsubst) (simp add: sdiv_nonneg split: bool.split if_split)

lemma transfer_wp:
  assumes "seat_ok i" "seat_ok j" "zero_sum d"
  shows "wp (delta_add i x d) (\<lambda>d. wp (delta_add j (- x) d) zero_sum)"
proof (rule wp_mono [OF delta_add_wp [OF assms(1)]])
  show "length d = 4" using assms(3) by (simp add: zero_sum_def)
  show "wp (delta_add j (- x) d') zero_sum" if "length d' = 4 \<and> sum_list d' = sum_list d + x" for d'
    by (rule wp_mono [OF delta_add_wp [OF assms(2)]]) (use that assms(3) in \<open>auto simp: zero_sum_def\<close>)
qed

lemma tsumo_loop_wp:
  assumes "seat_ok winner" "\<forall>i \<in> set is. seat_ok i" "zero_sum d"
  shows "wp (tsumo_loop winner dealer points is d) zero_sum"
  using assms(2,3)
proof (induction "is" arbitrary: d)
  case (Cons i "is")
  show ?case
  proof (cases "i = winner")
    case True
    with Cons show ?thesis by simp
  next
    case False
    let ?pay = "if winner = dealer then points else if i = dealer then points * 2 else points"
    from transfer_wp [OF _ assms(1) Cons.prems(2), of i "- ?pay"] Cons.prems
    have "wp (delta_add i (- ?pay) d) (\<lambda>d. wp (delta_add winner ?pay d) zero_sum)" by simp
    then show ?thesis using False Cons by (auto simp: Let_def wp_iff)
  qed
qed simp

lemma apply_delta_props:
  assumes "players_ok ps" "length delta = 4"
  shows "players_ok (apply_delta delta ps)" "table (apply_delta delta ps) = table ps"
    "bank (apply_delta delta ps) sit = bank ps sit + sum_list delta"
    "\<forall>n < 4. map_option Tiles (apply_delta delta ps ! n) = map_option Tiles (ps ! n)"
proof -
  obtain a b c d where ps: "ps = [Some a, Some b, Some c, Some d]" and ok: "player_ok a" "player_ok b" "player_ok c" "player_ok d"
    using assms(1) by (auto simp: players_ok_def list_of_length4)
  obtain w x y z where dl: "delta = [w, x, y, z]" using assms(2) by (auto simp: list_of_length4)
  show "players_ok (apply_delta delta ps)" "table (apply_delta delta ps) = table ps"
    using ok by (simp_all add: ps dl apply_delta_def players_ok_def table_def held_by_def)
  show "bank (apply_delta delta ps) sit = bank ps sit + sum_list delta"
    by (simp add: ps dl apply_delta_def bank_def points_of_def)
  show "\<forall>n < 4. map_option Tiles (apply_delta delta ps ! n) = map_option Tiles (ps ! n)"
    by (auto simp: ps dl apply_delta_def AddPoints_def numeral_eq_Suc less_Suc_eq)
qed

lemma reactions_live_cong:
  assumes "\<forall>n < 4. map_option Tiles (ps ! n) = map_option Tiles (ps' ! n)" "\<forall>e \<in> set rs. seat_ok (fst e)" "reactions_live ps rs"
  shows "reactions_live ps' rs"
  unfolding reactions_live_def
proof (intro ballI allI impI)
  fix e p ts assume e: "e \<in> set rs" and p: "ps' ! nat (fst e) = Some p" and ts: "ts \<in> option_tiles (snd e)"
  then have "nat (fst e) < 4" using assms(2) by (auto simp: seat_ok_def)
  then obtain q where "ps ! nat (fst e) = Some q" "Tiles q = Tiles p"
    using assms(1) p by (metis map_option_eq_Some option.inject option.simps(9))
  with assms(3) e ts show "mset ts \<subseteq># mset (Tiles p)" by (fastforce simp: reactions_live_def)
qed

section \<open>Closing a round\<close>

lemma live_situation:
  assumes "live K eg" "egSituation eg = Some s" "situation_ok s'" "RiichiSticks s' = RiichiSticks s"
  shows "live K (eg\<lparr>egSituation := Some s'\<rparr>)"
  using assms by (auto simp: live_def base_inv_def dealt_def react_ok_def bank_def)

lemma live_settle:
  assumes "live K eg" "egSituation eg = Some s" "situation_ok s'" "length delta = 4"
    "sum_list delta + 1000 * RiichiSticks s' = 1000 * RiichiSticks s"
  shows "live K (eg\<lparr>egSituation := Some s', Players := apply_delta delta (Players eg)\<rparr>)"
proof -
  have ok: "players_ok (Players eg)" and seats: "\<forall>e \<in> set (Reactions eg). seat_ok (fst e)"
    using assms(1) by (auto simp: live_def base_inv_def)
  note ap = apply_delta_props [OF ok assms(4)]
  have "bank (apply_delta delta (Players eg)) (Some s') = K"
    using assms ap(3) [of "Some s'"] by (simp add: live_def base_inv_def bank_def)
  moreover have "react_ok (eg\<lparr>egSituation := Some s', Players := apply_delta delta (Players eg)\<rparr>)"
    using assms(1) reactions_live_cong [OF _ seats, of "Players eg" "apply_delta delta (Players eg)"] ap(4)
    by (auto simp: live_def react_ok_def)
  ultimately show ?thesis using assms ap(1,2) by (auto simp: live_def base_inv_def dealt_def dealt_on_def)
qed

lemma live_clear: "live K eg \<Longrightarrow> live K (clearLastDiscard (eg\<lparr>Reactions := []\<rparr>))"
  by (auto simp: live_def base_inv_def dealt_def react_ok_def clearLastDiscard_def reactions_live_def)

lemma live_notify: "live K eg \<Longrightarrow> event_ok ev \<Longrightarrow> live K (NotifyEvent ev eg)"
  by (simp add: live_def NotifyEvent_inv)

lemma live_worker: "live K eg \<Longrightarrow> Worker eg \<noteq> None"
  by (simp add: live_def base_inv_def)

lemma handlerGameOverEvent_wp: "live K eg \<Longrightarrow> wp (handlerGameOverEvent en eg) (live K)"
  by (auto simp: handlerGameOverEvent_def dest: quiet_inv(5) intro!: wp_mono [OF broadcasts_quiet(9) [OF live_worker]])

lemma finish_wp:
  assumes "live K eg"
  shows "live K (NotifyEvent StartRoundEvent (clearLastDiscard (eg\<lparr>Reactions := []\<rparr>)))"
  using live_notify [OF live_clear [OF assms]] by (simp add: event_ok_def)

lemma finalizeRound_wp:
  assumes "live K eg" "zero_sum delta"
  shows "wp (finalizeRound en delta stickWinner eg) (live K)"
proof -
  obtain s where s: "egSituation eg = Some s" "situation_ok s" using assms(1) by (auto simp: live_def base_inv_def)
  have close: "wp (if list_ex (\<lambda>p. case p of None \<Rightarrow> False | Some p \<Rightarrow> Points p < 0) (Players e) then handlerGameOverEvent en e
       else let gameEnd = (4 < RoundNumber t \<and> 30000 \<le> maxPoints (Players e));
                e = (if 4 < RoundNumber t \<and> \<not> 30000 \<le> maxPoints (Players e)
                      then e\<lparr>egSituation := Some (t\<lparr>RoundNumber := 1\<rparr>)\<rparr> else e)
            in if gameEnd then handlerGameOverEvent en e
               else Some (NotifyEvent StartRoundEvent (clearLastDiscard (e\<lparr>Reactions := []\<rparr>)))) (live K)"
    if e: "live K e" "egSituation e = Some t" for e t
  proof -
    have "situation_ok (t\<lparr>RoundNumber := 1\<rparr>)" using e by (auto simp: live_def base_inv_def situation_ok_def)
    then have "live K (e\<lparr>egSituation := Some (t\<lparr>RoundNumber := 1\<rparr>)\<rparr>)" by (intro live_situation [OF e]) simp_all
    from finish_wp [OF this] finish_wp [OF e(1)] handlerGameOverEvent_wp [OF e(1)] show ?thesis
      by (simp add: Let_def)
  qed
  show ?thesis
  proof (cases "0 \<le> stickWinner \<and> stickWinner < 4 \<and> 0 < RiichiSticks s")
    case True
    then obtain d where d: "delta_add stickWinner (RiichiSticks s * 1000) delta = Some d" "length d = 4"
        "sum_list d = 1000 * RiichiSticks s"
      using delta_add_wp [of stickWinner delta "RiichiSticks s * 1000"] assms(2)
      by (auto simp: wp_iff zero_sum_def seat_ok_def)
    have "live K (eg\<lparr>egSituation := Some (s\<lparr>RiichiSticks := 0\<rparr>), Players := apply_delta d (Players eg)\<rparr>)"
      by (rule live_settle [OF assms(1) s(1)]) (use s d in \<open>simp_all add: situation_ok_def\<close>)
    from close [OF this] True d(1) show ?thesis by (simp add: finalizeRound_def s Let_def)
  next
    case False
    have "live K (eg\<lparr>egSituation := Some s, Players := apply_delta delta (Players eg)\<rparr>)"
      by (rule live_settle [OF assms(1) s(1)]) (use s assms(2) in \<open>simp_all add: zero_sum_def\<close>)
    from close [OF this] False show ?thesis by (auto simp: finalizeRound_def s Let_def)
  qed
qed

section \<open>Endings\<close>

lemma dealer_moves_ok:
  "situation_ok s \<Longrightarrow> situation_ok (dealer_stays s)" "situation_ok s \<Longrightarrow> situation_ok (dealer_passes s)"
  "RiichiSticks (dealer_stays s) = RiichiSticks s" "RiichiSticks (dealer_passes s) = RiichiSticks s"
  by (auto simp: situation_ok_def seat_ok_def dealer_stays_def dealer_passes_def smod_nonneg)

text \<open>Every ending announces its payments and then settles them.\<close>

lemma announce_and_finalize:
  assumes "live K eg" "egSituation eg = Some s" "zero_sum delta"
    and s': "s' = dealer_stays s \<or> s' = dealer_passes s"
  shows "wp (do { eg \<leftarrow> broadcastRoundEnd en et cs dl rsn nd (eg\<lparr>egSituation := Some s'\<rparr>); finalizeRound en delta sw eg }) (live K)"
proof -
  have "situation_ok s" using assms(1,2) by (auto simp: live_def base_inv_def)
  then have live: "live K (eg\<lparr>egSituation := Some s'\<rparr>)"
    using s' by (intro live_situation [OF assms(1,2)]) (auto simp: dealer_moves_ok)
  show ?thesis
    by (auto intro!: wp_mono [OF broadcasts_quiet(8) [OF live_worker [OF live]]] finalizeRound_wp [OF _ assms(3)]
        dest: quiet_inv(5) [OF _ live])
qed

lemma live_sit: "live K eg \<Longrightarrow> \<exists>s. egSituation eg = Some s \<and> situation_ok s"
  by (auto simp: live_def base_inv_def)

lemma LeadNormalDrawEnding_wp:
  assumes "live K eg"
  shows "wp (LeadNormalDrawEnding en eg) (live K)"
proof -
  obtain s where s: "egSituation eg = Some s" using live_sit [OF assms] by blast
  have "zero_sum (noten_delta (map is_tenpai (Players eg)))"
    using assms by (intro noten_delta_zero_sum) (simp add: live_def base_inv_def players_ok_def)
  from announce_and_finalize [OF assms s this] show ?thesis
    by (simp add: LeadNormalDrawEnding_def s Let_def)
qed

lemma LeadHalfwayDrawEnding_wp:
  assumes "live K eg"
  shows "wp (LeadHalfwayDrawEnding en reason eg) (live K)"
proof -
  obtain s where s: "egSituation eg = Some s" using live_sit [OF assms] by blast
  have "zero_sum (replicate 4 0)" by (simp add: zero_sum_def numeral_eq_Suc)
  from announce_and_finalize [OF assms s this] show ?thesis by (simp add: LeadHalfwayDrawEnding_def s Let_def)
qed

text \<open>Turning indicators changes nothing that is held or in stock.\<close>

lemma ura_upto_wp:
  "deck_inv dm \<Longrightarrow> wp (take_upto RevealUraDoraIndicator n dm) (\<lambda>(ts, dm'). deck_inv dm' \<and> stock dm' = stock dm)"
proof (induction n arbitrary: dm)
  case (Suc n)
  show ?case
  proof (cases rule: RevealUraDoraIndicator_inv [OF Suc.prems])
    case (2 t dm')
    then show ?thesis using Suc.IH [OF 2(2)] by (auto simp: wp_iff)
  qed (use Suc.prems in simp)
qed simp

lemma live_deck: "live K eg \<Longrightarrow> egDeck eg = Some dm \<Longrightarrow> deck_inv dm' \<Longrightarrow> stock dm' = stock dm \<Longrightarrow> live K (eg\<lparr>egDeck := Some dm'\<rparr>)"
  by (auto simp: live_def base_inv_def dealt_def dealt_on_def react_ok_def)

lemma reveal_if_riichi_wp:
  assumes "live K eg" "seat_ok i"
  shows "wp (reveal_if_riichi i eg) (\<lambda>eg'. live K eg' \<and> egSituation eg' = egSituation eg)"
proof -
  obtain dm where dm: "egDeck eg = Some dm" "deck_inv dm" using assms(1) by (auto simp: live_def dealt_def dealt_on_def)
  have "wp (revealUraDoraIndicators eg) (\<lambda>eg'. live K eg' \<and> egSituation eg' = egSituation eg)"
    using ura_upto_wp [OF dm(2), of "length (GetDoraIndicators dm)"] live_deck [OF assms(1) dm(1)]
    by (auto simp: revealUraDoraIndicators_def dm(1) wp_iff)
  moreover obtain p where "player_at eg i = Some (Some p)" using player_at_ok assms by (metis live_def)
  ultimately show ?thesis using assms(1) by (simp add: reveal_if_riichi_def)
qed

definition claim_ok :: "HuClaim \<Rightarrow> bool" where
  "claim_ok c \<longleftrightarrow> seat_ok (WinnerSeat c) \<and> seat_ok (LoserSeat c)"

lemma callHuPoints_wp:
  assumes "env_ok en" "live K eg" "claim_ok c"
  shows "wp (callHuPoints (rangeCounts en) (Players eg) (egSituation eg) c endKind) (\<lambda>r. True)"
proof -
  obtain s where s: "egSituation eg = Some s" using live_sit [OF assms(2)] by blast
  obtain p where p: "Players eg ! nat (WinnerSeat c) = Some p" "nat (WinnerSeat c) < length (Players eg)" "player_ok p"
    using player_at_ok [of K eg "WinnerSeat c"] assms by (metis claim_ok_def live_def)
  obtain han ym ys where e: "evalClaimYakuman (rangeCounts en) (Players eg) (Some s) c endKind = (han, ym, ys)"
    by (metis prod_cases3)
  have "range_ok (rangeCounts en)" using assms(1) by (simp add: env_ok_def)
  from callHuPoints_eq [OF this _ p(2,1) _ e] show ?thesis
    using assms(3) p(3) s by (auto simp: claim_ok_def seat_ok_def player_ok_def)
qed

lemma ron_loop_wp:
  assumes "env_ok en" "\<forall>c \<in> set cs. claim_ok c \<and> HasLoser c" "live K eg" "zero_sum delta"
  shows "wp (ron_loop en cs delta dtos eg) (\<lambda>(d, ds, eg'). zero_sum d \<and> live K eg' \<and> egSituation eg' = egSituation eg)"
  using assms(2-4)
proof (induction cs arbitrary: delta dtos eg)
  case (Cons c cs)
  then have c: "claim_ok c" "HasLoser c" "seat_ok (WinnerSeat c)" "seat_ok (LoserSeat c)" by (auto simp: claim_ok_def)
  obtain e where e: "reveal_if_riichi (WinnerSeat c) eg = Some e" "live K e" "egSituation e = egSituation eg"
    using reveal_if_riichi_wp [OF Cons.prems(2) c(3)] by (auto simp: wp_iff)
  obtain han fu points yakus where h: "callHuPoints (rangeCounts en) (Players e) (egSituation e) c RoundEndRon = Some (han, fu, points, yakus)"
    using callHuPoints_wp [OF assms(1) e(2) c(1), of RoundEndRon] by (auto simp: wp_iff)
  obtain d1 d2 where d: "delta_add (WinnerSeat c) points delta = Some d1" "delta_add (LoserSeat c) (- points) d1 = Some d2" "zero_sum d2"
    using transfer_wp [OF c(3,4) Cons.prems(3), of points] by (auto simp: wp_iff)
  have IH: "wp (ron_loop en cs d ds e) (\<lambda>(d, ds, eg'). zero_sum d \<and> live K eg' \<and> egSituation eg' = egSituation eg)" if "zero_sum d" for d ds
    using Cons.IH [OF _ e(2) that] Cons.prems(1) e(3) by auto
  from IH [OF d(3)] IH [OF Cons.prems(3)] show ?case
    using e h c(2) d by (simp del: RoundEndRon_def)
qed simp

lemma LeadRonEnding_wp:
  assumes "env_ok en" "live K eg" "\<forall>c \<in> set cs. claim_ok c \<and> HasLoser c"
  shows "wp (LeadRonEnding en cs eg) (live K)"
proof -
  obtain s where s: "egSituation eg = Some s" using live_sit [OF assms(2)] by blast
  have "zero_sum (replicate 4 0)" by (simp add: zero_sum_def numeral_eq_Suc)
  from ron_loop_wp [OF assms(1,3,2) this, of "[]"] obtain d ds e where
    r: "ron_loop en cs (replicate 4 0) [] eg = Some (d, ds, e)" "zero_sum d" "live K e" "egSituation e = egSituation eg"
    by (auto simp: wp_iff)
  from announce_and_finalize [OF r(3) _ r(2), of s] s r(1,4) show ?thesis
    by (simp add: LeadRonEnding_def Let_def)
qed

lemma LeadTsumoEnding_wp:
  assumes "env_ok en" "live K eg" "claim_ok c"
  shows "wp (LeadTsumoEnding en c eg) (live K)"
proof -
  obtain s where s: "egSituation eg = Some s" using live_sit [OF assms(2)] by blast
  have w: "seat_ok (WinnerSeat c)" using assms(3) by (simp add: claim_ok_def)
  obtain e where e: "reveal_if_riichi (WinnerSeat c) eg = Some e" "live K e" "egSituation e = egSituation eg"
    using reveal_if_riichi_wp [OF assms(2) w] by (auto simp: wp_iff)
  obtain han fu points yakus where h: "callHuPoints (rangeCounts en) (Players e) (egSituation e) c RoundEndTsumo = Some (han, fu, points, yakus)"
    using callHuPoints_wp [OF assms(1) e(2) assms(3), of RoundEndTsumo] by (auto simp: wp_iff)
  have "zero_sum (replicate 4 0)" by (simp add: zero_sum_def numeral_eq_Suc)
  then obtain d where d: "tsumo_loop (WinnerSeat c) (DealerIndex s) points [0, 1, 2, 3] (replicate 4 0) = Some d" "zero_sum d"
    using tsumo_loop_wp [OF w, of "[0, 1, 2, 3]" "replicate 4 0" "DealerIndex s" points] by (auto simp: wp_iff seat_ok_def)
  from announce_and_finalize [OF e(2) _ d(2), of s] s e h d(1) show ?thesis
    by (simp add: LeadTsumoEnding_def Let_def del: RoundEndTsumo_def)
qed

lemma live_turn: "live K eg \<Longrightarrow> \<exists>tm. egTurn eg = Some tm \<and> tm_ok tm"
  by (auto simp: live_def base_inv_def)

lemma live_set_turn:
  assumes "live K eg" "tm_ok tm" "tmState tm = TurnStateWaitReactions \<Longrightarrow> reactions_live (Players eg) (Reactions eg)"
  shows "live K (eg\<lparr>egTurn := Some tm\<rparr>)"
  using assms by (auto simp: live_def base_inv_def dealt_def react_ok_def)

lemma stop_clocks_wp:
  assumes "live K eg"
  shows "wp (stop_clocks eg) (live K)"
proof -
  obtain tm where tm: "egTurn eg = Some tm" "tm_ok tm" using live_turn [OF assms] by blast
  obtain tm' where tm': "stopAllTickers tm = Some tm'" "tm_step tm tm'" using stopAllTickers_wp [OF tm(2)] by (auto simp: wp_iff)
  have "live K (eg\<lparr>egTurn := Some tm'\<rparr>)"
    by (rule live_set_turn [OF assms]) (use tm tm' assms in \<open>auto simp: tm_step_def live_def react_ok_def\<close>)
  then show ?thesis using tm tm' by (simp add: stop_clocks_def)
qed

lemma handleRoundOverEvent_wp:
  assumes "env_ok en" "live K eg" "\<forall>c \<in> set cs. claim_ok c \<and> (endKind = RoundEndRon \<longrightarrow> HasLoser c)"
  shows "wp (handleRoundOverEvent en cs endKind eg) (live K)"
proof -
  obtain e where e: "stop_clocks eg = Some e" "live K e" using stop_clocks_wp [OF assms(2)] by (auto simp: wp_iff)
  show ?thesis using e assms(3) LeadNormalDrawEnding_wp [OF e(2)] LeadHalfwayDrawEnding_wp [OF e(2)]
      LeadTsumoEnding_wp [OF assms(1) e(2)] LeadRonEnding_wp [OF assms(1) e(2), of cs]
    by (auto simp: handleRoundOverEvent_def split: list.split)
qed

end
