(* ===== verification/SettleSpec.thy ===== *)
theory SettleSpec
  imports SettleInv
begin

text \<open>The payments of the endings of a round, seat by seat, and the decision to end the game.\<close>

section \<open>Payments\<close>

text \<open>The penalties of an exhaustive draw.  Nothing is paid when nobody or everybody is ready; otherwise
  3000 points change hands in all: each ready player gets an equal share and each other player pays
  an equal share.\<close>

lemma noten_delta_spec:
  assumes "length ten = 4" "w = int (length (filter id ten))"
  shows "length (noten_delta ten) = 4 \<and> sum_list (noten_delta ten) = 0
    \<and> (\<forall>i < 4. noten_delta ten ! i = (if w = 0 \<or> w = 4 then 0 else if ten ! i then 3000 div w else - (3000 div (4 - w))))
    \<and> (0 < w \<and> w < 4 \<longrightarrow> sum_list (map fst (filter snd (zip (noten_delta ten) ten))) = 3000)"
proof -
  obtain a b c d where "ten = [a, b, c, d]" using assms(1) by (auto simp: list_of_length4)
  then show ?thesis unfolding assms(2) noten_delta_def
    by (cases a; cases b; cases c; cases d) (auto simp: sdiv_nonneg less_Suc_eq numeral_eq_Suc nth_Cons split: nat.splits)
qed

lemma seat_cases: "seat_ok i \<Longrightarrow> i = 0 \<or> i = 1 \<or> i = 2 \<or> i = 3"
  by (auto simp: seat_ok_def)

text \<open>The payments of a self-drawn win.  A winning dealer gets the points from each of the other three;
  another winner gets them from two and twice as much from the dealer.  The payments add up to zero
  and the loops never index outside the array.\<close>

lemma tsumo_payments:
  assumes "seat_ok winner" "seat_ok dealer"
  shows "tsumo_loop winner dealer points [0, 1, 2, 3] (replicate 4 0)
    = Some (map (\<lambda>i. if i = winner then (if winner = dealer then 3 else 4) * points
                     else if i = dealer then - (2 * points) else - points) [0, 1, 2, 3])"
  using seat_cases [OF assms(1)] seat_cases [OF assms(2)]
  by (elim disjE; hypsubst) (simp_all add: delta_add_def idx_def upd_def numeral_eq_Suc)

section \<open>Who takes the riichi sticks\<close>

definition seat_distance :: "int \<Rightarrow> int \<Rightarrow> int" where
  "seat_distance loser w = (w - loser) mod 4"

lemma distance_smod: "seat_ok w \<Longrightarrow> seat_ok l \<Longrightarrow> (w - l + 4) smod 4 = seat_distance l w"
  by (auto simp: seat_ok_def seat_distance_def smod_nonneg)

lemma nearest_fold:
  assumes "\<forall>c \<in> set cs. seat_ok (WinnerSeat c) \<and> WinnerSeat c \<noteq> l" "seat_ok l"
    "fold (\<lambda>c (best, bestDist). let w = WinnerSeat c; d = (w - l + 4) smod 4
               in if d = 0 then (best, bestDist) else if d < bestDist then (w, d) else (best, bestDist)) cs (b, bd) = (b', bd')"
  shows "bd' \<le> bd \<and> (\<forall>c \<in> set cs. bd' \<le> seat_distance l (WinnerSeat c))
    \<and> ((b', bd') = (b, bd) \<or> (\<exists>c \<in> set cs. b' = WinnerSeat c \<and> bd' = seat_distance l (WinnerSeat c)))"
  using assms(1,3)
proof (induction cs arbitrary: b bd)
  case (Cons c cs)
  let ?d = "seat_distance l (WinnerSeat c)"
  have c: "(WinnerSeat c - l + 4) smod 4 = ?d" using Cons.prems(1) assms(2) by (simp add: distance_smod)
  have nz: "?d \<noteq> 0" using Cons.prems(1) seat_cases [OF assms(2)] seat_cases [of "WinnerSeat c"] by (auto simp: seat_distance_def)
  show ?case
  proof (cases "?d < bd")
    case True
    then show ?thesis using Cons.IH [of "WinnerSeat c" ?d] Cons.prems c nz by (auto simp: Let_def)
  next
    case False
    then show ?thesis using Cons.IH [of b bd] Cons.prems c nz by (auto simp: Let_def)
  qed
qed auto

text \<open>When several players win on the same discard, the riichi sticks go to the winner who sits nearest
  after the discarder in turn order.\<close>

lemma selectStickWinnerRonA_spec:
  assumes "claims \<noteq> []" "\<forall>c \<in> set claims. seat_ok (WinnerSeat c) \<and> LoserSeat c = loser \<and> WinnerSeat c \<noteq> loser" "seat_ok loser"
  shows "\<exists>c \<in> set claims. selectStickWinnerRonA claims = WinnerSeat c
     \<and> (\<forall>c' \<in> set claims. seat_distance loser (WinnerSeat c) \<le> seat_distance loser (WinnerSeat c'))"
proof -
  obtain c0 cs where cs: "claims = c0 # cs" "LoserSeat c0 = loser" using assms(1,2) by (cases claims) auto
  obtain b bd where f: "fold (\<lambda>c (best, bestDist). let w = WinnerSeat c; d = (w - loser + 4) smod 4
      in if d = 0 then (best, bestDist) else if d < bestDist then (w, d) else (best, bestDist)) claims (-1, 5) = (b, bd)" by force
  have near: "seat_distance loser (WinnerSeat c0) < 5" using pos_mod_bound [of 4 "WinnerSeat c0 - loser"] by (simp add: seat_distance_def)
  have n: "bd \<le> 5 \<and> (\<forall>c \<in> set claims. bd \<le> seat_distance loser (WinnerSeat c))
    \<and> ((b, bd) = (-1, 5) \<or> (\<exists>c \<in> set claims. b = WinnerSeat c \<and> bd = seat_distance loser (WinnerSeat c)))"
    by (rule nearest_fold [OF _ assms(3) f]) (use assms(2) in blast)
  moreover have "bd \<le> seat_distance loser (WinnerSeat c0)" using n cs(1) by (metis list.set_intros(1))
  with near have "bd \<noteq> 5" by linarith
  ultimately have "\<exists>c \<in> set claims. b = WinnerSeat c \<and> bd = seat_distance loser (WinnerSeat c)"
    "\<forall>c \<in> set claims. bd \<le> seat_distance loser (WinnerSeat c)" by blast+
  moreover have "selectStickWinnerRonA claims = b" using f cs by (simp only: selectStickWinnerRonA_def list.case Let_def fst_conv)
  ultimately show ?thesis by auto
qed

section \<open>After the payments\<close>

definition paid :: "int list \<Rightarrow> int \<Rightarrow> Situation \<Rightarrow> int list" where
  "paid delta stickWinner s = (if 0 \<le> stickWinner \<and> stickWinner < 4
     then delta[nat stickWinner := delta ! nat stickWinner + RiichiSticks s * 1000] else delta)"

definition game_over :: "PlayerImage option list \<Rightarrow> Situation \<Rightarrow> bool" where
  "game_over ps s \<longleftrightarrow> (\<exists>p. Some p \<in> set ps \<and> Points p < 0) \<or> 4 < RoundNumber s \<and> (\<exists>p. Some p \<in> set ps \<and> 30000 \<le> Points p)"

lemma maxPoints_fold:
  "30000 \<le> fold (\<lambda>p m. case p of None \<Rightarrow> m | Some p \<Rightarrow> if Points p > m then Points p else m) ps m
   \<longleftrightarrow> 30000 \<le> m \<or> (\<exists>p. Some p \<in> set ps \<and> 30000 \<le> Points p)"
  by (induction ps arbitrary: m) (auto split: option.splits)

lemma maxPoints_ge: "30000 \<le> maxPoints ps \<longleftrightarrow> (\<exists>p. Some p \<in> set ps \<and> 30000 \<le> Points p)"
  by (simp add: maxPoints_def maxPoints_fold)

lemma game_over_event:
  assumes "Worker eg \<noteq> None" "RoomID eg \<noteq> ''''"
  shows "\<exists>e. handlerGameOverEvent en eg = Some e \<and> Players e = Players eg \<and> egSituation e = egSituation eg
    \<and> gameEvents e = gameEvents eg \<and> last (outbox e) = DestroyRoom (RoomID eg)"
proof -
  obtain e where "broadcastGameEnd en eg = Some e" "quiet eg e" using broadcasts_quiet(9) [OF assms(1), of en] by (auto simp: wp_iff)
  then show ?thesis using assms
    by (auto simp: handlerGameOverEvent_def quiet_def Terminate_def requestDestroyRoom_def)
qed


text \<open>An engine in its first round with four players, a stick on the table and an empty queue.\<close>

definition settling :: engine where
  "settling = \<lparr>egState = GameInProgress, Worker = Some ''game'', RoomID = ''room'', UserMap = None,
     egSituation = Some \<lparr>DealerIndex = 0, Honba = 0, RoundWind = WindEast, RoundNumber = 1, RiichiSticks = 1\<rparr>,
     Players = map (\<lambda>i. Some (NewPlayerImage ''u'' i 24750)) [0, 1, 2, 3], egDeck = None, egTurn = None, roundStartTimer = TimerDone,
     lastDiscard = \<lparr>Seat = 0, ldTile = zero_tile, Valid = False\<rparr>, Persister = None, gameEvents = Some [], closed = False,
     closeOnce = False, Reactions = [], outbox = []\<rparr>"


end
