(* ===== verification/DealInv.thy ===== *)
theory DealInv
  imports SettleInv
begin

text \<open>
  Drawing and dealing.  The start of a round lays out the whole deck again; the wall is long enough
  for the deal, so a round always starts with the dealer's turn.
\<close>

section \<open>The wall\<close>

definition wall_left :: "DeckManager \<Rightarrow> nat" where
  "wall_left dm = length (wall dm) - wallIndex dm"

lemma dec34_wall: "dec34 dm t = Some dm' \<Longrightarrow> wall dm' = wall dm \<and> wallIndex dm' = wallIndex dm"
  by (auto simp: dec34_def split: bind_splits if_splits)

lemma Draw_succeeds:
  assumes "deck_inv dm" "0 < wall_left dm"
  obtains t dm' where "Draw dm = Some (Some t, dm')" "deck_inv dm'" "stock dm = add_mset t (stock dm')"
    "wall_left dm' = wall_left dm - 1"
proof (cases rule: Draw_inv [OF assms(1)])
  case 1
  with assms(2) show ?thesis by (simp add: wall_left_def)
next
  case (2 t dm')
  have "wall dm' = wall dm \<and> wallIndex dm' = Suc (wallIndex dm)"
    using 2(1) by (auto simp: Draw_def Let_def split: if_splits bind_splits dest!: dec34_wall)
  with 2 show ?thesis using that [of t dm'] by (simp add: wall_left_def)
qed

lemma wall_left_InitRound: "wall_left (InitRound r dm) = 122"
  by (simp add: wall_left_def InitRound_def Let_def)

lemma RevealDora_wall: "RevealDoraIndicator dm = Some (r, dm') \<Longrightarrow> wall_left dm' = wall_left dm"
  by (auto simp: RevealDoraIndicator_def wall_left_def split: if_splits bind_splits dest!: dec34_wall)

section \<open>Drawing\<close>

definition hand_sizes :: "engine \<Rightarrow> nat list" where
  "hand_sizes eg = map (\<lambda>q. case q of None \<Rightarrow> 0 | Some p \<Rightarrow> length (Tiles p)) (Players eg)"

abbreviation bump :: "int \<Rightarrow> nat list \<Rightarrow> nat list" where
  "bump i hs \<equiv> hs[nat i := Suc (hs ! nat i)]"

lemma base_deck [simp]: "base_inv K (eg\<lparr>egDeck := d\<rparr>) = base_inv K eg"
  by (simp add: base_inv_def)

lemma react_ok_deck [simp]: "react_ok (eg\<lparr>egDeck := d\<rparr>) = react_ok eg"
  by (simp add: react_ok_def)

text \<open>A tile moves from the stock into a hand.\<close>

lemma draw_keeps:
  assumes "base_inv K eg" "egDeck eg = Some dm" "dealt eg" "deck_inv dm'" "stock dm = add_mset t (stock dm')"
    "Players eg ! nat i = Some p" "nat i < length (Players eg)"
    and p': "holding p' = add_mset t (holding p)" "Points p' = Points p" "player_ok p'" "mset (Tiles p') = add_mset t (mset (Tiles p))"
  shows "base_inv K (put_player i p' (eg\<lparr>egDeck := Some dm'\<rparr>))" "dealt (put_player i p' (eg\<lparr>egDeck := Some dm'\<rparr>))"
    "react_ok eg \<Longrightarrow> react_ok (put_player i p' (eg\<lparr>egDeck := Some dm'\<rparr>))"
proof -
  show "base_inv K (put_player i p' (eg\<lparr>egDeck := Some dm'\<rparr>))"
    using base_put_player [of K "eg\<lparr>egDeck := Some dm'\<rparr>" i p p'] assms by simp
  have "table ((Players eg)[nat i := Some p']) = add_mset t (table (Players eg))"
    using table_update [OF assms(7,6), of p'] p'(1) by (simp add: union_mset_add_mset_right)
  then show "dealt (put_player i p' (eg\<lparr>egDeck := Some dm'\<rparr>))"
    using assms(2-5) by (simp add: dealt_def dealt_on_def put_player_def)
  show "react_ok (put_player i p' (eg\<lparr>egDeck := Some dm'\<rparr>))" if "react_ok eg"
    using that assms(6,7) p'(4)
    by (fastforce simp: react_ok_def put_player_def reactions_live_def nth_list_update intro: subset_mset.order_trans)
qed

lemma Tiles_Draw: "mset (Tiles (DrawTile t p)) = add_mset t (mset (Tiles p))" "mset (Tiles (AddTile t p)) = add_mset t (mset (Tiles p))"
  by (simp_all add: DrawTile_def AddTile_def)

text \<open>It is the turn of a seat to discard.\<close>

definition on_turn :: "int \<Rightarrow> engine \<Rightarrow> bool" where
  "on_turn i eg \<longleftrightarrow> (\<exists>tm. egTurn eg = Some tm \<and> TurnPointer tm = i \<and> tmState tm = TurnStateWaitMain)"

lemma on_turn_damage [simp]: "on_turn i (HappenDamageError eg) = on_turn i eg"
  by (auto simp: on_turn_def HappenDamageError_def Terminate_def requestDestroyRoom_def split: option.splits)

lemma enter_drop_wp:
  assumes "base_inv K eg" "dealt eg" "seat_ok i"
  shows "wp (enter_drop en i eg) (\<lambda>(err, eg'). live K eg' \<and> Players eg' = Players eg \<and> on_turn i eg')"
proof -
  obtain tm s where tm: "egTurn eg = Some tm" "tm_ok tm" using base_invD [OF assms(1)] by metis
  from EnterDropPhase_wp [OF tm(2), of i 5 "settled en i" "now en"] assms(3) show ?thesis
    using assms(1,2) tm(1) by (auto simp: enter_drop_def wp_iff seat_ok_def live_def base_inv_def dealt_def react_ok_def on_turn_def)
qed

lemma Players_damage: "Players (HappenDamageError eg) = Players eg"
  by (auto simp: HappenDamageError_def Terminate_def requestDestroyRoom_def split: option.splits)

lemma enter_or_damage_wp:
  assumes "base_inv K eg" "dealt eg" "seat_ok i"
  shows "wp (do { (err, eg) \<leftarrow> enter_drop en i eg; Some (if err then HappenDamageError eg else eg) })
    (\<lambda>eg'. live K eg' \<and> Players eg' = Players eg \<and> on_turn i eg')"
  using enter_drop_wp [OF assms, of en] by (auto simp: wp_iff Players_damage)

text \<open>The part of \<open>DropTurn\<close> after a tile has been drawn.\<close>

lemma drawn_wp:
  assumes "base_inv K eg" "egDeck eg = Some dm" "dealt eg" "deck_inv dm'" "stock dm = add_mset t (stock dm')" "seat_ok i"
    "Draw dm = Some (Some t, dm')"
  shows "wp (DropTurn en i True eg) (\<lambda>eg'. live K eg' \<and> hand_sizes eg' = bump i (hand_sizes eg) \<and> on_turn i eg')"
proof -
  obtain p where p: "player_at eg i = Some (Some p)" "Players eg ! nat i = Some p" "nat i < length (Players eg)" "player_ok p"
    using player_at_ok [OF assms(1,6)] .
  let ?eg = "put_player i (DrawTile t p) (eg\<lparr>egDeck := Some dm'\<rparr>)"
  have k: "base_inv K ?eg" "dealt ?eg" using draw_keeps [OF assms(1-5) p(2,3), of "DrawTile t p"] p(4) by (simp_all add: Tiles_Draw)
  have "wp (pushDrawTile en i t ?eg) (quiet ?eg)"
    using p(3) assms(6) k(1) by (intro pushDrawTile_quiet) (auto simp: seat_ok_def base_inv_def)
  then have "wp (pushDrawTile en i t ?eg) (\<lambda>eg. wp (do { (err, eg) \<leftarrow> enter_drop en i eg; Some (if err then HappenDamageError eg else eg) })
      (\<lambda>eg'. live K eg' \<and> Players eg' = Players ?eg \<and> on_turn i eg'))"
  proof (rule wp_mono)
    fix e assume q: "quiet ?eg e"
    from enter_or_damage_wp [OF quiet_inv(1) [OF q k(1)] quiet_inv(2) [OF q k(2)] assms(6), of en] quiet_frame(6) [OF q]
    show "wp (do { (err, eg) \<leftarrow> enter_drop en i e; Some (if err then HappenDamageError eg else eg) })
      (\<lambda>eg'. live K eg' \<and> Players eg' = Players ?eg \<and> on_turn i eg')" by simp
  qed
  moreover have "player_at (eg\<lparr>egDeck := Some dm'\<rparr>) i = Some (Some p)" using p(1) by (simp add: player_at_def)
  moreover have "hand_sizes eg' = bump i (hand_sizes eg)" if "Players eg' = Players ?eg" for eg'
    using that p(2,3) by (simp add: hand_sizes_def put_player_def map_update DrawTile_def)
  ultimately show ?thesis using assms(2,7) by (auto simp: DropTurn_def Let_def elim!: wp_mono)
qed

lemma DropTurn_wp:
  assumes "env_ok en" "live K eg" "seat_ok i"
  shows "wp (DropTurn en i needTile eg) (live K)"
proof (cases needTile)
  case False
  have "base_inv K eg" "dealt eg" using assms(2) by (simp_all add: live_def)
  from enter_or_damage_wp [OF this assms(3), of en] False show ?thesis
    by (auto simp: DropTurn_def wp_iff)
next
  case True
  obtain dm where dm: "egDeck eg = Some dm" "deck_inv dm" "base_inv K eg" "dealt eg" "react_ok eg"
    using assms(2) by (auto simp: live_def dealt_def dealt_on_def)
  show ?thesis
  proof (cases rule: Draw_inv [OF dm(2)])
    case 1
    have "live K (eg\<lparr>egDeck := Some dm\<rparr>)" using live_deck [OF assms(2) dm(1,2)] by simp
    from handleRoundOverEvent_wp [OF assms(1) this, of "[]" RoundEndDrawExhaustive] 1 True show ?thesis
      using dm(1) by (simp add: DropTurn_def Let_def)
  next
    case (2 t dm')
    then show ?thesis using drawn_wp [OF dm(3,1,4) _ _ assms(3), of dm' t en] True by (auto elim!: wp_mono)
  qed
qed

section \<open>Dealing\<close>

text \<open>The state while tiles are dealt: \<open>n\<close> tiles are left in the wall, the hands have the sizes \<open>hs\<close>.\<close>

definition laid :: "int \<Rightarrow> Situation \<Rightarrow> nat \<Rightarrow> nat list \<Rightarrow> engine \<Rightarrow> bool" where
  "laid K s n hs eg \<longleftrightarrow> base_inv K eg \<and> dealt eg \<and> hand_sizes eg = hs \<and> egSituation eg = Some s
     \<and> (\<exists>dm. egDeck eg = Some dm \<and> wall_left dm = n)"

lemma hand_sizes_put:
  "nat i < length (Players eg) \<Longrightarrow> hand_sizes (put_player i p eg) = (hand_sizes eg)[nat i := length (Tiles p)]"
  by (simp add: hand_sizes_def put_player_def map_update)

lemma laid_draw:
  assumes "laid K s (Suc n) hs eg" "seat_ok i" "f = AddTile \<or> f = DrawTile"
  obtains dm t dm' p where "egDeck eg = Some dm" "Draw dm = Some (Some t, dm')" "player_at (eg\<lparr>egDeck := Some dm'\<rparr>) i = Some (Some p)"
    "laid K s n (bump i hs) (put_player i (f t p) (eg\<lparr>egDeck := Some dm'\<rparr>))"
proof -
  obtain dm where dm: "egDeck eg = Some dm" "wall_left dm = Suc n" "deck_inv dm" "base_inv K eg" "dealt eg" "hand_sizes eg = hs" "egSituation eg = Some s"
    using assms(1) by (auto simp: laid_def dealt_def dealt_on_def)
  obtain t dm' where t: "Draw dm = Some (Some t, dm')" "deck_inv dm'" "stock dm = add_mset t (stock dm')" "wall_left dm' = n"
    using Draw_succeeds [OF dm(3)] dm(2) by (metis diff_Suc_1 zero_less_Suc)
  obtain p where p: "player_at eg i = Some (Some p)" "Players eg ! nat i = Some p" "nat i < length (Players eg)" "player_ok p"
    using player_at_ok [OF dm(4) assms(2)] .
  have f: "holding (f t p) = add_mset t (holding p)" "Points (f t p) = Points p" "player_ok (f t p)"
      "mset (Tiles (f t p)) = add_mset t (mset (Tiles p))" "length (Tiles (f t p)) = Suc (length (Tiles p))"
    using assms(3) p(4) by (auto simp: Tiles_Draw) (auto simp: AddTile_def DrawTile_def)
  have "hs ! nat i = length (Tiles p)" using dm(6) p(2,3) by (auto simp: hand_sizes_def)
  moreover have "hand_sizes (eg\<lparr>egDeck := Some dm'\<rparr>) = hs" using dm(6) by (simp add: hand_sizes_def)
  ultimately have "laid K s n (bump i hs) (put_player i (f t p) (eg\<lparr>egDeck := Some dm'\<rparr>))"
    using draw_keeps [OF dm(4,1,5) t(2,3) p(2,3) f(1-4)] p(3) t(4) f(5) dm(7) by (simp add: laid_def hand_sizes_put)
  with dm(1) t(1) p(1) show ?thesis using that [of dm t dm' p] by (simp add: player_at_def)
qed

lemma deal_loop_wp:
  assumes "laid K s (length is + n) hs eg" "\<forall>i \<in> set is. seat_ok i"
  shows "wp (deal_loop is eg) (\<lambda>(ok, eg'). ok \<and> laid K s n (fold bump is hs) eg')"
  using assms
proof (induction "is" arbitrary: hs eg)
  case (Cons i "is")
  then obtain dm t dm' p where d: "egDeck eg = Some dm" "Draw dm = Some (Some t, dm')" "player_at (eg\<lparr>egDeck := Some dm'\<rparr>) i = Some (Some p)"
      "laid K s (length is + n) (bump i hs) (put_player i (AddTile t p) (eg\<lparr>egDeck := Some dm'\<rparr>))"
    using laid_draw [of K s "length is + n" hs eg i AddTile] by (simp del: Deal_def) blast
  then show ?case using Cons.IH [OF d(4)] Cons.prems(2) by (simp add: Deal_def)
qed simp

lemma table_reset: "table (map (map_option reset_player) ps) = {#}"
  by (induction ps) (auto simp: table_def held_by_def reset_player_def holding_def split: option.splits)

lemma reset_base: "base_inv K eg \<Longrightarrow> base_inv K (eg\<lparr>Players := map (map_option reset_player) (Players eg)\<rparr>)"
proof -
  assume b: "base_inv K eg"
  have "points_of (map_option reset_player q) = points_of q" for q
    by (cases q) (simp_all add: points_of_def reset_player_def)
  then have "bank (map (map_option reset_player) ps) sit = bank ps sit" for ps sit by (simp add: bank_def o_def)
  moreover have "players_ok (map (map_option reset_player) ps)" if "players_ok ps" for ps
    using that by (fastforce simp: players_ok_def player_ok_def reset_player_def)
  ultimately show ?thesis using b by (simp add: base_inv_def)
qed

lemma distributeCard_wp:
  assumes "base_inv K eg" "egDeck eg = Some dm" "deck_inv dm" "stock dm = full_deck" "wall_left dm = 53 + n"
    "egSituation eg = Some s" "d = DealerIndex s"
  shows "wp (distributeCard eg) (laid K s n ([13, 13, 13, 13][nat d := 14]))"
proof -
  let ?eg = "eg\<lparr>Players := map (map_option reset_player) (Players eg)\<rparr>" and ?is = "concat (replicate 13 [0, 1, 2, 3 :: int])"
  have "seat_ok d" using assms(1,6,7) by (auto simp: base_inv_def situation_ok_def)
  have "hand_sizes ?eg = [0, 0, 0, 0]" using assms(1)
    by (auto simp: base_inv_def players_ok_def list_of_length4 hand_sizes_def reset_player_def)
  then have "laid K s (length ?is + Suc n) [0, 0, 0, 0] ?eg"
    using reset_base [OF assms(1)] assms(2-6) by (simp add: laid_def dealt_def dealt_on_def table_reset numeral_eq_Suc)
  moreover have "fold bump ?is [0, 0, 0, 0] = [13, 13, 13, 13]" by (simp add: numeral_eq_Suc)
  ultimately obtain e where e: "deal_loop ?is ?eg = Some (True, e)" "laid K s (Suc n) [13, 13, 13, 13] e"
    using deal_loop_wp [of K s ?is "Suc n" "[0, 0, 0, 0]" ?eg] by (auto simp: wp_iff seat_ok_def)
  then have s: "egSituation e = Some s" by (simp add: laid_def)
  obtain dm t dm' p where t: "egDeck e = Some dm" "Draw dm = Some (Some t, dm')" "player_at (e\<lparr>egDeck := Some dm'\<rparr>) d = Some (Some p)"
      "laid K s n (bump d [13, 13, 13, 13]) (put_player d (DrawTile t p) (e\<lparr>egDeck := Some dm'\<rparr>))"
    using laid_draw [OF e(2) \<open>seat_ok d\<close>, of DrawTile] by blast
  moreover have "bump d [13, 13, 13, 13] = [13, 13, 13, 13][nat d := 14 :: nat]"
    using \<open>seat_ok d\<close> nat_lt4 [of d] by (auto simp: seat_ok_def)
  ultimately show ?thesis using e(1) s assms(7) \<open>seat_ok d\<close>
    by (simp add: distributeCard_def Deal_def seat_ok_def del: list_update.simps)
qed

section \<open>The start of a round\<close>

lemma record_quiet_start: "quiet eg (record_event (StartRound o' n' rn w d h) eg)"
  by (rule quiet_record) (rule persister_ok_StartRound)

lemma handleStartRoundEvent_wp:
  assumes "base_inv K eg" "egSituation eg = Some s"
  shows "wp (handleStartRoundEvent en eg) (\<lambda>eg'. live K eg' \<and> hand_sizes eg' = [13, 13, 13, 13][nat (DealerIndex s) := 15]
    \<and> on_turn (DealerIndex s) eg')"
proof -
  define dm where "dm = InitRound (rnd en) (case egDeck eg of None \<Rightarrow> NewDeckManager UseRedFive | Some dm \<Rightarrow> dm)"
  have dm: "deck_inv dm" "stock dm = full_deck" "wall_left dm = 122"
    unfolding dm_def full_deck_def stock_InitRound
    by (simp_all only: deck_inv_InitRound wall_left_InitRound NewTileDeck_red [of "useRedFives _"])
  obtain r dm1 where r: "RevealDoraIndicator dm = Some (r, dm1)" "deck_inv dm1" "stock dm1 = full_deck" "wall_left dm1 = 122"
  proof (cases rule: RevealDoraIndicator_inv [OF dm(1)])
    case 1
    with dm that show ?thesis by blast
  next
    case (2 t dm')
    with dm that [of "Some t" dm'] RevealDora_wall [OF 2(1)] show ?thesis by simp
  qed
  have seat: "seat_ok (DealerIndex s)" using assms by (auto simp: base_inv_def situation_ok_def)
  obtain e where e: "distributeCard (eg\<lparr>egDeck := Some dm1\<rparr>) = Some e"
      "laid K s 69 ([13, 13, 13, 13][nat (DealerIndex s) := 14]) e"
    using distributeCard_wp [of K "eg\<lparr>egDeck := Some dm1\<rparr>" dm1 69 s "DealerIndex s"] assms r by (auto simp: wp_iff)
  define e1 where "e1 = (case Persister e of None \<Rightarrow> e
     | Some gp \<Rightarrow> record_event (StartRound (oid en) (now en) (RoundNumber s) (WindString (RoundWind s)) (DealerIndex s) (Honba s)) e)"
  have q1: "quiet e e1" by (auto simp: e1_def quiet_refl record_quiet_start split: option.splits)
  have b1: "base_inv K e1" using quiet_inv(1) [OF q1] e(2) by (simp add: laid_def)
  obtain e2 where e2: "broadcastRoundStart en e1 = Some e2" "quiet e1 e2"
    using broadcastRoundStart_quiet [of e1 en] b1 by (auto simp: wp_iff base_inv_def)
  have q: "quiet e e2" by (rule quiet_trans [OF q1 e2(2)])
  obtain dm2 where dm2: "egDeck e2 = Some dm2" "deck_inv dm2" "0 < wall_left dm2"
    using e(2) quiet_frame(7) [OF q] by (auto simp: laid_def dealt_def dealt_on_def)
  have k: "base_inv K e2" "dealt e2" using quiet_inv(1,2) [OF q] e(2) by (simp_all add: laid_def)
  obtain t dm3 where t: "Draw dm2 = Some (Some t, dm3)" "deck_inv dm3" "stock dm2 = add_mset t (stock dm3)"
    using Draw_succeeds [OF dm2(2,3)] .
  have "hand_sizes e2 = [13, 13, 13, 13][nat (DealerIndex s) := 14]"
    using e(2) quiet_frame(6) [OF q] by (simp add: laid_def hand_sizes_def)
  then have h: "bump (DealerIndex s) (hand_sizes e2) = [13, 13, 13, 13][nat (DealerIndex s) := 15]"
    using seat nat_lt4 [of "DealerIndex s"] by (auto simp: seat_ok_def)
  have s: "egSituation e = Some s" "egSituation e2 = Some s" using e(2) quiet_frame(5) [OF q] by (simp_all add: laid_def)
  have "(case Persister e of None \<Rightarrow> Some e | Some gp \<Rightarrow> do { sit \<leftarrow> egSituation e;
      Some (record_event (StartRound (oid en) (now en) (RoundNumber sit) (WindString (RoundWind sit)) (DealerIndex sit) (Honba sit)) e) }) = Some e1"
    by (simp add: e1_def s split: option.split)
  then have "handleStartRoundEvent en eg = DropTurn en (DealerIndex s) True e2"
    using r(1) e(1) e2(1) s(2) by (simp add: handleStartRoundEvent_def dm_def [symmetric])
  with drawn_wp [OF k(1) dm2(1) k(2) t(2,3) seat t(1), of en] h show ?thesis by simp
qed

end
