(* ===== verification/HandlerInv.thy ===== *)
theory HandlerInv
  imports DealInv
begin

text \<open>Every event handler of the engine keeps the invariant and does not panic.\<close>

section \<open>Clocks\<close>

lemma live_parts:
  assumes "live K eg"
  shows "base_inv K eg" "dealt eg" "react_ok eg"
  using assms by (simp_all add: live_def)

lemma stop_clock_wp:
  assumes "base_inv K eg" "egTurn eg = Some tm" "seat_ok i"
  shows "wp (stop_clock i eg) (\<lambda>(ok, eg'). \<exists>tm'. eg' = eg\<lparr>egTurn := Some tm'\<rparr> \<and> tm_step tm tm')"
proof -
  have tm: "tm_ok tm" using assms(1,2) by (auto simp: base_inv_def)
  obtain pt where pt: "GetPlayerTicker tm i = Some pt" "ticker_ok pt"
    using GetPlayerTicker_ok [OF tm, of i] assms(3) by (auto simp: seat_ok_def)
  then have "tm_step tm (put_ticker i (snd (Stop pt)) tm)" using tm by (simp add: tm_step_def tm_ok_put ticker_ok_Stop)
  then show ?thesis using assms(2) pt(1) by (auto simp: stop_clock_def case_prod_unfold Let_def)
qed

lemma live_clock_step:
  assumes "live K eg" "egTurn eg = Some tm" "tm_step tm tm'"
  shows "live K (eg\<lparr>egTurn := Some tm'\<rparr>)"
  by (rule live_set_turn [OF assms(1)]) (use assms in \<open>auto simp: tm_step_def live_def react_ok_def\<close>)

lemma start_reaction_clocks_wp:
  assumes "tm_ok tm" "\<forall>e \<in> set rs. seat_ok (fst e)"
  shows "wp (start_reaction_clocks en rs tm) (tm_step tm)"
  using assms
proof (induction rs arbitrary: tm)
  case (Cons e rs)
  obtain i r where e: "e = (i, r)" by force
  then have "0 \<le> i" "i < 4" using Cons.prems(2) by (auto simp: seat_ok_def)
  from GetPlayerTicker_ok [OF Cons.prems(1) this] obtain pt where pt: "GetPlayerTicker tm i = Some pt" "ticker_ok pt" .
  let ?pt = "settle (settled en i) (now en) pt"
  have "ticker_ok ?pt" by (rule ticker_ok_settle) (rule pt)
  then have "ticker_ok (snd (Start (now en) (Available ?pt + 3) (SetAvailable (Available ?pt + 3) ?pt)))"
    by (intro ticker_ok_Start ticker_ok_SetAvailable) (auto simp: ticker_ok_def)
  then have "tm_ok (put_ticker i (snd (Start (now en) (Available ?pt + 3) (SetAvailable (Available ?pt + 3) ?pt))) tm)" (is "tm_ok ?tm")
    by (rule tm_ok_put [OF Cons.prems(1)])
  from Cons.IH [OF this] Cons.prems(2) show ?case
    by (auto simp: e pt case_prod_unfold Let_def tm_step_def elim!: wp_mono)
qed (simp add: tm_step_def)

lemma live_then:
  assumes "live K e" "wp m (quiet e)" "\<And>e'. live K e' \<Longrightarrow> wp (k e') (live K)"
  shows "wp m (\<lambda>e. wp (k e) (live K))"
  by (rule wp_mono [OF assms(2)]) (rule assms(3) [OF quiet_inv(5) [OF _ assms(1)]])

section \<open>Discards\<close>

lemma live_discard: "live K eg \<Longrightarrow> seat_ok i \<Longrightarrow> live K (setLastDiscard i t eg)"
  by (auto simp: live_def base_inv_def dealt_def react_ok_def setLastDiscard_def)

lemma reactions_ok_live:
  assumes "reactions_ok ps d ex rs" "players_ok ps"
  shows "reactions_live ps rs"
  unfolding reactions_live_def option_tiles_def
proof (intro ballI allI impI)
  fix e p ts assume e: "e \<in> set rs" and p: "ps ! nat (fst e) = Some p"
    and ts: "ts \<in> opTiles ` (set (Operations (snd e)) \<union> set_option (ChosenOp (snd e)))"
  have "fst e \<in> {0, 1, 2, 3}" "ChosenOp (snd e) = None" and off: "\<forall>op \<in> set (Operations (snd e)). offered ps d (fst e) op"
    using assms(1) e by (auto simp: reactions_ok_def)
  then have "idx ps (fst e) = Some (Some p)" using p assms(2) by (auto simp: idx_def players_ok_def)
  then show "mset ts \<subseteq># mset (Tiles p)" using off ts \<open>ChosenOp (snd e) = None\<close> by (auto simp: offered_def)
qed

lemma waitReaction_wp:
  assumes "env_ok en" "live K eg"
  shows "wp (waitReaction en ex eg) (live K)"
proof -
  obtain tm where tm: "egTurn eg = Some tm" "tm_ok tm" using live_turn [OF assms(2)] by blast
  have ps: "players_ok (Players eg)" using assms(2) by (simp add: live_def base_inv_def)
  obtain tm1 where tm1: "EnterSelectingPhase tm = Some tm1" "tm_ok tm1" "TurnPointer tm1 = TurnPointer tm" "tmState tm1 = TurnStateSelecting"
    using Enter_phase_wp(1) [OF tm(2)] by (auto simp: wp_iff)
  have ptr: "seat_ok (TurnPointer tm1)" using tm1(2) by (simp add: tm_ok_def seat_ok_def)
  obtain p where p: "Players eg ! nat (TurnPointer tm1) = Some p" using players_ok_at [OF ps ptr] .
  have "length (Players eg) = 4" "\<forall>q \<in> set (Players eg). q \<noteq> None" using ps by (auto simp: players_ok_def)
  then obtain rs where rs: "calculateAvailableOperations (Players eg) (TurnPointer tm1) ex = Some rs"
      "reactions_ok (Players eg) (last (DiscardPile p)) ex rs"
    using calculateAvailableOperations_wp [of "Players eg" "TurnPointer tm1" p ex] p ptr by (auto simp: wp_iff seat_ok_def)
  have seats: "\<forall>e \<in> set rs. seat_ok (fst e)" using rs(2) by (auto simp: reactions_ok_def seat_ok_def)
  let ?e = "eg\<lparr>egTurn := Some tm1, Reactions := rs\<rparr>"
  have live1: "live K ?e" using assms(2) tm1 seats by (auto simp: live_def base_inv_def dealt_def react_ok_def)
  obtain nx tm2 where nx: "NextTurn tm1 = (nx, tm2)" by force
  note n = NextTurn_ok [OF tm1(2) nx]
  have "live K (?e\<lparr>egTurn := Some tm2\<rparr>)" using live_set_turn [OF live1 n(1)] n(5) tm1(4) by simp
  then have empty: "wp (DropTurn en nx True (eg\<lparr>Reactions := rs, egTurn := Some tm2\<rparr>)) (live K)"
    using DropTurn_wp [OF assms(1), of K _ nx] n by (simp add: seat_ok_def)
  have "\<exists>q. player_at ?e (fst e) = Some (Some q)" if "e \<in> set rs" for e
    using player_at_ok [OF live_parts(1) [OF live1], of "fst e"] seats that by (metis (no_types))
  then obtain e2 where e2: "broadcastOperations en rs ?e = Some e2" "quiet ?e e2"
    using broadcastOperations_quiet [OF assms(1) live_worker [OF live1], of rs] by (auto simp: wp_iff)
  obtain tm3 where tm3: "EnterReactingPhase tm1 = Some tm3" "tm_ok tm3" "tmState tm3 = TurnStateWaitReactions"
    using Enter_phase_wp(2) [OF tm1(2)] by (auto simp: wp_iff)
  have "set (rangeReactions en 1 rs) = set rs" using assms(1) by (metis env_ok_def mset_eq_setD)
  then obtain tm4 where tm4: "start_reaction_clocks en (rangeReactions en 1 rs) tm3 = Some tm4" "tm_step tm3 tm4"
    using start_reaction_clocks_wp [OF tm3(2), of "rangeReactions en 1 rs" en] seats by (auto simp: wp_iff)
  have "live K (e2\<lparr>egTurn := Some tm4\<rparr>)"
    using tm4(2) quiet_frame [OF e2(2)] reactions_ok_live [OF rs(2) ps]
    by (intro live_set_turn quiet_inv(5) [OF e2(2) live1]) (auto simp: tm_step_def)
  then show ?thesis using assms(2) tm(1) tm1 rs(1) nx empty e2 tm3 tm4 quiet_frame [OF e2(2)]
    by (auto simp: waitReaction_def Let_def)
qed

lemma DiscardTile_props:
  assumes "DiscardTile t p = (b, p')" "player_ok p"
  shows "player_ok p'" "holding p' = holding p" "Points p' = Points p"
  using assms holding_DiscardTile [OF assms(1)] by (auto simp: DiscardTile_eq player_ok_def split: if_splits)

lemma handleDropTileEvent_wp:
  assumes "env_ok en" "live K eg"
  shows "wp (handleDropTileEvent en u t eg) (live K)"
proof -
  obtain tm where tm: "egTurn eg = Some tm" "tm_ok tm" using live_turn [OF assms(2)] by blast
  show ?thesis
  proof (cases "getSeatIndex eg u")
    case None
    then show ?thesis using tm assms(2) by (simp add: handleDropTileEvent_def)
  next
    case (Some i)
    have i: "seat_ok i" by (rule getSeatIndex_ok [OF live_parts(1) [OF assms(2)] Some])
    obtain ok tm' where c: "stop_clock i eg = Some (ok, eg\<lparr>egTurn := Some tm'\<rparr>)" "tm_step tm tm'"
      using stop_clock_wp [OF live_parts(1) [OF assms(2)] tm(1) i] by (auto simp: wp_iff)
    let ?e = "eg\<lparr>egTurn := Some tm'\<rparr>"
    have live1: "live K ?e" by (rule live_clock_step [OF assms(2) tm(1) c(2)])
    obtain p where p: "player_at ?e i = Some (Some p)" "Players ?e ! nat i = Some p" "nat i < length (Players ?e)" "player_ok p"
      using player_at_ok [OF live_parts(1) [OF live1] i] .
    obtain b p' where d: "DiscardTile t p = (b, p')" by force
    have live2: "live K (put_player i p' ?e)" if "tmState tm = TurnStateWaitMain"
      using DiscardTile_props [OF d p(4)] p that c(2) by (intro live_put_player [OF live1 p(2,3)]) (auto simp: tm_step_def)
    have "wp (broadcastDiscard en i t (setLastDiscard i t (put_player i p' ?e))) (\<lambda>e. wp (waitReaction en i e) (live K))"
      if "tmState tm = TurnStateWaitMain"
    proof -
      note l = live_discard [OF live2 [OF that] i, of t]
      show ?thesis by (rule live_then [OF l broadcasts_quiet(1) [OF live_worker [OF l]] waitReaction_wp [OF assms(1)]])
    qed
    then show ?thesis using tm Some c live1 live2 p(1) d assms(2) by (auto simp: handleDropTileEvent_def Let_def)
  qed
qed

lemma handleDropTimeout_wp:
  assumes "env_ok en" "live K eg" "seat_ok i" "egTurn eg = Some tm" "tmState tm = TurnStateWaitMain"
  shows "wp (handleDropTimeout en i eg) (live K)"
proof -
  obtain p where p: "player_at eg i = Some (Some p)" "Players eg ! nat i = Some p" "nat i < length (Players eg)" "player_ok p"
    using player_at_ok [OF live_parts(1) [OF assms(2)] assms(3)] .
  obtain r p' where d: "DiscardNewestOrLast p = (r, p')" by force
  have pr: "player_ok p'" "holding p' = holding p" "Points p' = Points p"
    using d p(4) DiscardNewestOrLast_None [of p p'] DiscardNewestOrLast_Some(1) [of p _ p'] DiscardTile_props [of _ p True p']
    by (cases r; auto)+
  have "live K (put_player i p' eg)"
    by (rule live_put_player [OF assms(2) p(2,3) pr(1,2,3)]) (use assms in auto)
  then show ?thesis using assms(1-3) p(1) d
    by (auto simp: handleDropTimeout_def Let_def intro!: waitReaction_wp live_discard split: option.splits)
qed

section \<open>Reactions\<close>

text \<open>A chosen action names a valid seat and tiles that seat holds.\<close>

definition action_ok :: "engine \<Rightarrow> ReactionAction \<Rightarrow> bool" where
  "action_ok eg a \<longleftrightarrow> seat_ok (PlayerSeat a) \<and> (\<forall>p. Players eg ! nat (PlayerSeat a) = Some p \<longrightarrow> mset (raTiles a) \<subseteq># mset (Tiles p))"

lemma find_choice_Some:
  "find_choice ty rs = Some a \<Longrightarrow> \<exists>e \<in> set rs. fst e = PlayerSeat a \<and> raTiles a \<in> option_tiles (snd e)"
proof -
  assume "find_choice ty rs = Some a"
  then obtain i r where f: "find (\<lambda>(s, r). chose ty r) rs = Some (i, r)" and a: "PlayerSeat a = i"
      "raTiles a = (case ChosenOp r of None \<Rightarrow> [] | Some op \<Rightarrow> opTiles op)"
    by (auto simp: find_choice_def split: option.splits prod.splits)
  from f have "(i, r) \<in> set rs" "chose ty r" by (auto simp: find_Some_iff) (metis nth_mem)
  then show ?thesis using a by (intro bexI [of _ "(i, r)"]) (auto simp: chose_def option_tiles_def split: option.splits)
qed

lemma selectBestReaction_ok:
  assumes "env_ok en" "selectBestReaction en eg = Some a" "reactions_live (Players eg) (Reactions eg)"
    "\<forall>e \<in> set (Reactions eg). seat_ok (fst e)"
  shows "action_ok eg a"
proof -
  have "set (rangeReactions en n (Reactions eg)) = set (Reactions eg)" for n
    using assms(1) by (metis env_ok_def mset_eq_setD)
  then obtain e where "e \<in> set (Reactions eg)" "fst e = PlayerSeat a" "raTiles a \<in> option_tiles (snd e)"
    using assms(2) by (auto simp: selectBestReaction_def split: option.splits dest!: find_choice_Some)
  then show ?thesis using assms(3,4) by (auto simp: action_ok_def reactions_live_def)
qed

lemma remove_tiles_ok:
  "mset ts \<subseteq># mset (Tiles p) \<Longrightarrow>
   \<exists>ys. remove_tiles ts p = (True, p\<lparr>Tiles := ys\<rparr>) \<and> mset (Tiles p) = mset ts + mset ys"
proof (induction ts arbitrary: p)
  case (Cons t ts)
  then have t: "t \<in> set (Tiles p)" by (auto dest: mset_subset_eq_insertD)
  have "mset ts \<subseteq># mset (Tiles (p\<lparr>Tiles := remove1 t (Tiles p)\<rparr>))" using Cons.prems t by (simp add: insert_subset_eq_iff)
  from Cons.IH [OF this] obtain ys where ys: "remove_tiles ts (p\<lparr>Tiles := remove1 t (Tiles p)\<rparr>) = (True, p\<lparr>Tiles := ys\<rparr>)"
      "mset (remove1 t (Tiles p)) = mset ts + mset ys" by auto
  have "mset (Tiles p) = add_mset t (mset (remove1 t (Tiles p)))" using t by simp
  then have "mset (Tiles p) = mset (t # ts) + mset ys" using ys(2) by (simp only: mset.simps union_mset_add_mset_left)
  moreover have "RemoveTile t p = (True, p\<lparr>Tiles := remove1 t (Tiles p)\<rparr>)"
    using t by (cases rule: RemoveTile_cases [of t p]) simp_all
  ultimately show ?case using ys(1) by (intro exI [of _ ys]) (simp only: remove_tiles.simps prod.case bool.case simp_thms)
next
  case Nil
  show ?case by (rule exI [of _ "Tiles p"]) simp
qed

text \<open>A meld built from the discard and own tiles moves tiles around, and that is all.\<close>

lemma put_player_at:
  "0 \<le> i \<Longrightarrow> 0 \<le> j \<Longrightarrow> nat i < length (Players eg) \<Longrightarrow>
   Players (put_player i p eg) ! nat j = (if i = j then Some p else Players eg ! nat j)"
  by (auto simp: put_player_def nth_list_update nat_eq_iff)

lemma meld_balance:
  fixes A0 :: "'a multiset"
  assumes "A1 + hp = A0 + hp1" "A2 + hq = A1 + hd1" "A3 + h2 = A2 + h3" "hp = hp1 + R" "hq = add_mset c hd1"
    "h3 = add_mset c (h2 + R)"
  shows "A3 = A0"
proof -
  have "A1 + R = A0" using assms(1,4) by (simp add: ac_simps)
  moreover have "add_mset c A2 = A1" using assms(2,5) by simp
  moreover have "A3 = add_mset c A2 + R" using assms(3,6) by (simp add: ac_simps)
  ultimately show ?thesis by simp
qed

lemma call_meld_wp:
  assumes "env_ok en" "live K eg" "action_ok eg a" "seat_ok d" "Players eg ! nat d = Some dp" "DiscardPile dp \<noteq> []"
    "called = last (DiscardPile dp)" "egTurn eg = Some tm" "tmState tm \<noteq> TurnStateWaitReactions"
  shows "wp (call_meld en a n ty need d called eg) (live K)"
proof (cases "length (raTiles a) = n")
  case False
  then show ?thesis using assms(2) by (simp add: call_meld_def)
next
  case True
  let ?i = "PlayerSeat a"
  have i: "seat_ok ?i" using assms(3) by (simp add: action_ok_def)
  obtain p where p: "player_at eg ?i = Some (Some p)" "Players eg ! nat ?i = Some p" "nat ?i < length (Players eg)" "player_ok p"
    using player_at_ok [OF live_parts(1) [OF assms(2)] i] .
  obtain ys where ys: "remove_tiles (raTiles a) p = (True, p\<lparr>Tiles := ys\<rparr>)" "mset (Tiles p) = mset (raTiles a) + mset ys"
    using remove_tiles_ok [of "raTiles a" p] assms(3) p(2) by (auto simp: action_ok_def)
  let ?p1 = "p\<lparr>Tiles := ys\<rparr>"
  let ?e1 = "put_player ?i ?p1 eg"
  have b1: "base_inv K ?e1" using base_put_player [OF live_parts(1) [OF assms(2)] p(2,3), of ?p1] p(4) by (simp add: player_ok_def)
  obtain d1 where d1: "player_at ?e1 d = Some (Some d1)" "Players ?e1 ! nat d = Some d1" "nat d < length (Players ?e1)" "player_ok d1"
    using player_at_ok [OF b1 assms(4)] .
  have pile: "DiscardPile d1 = DiscardPile dp"
    using d1(2) assms(5) p(2,3) i assms(4) by (auto simp: put_player_at seat_ok_def split: if_splits)
  let ?e2 = "put_player d (pop_discard d1) ?e1"
  have b2: "base_inv K ?e2" using base_put_player [OF b1 d1(2,3), of "pop_discard d1"] d1(4) by (simp add: player_ok_def pop_discard_def)
  obtain p2 where p2: "player_at ?e2 ?i = Some (Some p2)" "Players ?e2 ! nat ?i = Some p2" "nat ?i < length (Players ?e2)" "player_ok p2"
    using player_at_ok [OF b2 i] .
  let ?m = "\<lparr>mType = ty, mTiles = called # raTiles a, mFrom = d\<rparr>"
  let ?e3 = "put_player ?i (add_meld ?m p2) ?e2"
  have b3: "base_inv K ?e3" using base_put_player [OF b2 p2(2,3), of "add_meld ?m p2"] p2(4)
    by (simp add: player_ok_def add_meld_def meld_ok_def)
  have "table (Players ?e1) + holding p = table (Players eg) + holding ?p1"
    using table_update [OF p(3,2), of ?p1] by (simp add: put_player_def)
  moreover have "table (Players ?e2) + holding d1 = table (Players ?e1) + holding (pop_discard d1)"
    using table_update [OF d1(3,2), of "pop_discard d1"] by (simp add: put_player_def)
  moreover have "table (Players ?e3) + holding p2 = table (Players ?e2) + holding (add_meld ?m p2)"
    using table_update [OF p2(3,2), of "add_meld ?m p2"] by (simp add: put_player_def)
  moreover have "holding p = holding ?p1 + mset (raTiles a)" using ys(2) by (simp add: holding_def ac_simps)
  moreover have "mset (DiscardPile d1) = add_mset called (mset (butlast (DiscardPile d1)))"
    using assms(6,7) pile by (metis append_butlast_last_id mset_append mset.simps add.right_neutral union_mset_add_mset_right)
  then have "holding d1 = add_mset called (holding (pop_discard d1))" by (simp add: holding_def pop_discard_def)
  moreover have "holding (add_meld ?m p2) = add_mset called (holding p2 + mset (raTiles a))"
    by (simp add: holding_def add_meld_def ac_simps)
  ultimately have "table (Players ?e3) = table (Players eg)" by (rule meld_balance)
  then have l3: "live K (clearLastDiscard ?e3)"
    using b3 live_parts(2) [OF assms(2)] assms(8,9)
    by (auto simp: live_def dealt_def dealt_on_def react_ok_def clearLastDiscard_def base_inv_def)
  have "wp (broadcastMeldAction en (raType a) ?i d (called # raTiles a) (clearLastDiscard ?e3)) (\<lambda>e. wp (DropTurn en ?i need e) (live K))"
    by (rule live_then [OF l3 broadcasts_quiet(3) [OF live_worker [OF l3]] DropTurn_wp [OF assms(1) _ i]])
  then show ?thesis using True p(1) ys(1) d1(1) p2(1) by (simp add: call_meld_def Let_def)
qed

lemma executeReaction_wp:
  assumes "env_ok en" "live K eg" "action_ok eg a" "egTurn eg = Some tm" "tmState tm \<noteq> TurnStateWaitReactions"
  shows "wp (executeReaction en a eg) (live K)"
proof -
  have d: "seat_ok (Seat (lastDiscard eg))" using assms(2) by (simp add: live_def base_inv_def)
  obtain dp where dp: "player_at eg (Seat (lastDiscard eg)) = Some (Some dp)" "Players eg ! nat (Seat (lastDiscard eg)) = Some dp"
    using player_at_ok [OF live_parts(1) [OF assms(2)] d] by metis
  obtain p where p: "player_at eg (PlayerSeat a) = Some (Some p)"
    using player_at_ok [OF live_parts(1) [OF assms(2)], of "PlayerSeat a"] assms(3) by (metis action_ok_def)
  show ?thesis using call_meld_wp [OF assms(1-3) d dp(2) _ refl assms(4,5)] assms(2) dp(1) p
    by (auto simp: executeReaction_def Let_def)
qed

lemma ron_claims_ok:
  assumes "env_ok en" "\<forall>e \<in> set (Reactions eg). seat_ok (fst e)" "seat_ok (Seat (lastDiscard eg))"
  shows "\<forall>c \<in> set (ron_claims en eg). claim_ok c \<and> HasLoser c"
proof -
  have "set (rangeReactions en 2 (Reactions eg)) = set (Reactions eg)" using assms(1) by (metis env_ok_def mset_eq_setD)
  then show ?thesis using assms(2,3) by (auto simp: ron_claims_def claim_ok_def)
qed

lemma handleReactionComplete_wp:
  assumes "env_ok en" "live K eg"
  shows "wp (handleReactionComplete en eg) (live K)"
proof -
  obtain tm where tm: "egTurn eg = Some tm" "tm_ok tm" using live_turn [OF assms(2)] by blast
  obtain tm1 where tm1: "EnterChoosingPhase tm = Some tm1" "tm_ok tm1" "tmState tm1 = TurnStateApplyOperation"
    using Enter_phase_wp(3) [OF tm(2)] by (auto simp: wp_iff)
  let ?e = "eg\<lparr>egTurn := Some tm1\<rparr>"
  have live1: "live K ?e" using live_set_turn [OF assms(2) tm1(2)] tm1(3) by simp
  have seats: "\<forall>e \<in> set (Reactions ?e). seat_ok (fst e)" "seat_ok (Seat (lastDiscard ?e))"
    using assms(2) by (auto simp: live_def base_inv_def)
  obtain nx tm2 where nx: "NextTurn tm1 = (nx, tm2)" by force
  note n = NextTurn_ok [OF tm1(2) nx]
  have "live K (eg\<lparr>egTurn := Some tm2\<rparr>)" using live_set_turn [OF assms(2) n(1)] n(5) tm1(3) by simp
  then have none: "wp (enter_drop en nx (eg\<lparr>egTurn := Some tm2\<rparr>)) (\<lambda>(err, e). live K e)"
    using enter_drop_wp [of K "eg\<lparr>egTurn := Some tm2\<rparr>" nx en] n by (auto simp: live_def seat_ok_def elim!: wp_mono)
  have some: "wp (executeReaction en a ?e) (live K)" if "selectBestReaction en ?e = Some a" "tmState tm = TurnStateWaitReactions" for a
  proof -
    have "reactions_live (Players ?e) (Reactions ?e)" using live_parts(3) [OF assms(2)] tm(1) that(2) by (simp add: react_ok_def)
    from selectBestReaction_ok [OF assms(1) that(1) this seats(1)] show ?thesis
      using executeReaction_wp [OF assms(1) live1, of a tm1] tm1(3) by simp
  qed
  show ?thesis
    using tm(1) tm1(1) assms(2) nx none some handleRoundOverEvent_wp [OF assms(1) live1]
      ron_claims_ok [OF assms(1) seats]
    by (auto simp: handleReactionComplete_def Let_def case_prod_unfold split: option.splits)
qed

text \<open>Recording an answer: the chosen operation is one of the options, or the empty skip.\<close>

lemma respond_seats: "fst ` set (respond i op rs) = fst ` set rs"
  by (force simp: respond_def image_iff)

lemma respond_live:
  assumes "reactions_live ps rs" "\<And>p. ps ! nat i = Some p \<Longrightarrow> mset (opTiles op) \<subseteq># mset (Tiles p)"
  shows "reactions_live ps (respond i op rs)"
proof -
  have "option_tiles (r\<lparr>ChosenOp := Some op, Responded := True\<rparr>) \<subseteq> insert (opTiles op) (option_tiles r)" for r
    by (auto simp: option_tiles_def)
  then show ?thesis using assms unfolding reactions_live_def respond_def by (fastforce split: if_splits)
qed

lemma recordPlayerResponse_wp:
  assumes "env_ok en" "live K eg" "seat_ok i" "egTurn eg = Some tm"
    "\<And>p. Players eg ! nat i = Some p \<Longrightarrow> mset (opTiles op) \<subseteq># mset (Tiles p)"
  shows "wp (recordPlayerResponse en i op eg) (live K)"
proof -
  obtain ok tm' where c: "stop_clock i eg = Some (ok, eg\<lparr>egTurn := Some tm'\<rparr>)" "tm_step tm tm'"
    using stop_clock_wp [OF live_parts(1) [OF assms(2)] assms(4,3)] by (auto simp: wp_iff)
  have live1: "live K (eg\<lparr>egTurn := Some tm'\<rparr>)" by (rule live_clock_step [OF assms(2,4) c(2)])
  have "\<forall>e \<in> set (Reactions eg). seat_ok (fst e)" using assms(2) by (simp add: live_def base_inv_def)
  then have "\<forall>e \<in> set (respond i op (Reactions eg)). seat_ok (fst e)"
    using respond_seats [of i op "Reactions eg"] by (metis (no_types, lifting) imageE imageI)
  then have "live K (eg\<lparr>egTurn := Some tm', Reactions := respond i op (Reactions eg)\<rparr>)"
    using live1 respond_live [of "Players eg" "Reactions eg" i op] assms(5)
    by (auto simp: live_def base_inv_def dealt_def react_ok_def)
  then show ?thesis using c(1) live1 handleReactionComplete_wp [OF assms(1)]
    by (auto simp: recordPlayerResponse_def Let_def split: option.splits)
qed

lemma handle_reaction_wp:
  assumes "env_ok en" "live K eg"
  shows "wp (handle_reaction en ty u eg) (live K)"
proof -
  obtain tm where tm: "egTurn eg = Some tm" "tm_ok tm" using live_turn [OF assms(2)] by blast
  have "wp (recordPlayerResponse en i op eg) (live K)"
    if "getSeatIndex eg u = Some i" "map_of (Reactions eg) i = Some r" "op \<in> set (Operations r)" "tmState tm = TurnStateWaitReactions" for i r op
  proof (rule recordPlayerResponse_wp [OF assms _ tm(1)])
    show "seat_ok i" by (rule getSeatIndex_ok [OF live_parts(1) [OF assms(2)] that(1)])
    have "reactions_live (Players eg) (Reactions eg)" using live_parts(3) [OF assms(2)] tm(1) that(4) by (simp add: react_ok_def)
    then show "mset (opTiles op) \<subseteq># mset (Tiles p)" if "Players eg ! nat i = Some p" for p
      using that \<open>map_of (Reactions eg) i = Some r\<close> \<open>op \<in> set (Operations r)\<close>
      by (fastforce simp: reactions_live_def option_tiles_def dest: map_of_SomeD)
  qed
  then show ?thesis using tm(1) assms(2)
    by (auto simp: handle_reaction_def find_Some_iff split: option.splits)
qed

end
