(* ===== verification/KanInv.thy ===== *)
theory KanInv
  imports HandlerInv
begin

text \<open>Kans, riichi and self-drawn wins keep the invariant; so does every event of the actor.\<close>

section \<open>After a kan\<close>

lemma after_kan_wp:
  assumes "env_ok en" "live K eg" "seat_ok i" "\<And>e. live K e \<Longrightarrow> wp (bc e) (quiet e)"
  shows "wp (after_kan en i t bc eg) (live K)"
proof -
  obtain tm where tm: "egTurn eg = Some tm" using live_turn [OF assms(2)] by blast
  obtain ok tm' where c: "stop_clock i eg = Some (ok, eg\<lparr>egTurn := Some tm'\<rparr>)" "tm_step tm tm'"
    using stop_clock_wp [OF live_parts(1) [OF assms(2)] tm assms(3)] by (auto simp: wp_iff)
  have live1: "live K (eg\<lparr>egTurn := Some tm'\<rparr>)" by (rule live_clock_step [OF assms(2) tm c(2)])
  have enter: "wp (do { (err, e) \<leftarrow> enter_drop en i e; Some (if err then HappenDamageError e else e) }) (live K)" if "live K e" for e
    using enter_or_damage_wp [OF live_parts(1,2) [OF that] assms(3), of en] by (auto simp: wp_iff split: if_splits)
  have push: "wp (pushDrawTile en i t e) (\<lambda>e. wp (do { (err, e) \<leftarrow> enter_drop en i e; Some (if err then HappenDamageError e else e) }) (live K))"
    if e: "live K e" for e
  proof (rule live_then [OF e _ enter])
    have "i < int (length (Players e))" "0 \<le> i" using e assms(3) by (auto simp: live_def base_inv_def players_ok_def seat_ok_def)
    then show "wp (pushDrawTile en i t e) (quiet e)" by (intro pushDrawTile_quiet live_worker [OF e])
  qed
  have "wp (bc (eg\<lparr>egTurn := Some tm'\<rparr>)) (\<lambda>e. wp (pushDrawTile en i t e) (\<lambda>e. wp (do { (err, e) \<leftarrow> enter_drop en i e;
      Some (if err then HappenDamageError e else e) }) (live K)))"
    by (rule wp_mono [OF assms(4) [OF live1]]) (rule push [OF quiet_inv(5) [OF _ live1]])
  then show ?thesis by (simp add: after_kan_def c)
qed

text \<open>A hand that took one tile out for a meld and one in from the dead wall.\<close>

lemma live_kan_draw:
  assumes "live K eg" "Players eg ! nat i = Some p" "nat i < length (Players eg)" "player_ok p1" "holding p1 = holding p"
    "Points p1 = Points p" "egTurn eg = Some tm" "tmState tm \<noteq> TurnStateWaitReactions"
    "egDeck eg = Some dm" "deck_inv dm'" "stock dm = add_mset t (stock dm')"
  shows "live K (put_player i (DrawTile t p1) ((put_player i p1 eg)\<lparr>egDeck := Some dm'\<rparr>))"
proof -
  have l: "live K (put_player i p1 eg)" by (rule live_put_player [OF assms(1-6)]) (use assms(7,8) in auto)
  have "Players (put_player i p1 eg) ! nat i = Some p1" using assms(3) by (simp add: put_player_def)
  from draw_keeps [OF live_parts(1) [OF l] _ live_parts(2) [OF l] assms(10,11) this, of "DrawTile t p1"] assms(3,4,9)
  show ?thesis using live_parts(3) [OF l] by (simp add: live_def Tiles_Draw)
qed

section \<open>Concealed kan\<close>

lemma mset_remove_nth:
  assumes "i < length ts"
  shows "add_mset (ts ! i) (mset (take i ts @ drop (Suc i) ts)) = mset ts"
proof -
  have "mset (take i ts @ ts ! i # drop (Suc i) ts) = mset ts" by (simp only: id_take_nth_drop [OF assms, symmetric])
  then show ?thesis by simp
qed

lemma ankan_loop_props:
  assumes "i \<le> length ts" "length acc \<le> 4" "ankan_loop tt i ts acc = (ts', acc')"
  shows "mset ts' + mset acc' = mset ts + mset acc \<and> length acc' = min 4 (length acc + count_type tt (take i ts))"
  using assms
proof (induction tt i ts acc arbitrary: ts' acc' rule: ankan_loop.induct)
  case (1 tt ts acc)
  then show ?case by (simp add: count_type_def)
next
  case (2 tt i ts acc)
  have i: "i < length ts" using 2(3) by simp
  have cnt: "count_type tt (take (Suc i) ts) = count_type tt (take i ts) + (if tType (ts ! i) = tt then 1 else 0)"
    using i by (simp add: count_type_def take_Suc_conv_app_nth)
  consider (full) "length acc = 4" | (hit) "length acc < 4" "tType (ts ! i) = tt" | (miss) "length acc < 4" "tType (ts ! i) \<noteq> tt"
    using 2(4) by linarith
  then show ?case
  proof cases
    case full
    then show ?thesis using 2(5) by auto
  next
    case hit
    let ?ts = "take i ts @ drop (Suc i) ts"
    have "mset ts' + mset acc' = mset ?ts + mset (acc @ [ts ! i]) \<and>
        length acc' = min 4 (length (acc @ [ts ! i]) + count_type tt (take i ?ts))"
      using hit i 2(5) by (intro 2(1)) auto
    moreover have "take i ?ts = take i ts" using i by simp
    moreover have "mset ?ts + mset (acc @ [ts ! i]) = mset ts + mset acc"
      by (simp only: mset_remove_nth [OF i, symmetric]) simp
    ultimately show ?thesis using hit cnt i by simp
  next
    case miss
    then show ?thesis using 2(2) [of ts' acc'] 2(4,5) i cnt by simp
  qed
qed

lemma kan_tile_wp:
  assumes "live K eg" "egDeck eg = Some dm" "CanKan dm"
  shows "wp (DrawKanTile dm) (\<lambda>(r, dm'). \<exists>t. r = Some t \<and> deck_inv dm' \<and> stock dm = add_mset t (stock dm'))"
proof -
  have "deck_inv dm" using assms(1,2) by (auto simp: live_def dealt_def dealt_on_def)
  then show ?thesis by (cases rule: DrawKanTile_inv) (use assms(3) in \<open>simp_all add: CanKan_def\<close>)
qed

lemma handleAnkanEvent_wp:
  assumes "env_ok en" "live K eg"
  shows "wp (handleAnkanEvent en u t eg) (live K)"
proof -
  obtain tm where tm: "egTurn eg = Some tm" "tm_ok tm" using live_turn [OF assms(2)] by blast
  show ?thesis
  proof (cases "getSeatIndex eg u")
    case None
    then show ?thesis using tm assms by (simp add: handleAnkanEvent_def)
  next
    case (Some i)
    then have i: "seat_ok i" by (rule getSeatIndex_ok [OF live_parts(1) [OF assms(2)]])
    obtain p where p: "player_at eg i = Some (Some p)" "Players eg ! nat i = Some p" "nat i < length (Players eg)" "player_ok p"
      using player_at_ok [OF live_parts(1) [OF assms(2)] i] .
    obtain ts acc where al: "ankan_loop (tType t) (length (Tiles p)) (Tiles p) [] = (ts, acc)" by force
    note a = ankan_loop_props [OF _ _ al, simplified]
    let ?p = "add_meld \<lparr>mType = ''Ankan'', mTiles = acc, mFrom = -1\<rparr> (p\<lparr>Tiles := ts\<rparr>)"
    have len: "length acc = 4" if "\<not> count_type (tType t) (Tiles p) < 4" using a that by simp
    have pr: "holding ?p = holding p" "Points ?p = Points p" "player_ok ?p" if "length acc = 4"
      using a p(4) that by (auto simp: holding_def add_meld_def player_ok_def meld_ok_def ac_simps)
    have kan: "live K (put_player i ?p eg)" "\<And>dm dm' kt. egDeck eg = Some dm \<Longrightarrow> deck_inv dm' \<Longrightarrow> stock dm = add_mset kt (stock dm') \<Longrightarrow>
        wp (after_kan en i kt (broadcastAnkan en i acc) (put_player i (DrawTile kt ?p) ((put_player i ?p eg)\<lparr>egDeck := Some dm'\<rparr>))) (live K)"
      if "length acc = 4" "tmState tm = TurnStateWaitMain"
    proof -
      show "live K (put_player i ?p eg)"
        by (rule live_put_player [OF assms(2) p(2,3) pr(3,1,2) [OF that(1)]]) (use tm that in auto)
      fix dm dm' kt assume d: "egDeck eg = Some dm" "deck_inv dm'" "stock dm = add_mset kt (stock dm')"
      show "wp (after_kan en i kt (broadcastAnkan en i acc) (put_player i (DrawTile kt ?p) ((put_player i ?p eg)\<lparr>egDeck := Some dm'\<rparr>))) (live K)"
        by (rule after_kan_wp [OF assms(1) live_kan_draw [OF assms(2) p(2,3) pr(3,1,2) [OF that(1)] tm(1) _ d] i
              broadcasts_quiet(4) [OF live_worker]]) (use that in auto)
    qed
    show ?thesis using tm(1) Some p(1) assms(2) al len kan
      by (auto simp: handleAnkanEvent_def Let_def intro!: handleRoundOverEvent_wp assms wp_mono [OF kan_tile_wp [OF assms(2)]] split: option.splits)
  qed
qed

section \<open>Added kan\<close>

lemma peng_index_Some:
  assumes "peng_index tt ms = Some i"
  shows "i < length ms" "mType (ms ! i) = ''Peng''" "mTiles (ms ! i) \<noteq> []" "tType (hd (mTiles (ms ! i))) = tt"
  using assms by (auto simp: peng_index_def find_Some_iff)

lemma meld_tiles_update:
  "i < length ms \<Longrightarrow> meld_tiles (ms[i := m]) + mset (mTiles (ms ! i)) = meld_tiles ms + mset (mTiles m)"
proof (induction ms arbitrary: i)
  case (Cons a ms)
  then show ?case by (cases i) (auto simp: ac_simps)
qed simp

lemma upgrade_peng_props:
  assumes "i < length (Melds p)"
  shows "holding (upgrade_peng i t p) = add_mset t (holding p)" "Points (upgrade_peng i t p) = Points p"
    "player_ok p \<Longrightarrow> player_ok (upgrade_peng i t p)"
proof -
  have "meld_tiles ((Melds p)[i := (Melds p ! i)\<lparr>mType := ''Kakan'', mTiles := mTiles (Melds p ! i) @ [t]\<rparr>]) = add_mset t (meld_tiles (Melds p))"
    using meld_tiles_update [OF assms, of "(Melds p ! i)\<lparr>mType := ''Kakan'', mTiles := mTiles (Melds p ! i) @ [t]\<rparr>"] by simp
  then show "holding (upgrade_peng i t p) = add_mset t (holding p)" by (simp add: holding_def upgrade_peng_def)
  show "Points (upgrade_peng i t p) = Points p" by (simp add: upgrade_peng_def)
  show "player_ok (upgrade_peng i t p)" if "player_ok p"
    using that by (auto simp: player_ok_def upgrade_peng_def meld_ok_def dest!: set_update_subset_insert [THEN subsetD])
qed

text \<open>Taking an added kan back restores the hand and the meld.\<close>

lemma revert_upgrade:
  assumes "peng_index tt (Melds p) = Some i"
  shows "revert_kakan i t (upgrade_peng i t p) = AddTile t p"
proof -
  have "(Melds p)[i := (Melds p ! i)\<lparr>mType := ''Peng'', mTiles := mTiles (Melds p ! i)\<rparr>] = Melds p"
    using peng_index_Some(2) [OF assms] by (metis Meld.surjective Meld.update_convs(1) Meld.update_convs(2) list_update_id old.unit.exhaust)
  then show ?thesis using peng_index_Some(1) [OF assms] by (simp add: revert_kakan_def upgrade_peng_def AddTile_def)
qed

lemma holding_AddTile: "holding (AddTile t p) = add_mset t (holding p)"
  by (simp add: holding_def AddTile_def)

lemma live_revert:
  assumes "live K eg" "Players eg ! nat i = Some p" "nat i < length (Players eg)" "egTurn eg = Some tm" "tmState tm = TurnStateWaitMain"
    "player_ok p1" "holding p1 = holding p" "Points p1 = Points p" "player_ok p2" "holding p2 = holding p" "Points p2 = Points p"
  shows "live K (put_player i p1 eg)" "live K (put_player i p2 (put_player i p1 eg))"
    "live K (put_player i p2 (HappenDamageError (put_player i p1 eg)))"
proof -
  have turn: "\<forall>tm. egTurn eg = Some tm \<longrightarrow> tmState tm \<noteq> TurnStateWaitReactions" using assms(4,5) by simp
  show l: "live K (put_player i p1 eg)" by (rule live_put_player [OF assms(1-3,6-8)]) (use turn in simp)
  have at: "Players (put_player i p1 eg) ! nat i = Some p1" "nat i < length (Players (put_player i p1 eg))"
    using assms(3) by (simp_all add: put_player_def)
  show l2: "live K (put_player i p2 (put_player i p1 eg))"
    by (rule live_put_player [OF l at assms(9)]) (use assms turn in simp_all)
  have "put_player i p2 (HappenDamageError (put_player i p1 eg)) = HappenDamageError (put_player i p2 (put_player i p1 eg))"
    by (simp add: put_player_def HappenDamageError_def Terminate_def requestDestroyRoom_def split: option.splits)
  then show "live K (put_player i p2 (HappenDamageError (put_player i p1 eg)))" using l2 by simp
qed

lemma handleKakanEvent_wp:
  assumes "env_ok en" "live K eg"
  shows "wp (handleKakanEvent en u t eg) (live K)"
proof -
  obtain tm where tm: "egTurn eg = Some tm" "tm_ok tm" using live_turn [OF assms(2)] by blast
  show ?thesis
  proof (cases "getSeatIndex eg u")
    case None
    then show ?thesis using tm assms by (simp add: handleKakanEvent_def)
  next
    case (Some i)
    then have i: "seat_ok i" by (rule getSeatIndex_ok [OF live_parts(1) [OF assms(2)]])
    obtain p where p: "player_at eg i = Some (Some p)" "Players eg ! nat i = Some p" "nat i < length (Players eg)" "player_ok p"
      using player_at_ok [OF live_parts(1) [OF assms(2)] i] .
    show ?thesis
    proof (cases rule: RemoveTile_cases [of t p])
      case absent
      then show ?thesis using tm(1) Some p(1) assms(2) by (auto simp: handleKakanEvent_def)
    next
      case present
      let ?q = "p\<lparr>Tiles := remove1 t (Tiles p)\<rparr>"
      have q: "player_ok ?q" "Points ?q = Points p" using p(4) by (simp_all add: player_ok_def)
      have "mset (Tiles p) = add_mset t (mset (remove1 t (Tiles p)))" using present(1) by simp
      then have hq: "holding p = add_mset t (holding ?q)" unfolding holding_def by simp
      note add = live_put_player [OF assms(2) p(2,3), of "AddTile t ?q"]
      have up: "holding (upgrade_peng j t ?q) = holding p" "Points (upgrade_peng j t ?q) = Points p" "player_ok (upgrade_peng j t ?q)"
        if "peng_index (tType t) (Melds p) = Some j" for j
        using upgrade_peng_props [of j ?q t] peng_index_Some(1) [OF that] hq q by simp_all
      have rev: "revert_kakan j t (upgrade_peng j t ?q) = AddTile t ?q" if "peng_index (tType t) (Melds p) = Some j" for j
        using revert_upgrade [of "tType t" ?q j t] that by simp
      note lr = live_revert [OF assms(2) p(2,3) tm(1) _ up(3,1,2), of _ "AddTile t ?q"]
      have kan: "wp (after_kan en i kt (broadcastKakan en i f ts) (put_player i (DrawTile kt (upgrade_peng j t ?q)) ((put_player i (upgrade_peng j t ?q) eg)\<lparr>egDeck := Some dm'\<rparr>))) (live K)"
        if "peng_index (tType t) (Melds p) = Some j" "tmState tm = TurnStateWaitMain" "egDeck eg = Some dm" "deck_inv dm'"
          "stock dm = add_mset kt (stock dm')" for dm dm' kt j f ts
        by (rule after_kan_wp [OF assms(1) live_kan_draw [OF assms(2) p(2,3) up(3,1,2) [OF that(1)] tm(1) _ that(3-5)] i
              broadcasts_quiet(5) [OF live_worker]]) (use that in auto)
      show ?thesis using tm(1) Some p(1) present(2) add lr q hq kan rev assms(2)
        by (auto simp: handleKakanEvent_def Let_def holding_AddTile intro!: handleRoundOverEvent_wp assms wp_mono [OF kan_tile_wp [OF assms(2)]] split: option.splits)
    qed
  qed
qed

section \<open>Riichi, self-drawn wins, rons and timeouts\<close>

text \<open>Declaring riichi moves 1000 points from the player to the sticks.\<close>

lemma handleRiichiEvent_wp:
  assumes "base_inv K eg"
  shows "wp (handleRiichiEvent en u eg) (\<lambda>e. base_inv K e \<and> (dealt eg \<and> react_ok eg \<longrightarrow> dealt e \<and> react_ok e) \<and> (fresh eg \<longrightarrow> fresh e))"
proof (cases "getSeatIndex eg u")
  case None
  then show ?thesis using assms by (simp add: handleRiichiEvent_def)
next
  case (Some i)
  then have i: "seat_ok i" by (rule getSeatIndex_ok [OF assms])
  obtain p where p: "player_at eg i = Some (Some p)" "Players eg ! nat i = Some p" "nat i < length (Players eg)" "player_ok p"
    using player_at_ok [OF assms i] .
  obtain s where s: "egSituation eg = Some s" "situation_ok s" using assms by (auto simp: base_inv_def)
  let ?p = "AddPoints (-1000) (p\<lparr>IsRiichi := True, IsWaiting := True\<rparr>)"
  let ?e = "(put_player i ?p eg)\<lparr>egSituation := Some (s\<lparr>RiichiSticks := RiichiSticks s + 1\<rparr>)\<rparr>"
  have pr: "player_ok ?p" "holding ?p = holding p" "Tiles ?p = Tiles p" "NewestTile ?p = NewestTile p" "Points ?p = Points p - 1000"
    using p(4) by (simp_all add: player_ok_def AddPoints_def holding_def)
  have "bank (Players ?e) (egSituation ?e) = K"
    using assms p(2,3) s(1) bank_update [OF p(3,2), of ?p "Some (s\<lparr>RiichiSticks := RiichiSticks s + 1\<rparr>)"] pr(5)
    by (simp add: put_player_def base_inv_def bank_def)
  then have b: "base_inv K ?e"
    using base_put_player [OF assms p(2,3) pr(1)] s(2) by (auto simp: base_inv_def situation_ok_def)
  have "dealt ?e" if "dealt eg" using dealt_put_player [OF that p(2,3) pr(2)] by (simp add: dealt_def)
  moreover have "react_ok ?e" if "react_ok eg"
    using that p(2,3) pr(3) by (auto simp: react_ok_def reactions_live_def put_player_def nth_list_update)
  moreover have "Some p \<in> set (Players eg)" using p(2,3) by (metis nth_mem)
  then have "fresh ?e" if "fresh eg"
    using that pr(4) by (auto simp: fresh_def put_player_def dest!: set_update_subset_insert [THEN subsetD])
  moreover have "Worker ?e \<noteq> None" using assms by (simp add: base_inv_def)
  from broadcasts_quiet(2) [OF this, of en i] have "wp (broadcastRiichi en i ?e) (quiet ?e)" .
  ultimately have "wp (broadcastRiichi en i ?e) (\<lambda>e. base_inv K e \<and> (dealt eg \<and> react_ok eg \<longrightarrow> dealt e \<and> react_ok e) \<and> (fresh eg \<longrightarrow> fresh e))"
    using b by (elim wp_mono) (auto dest: quiet_inv)
  then show ?thesis using Some p(1) s(1) by (simp add: handleRiichiEvent_def Let_def)
qed

lemma handleTouchHuEvent_wp:
  assumes "env_ok en" "live K eg"
  shows "wp (handleTouchHuEvent en u eg) (live K)"
proof (cases "getSeatIndex eg u")
  case None
  then show ?thesis using assms by (simp add: handleTouchHuEvent_def)
next
  case (Some i)
  then have i: "seat_ok i" by (rule getSeatIndex_ok [OF live_parts(1) [OF assms(2)]])
  obtain p where p: "player_at eg i = Some (Some p)" using player_at_ok [OF live_parts(1) [OF assms(2)] i] .
  have "wp (broadcastTsumo en i t eg) (\<lambda>e. wp (handleRoundOverEvent en [\<lparr>WinnerSeat = i, HasLoser = False, LoserSeat = 0, WinTile = t\<rparr>] RoundEndTsumo e) (live K))" for t
    by (rule live_then [OF assms(2) broadcasts_quiet(7) [OF live_worker [OF assms(2)]] handleRoundOverEvent_wp [OF assms(1)]])
      (use i in \<open>auto simp: claim_ok_def seat_ok_def\<close>)
  then show ?thesis using Some p assms(2) by (auto simp: handleTouchHuEvent_def split: option.splits)
qed

lemma handleRongHuEvent_wp:
  assumes "env_ok en" "live K eg"
  shows "wp (handleRongHuEvent en u eg) (live K)"
proof -
  note r = handle_reaction_wp [OF assms(1), of K _ "''HU''" u]
  have "wp (broadcastRon en i s t eg) (\<lambda>e. wp (handle_reaction en ''HU'' u e) (live K))" for i s t
    by (rule live_then [OF assms(2) broadcasts_quiet(6) [OF live_worker [OF assms(2)]] r])
  then show ?thesis using r [OF assms(2)]
    by (auto simp: handleRongHuEvent_def handleReactionHuEvent_def split: option.splits)
qed

lemma handleTimeoutEvent_wp:
  assumes "env_ok en" "live K eg" "seat_ok i"
  shows "wp (handleTimeoutEvent en i eg) (live K)"
proof -
  obtain tm where tm: "egTurn eg = Some tm" "tm_ok tm" using live_turn [OF assms(2)] by blast
  show ?thesis using tm(1) assms handleDropTimeout_wp [OF assms tm(1)] recordPlayerResponse_wp [OF assms tm(1)]
    by (auto simp: handleTimeoutEvent_def handleReactionTimeout_def split: TurnState.splits)
qed

section \<open>Events\<close>

lemmas live_handlers = handleDropTileEvent_wp handle_reaction_wp handleAnkanEvent_wp handleKakanEvent_wp
  handleRongHuEvent_wp handleTouchHuEvent_wp handleTimeoutEvent_wp

text \<open>Before the first deal only the start of the round and riichi do anything.\<close>

lemma fresh_ignored:
  assumes "base_inv K eg" "fresh eg" "event_ok ev" "ev \<noteq> StartRoundEvent" "\<forall>u. ev \<noteq> RiichiEvent u"
  shows "wp (processEvent en ev eg) (\<lambda>e. base_inv K e \<and> fresh e)"
proof -
  obtain tm where tm: "egTurn eg = Some tm" "tmState tm = TurnStateIdle" using assms(2) by (auto simp: fresh_def)
  have ron: "wp (handleRongHuEvent en u eg) (\<lambda>e. base_inv K e \<and> fresh e)" for u
  proof -
    have "Worker eg \<noteq> None" using assms(1) by (simp add: base_inv_def)
    note b = broadcasts_quiet(6) [OF this]
    have same: "wp (handle_reaction en ''HU'' u e) (\<lambda>e. base_inv K e \<and> fresh e)" if "base_inv K e" "fresh e" for e
      using that by (auto simp: handle_reaction_def fresh_def)
    have "wp (broadcastRon en i s t eg) (\<lambda>e. wp (handle_reaction en ''HU'' u e) (\<lambda>e. base_inv K e \<and> fresh e))" for i s t
      by (rule wp_mono [OF b]) (rule same [OF quiet_inv(1) [OF _ assms(1)] quiet_inv(4) [OF _ assms(2)]])
    then show ?thesis using same [OF assms(1,2)]
      by (auto simp: handleRongHuEvent_def handleReactionHuEvent_def split: option.splits)
  qed
  have tsumo: "wp (handleTouchHuEvent en u eg) (\<lambda>e. base_inv K e \<and> fresh e)" for u
  proof (cases "getSeatIndex eg u")
    case (Some i)
    obtain p where p: "player_at eg i = Some (Some p)" "Players eg ! nat i = Some p" "nat i < length (Players eg)"
      using player_at_ok [OF assms(1) getSeatIndex_ok [OF assms(1) Some]] by metis
    then have "NewestTile p = None" using assms(2) by (metis fresh_def nth_mem)
    then show ?thesis using Some p(1) assms(1,2) by (simp add: handleTouchHuEvent_def)
  qed (simp add: handleTouchHuEvent_def assms)
  show ?thesis using tm assms ron tsumo
    by (cases ev) (simp_all add: handleDropTileEvent_def handlePengEvent_def handleGangEvent_def handleChiEvent_def handle_reaction_def
        handleAnkanEvent_def handleKakanEvent_def handleReconnectEvent_def handleTimeoutEvent_def)
qed

lemma processEvent_wp:
  assumes "env_ok en" "event_ok ev" "eg_inv K eg"
  shows "wp (processEvent en ev eg) (eg_inv K)"
proof -
  have b: "base_inv K eg" using assms(3) by (simp add: eg_inv_def)
  then obtain s where s: "egSituation eg = Some s" by (auto simp: base_inv_def)
  have start: "wp (handleStartRoundEvent en eg) (eg_inv K)"
    by (rule wp_mono [OF handleStartRoundEvent_wp [OF b s]]) (auto simp: eg_inv_def live_def)
  have riichi: "wp (handleRiichiEvent en u eg) (eg_inv K)" for u
    by (rule wp_mono [OF handleRiichiEvent_wp [OF b]]) (use assms(3) in \<open>auto simp: eg_inv_def\<close>)
  show ?thesis
  proof (cases "live K eg")
    case True
    have l: "wp m (live K) \<Longrightarrow> wp m (eg_inv K)" for m by (erule wp_mono) (simp add: eg_inv_def live_def)
    show ?thesis using start riichi assms(2,3) True
      by (cases ev) (auto simp: handlePengEvent_def handleGangEvent_def handleChiEvent_def handleReconnectEvent_def event_ok_def
          intro!: l live_handlers assms(1))
  next
    case False
    then have fr: "fresh eg" using assms(3) by (auto simp: eg_inv_def live_def)
    consider "ev = StartRoundEvent" | u where "ev = RiichiEvent u" | "ev \<noteq> StartRoundEvent" "\<forall>u. ev \<noteq> RiichiEvent u" by blast
    then show ?thesis
    proof cases
      case 3
      show ?thesis by (rule wp_mono [OF fresh_ignored [OF b fr assms(2) 3]]) (simp add: eg_inv_def)
    qed (use start riichi in simp_all)
  qed
qed

end
