(* ===== verification/Reach.thy ===== *)
theory Reach
  imports KanInv
begin

text \<open>
  The engine as a concurrent system: clients queue events, the actor goroutine (\<open>actorLoop\<close>) takes
  them one by one, the goroutines of the four clocks run between the handlers, and the start timer
  fires.  The invariant of \<open>EngineInv\<close> holds in every reachable state, so in no reachable state does
  the actor panic, and points and tiles are conserved over whole games.
\<close>

section \<open>Contracts\<close>

text \<open>An operation that takes arguments of a good kind and keeps an invariant without panicking.\<close>

locale total_handler =
  fixes handle :: "'a \<Rightarrow> 's \<Rightarrow> 's option" and good :: "'a \<Rightarrow> bool" and inv :: "'s \<Rightarrow> bool"
  assumes handle_ok: "good a \<Longrightarrow> inv s \<Longrightarrow> wp (handle a s) inv"
begin

lemma handle_total: "good a \<Longrightarrow> inv s \<Longrightarrow> \<exists>s'. handle a s = Some s' \<and> inv s'"
  using handle_ok [of a s] by (simp add: wp_iff)

lemma handle_keeps: "good a \<Longrightarrow> inv s \<Longrightarrow> handle a s = Some s' \<Longrightarrow> inv s'"
  using handle_ok [of a s] by simp

lemma run_all_wp: "list_all good as \<Longrightarrow> inv s \<Longrightarrow> wp (run_all handle as s) inv"
proof (induction as arbitrary: s)
  case (Cons a as)
  then show ?case by (auto intro: wp_mono [OF handle_ok])
qed simp

end

text \<open>A transition system with an inductive invariant.\<close>

locale invariant_system =
  fixes step :: "'s \<Rightarrow> 's \<Rightarrow> bool" and inv :: "'s \<Rightarrow> bool"
  assumes step_keeps: "inv s \<Longrightarrow> step s s' \<Longrightarrow> inv s'"
begin

lemma reach_keeps: "step\<^sup>*\<^sup>* s s' \<Longrightarrow> inv s \<Longrightarrow> inv s'"
  by (induction rule: rtranclp_induct) (auto intro: step_keeps)

end

section \<open>Steps of the running engine\<close>

text \<open>The sections of a clock goroutine, on the clock of one seat.\<close>

definition clock_step :: "(PlayerTicker \<Rightarrow> PlayerTicker option) \<Rightarrow> int \<Rightarrow> engine \<Rightarrow> engine option" where
  "clock_step f i eg = do {
     tm \<leftarrow> egTurn eg;
     pt \<leftarrow> GetPlayerTicker tm i;
     pt \<leftarrow> f pt;
     Some (eg\<lparr>egTurn := Some (put_ticker i pt tm)\<rparr>)
   }"

text \<open>\<open>makeTimeoutHandler\<close>: the callback of the last section of an expired clock.\<close>

definition clock_timeout :: "int \<Rightarrow> engine \<Rightarrow> engine option" where
  "clock_timeout i eg = map_option (NotifyEvent (TimeoutEvent i)) (clock_step timer_timeout i eg)"

fun client_event :: "GameEvent \<Rightarrow> bool" where
  "client_event (TimeoutEvent i) = False"
| "client_event StartRoundEvent = False"
| "client_event ev = True"

text \<open>One turn of \<open>actorLoop\<close>: the oldest queued event is handled.\<close>

definition actor_turn :: "env \<Rightarrow> engine \<Rightarrow> engine option" where
  "actor_turn en eg = (case gameEvents eg of
     Some (ev # evs) \<Rightarrow> processEvent en ev (eg\<lparr>gameEvents := Some evs\<rparr>)
   | _ \<Rightarrow> Some eg)"

inductive eg_step :: "engine \<Rightarrow> engine \<Rightarrow> bool" where
  notify: "client_event ev \<Longrightarrow> eg_step eg (NotifyEvent ev eg)"
| actor: "env_ok en \<Longrightarrow> actor_turn en eg = Some eg' \<Longrightarrow> eg_step eg eg'"
| register: "seat_ok i \<Longrightarrow> clock_step timer_register i eg = Some eg' \<Longrightarrow> eg_step eg eg'"
| expire: "seat_ok i \<Longrightarrow> clock_step timer_expire i eg = Some eg' \<Longrightarrow> eg_step eg eg'"
| canceled: "seat_ok i \<Longrightarrow> clock_step (timer_canceled time) i eg = Some eg' \<Longrightarrow> eg_step eg eg'"
| timeout: "seat_ok i \<Longrightarrow> clock_timeout i eg = Some eg' \<Longrightarrow> eg_step eg eg'"
| start: "start_timer_fires eg = Some eg' \<Longrightarrow> eg_step eg eg'"

text \<open>A game as the room creates it: a clone of the prototype, initialised with the users of the room.\<close>

definition new_game :: "env \<Rightarrow> bool \<Rightarrow> string \<Rightarrow> string \<Rightarrow> (string \<times> UserInfo) list \<Rightarrow> engine option" where
  "new_game en repo worker roomID users = do {
     eg \<leftarrow> Clone (NewRiichiMahjong4p (Some worker));
     InitializeEngine en repo roomID users eg
   }"

section \<open>The invariant is inductive\<close>

lemma client_event_ok: "client_event ev \<Longrightarrow> event_ok ev"
  by (cases ev) (simp_all add: event_ok_def)

lemma eg_inv_NotifyEvent: "eg_inv K eg \<Longrightarrow> event_ok ev \<Longrightarrow> eg_inv K (NotifyEvent ev eg)"
  by (simp add: eg_inv_def NotifyEvent_inv)

lemma eg_inv_queue:
  assumes "eg_inv K eg" "gameEvents eg = Some (ev # evs)"
  shows "event_ok ev" "eg_inv K (eg\<lparr>gameEvents := Some evs\<rparr>)"
  using assms by (auto simp: eg_inv_def base_inv_def queue_ok_def fresh_def dealt_def react_ok_def)

lemma actor_turn_wp:
  assumes "env_ok en" "eg_inv K eg"
  shows "wp (actor_turn en eg) (eg_inv K)"
  using processEvent_wp [OF assms(1) eg_inv_queue(1) eg_inv_queue(2)] assms(2)
  by (auto simp: actor_turn_def split: option.splits list.splits)

interpretation events: total_handler "\<lambda>(en, ev). processEvent en ev" "\<lambda>(en, ev). env_ok en \<and> event_ok ev" "eg_inv K" for K
  by unfold_locales (auto intro: processEvent_wp)

interpretation actor: total_handler actor_turn env_ok "eg_inv K" for K
  by unfold_locales (rule actor_turn_wp)

lemma clock_step_inv:
  assumes "\<And>pt pt'. ticker_ok pt \<Longrightarrow> f pt = Some pt' \<Longrightarrow> ticker_ok pt'" "seat_ok i" "clock_step f i eg = Some eg'" "eg_inv K eg"
  shows "eg_inv K eg'"
proof -
  obtain tm where tm: "egTurn eg = Some tm" "tm_ok tm" using assms(4) by (auto simp: eg_inv_def base_inv_def)
  obtain pt where pt: "GetPlayerTicker tm i = Some pt" "ticker_ok pt"
    using GetPlayerTicker_ok [OF tm(2), of i] assms(2) by (auto simp: seat_ok_def)
  obtain pt' where pt': "f pt = Some pt'" "eg' = eg\<lparr>egTurn := Some (put_ticker i pt' tm)\<rparr>"
    using assms(3) tm(1) pt(1) by (auto simp: clock_step_def bind_eq_Some_conv)
  have "tm_ok (put_ticker i pt' tm)" by (rule tm_ok_put [OF tm(2) assms(1) [OF pt(2) pt'(1)]])
  then show ?thesis using assms(4) tm(1) pt'(2)
    by (auto simp: eg_inv_def base_inv_def fresh_def dealt_def react_ok_def)
qed

lemma eg_inv_timer [simp]: "eg_inv K (eg\<lparr>roundStartTimer := a, egState := b\<rparr>) = eg_inv K eg"
  by (simp add: eg_inv_def base_inv_def fresh_def dealt_def react_ok_def)

lemma eg_step_inv:
  assumes "eg_inv K eg" "eg_step eg eg'"
  shows "eg_inv K eg'"
  using assms(2)
proof cases
  case (timeout i)
  then obtain e where e: "clock_step timer_timeout i eg = Some e" "eg' = NotifyEvent (TimeoutEvent i) e"
    by (auto simp: clock_timeout_def)
  have "eg_inv K e" by (rule clock_step_inv [OF ticker_ok_loop(3) timeout(1) e(1) assms(1)])
  then show ?thesis using e(2) timeout(1) by (auto simp: event_ok_def intro: eg_inv_NotifyEvent)
next
  case start
  then show ?thesis using assms(1)
    by (auto simp: start_timer_fires_def event_ok_def split: if_splits intro: eg_inv_NotifyEvent)
qed (use assms(1) in \<open>auto intro: eg_inv_NotifyEvent client_event_ok actor.handle_keeps clock_step_inv [OF ticker_ok_loop(1)]
    clock_step_inv [OF ticker_ok_loop(2)] clock_step_inv [OF ticker_ok_loop(4)]\<close>)

interpretation game: invariant_system eg_step "eg_inv K" for K
  by unfold_locales (rule eg_step_inv)

section \<open>A new game\<close>

lemma seat_users_simps:
  "length (seat_users us) = length us" "map fst (seat_users us) = map fst us"
  "n < length us \<Longrightarrow> seat_users us ! n = (fst (us ! n), (snd (us ! n))\<lparr>uiSeatIndex := int n\<rparr>)"
  by (auto simp: seat_users_def case_prod_unfold intro!: nth_equalityI)

lemma users_ok_seats:
  assumes "length us \<le> 4"
  shows "users_ok (Some (map_of (seat_users us)))"
proof -
  have "seat_ok (uiSeatIndex ui)" if "map_of (seat_users us) u = Some ui" for u ui
  proof -
    have "(u, ui) \<in> set (seat_users us)" by (rule map_of_SomeD [OF that])
    then obtain n where "n < length us" "seat_users us ! n = (u, ui)" by (metis in_set_conv_nth seat_users_simps(1))
    then show ?thesis using assms by (auto simp: seat_users_simps seat_ok_def)
  qed
  then show ?thesis by (simp add: users_ok_def)
qed

text \<open>The engine between its initialisation and the push of the match message.\<close>

definition seated :: "env \<Rightarrow> bool \<Rightarrow> string \<Rightarrow> string \<Rightarrow> (string \<times> UserInfo) list \<Rightarrow> engine" where
  "seated en repo worker roomID users = (the (Clone (NewRiichiMahjong4p (Some worker))))
     \<lparr>RoomID := roomID, UserMap := Some (map_of (seat_users users)), closed := False, gameEvents := Some [],
      Players := map (\<lambda>(uid, ui). Some (NewPlayerImage (uiUserID ui) (uiSeatIndex ui) 25000)) (seat_users users),
      egTurn := Some (NewTurnManager (replicate 4 (Some (NewPlayerTicker 30)))), egState := GameWaiting,
      Persister := (if repo then Some (NewGamePersister (oid en) (now en) roomID (map (\<lambda>(u, ui). \<lparr>piUserID = u, piSeatIndex = uiSeatIndex ui, Nickname = []\<rparr>) (seat_users users)))
                    else None)\<rparr>"

lemma new_game_eq:
  assumes "length users = 4"
  shows "new_game en repo worker roomID users = do {
     eg \<leftarrow> pushMatchSuccessMessage en (seat_users users) (seated en repo worker roomID users);
     Some (eg\<lparr>roundStartTimer := TimerArmed\<rparr>) }"
proof -
  obtain a b c d where u: "seat_users users = [a, b, c, d]"
    using seat_users_simps(1) [of users] unfolding assms list_of_length4 by blast
  have m: "map2 (\<lambda>p u. case u of None \<Rightarrow> p | Some (uid, ui) \<Rightarrow> Some (NewPlayerImage (uiUserID ui) (uiSeatIndex ui) 25000))
      (replicate 4 None) (seats_of [a, b, c, d]) = map (\<lambda>(uid, ui). Some (NewPlayerImage (uiUserID ui) (uiSeatIndex ui) 25000)) [a, b, c, d]"
    by (simp add: seats_of_def numeral_eq_Suc split: prod.splits)
  have t: "map (map_option (\<lambda>u. NewPlayerTicker 30)) (seats_of [a, b, c, d]) = replicate 4 (Some (NewPlayerTicker 30))"
    by (simp add: seats_of_def numeral_eq_Suc)
  show ?thesis
    using assms by (simp add: new_game_def Clone_def NewRiichiMahjong4p_def InitializeEngine_def Let_def u m t seated_def)
qed

lemma seated_inv:
  assumes "length users = 4"
  shows "eg_inv 100000 (seated en repo worker roomID users)" "fresh (seated en repo worker roomID users)"
    "Worker (seated en repo worker roomID users) = Some worker" "gameEvents (seated en repo worker roomID users) = Some []"
    "\<not> closed (seated en repo worker roomID users)"
proof -
  obtain a b c d where u: "seat_users users = [a, b, c, d]"
    using seat_users_simps(1) [of users] unfolding assms list_of_length4 by blast
  have tm: "tm_ok (NewTurnManager (replicate 4 (Some (NewPlayerTicker 30))))"
    by (simp add: tm_ok_def NewTurnManager_def ticker_ok_new)
  note d = seated_def Clone_def NewRiichiMahjong4p_def
  show w: "Worker (seated en repo worker roomID users) = Some worker" "gameEvents (seated en repo worker roomID users) = Some []"
    "\<not> closed (seated en repo worker roomID users)"
    by (simp_all add: d)
  show f: "fresh (seated en repo worker roomID users)"
    by (auto simp: d fresh_def NewTurnManager_def NewPlayerImage_def split: prod.splits)
  have "players_ok (Players (seated en repo worker roomID users))"
    using u by (auto simp: d players_ok_def player_ok_def NewPlayerImage_def split: prod.splits)
  moreover have "bank (Players (seated en repo worker roomID users)) (egSituation (seated en repo worker roomID users)) = 100000"
    using u by (simp add: d bank_def points_of_def NewPlayerImage_def split: prod.splits)
  ultimately have "base_inv 100000 (seated en repo worker roomID users)"
    using w tm users_ok_seats [of users] assms
    by (auto simp: base_inv_def queue_ok_def) (auto simp: d situation_ok_def seat_ok_def zero_discard_def persister_ok_new)
  then show "eg_inv 100000 (seated en repo worker roomID users)" using f by (simp add: eg_inv_def)
qed

lemma new_game_wp:
  assumes "length users = 4"
  shows "wp (new_game en repo worker roomID users)
    (\<lambda>eg. eg_inv 100000 eg \<and> fresh eg \<and> roundStartTimer eg = TimerArmed \<and> gameEvents eg = Some [] \<and> \<not> closed eg)"
proof -
  note s = seated_inv [OF assms, of en repo worker roomID]
  have "wp (pushMatchSuccessMessage en (seat_users users) (seated en repo worker roomID users)) (quiet (seated en repo worker roomID users))"
    using s(3) by (simp add: pushMatchSuccessMessage_def dispatchPush_quiet)
  moreover have "eg_inv 100000 (e\<lparr>roundStartTimer := TimerArmed\<rparr>) \<and> fresh (e\<lparr>roundStartTimer := TimerArmed\<rparr>) \<and> gameEvents e = Some [] \<and> \<not> closed e"
    if q: "quiet (seated en repo worker roomID users) e" for e
  proof -
    have "base_inv 100000 e" "fresh e" using quiet_inv(1,4) [OF q] s(1,2) by (simp_all add: eg_inv_def)
    moreover have "gameEvents e = Some []" "\<not> closed e" using q s(4,5) by (auto simp: quiet_def)
    ultimately show ?thesis by (simp add: eg_inv_def base_inv_def fresh_def)
  qed
  ultimately show ?thesis unfolding new_game_eq [OF assms] by (auto simp: wp_iff)
qed

section \<open>Properties of whole games\<close>

lemma reachable_inv:
  assumes "length users = 4" "new_game en repo worker roomID users = Some eg0" "eg_step\<^sup>*\<^sup>* eg0 eg"
  shows "eg_inv 100000 eg"
  using game.reach_keeps [OF assms(3)] new_game_wp [OF assms(1), of en repo worker roomID] assms(2) by simp

text \<open>A concrete table for the witnesses: four users of one connector.\<close>

definition four_users :: "(string \<times> UserInfo) list" where
  "four_users = map (\<lambda>u. (u, NewUserInfo u ''connector'')) [''a'', ''b'', ''c'', ''d'']"

lemma four_users_length: "length four_users = 4"
  by (simp add: four_users_def)

text \<open>The first two steps of the concrete table: the start timer fires, the actor deals the round.\<close>

lemma first_round:
  "\<exists>eg0 eg1 eg2. new_game plain_env False ''game'' ''room'' four_users = Some eg0 \<and> eg_step\<^sup>*\<^sup>* eg0 eg1
     \<and> gameEvents eg1 = Some [StartRoundEvent] \<and> eg_step\<^sup>*\<^sup>* eg0 eg2 \<and> live 100000 eg2
     \<and> (\<exists>tm. egTurn eg2 = Some tm \<and> tmState tm \<noteq> TurnStateIdle)"
proof -
  obtain eg0 where eg0: "new_game plain_env False ''game'' ''room'' four_users = Some eg0" "eg_inv 100000 eg0"
      "roundStartTimer eg0 = TimerArmed" "gameEvents eg0 = Some []" "\<not> closed eg0"
    using new_game_wp [OF four_users_length, of plain_env False "''game''" "''room''"] by (auto simp: wp_iff)
  then obtain eg1 where eg1: "start_timer_fires eg0 = Some eg1" "gameEvents eg1 = Some [StartRoundEvent]"
    by (simp add: start_timer_fires_def NotifyEvent_def)
  have s1: "eg_step eg0 eg1" by (rule eg_step.start [OF eg1(1)])
  let ?e = "eg1\<lparr>gameEvents := Some []\<rparr>"
  have "base_inv 100000 ?e" using eg_inv_queue(2) [OF eg_step_inv [OF eg0(2) s1] eg1(2)] by (simp add: eg_inv_def)
  moreover then obtain s where "egSituation ?e = Some s" by (auto simp: base_inv_def)
  ultimately obtain eg2 where eg2: "actor_turn plain_env eg1 = Some eg2" "live 100000 eg2" "on_turn (DealerIndex s) eg2"
    using handleStartRoundEvent_wp [of 100000 ?e s plain_env] eg1(2) by (auto simp: wp_iff actor_turn_def)
  have "eg_step eg1 eg2" by (rule eg_step.actor [OF plain_env_ok eg2(1)])
  with s1 have "eg_step\<^sup>*\<^sup>* eg0 eg1" "eg_step\<^sup>*\<^sup>* eg0 eg2" by auto
  moreover have "\<exists>tm. egTurn eg2 = Some tm \<and> tmState tm \<noteq> TurnStateIdle" using eg2(3) by (auto simp: on_turn_def)
  ultimately show ?thesis using eg0(1) eg1(2) eg2(2) by blast
qed

text \<open>C1: Points are conserved over a whole game.  In every state that a game of four users can reach,
  whatever the clients send, however the events and the clock goroutines interleave and in whatever
  order Go visits its maps, the points of the four players and the riichi sticks on the table add up
  to the initial 100000.\<close>

theorem points_conserved:
  assumes "length users = 4" "new_game en repo worker roomID users = Some eg0" "eg_step\<^sup>*\<^sup>* eg0 eg"
  shows "\<exists>s. egSituation eg = Some s \<and> sum_list (map points_of (Players eg)) + 1000 * RiichiSticks s = 100000"
  using reachable_inv [OF assms] by (auto simp: eg_inv_def base_inv_def bank_def)

text \<open>C1 on the concrete table, after its first round has been dealt.\<close>

theorem points_conserved_witness:
  "\<exists>eg0 eg s. new_game plain_env False ''game'' ''room'' four_users = Some eg0 \<and> eg_step\<^sup>*\<^sup>* eg0 eg \<and> live 100000 eg
     \<and> egSituation eg = Some s \<and> sum_list (map points_of (Players eg)) + 1000 * RiichiSticks s = 100000"
  using first_round points_conserved [OF four_users_length, of plain_env False "''game''" "''room''"] by blast

text \<open>C2: Tiles are conserved.  In every reachable state in which a turn has begun, the tiles still in the
  deck (wall, dead wall and indicators) together with all hands, discard piles and melds are exactly
  the 136 tiles of the full set, each once.\<close>

theorem tiles_conserved:
  assumes "length users = 4" "new_game en repo worker roomID users = Some eg0" "eg_step\<^sup>*\<^sup>* eg0 eg"
    "egTurn eg = Some tm" "tmState tm \<noteq> TurnStateIdle"
  shows "\<exists>dm. egDeck eg = Some dm \<and> stock dm + table (Players eg) = mset (NewTileDeck UseRedFive)"
  using reachable_inv [OF assms(1-3)] assms(4,5) by (auto simp: eg_inv_def fresh_def dealt_def dealt_on_def full_deck_def)

text \<open>C2 on the concrete table, after its first round has been dealt.\<close>

theorem tiles_conserved_witness:
  "\<exists>eg0 eg tm dm. new_game plain_env False ''game'' ''room'' four_users = Some eg0 \<and> eg_step\<^sup>*\<^sup>* eg0 eg
     \<and> egTurn eg = Some tm \<and> tmState tm \<noteq> TurnStateIdle
     \<and> egDeck eg = Some dm \<and> stock dm + table (Players eg) = mset (NewTileDeck UseRedFive)"
  using first_round tiles_conserved [OF four_users_length, of plain_env False "''game''" "''room''"] by blast

text \<open>C3: The actor never panics.  In every reachable state, handling the oldest queued event returns: no
  handler indexes out of range, dereferences nil or fails to end.\<close>

theorem actor_never_panics:
  assumes "length users = 4" "new_game en repo worker roomID users = Some eg0" "eg_step\<^sup>*\<^sup>* eg0 eg" "env_ok en'"
  shows "\<exists>eg'. actor_turn en' eg = Some eg'"
  using actor.handle_total [OF assms(4) reachable_inv [OF assms(1-3)]] by blast

text \<open>C3 on the concrete table, with the start of the round in the queue.\<close>

theorem actor_never_panics_witness:
  "\<exists>eg0 eg eg'. new_game plain_env False ''game'' ''room'' four_users = Some eg0 \<and> eg_step\<^sup>*\<^sup>* eg0 eg
     \<and> gameEvents eg = Some [StartRoundEvent] \<and> actor_turn plain_env eg = Some eg'"
  using first_round actor_never_panics [OF four_users_length, of plain_env False "''game''" "''room''" _ _ plain_env] plain_env_ok by blast

text \<open>C7: Starting a round in a reachable state deals the wall and reaches the first discard without a panic,
  and the dealer then holds 15 tiles, one more than the rules allow: \<open>distributeCard\<close> already draws his
  fourteenth tile and \<open>DropTurn\<close> draws another.  The other players hold 13.\<close>

theorem start_round_hands:
  assumes "length users = 4" "new_game en repo worker roomID users = Some eg0" "eg_step\<^sup>*\<^sup>* eg0 eg"
    "egSituation eg = Some s"
  shows "\<exists>eg'. handleStartRoundEvent en' eg = Some eg' \<and> hand_sizes eg' = [13, 13, 13, 13][nat (DealerIndex s) := 15]
     \<and> on_turn (DealerIndex s) eg'"
proof -
  have "base_inv 100000 eg" using reachable_inv [OF assms(1-3)] by (simp add: eg_inv_def)
  from handleStartRoundEvent_wp [OF this assms(4), of en'] show ?thesis by (auto simp: wp_iff)
qed

text \<open>C7 on the concrete table, in its initial state.\<close>

theorem start_round_hands_witness:
  "\<exists>eg0 s eg'. new_game plain_env False ''game'' ''room'' four_users = Some eg0 \<and> egSituation eg0 = Some s
     \<and> handleStartRoundEvent plain_env eg0 = Some eg' \<and> hand_sizes eg' = [13, 13, 13, 13][nat (DealerIndex s) := 15]
     \<and> on_turn (DealerIndex s) eg'"
proof -
  obtain eg0 s where "new_game plain_env False ''game'' ''room'' four_users = Some eg0" "egSituation eg0 = Some s"
    using new_game_wp [OF four_users_length, of plain_env False "''game''" "''room''"] by (auto simp: wp_iff eg_inv_def base_inv_def)
  with start_round_hands [OF four_users_length _ rtranclp.rtrancl_refl, of plain_env False "''game''" "''room''"] show ?thesis by blast
qed

end
