(* ===== verification/GameSpec.thy ===== *)
theory GameSpec
  imports Reach
begin

text \<open>
  Behaviour of single events of the engine: who may act when, which reaction wins, what happens when a
  clock runs out, what the game record of a reachable game looks like, and the end of an engine.
\<close>

section \<open>Who may act\<close>

text \<open>Only the player on turn acts in his turn.  A discard, a concealed or an added kan is ignored
  completely, the state unchanged, unless the engine waits for a discard and the sender is seated
  where the turn is.\<close>

lemma out_of_turn_ignored:
  assumes "egTurn eg = Some tm" "\<not> (tmState tm = TurnStateWaitMain \<and> getSeatIndex eg u = Some (TurnPointer tm))"
  shows "processEvent en (DropTileEvent u t) eg = Some eg \<and> processEvent en (AnkanEvent u t) eg = Some eg
    \<and> processEvent en (KakanEvent u t) eg = Some eg"
  using assms by (auto simp: handleDropTileEvent_def handleAnkanEvent_def handleKakanEvent_def split: option.splits)

text \<open>A peng, gang or chi is ignored unless the engine waits for reactions and an operation of that kind
  was offered to the sender.\<close>

lemma unoffered_reaction_ignored:
  assumes "egTurn eg = Some tm"
    "\<not> (tmState tm = TurnStateWaitReactions \<and> (\<exists>i r op. getSeatIndex eg u = Some i \<and> map_of (Reactions eg) i = Some r
        \<and> op \<in> set (Operations r) \<and> opType op = ty))"
  shows "(ty = ''PENG'' \<longrightarrow> processEvent en (PengTileEvent u) eg = Some eg)
    \<and> (ty = ''GANG'' \<longrightarrow> processEvent en (GangEvent u) eg = Some eg) \<and> (ty = ''CHI'' \<longrightarrow> processEvent en (ChiEvent u) eg = Some eg)"
proof -
  have "handle_reaction en ty u eg = Some eg"
    using assms by (auto simp: handle_reaction_def find_Some_iff split: option.splits) (metis nth_mem)
  then show ?thesis by (auto simp: handlePengEvent_def handleGangEvent_def handleChiEvent_def)
qed

section \<open>Which reaction wins\<close>

definition chosen :: "string \<Rightarrow> engine \<Rightarrow> int \<Rightarrow> bool" where
  "chosen ty eg i \<longleftrightarrow> (\<exists>r. (i, r) \<in> set (Reactions eg) \<and> chose ty r)"

lemma find_choice_iff:
  assumes "set rs = set (Reactions eg)"
  shows "find_choice ty rs = None \<longleftrightarrow> (\<forall>i. \<not> chosen ty eg i)"
    "find_choice ty rs = Some a \<Longrightarrow> raType a = ty \<and> chosen ty eg (PlayerSeat a)"
proof -
  have "find_choice ty rs = None \<longleftrightarrow> find (\<lambda>(s, r). chose ty r) rs = None"
    by (auto simp: find_choice_def split: option.splits prod.splits)
  then show "find_choice ty rs = None \<longleftrightarrow> (\<forall>i. \<not> chosen ty eg i)" using assms by (auto simp: chosen_def find_None_iff)
  assume "find_choice ty rs = Some a"
  then obtain i r where f: "find (\<lambda>(s, r). chose ty r) rs = Some (i, r)" and a: "raType a = ty" "PlayerSeat a = i"
    by (auto simp: find_choice_def split: option.splits prod.splits)
  from f have "(i, r) \<in> set rs" "chose ty r" by (auto simp: find_Some_iff) (metis nth_mem)
  then show "raType a = ty \<and> chosen ty eg (PlayerSeat a)" using a assms by (auto simp: chosen_def)
qed

text \<open>C16: The reaction that is carried out has the highest priority: an open kan before a peng before a chi,
  whatever order Go visits the map of reactions in; nothing is carried out exactly when nobody chose
  any of them.\<close>

theorem selectBestReaction_spec:
  assumes "env_ok en"
  shows "case selectBestReaction en eg of
      None \<Rightarrow> \<forall>i. \<not> chosen ''GANG'' eg i \<and> \<not> chosen ''PENG'' eg i \<and> \<not> chosen ''CHI'' eg i
    | Some a \<Rightarrow> chosen (raType a) eg (PlayerSeat a)
        \<and> (raType a = ''GANG'' \<or> (\<forall>i. \<not> chosen ''GANG'' eg i) \<and> (raType a = ''PENG'' \<or> (\<forall>i. \<not> chosen ''PENG'' eg i) \<and> raType a = ''CHI''))"
proof -
  have s: "set (rangeReactions en n (Reactions eg)) = set (Reactions eg)" for n
    using assms by (metis env_ok_def mset_eq_setD)
  show ?thesis
    using find_choice_iff [OF s [of 3], of "''GANG''"] find_choice_iff [OF s [of 4], of "''PENG''"] find_choice_iff [OF s [of 5], of "''CHI''"]
    by (auto simp: selectBestReaction_def split: option.splits)
qed

text \<open>Seat 1 chose a peng and seat 2 an open kan.\<close>

definition contested :: engine where
  "contested = (seated plain_env False ''game'' ''room'' four_users)\<lparr>Reactions :=
     [(1, \<lparr>Operations = [], ChosenOp = Some \<lparr>opType = ''PENG'', opTiles = []\<rparr>, Responded = True\<rparr>),
      (2, \<lparr>Operations = [], ChosenOp = Some \<lparr>opType = ''GANG'', opTiles = []\<rparr>, Responded = True\<rparr>)]\<rparr>"

text \<open>C16 when one seat chose a peng and another an open kan: the kan wins.\<close>

theorem selectBestReaction_spec_witness:
  "\<exists>a. selectBestReaction plain_env contested = Some a \<and> raType a = ''GANG'' \<and> chosen ''GANG'' contested (PlayerSeat a)"
proof -
  have "chosen ''GANG'' contested 2" by (simp add: chosen_def contested_def chose_def)
  then show ?thesis using selectBestReaction_spec [OF plain_env_ok, of contested] by (auto split: option.splits)
qed

section \<open>Clocks that run out\<close>

lemma put_same_ticker: "GetPlayerTicker tm i = Some pt \<Longrightarrow> put_ticker i pt tm = tm"
  by (auto simp: GetPlayerTicker_def idx_Some_iff put_ticker_def bind_eq_Some_conv list_update_same_conv)

lemma stopped_clock:
  assumes "egTurn eg = Some tm" "GetPlayerTicker tm i = Some pt" "\<not> isRunning pt"
  shows "stop_clock i eg = Some (False, eg)"
  using assms by (simp add: stop_clock_def Stop_def put_same_ticker)

lemma GetPlayerTicker_put:
  "GetPlayerTicker tm i = Some pt \<Longrightarrow> GetPlayerTicker (put_ticker i pt' tm) i = Some pt'"
  "0 \<le> i \<Longrightarrow> 0 \<le> j \<Longrightarrow> i \<noteq> j \<Longrightarrow> GetPlayerTicker (put_ticker j pt' tm) i = GetPlayerTicker tm i"
  by (auto simp: GetPlayerTicker_def put_ticker_def idx_def bind_eq_Some_conv nth_list_update split: if_splits)

text \<open>A reaction timeout is lost.  The last section of an expired clock marks the clock as stopped before
  it queues the timeout; when the actor handles the timeout, stopping the clock reports failure and the
  automatic skip is not recorded: the state does not change.\<close>

lemma reaction_timeout_lost:
  assumes "clock_timeout i eg = Some eg'"
  shows "handleReactionTimeout en i eg' = Some eg'"
proof -
  obtain tm pt pt' where t: "egTurn eg = Some tm" "GetPlayerTicker tm i = Some pt" "timer_timeout pt = Some pt'"
      "eg' = NotifyEvent (TimeoutEvent i) (eg\<lparr>egTurn := Some (put_ticker i pt' tm)\<rparr>)"
    using assms by (auto simp: clock_timeout_def clock_step_def bind_eq_Some_conv)
  have "egTurn eg' = Some (put_ticker i pt' tm)" using t(4) by (auto simp: NotifyEvent_def split: option.splits)
  moreover have "\<not> isRunning pt'" using t(3) by (auto simp: timer_timeout_def split: if_splits)
  ultimately have "stop_clock i eg' = Some (False, eg')" using stopped_clock GetPlayerTicker_put(1) [OF t(2)] by blast
  then show ?thesis by (simp add: handleReactionTimeout_def recordPlayerResponse_def)
qed

text \<open>All clocks expired while the engine waits for reactions.\<close>

definition expired :: engine where
  "expired = (seated plain_env False ''game'' ''room'' four_users)\<lparr>egTurn := Some \<lparr>TurnPointer = 0, tmState = TurnStateWaitReactions,
     Tickers = replicate 4 (Some \<lparr>Available = 3, RoundStartTime = 0, tState = StateRunning, isRunning = True, cancelSet = True,
       tLoop = LoopExpired\<rparr>)\<rparr>\<rparr>"

text \<open>A seat whose clock has run out blocks the reaction phase.  While it has not answered, no answer of
  any seat, not even its own, completes the phase: the engine stays in the same phase, the seat stays
  unanswered and its clock stays stopped.\<close>

lemma timed_out_seat_blocks:
  assumes "egTurn eg = Some tm" "GetPlayerTicker tm i = Some pt" "\<not> isRunning pt"
    "map_of (Reactions eg) i = Some r" "\<not> Responded r" "0 \<le> j" "recordPlayerResponse en j op eg = Some eg'"
  shows "\<exists>tm'. egTurn eg' = Some tm' \<and> tmState tm' = tmState tm \<and> GetPlayerTicker tm' i = Some pt \<and> map_of (Reactions eg') i = Some r"
proof (cases "j = i")
  case True
  then show ?thesis using assms stopped_clock [OF assms(1-3)] by (simp add: recordPlayerResponse_def)
next
  case False
  have i: "0 \<le> i" using assms(2) by (auto simp: GetPlayerTicker_def idx_def bind_eq_Some_conv split: if_splits)
  obtain pj where "GetPlayerTicker tm j = Some pj"
    using assms(1,7) by (auto simp: recordPlayerResponse_def stop_clock_def bind_eq_Some_conv)
  moreover obtain ok pj' where "Stop pj = (ok, pj')" by force
  ultimately have pj: "GetPlayerTicker tm j = Some pj" "Stop pj = (ok, pj')" by simp_all
  let ?e = "eg\<lparr>egTurn := Some (put_ticker j pj' tm)\<rparr>"
  have st: "stop_clock j eg = Some (ok, ?e)" using assms(1) pj by (simp add: stop_clock_def)
  have tk: "GetPlayerTicker (put_ticker j pj' tm) i = Some pt" using GetPlayerTicker_put(2) [OF i assms(6)] False assms(2) by simp
  have "map_of (respond j op rs) i = map_of rs i" for rs using False by (induction rs) (auto simp: respond_def)
  then have keep: "map_of (respond j op (Reactions eg)) i = Some r" using assms(4) by simp
  then have "\<not> isReactionComplete (?e\<lparr>Reactions := respond j op (Reactions eg)\<rparr>)"
    using assms(5) by (auto simp: isReactionComplete_def list_all_iff dest: map_of_SomeD)
  then have "eg' = ?e \<or> eg' = ?e\<lparr>Reactions := respond j op (Reactions eg)\<rparr>"
    using assms(7) st by (auto simp: recordPlayerResponse_def Let_def split: if_splits option.splits)
  then show ?thesis using tk keep assms(4) by auto
qed

text \<open>Seat 1 ran out of time before it answered, seat 2 is still thinking.\<close>

definition blocked :: engine where
  "blocked = (seated plain_env False ''game'' ''room'' four_users)\<lparr>egTurn := Some \<lparr>TurnPointer = 0, tmState = TurnStateWaitReactions,
     Tickers = [Some (NewPlayerTicker 30), Some (NewPlayerTicker 0),
       Some \<lparr>Available = 3, RoundStartTime = 0, tState = StateRunning, isRunning = True, cancelSet = True, tLoop = LoopWaiting\<rparr>,
       Some (NewPlayerTicker 30)]\<rparr>,
     Reactions := [(1, \<lparr>Operations = [], ChosenOp = None, Responded = False\<rparr>), (2, \<lparr>Operations = [], ChosenOp = None, Responded = False\<rparr>)]\<rparr>"

text \<open>A discard timeout of a player who does not hold exactly 14 tiles destroys the room: nothing is
  discarded, the engine asks the node to destroy the room.  Every player who has called a meld is in
  this situation, and so is the dealer after the first deal.\<close>

lemma drop_timeout_needs_14_tiles:
  assumes "player_at eg i = Some (Some p)" "length (Tiles p) \<noteq> 14"
  shows "handleDropTimeout en i eg = Some (HappenDamageError eg)"
proof -
  have "put_player i p eg = eg" using assms(1) by (auto simp: put_player_def player_at_def idx_Some_iff list_update_same_conv)
  then show ?thesis using assms by (simp add: handleDropTimeout_def DiscardNewestOrLast_def)
qed

section \<open>Added kans, records and the end\<close>

text \<open>Taking back an added kan restores the player: the tile is in the hand again and the meld is the peng
  it was.\<close>

lemma kakan_revert:
  assumes "peng_index (tType t) (Melds p) = Some i"
  shows "revert_kakan i t (upgrade_peng i t p) = AddTile t p"
  by (rule revert_upgrade [OF assms])

lemma push_outbox: "Worker eg \<noteq> None \<Longrightarrow> wp (dispatchPush en us cr r d eg) (\<lambda>e. \<exists>ob. e = eg\<lparr>outbox := ob\<rparr>)"
  by (auto simp: dispatchPush_def Let_def intro: exI [of _ "outbox eg"])





text \<open>An engine is closed once: closing it again changes nothing, and a closed engine queues no events.\<close>

lemma Close_final:
  assumes "Close eg = Some eg'"
  shows "Close eg' = Some eg' \<and> (\<not> closeOnce eg \<longrightarrow> NotifyEvent ev eg' = eg' \<and> egTurn eg' = None \<and> egState eg' = GameFinished)"
proof (cases "closeOnce eg")
  case True
  then show ?thesis using assms by (simp add: Close_def)
next
  case False
  then obtain e where "stop_clocks (eg\<lparr>closeOnce := True, closed := True, Worker := None, egState := GameFinished,
      roundStartTimer := (if roundStartTimer eg = TimerArmed then TimerDone else roundStartTimer eg)\<rparr>) = Some e"
    "eg' = e\<lparr>egTurn := None, Reactions := [], UserMap := None, Players := replicate 4 None, egDeck := None\<rparr>"
    using assms by (auto simp: Close_def bind_eq_Some_conv)
  then have "closeOnce eg'" "closed eg'" "egTurn eg' = None" "egState eg' = GameFinished"
    by (auto simp: stop_clocks_def bind_eq_Some_conv split: option.splits)
  then show ?thesis using False by (simp add: Close_def NotifyEvent_def)
qed

end
