(* ===== verification/Discovery.thy ===== *)
theory Discovery
  imports Prelude Complex_Main
begin

text \<open>
  How the march node finds a game node: \<^verbatim>\<open>march/infrastructure/discovery/server.go\<close>, \<^verbatim>\<open>balancer.go\<close> and \<^verbatim>\<open>node_selector.go\<close>.

  \<^item> A load, a finite \<open>float64\<close>, is a rational number.
  \<^item> \<open>rand.Intn\<close> is the parameter \<open>intn\<close>; the JSON parser of server entries is the parameter \<open>parse\<close>.  The etcd
    client hands over lists of events.
  \<^item> The selector copies its list before it selects, so writes of the balancer to the copy are seen only
    in the server it returns.
\<close>

section \<open>Servers and their keys\<close>

record Server =
  Domain :: string
  Addr :: string
  Weight :: int
  Version :: string
  Ttl :: int
  Load :: rat
  serverID :: string

definition zero_server :: Server where
  "zero_server = \<lparr>Domain = [], Addr = [], Weight = 0, Version = [], Ttl = 0, Load = 0, serverID = []\<rparr>"

definition buildKey :: "Server \<Rightarrow> string" where
  "buildKey s = (if Version s = [] then Domain s @ ''/'' @ Addr s else Domain s @ ''/'' @ Version s @ ''/'' @ Addr s)"

definition ParseKey :: "string \<Rightarrow> Server option" where
  "ParseKey key = (case split_at (CHR ''/'') key of
     [d, a] \<Rightarrow> Some (zero_server\<lparr>Domain := d, Addr := a\<rparr>)
   | [d, v, a] \<Rightarrow> Some (zero_server\<lparr>Domain := d, Addr := a, Version := v\<rparr>)
   | _ \<Rightarrow> None)"

section \<open>Load balancing\<close>

datatype LoadBalanceStrategy = LeastLoad | WeightedRoundRobin | Random

fun least_loop :: "Server \<Rightarrow> Server list \<Rightarrow> Server" where
  "least_loop selected [] = selected"
| "least_loop selected (s # ss) = least_loop (if Load s < Load selected then s else selected) ss"

definition selectLeastLoad :: "Server list \<Rightarrow> Server option" where
  "selectLeastLoad servers = (case servers of [] \<Rightarrow> None | s # ss \<Rightarrow> Some (least_loop s ss))"

definition selectRandom :: "(int \<Rightarrow> int) \<Rightarrow> Server list \<Rightarrow> Server option" where
  "selectRandom intn servers = (if servers = [] then None else idx servers (intn (int (length servers))))"

definition at_least_one :: "Server \<Rightarrow> Server" where
  "at_least_one s = (if Weight s \<le> 0 then s\<lparr>Weight := 1\<rparr> else s)"

fun weight_loop :: "int \<Rightarrow> int \<Rightarrow> Server list \<Rightarrow> Server option" where
  "weight_loop randomVal currentWeight [] = None"
| "weight_loop randomVal currentWeight (s # ss) =
     (let s = at_least_one s; currentWeight = currentWeight + Weight s
      in if randomVal < currentWeight then Some s else weight_loop randomVal currentWeight ss)"

definition totalWeight :: "Server list \<Rightarrow> int" where
  "totalWeight servers = sum_list (map (\<lambda>s. Weight (at_least_one s)) servers)"

definition selectWeightedRoundRobin :: "(int \<Rightarrow> int) \<Rightarrow> Server list \<Rightarrow> Server option" where
  "selectWeightedRoundRobin intn servers =
     (if servers = [] then None
      else if totalWeight servers = 0 then selectRandom intn servers
      else case weight_loop (intn (totalWeight servers)) 0 servers of
             Some s \<Rightarrow> Some s
           | None \<Rightarrow> Some (at_least_one (hd servers)))"

definition SelectServer :: "(int \<Rightarrow> int) \<Rightarrow> Server list \<Rightarrow> LoadBalanceStrategy \<Rightarrow> Server option" where
  "SelectServer intn servers strategy =
     (case servers of
        [] \<Rightarrow> None
      | [s] \<Rightarrow> Some s
      | _ \<Rightarrow> (case strategy of
          LeastLoad \<Rightarrow> selectLeastLoad servers
        | WeightedRoundRobin \<Rightarrow> selectWeightedRoundRobin intn servers
        | Random \<Rightarrow> selectRandom intn servers))"

section \<open>The node selector\<close>

record NodeSelector =
  gameServers :: "Server list"
  nsStrategy :: LoadBalanceStrategy

datatype watch_event = EventPut string | EventDelete string

text \<open>The loop of a put: the first server with the address is replaced, or the new one appended.\<close>

fun put_server :: "Server \<Rightarrow> Server list \<Rightarrow> Server list" where
  "put_server server [] = [server]"
| "put_server server (s # ss) = (if Addr s = Addr server then server # ss else s # put_server server ss)"

text \<open>The loop of a delete: the first server with the address is overwritten by the last one, which is cut off.\<close>

fun find_server :: "string \<Rightarrow> Server list \<Rightarrow> nat option" where
  "find_server a [] = None"
| "find_server a (s # ss) = (if Addr s = a then Some 0 else map_option Suc (find_server a ss))"

definition delete_server :: "string \<Rightarrow> Server list \<Rightarrow> Server list" where
  "delete_server a ss = (case find_server a ss of None \<Rightarrow> ss | Some i \<Rightarrow> butlast (ss[i := last ss]))"

fun handleWatchEvent :: "(string \<Rightarrow> Server option) \<Rightarrow> watch_event \<Rightarrow> Server list \<Rightarrow> Server list" where
  "handleWatchEvent parse (EventPut value) ss = (case parse value of None \<Rightarrow> ss | Some server \<Rightarrow> put_server server ss)"
| "handleWatchEvent parse (EventDelete key) ss = (case ParseKey key of None \<Rightarrow> ss | Some server \<Rightarrow> delete_server (Addr server) ss)"

definition handleWatchEvents :: "(string \<Rightarrow> Server option) \<Rightarrow> watch_event list \<Rightarrow> NodeSelector \<Rightarrow> NodeSelector" where
  "handleWatchEvents parse events ns = ns\<lparr>gameServers := fold (handleWatchEvent parse) events (gameServers ns)\<rparr>"

definition GetGameNodes :: "NodeSelector \<Rightarrow> Server list" where
  "GetGameNodes ns = gameServers ns"

definition GetHealthyGameNodes :: "NodeSelector \<Rightarrow> Server list" where
  "GetHealthyGameNodes ns = filter (\<lambda>s. 0 < Load s) (gameServers ns)"

definition SelectGameNode :: "(int \<Rightarrow> int) \<Rightarrow> NodeSelector \<Rightarrow> Server option" where
  "SelectGameNode intn ns =
     (let healthyServers = filter (\<lambda>s. 0 < Load s) (gameServers ns)
      in if healthyServers = [] then None else SelectServer intn healthyServers (nsStrategy ns))"

definition UpdateStrategy :: "LoadBalanceStrategy \<Rightarrow> NodeSelector \<Rightarrow> NodeSelector" where
  "UpdateStrategy strategy ns = ns\<lparr>nsStrategy := strategy\<rparr>"

section \<open>Keys\<close>

text \<open>The key a server registers under parses back to its domain, version and address, provided none of
  them contains a slash.\<close>

lemma ParseKey_buildKey:
  assumes "CHR ''/'' \<notin> set (Domain s)" "CHR ''/'' \<notin> set (Version s)" "CHR ''/'' \<notin> set (Addr s)"
  shows "ParseKey (buildKey s) = Some (zero_server\<lparr>Domain := Domain s, Addr := Addr s, Version := Version s\<rparr>)"
  using assms by (auto simp: ParseKey_def buildKey_def split_at_word split_at_last zero_server_def)

section \<open>Selection\<close>

lemma least_loop_spec: "least_loop s ss \<in> set (s # ss) \<and> (\<forall>x \<in> set (s # ss). Load (least_loop s ss) \<le> Load x)"
proof (induction ss arbitrary: s)
  case (Cons t ss)
  show ?case using Cons [of "if Load t < Load s then t else s"] by (auto split: if_splits)
qed simp

text \<open>With the least-load strategy the selector returns a known server of positive load, and none of positive load
  has less; it fails exactly when every known load is zero or below.\<close>

lemma SelectGameNode_least:
  assumes "nsStrategy ns = LeastLoad"
  shows "case SelectGameNode intn ns of
     None \<Rightarrow> GetHealthyGameNodes ns = []
   | Some s \<Rightarrow> s \<in> set (GetGameNodes ns) \<and> 0 < Load s \<and> (\<forall>t \<in> set (GetGameNodes ns). 0 < Load t \<longrightarrow> Load s \<le> Load t)"
proof (cases "GetHealthyGameNodes ns")
  case Nil
  then show ?thesis by (simp add: SelectGameNode_def GetHealthyGameNodes_def)
next
  case (Cons s ss)
  have "SelectGameNode intn ns = Some (least_loop s ss)"
    using Cons assms by (cases ss) (simp_all add: SelectGameNode_def GetHealthyGameNodes_def SelectServer_def selectLeastLoad_def)
  moreover have "set (s # ss) = {t \<in> set (gameServers ns). 0 < Load t}" using Cons by (simp add: GetHealthyGameNodes_def flip: set_filter)
  ultimately show ?thesis using least_loop_spec [of s ss] by (auto simp: GetGameNodes_def)
qed

lemma weight_pos: "0 < Weight (at_least_one s)"
  by (simp add: at_least_one_def)

lemma totalWeight_nonneg: "0 \<le> totalWeight ss"
  unfolding totalWeight_def by (induction ss) (auto intro: add_nonneg_nonneg less_imp_le weight_pos)

lemma weight_loop_at:
  assumes "i < length ss" "c + totalWeight (take i ss) \<le> r" "r < c + totalWeight (take (Suc i) ss)"
  shows "weight_loop r c ss = Some (at_least_one (ss ! i))"
  using assms
proof (induction ss arbitrary: i c)
  case (Cons s ss)
  show ?case
  proof (cases i)
    case (Suc j)
    have "c + Weight (at_least_one s) \<le> r" using Cons.prems(2) totalWeight_nonneg [of "take j ss"] Suc by (simp add: totalWeight_def)
    then show ?thesis using Cons.IH [of j "c + Weight (at_least_one s)"] Cons.prems Suc by (simp add: totalWeight_def Let_def)
  qed (use Cons.prems in \<open>simp add: totalWeight_def Let_def\<close>)
qed simp

text \<open>Weighted selection is proportional.  The random number picks server \<open>i\<close> exactly on an interval as long as the
  weight of that server, weights below one counting as one.\<close>

lemma selectWeightedRoundRobin_spec:
  assumes "i < length ss" "totalWeight (take i ss) \<le> intn (totalWeight ss)" "intn (totalWeight ss) < totalWeight (take (Suc i) ss)"
  shows "selectWeightedRoundRobin intn ss = Some (at_least_one (ss ! i))
     \<and> totalWeight (take (Suc i) ss) - totalWeight (take i ss) = max 1 (Weight (ss ! i))"
proof -
  have "totalWeight ss = totalWeight (take (Suc i) ss) + totalWeight (drop (Suc i) ss)"
    unfolding totalWeight_def by (simp flip: sum_list_append map_append)
  then have "totalWeight ss \<noteq> 0" using assms(2,3) totalWeight_nonneg [of "take i ss"] totalWeight_nonneg [of "drop (Suc i) ss"] by linarith
  then show ?thesis using assms weight_loop_at [of i ss 0 "intn (totalWeight ss)"]
    by (auto simp: selectWeightedRoundRobin_def totalWeight_def take_Suc_conv_app_nth at_least_one_def)
qed

section \<open>The list of servers as a directory\<close>

text \<open>What the list stands for: the server known at each address.\<close>

definition directory :: "Server list \<Rightarrow> string \<rightharpoonup> Server" where
  "directory ss = map_of (map (\<lambda>s. (Addr s, s)) ss)"

fun apply_event :: "(string \<Rightarrow> Server option) \<Rightarrow> watch_event \<Rightarrow> (string \<rightharpoonup> Server) \<Rightarrow> (string \<rightharpoonup> Server)" where
  "apply_event parse (EventPut value) m = (case parse value of None \<Rightarrow> m | Some s \<Rightarrow> m(Addr s \<mapsto> s))"
| "apply_event parse (EventDelete key) m = (case ParseKey key of None \<Rightarrow> m | Some s \<Rightarrow> m(Addr s := None))"

lemma put_server_keys: "map Addr (put_server s ss) = (if Addr s \<in> Addr ` set ss then map Addr ss else map Addr ss @ [Addr s])"
  by (induction ss) auto

lemma directory_put: "distinct (map Addr ss) \<Longrightarrow> directory (put_server s ss) = (directory ss)(Addr s \<mapsto> s)"
  by (induction ss) (auto simp: directory_def)

lemma find_server_spec:
  "find_server a ss = Some i \<Longrightarrow> i < length ss \<and> Addr (ss ! i) = a" "find_server a ss = None \<longleftrightarrow> a \<notin> Addr ` set ss"
  by (induction ss arbitrary: i) (auto split: if_splits)

text \<open>Overwriting an element by the last one and cutting that off removes the element, up to order.\<close>

lemma swap_remove_mset: "i < length xs \<Longrightarrow> add_mset (xs ! i) (mset (butlast (xs[i := last xs]))) = mset xs"
proof (cases xs rule: rev_cases)
  case (snoc ys y)
  assume "i < length xs"
  then consider "i < length ys" | "i = length ys" using snoc by force
  then show ?thesis by cases (simp_all add: snoc list_update_append mset_update butlast_append nth_append)
qed simp

text \<open>For lists with one element per key, kept by any function \<open>f\<close>, this removes the key.\<close>

lemma by_key_iff: "distinct (map f xs) \<Longrightarrow> map_of (map (\<lambda>x. (f x, x)) xs) k = Some x \<longleftrightarrow> x \<in> set xs \<and> f x = k"
  by (subst map_of_eq_Some_iff) (auto simp: comp_def)

lemma map_eqI: "(\<And>k v. m k = Some v \<longleftrightarrow> n k = Some v) \<Longrightarrow> m = n"
  by (intro ext) (metis not_Some_eq)

lemma swap_remove_by_key:
  assumes "distinct (map f xs)" "i < length xs" "f (xs ! i) = k"
  defines "ys \<equiv> butlast (xs[i := last xs])"
  shows "distinct (map f ys) \<and> map_of (map (\<lambda>x. (f x, x)) ys) = (map_of (map (\<lambda>x. (f x, x)) xs))(k := None)"
proof -
  have m: "mset xs = add_mset (xs ! i) (mset ys)" using swap_remove_mset [OF assms(2)] by (simp add: ys_def)
  then have "mset (map f xs) = mset (k # map f ys)" using assms(3) by simp
  then have "distinct (k # map f ys)" using assms(1) mset_eq_imp_distinct_iff by blast
  then have d: "distinct (map f ys)" "k \<notin> f ` set ys" by simp_all
  have other: "f x \<noteq> k" if "x \<in> set ys" for x using d(2) that by force
  have "set xs = insert (xs ! i) (set ys)" using arg_cong [OF m, of set_mset] by simp
  then have "map_of (map (\<lambda>x. (f x, x)) ys) b = Some x \<longleftrightarrow> ((map_of (map (\<lambda>x. (f x, x)) xs))(k := None)) b = Some x" for b x
    using other assms(3) by (auto simp: by_key_iff [OF assms(1)] by_key_iff [OF d(1)])
  then have "map_of (map (\<lambda>x. (f x, x)) ys) = (map_of (map (\<lambda>x. (f x, x)) xs))(k := None)" by (rule map_eqI)
  then show ?thesis using d(1) by simp
qed

lemma absent_key: "k \<notin> f ` set xs \<Longrightarrow> (map_of (map (\<lambda>x. (f x, x)) xs))(k := None) = map_of (map (\<lambda>x. (f x, x)) xs)"
  by (simp add: fun_upd_idem map_of_eq_None_iff image_image)

lemma delete_server_spec:
  assumes "distinct (map Addr ss)"
  shows "distinct (map Addr (delete_server a ss)) \<and> directory (delete_server a ss) = (directory ss)(a := None)"
proof (cases "find_server a ss")
  case None
  then show ?thesis using find_server_spec(2) [of a ss] assms absent_key [of a Addr ss] by (simp add: delete_server_def directory_def)
next
  case (Some i)
  then show ?thesis using find_server_spec(1) [OF Some] swap_remove_by_key [OF assms, of i a] by (simp add: delete_server_def directory_def)
qed

lemma handleWatchEvent_spec:
  assumes "distinct (map Addr ss)"
  shows "distinct (map Addr (handleWatchEvent parse ev ss)) \<and> directory (handleWatchEvent parse ev ss) = apply_event parse ev (directory ss)"
  using assms delete_server_spec [OF assms] put_server_keys directory_put [OF assms]
  by (cases ev) (auto split: option.splits)

lemma fold_watch_directory:
  assumes "distinct (map Addr ss)"
  shows "directory (fold (handleWatchEvent parse) events ss) = fold (apply_event parse) events (directory ss)
      \<and> distinct (map Addr (fold (handleWatchEvent parse) events ss))"
  using assms by (induction events arbitrary: ss) (auto simp: handleWatchEvent_spec)

text \<open>C25: the selector's list of servers, updated in place with overwriting and cutting off the last, is a faithful copy of
  the registry: after any events it stands for the directory with the same events applied, one server per address.\<close>

theorem handleWatchEvents_refines:
  assumes "distinct (map Addr (GetGameNodes ns))"
  shows "directory (GetGameNodes (handleWatchEvents parse events ns)) = fold (apply_event parse) events (directory (GetGameNodes ns))
     \<and> distinct (map Addr (GetGameNodes (handleWatchEvents parse events ns)))"
  using fold_watch_directory [OF assms] by (simp add: GetGameNodes_def handleWatchEvents_def)

text \<open>C25 on the removal of the first of two servers.\<close>

theorem handleWatchEvents_refines_witness:
  "directory (GetGameNodes (handleWatchEvents (\<lambda>v. None) [EventDelete ''game/a'']
     \<lparr>gameServers = [zero_server\<lparr>Addr := ''a''\<rparr>, zero_server\<lparr>Addr := ''b''\<rparr>], nsStrategy = LeastLoad\<rparr>)) ''a'' = None"
  using handleWatchEvents_refines [of "\<lparr>gameServers = [zero_server\<lparr>Addr := ''a''\<rparr>, zero_server\<lparr>Addr := ''b''\<rparr>], nsStrategy = LeastLoad\<rparr>" "\<lambda>v. None" "[EventDelete ''game/a'']"]
  by (simp add: GetGameNodes_def ParseKey_def zero_server_def)

end
