(* ===== verification/Match.thy ===== *)
theory Match
  imports Discovery "HOL-Library.AList"
begin

text \<open>
  Matchmaking on the march node: \<^verbatim>\<open>march/infrastructure/realtime/march_queue.go\<close>, \<^verbatim>\<open>march/runtime/match_pool.go\<close>,
  \<^verbatim>\<open>match_strategy.go\<close>, \<^verbatim>\<open>worker.go\<close>, \<^verbatim>\<open>march/runtime/application/service/impl/match_service_impl.go\<close> and
  \<^verbatim>\<open>march/domain/vo/ranking.go\<close>.

  \<^item> Redis is a parameter: the record \<open>Redis\<close> of the commands used, on a state of any type.  A Lua script runs
    atomically and is one function.  Every repository operation also takes whether Redis can be reached.
  \<^item> The scores are Unix times, whole numbers that a \<open>float64\<close> holds exactly.
  \<^item> The user store, the connector routes and the RPC to the game node are parameters too.
\<close>

section \<open>Redis\<close>

record 'r Redis =
  HGET :: "string \<Rightarrow> string \<Rightarrow> 'r \<Rightarrow> string option"
  HSET :: "string \<Rightarrow> string \<Rightarrow> string \<Rightarrow> 'r \<Rightarrow> 'r"
  HDEL :: "string \<Rightarrow> string \<Rightarrow> 'r \<Rightarrow> 'r"
  ZADD :: "string \<Rightarrow> int \<Rightarrow> string \<Rightarrow> 'r \<Rightarrow> 'r"
  ZREM :: "string \<Rightarrow> string \<Rightarrow> 'r \<Rightarrow> 'r"
  ZSCORE :: "string \<Rightarrow> string \<Rightarrow> 'r \<Rightarrow> int option"
  ZCARD :: "string \<Rightarrow> 'r \<Rightarrow> int"
  ZRANGE :: "string \<Rightarrow> int \<Rightarrow> int \<Rightarrow> 'r \<Rightarrow> string list"

section \<open>The queue\<close>

datatype march_error =
    EmptyArgument | RedisDown | InOtherPool string | ErrPlayerAlreadyInQueue | UnknownResult int
  | UserLookupFailed | NoGameNode | UnsupportedStrategy string | NoGameClient | RpcFailed | RoomRejected

definition queueKeyPrefix :: string where "queueKeyPrefix = ''march:queue''"
definition userPoolKey :: string where "userPoolKey = ''march:user:pool''"

definition getQueueKey :: "string \<Rightarrow> string" where
  "getQueueKey poolID = queueKeyPrefix @ '':'' @ poolID"

definition joinQueueScript :: "'r Redis \<Rightarrow> string \<Rightarrow> string \<Rightarrow> int \<Rightarrow> string \<Rightarrow> 'r \<Rightarrow> int \<times> 'r" where
  "joinQueueScript R queueKey userID score poolID s =
     (let existingPool = HGET R userPoolKey userID s;
          queued = existingPool \<noteq> None \<and> existingPool \<noteq> Some []
      in if queued \<and> existingPool \<noteq> Some poolID then (- 1, s)
         else if queued \<and> ZSCORE R queueKey userID s \<noteq> None then (- 2, s)
         else (1, HSET R userPoolKey userID poolID (ZADD R queueKey score userID s)))"

definition popPlayersScript :: "'r Redis \<Rightarrow> string \<Rightarrow> int \<Rightarrow> 'r \<Rightarrow> string list \<times> 'r" where
  "popPlayersScript R queueKey n s =
     (if ZCARD R queueKey s < n then ([], s)
      else let players = ZRANGE R queueKey 0 (n - 1) s
           in if players = [] then ([], s)
              else (players, fold (\<lambda>userID s. HDEL R userPoolKey userID (ZREM R queueKey userID s)) players s))"

definition removeFromQueueScript :: "'r Redis \<Rightarrow> string \<Rightarrow> 'r \<Rightarrow> int \<times> 'r" where
  "removeFromQueueScript R userID s = (case HGET R userPoolKey userID s of
     None \<Rightarrow> (0, s)
   | Some poolID \<Rightarrow> if poolID = [] then (0, s)
       else (1, HDEL R userPoolKey userID (ZREM R (''march:queue:'' @ poolID) userID s)))"

definition GetUserPool :: "bool \<Rightarrow> 'r Redis \<Rightarrow> string \<Rightarrow> 'r \<Rightarrow> march_error + string" where
  "GetUserPool up R userID s =
     (if userID = [] then Inl EmptyArgument
      else if \<not> up then Inl RedisDown
      else Inr (case HGET R userPoolKey userID s of None \<Rightarrow> [] | Some poolID \<Rightarrow> poolID))"

definition JoinQueue :: "bool \<Rightarrow> 'r Redis \<Rightarrow> string \<Rightarrow> string \<Rightarrow> int \<Rightarrow> 'r \<Rightarrow> march_error option \<times> 'r" where
  "JoinQueue up R poolID userID score s =
     (if poolID = [] \<or> userID = [] then (Some EmptyArgument, s)
      else if \<not> up then (Some RedisDown, s)
      else let (result, s) = joinQueueScript R (getQueueKey poolID) userID score poolID s
           in if result = 1 then (None, s)
              else if result = - 1
              then (Some (InOtherPool (case GetUserPool up R userID s of Inl e \<Rightarrow> [] | Inr p \<Rightarrow> p)), s)
              else if result = - 2 then (Some ErrPlayerAlreadyInQueue, s)
              else (Some (UnknownResult result), s))"

definition RemoveFromQueue :: "bool \<Rightarrow> 'r Redis \<Rightarrow> string \<Rightarrow> 'r \<Rightarrow> march_error option \<times> 'r" where
  "RemoveFromQueue up R userID s =
     (if userID = [] then (Some EmptyArgument, s)
      else if \<not> up then (Some RedisDown, s)
      else let (result, s) = removeFromQueueScript R userID s
           in if result = 1 \<or> result = 0 then (None, s) else (Some (UnknownResult result), s))"

definition IsInQueue :: "bool \<Rightarrow> 'r Redis \<Rightarrow> string \<Rightarrow> 'r \<Rightarrow> march_error + bool \<times> string" where
  "IsInQueue up R userID s =
     (if userID = [] then Inl EmptyArgument
      else if \<not> up then Inl RedisDown
      else case HGET R userPoolKey userID s of
             None \<Rightarrow> Inr (False, [])
           | Some poolID \<Rightarrow> if poolID = [] then Inr (False, [])
               else (case ZSCORE R (getQueueKey poolID) userID s of
                       None \<Rightarrow> Inr (False, poolID)
                     | Some score \<Rightarrow> Inr (0 < score, poolID)))"

definition PopPlayers :: "bool \<Rightarrow> 'r Redis \<Rightarrow> string \<Rightarrow> int \<Rightarrow> 'r \<Rightarrow> (march_error + string list) \<times> 'r" where
  "PopPlayers up R poolID n s =
     (if n \<le> 0 then (Inr [], s)
      else if poolID = [] then (Inl EmptyArgument, s)
      else if \<not> up then (Inl RedisDown, s)
      else let (userIDs, s) = popPlayersScript R (getQueueKey poolID) n s in (Inr userIDs, s))"

definition GetQueueSize :: "bool \<Rightarrow> 'r Redis \<Rightarrow> string \<Rightarrow> 'r \<Rightarrow> march_error + int" where
  "GetQueueSize up R poolID s =
     (if poolID = [] then Inl EmptyArgument else if \<not> up then Inl RedisDown else Inr (ZCARD R (getQueueKey poolID) s))"

section \<open>Rankings\<close>

datatype RankingType = RankingNovice | RankingGuard | RankingHero | RankingSaint | RankingSky

definition GetRankingByScore :: "int \<Rightarrow> RankingType" where
  "GetRankingByScore score =
     (if score \<le> 299 then RankingNovice
      else if 300 \<le> score \<and> score \<le> 599 then RankingGuard
      else if 600 \<le> score \<and> score \<le> 1199 then RankingHero
      else if 1200 \<le> score \<and> score \<le> 1799 then RankingSaint
      else RankingSky)"

fun RankingString :: "RankingType \<Rightarrow> string" where
  "RankingString RankingNovice = ''novice''"
| "RankingString RankingGuard = ''guard''"
| "RankingString RankingHero = ''hero''"
| "RankingString RankingSaint = ''saint''"
| "RankingString RankingSky = ''sky''"

definition GetAllRankings :: "RankingType list" where
  "GetAllRankings = [RankingNovice, RankingGuard, RankingHero, RankingSaint, RankingSky]"

section \<open>The service\<close>

definition rank4Prefix :: string where "rank4Prefix = ''classic:rank4''"

text \<open>\<open>findByID\<close> is the user store: the ranking points of a user.\<close>

definition resolvePoolID :: "(string \<Rightarrow> int option) \<Rightarrow> string \<Rightarrow> string \<Rightarrow> march_error + string" where
  "resolvePoolID findByID poolID userID =
     (if \<not> HasPrefix poolID rank4Prefix then Inr poolID
      else case findByID userID of
             None \<Rightarrow> Inl UserLookupFailed
           | Some ranking \<Rightarrow> Inr (rank4Prefix @ '':'' @ RankingString (GetRankingByScore ranking)))"

definition service_JoinQueue :: "bool \<Rightarrow> 'r Redis \<Rightarrow> (string \<Rightarrow> int option) \<Rightarrow> int \<Rightarrow> string \<Rightarrow> string \<Rightarrow> 'r \<Rightarrow> march_error option \<times> 'r" where
  "service_JoinQueue up R findByID time poolID userID s = (case IsInQueue up R userID s of
     Inl err \<Rightarrow> (Some err, s)
   | Inr (inQueue, existPool) \<Rightarrow>
       if inQueue then (Some ErrPlayerAlreadyInQueue, s)
       else (case resolvePoolID findByID poolID userID of
           Inl err \<Rightarrow> (Some err, s)
         | Inr finalPoolID \<Rightarrow> JoinQueue up R finalPoolID userID time s))"

definition LeaveQueue :: "bool \<Rightarrow> 'r Redis \<Rightarrow> string \<Rightarrow> 'r \<Rightarrow> march_error option \<times> 'r" where
  "LeaveQueue up R userID s = RemoveFromQueue up R userID s"

section \<open>Match pools\<close>

definition contains :: "string \<Rightarrow> string \<Rightarrow> bool" where
  "contains s sub \<longleftrightarrow> list_ex (\<lambda>i. HasPrefix (drop i s) sub) [0..<length s + 1]"

definition inferRequiredPlayers :: "string \<Rightarrow> int" where
  "inferRequiredPlayers poolID =
     (if contains poolID ''rank4'' \<or> contains poolID ''casual4'' then 4
      else if contains poolID ''casual3'' then 3
      else 4)"

record MatchPool =
  poolID :: string
  batchSize :: int
  requiredPlayers :: int

definition createStrategy :: "string \<Rightarrow> march_error option" where
  "createStrategy strategy = (if strategy = ''classic:poll'' then None else Some (UnsupportedStrategy strategy))"

definition NewMatchPool :: "string \<Rightarrow> string \<Rightarrow> int \<Rightarrow> march_error + MatchPool" where
  "NewMatchPool cfgPoolID cfgStrategy cfgBatchSize = (case createStrategy cfgStrategy of
     Some err \<Rightarrow> Inl err
   | None \<Rightarrow> Inr \<lparr>poolID = cfgPoolID, batchSize = cfgBatchSize, requiredPlayers = inferRequiredPlayers cfgPoolID\<rparr>)"

record MatchResult =
  mrPoolID :: string
  mrPlayers :: "(string \<times> string) list"
  GameNodeID :: string
  GameNodeAddr :: string

text \<open>\<open>PollStrategy.Match\<close>, the only strategy.\<close>

definition poll_Match :: "bool \<Rightarrow> 'r Redis \<Rightarrow> string \<Rightarrow> int \<Rightarrow> 'r \<Rightarrow> (march_error + string list) \<times> 'r" where
  "poll_Match up R pool required s = (if required \<le> 0 then (Inr [], s) else PopPlayers up R pool required s)"

text \<open>The connector of every player, in the order of the queue; none if one of them has no connector.\<close>

fun route_players :: "(string \<Rightarrow> string option) \<Rightarrow> string list \<Rightarrow> (string \<times> string) list \<Rightarrow> (string \<times> string) list option" where
  "route_players router [] players = Some players"
| "route_players router (userID # userIDs) players = (case router userID of
     None \<Rightarrow> None
   | Some connectorRoute \<Rightarrow> if connectorRoute = [] then None
       else route_players router userIDs (AList.update userID connectorRoute players))"

text \<open>The connector route of a user as \<^verbatim>\<open>march/infrastructure/realtime/user_router.go\<close> looks it up.\<close>

definition march_GetConnectorRouter :: "(string \<rightharpoonup> string) \<Rightarrow> string \<Rightarrow> string option" where
  "march_GetConnectorRouter store userID = store (''connector:router'' @ '':'' @ userID)"

text \<open>What one attempt takes from outside: whether Redis answers, the connector routes, the game nodes and the random number.\<close>

record match_env =
  meUp :: bool
  meRouter :: "string \<Rightarrow> string option"
  meNodes :: NodeSelector
  meIntn :: "int \<Rightarrow> int"

definition tryMatch :: "match_env \<Rightarrow> 'r Redis \<Rightarrow> MatchPool \<Rightarrow> 'r \<Rightarrow> (march_error + MatchResult option) \<times> 'r" where
  "tryMatch me R p s = (case poll_Match (meUp me) R (poolID p) (requiredPlayers p) s of
     (Inl err, s) \<Rightarrow> (Inl err, s)
   | (Inr playerIDs, s) \<Rightarrow>
       if int (length playerIDs) < requiredPlayers p then (Inr None, s)
       else (case route_players (meRouter me) playerIDs [] of
           None \<Rightarrow> (Inr None, s)
         | Some players \<Rightarrow> (case SelectGameNode (meIntn me) (meNodes me) of
             None \<Rightarrow> (Inl NoGameNode, s)
           | Some gameNode \<Rightarrow> (Inr (Some \<lparr>mrPoolID = poolID p, mrPlayers = players,
                 GameNodeID = serverID gameNode, GameNodeAddr = Addr gameNode\<rparr>), s))))"

text \<open>\<open>doBatchMatch\<close> from an attempt on: \<open>mes\<close> holds the environments of the attempts left, at first \<open>batchSize\<close> of them, and \<open>ch\<close> the results waiting
  in the channel of capacity 1024.  \<open>stopped\<close> says that the stop channel is closed; Go picks between
  ready cases by \<open>pick\<close>.  A result that finds the channel full is dropped.\<close>

fun doBatchMatch :: "bool \<Rightarrow> (MatchResult \<Rightarrow> bool) \<Rightarrow> 'r Redis \<Rightarrow> MatchPool \<Rightarrow> match_env list \<Rightarrow> 'r \<Rightarrow> MatchResult list \<Rightarrow> 'r \<times> MatchResult list" where
  "doBatchMatch stopped pick R p [] s ch = (s, ch)"
| "doBatchMatch stopped pick R p (me # mes) s ch = (case tryMatch me R p s of
     (Inl err, s) \<Rightarrow> doBatchMatch stopped pick R p mes s ch
   | (Inr None, s) \<Rightarrow> (s, ch)
   | (Inr (Some result), s) \<Rightarrow>
       if stopped \<and> (length ch = 1024 \<or> pick result) then (s, ch)
       else if length ch < 1024 then doBatchMatch stopped pick R p mes s (ch @ [result])
       else doBatchMatch stopped pick R p mes s ch)"

section \<open>The worker\<close>

definition inferEngineType :: "string \<Rightarrow> int" where
  "inferEngineType pool = (if contains pool ''casual3'' then 1 else 0)"

text \<open>\<open>getClient\<close> says whether a client for the address can be had; \<open>rpc\<close> is the call of the game node, with its
  new state: the success flag of the response, or none when the call fails.\<close>

definition callGameCreateRoom ::
  "(string \<Rightarrow> bool) \<Rightarrow> (string \<Rightarrow> (string \<times> string) list \<Rightarrow> int \<Rightarrow> 'g \<Rightarrow> bool option \<times> 'g) \<Rightarrow> MatchResult \<Rightarrow> 'g \<Rightarrow> march_error option \<times> 'g" where
  "callGameCreateRoom getClient rpc result g =
     (let engineType = inferEngineType (mrPoolID result)
      in if \<not> getClient (GameNodeAddr result) then (Some NoGameClient, g)
         else case rpc (GameNodeAddr result) (mrPlayers result) engineType g of
                (None, g) \<Rightarrow> (Some RpcFailed, g)
              | (Some success, g) \<Rightarrow> if \<not> success then (Some RoomRejected, g) else (None, g))"

definition handleMatchSuccess ::
  "(string \<Rightarrow> bool) \<Rightarrow> (string \<Rightarrow> (string \<times> string) list \<Rightarrow> int \<Rightarrow> 'g \<Rightarrow> bool option \<times> 'g) \<Rightarrow> MatchResult \<Rightarrow> 'g \<Rightarrow> march_error option \<times> 'g" where
  "handleMatchSuccess getClient rpc result g = callGameCreateRoom getClient rpc result g"

text \<open>One round of \<open>processMatchResults\<close>; an error is logged.\<close>

definition processMatchResult ::
  "(string \<Rightarrow> bool) \<Rightarrow> (string \<Rightarrow> (string \<times> string) list \<Rightarrow> int \<Rightarrow> 'g \<Rightarrow> bool option \<times> 'g) \<Rightarrow> MatchResult list \<times> 'g \<Rightarrow> MatchResult list \<times> 'g" where
  "processMatchResult getClient rpc st = (case st of
     ([], g) \<Rightarrow> ([], g)
   | (result # ch, g) \<Rightarrow> (ch, snd (handleMatchSuccess getClient rpc result g)))"

end
