(* ===== verification/Rooms.thy ===== *)
theory Rooms
  imports Reach "HOL-Library.AList"
begin

text \<open>
  The rooms of a game node and the messages routed to them: \<^verbatim>\<open>game/runtime/room.go\<close>, \<^verbatim>\<open>room_manager.go\<close>,
  \<^verbatim>\<open>worker.go\<close>, \<^verbatim>\<open>engine_handler.go\<close> and \<^verbatim>\<open>game/runtime/application/service/impl/game_service_impl.go\<close>.

  \<^item> The Go interface \<open>engines.Engine\<close> is the record \<open>Engine_if\<close> of its methods; the rooms are generic in it.
    \<open>riichi\<close> is the method table of the only engine of the repository.
  \<^item> A Go map that is ranged over is an association list with distinct keys.  Room and engine share
    one user map: \<open>engShare\<close> is what the engine sees of it after the room wrote to it.
  \<^item> Methods that hold the manager's lock from start to end are one step.
\<close>

section \<open>The engine interface\<close>

record 'e Engine_if =
  engInitialize :: "string \<Rightarrow> (string \<times> UserInfo) list \<Rightarrow> 'e \<Rightarrow> (string + 'e \<times> (string \<times> UserInfo) list) option"
  engNotify :: "GameEvent \<Rightarrow> 'e \<Rightarrow> 'e"
  engClone :: "'e \<Rightarrow> 'e option option"
  engClose :: "'e \<Rightarrow> 'e option"
  engShare :: "(string \<times> UserInfo) list \<Rightarrow> 'e \<Rightarrow> 'e"

definition RIICHI_MAHJONG_4P_ENGINE :: int where [simp]: "RIICHI_MAHJONG_4P_ENGINE = 0"

definition riichi :: "env \<Rightarrow> bool \<Rightarrow> engine Engine_if" where
  "riichi en repo = \<lparr>
     engInitialize = (\<lambda>roomID users eg. map_option (\<lambda>eg. Inr (eg, seat_users users)) (InitializeEngine en repo roomID users eg)),
     engNotify = NotifyEvent,
     engClone = (\<lambda>eg. map_option Some (Clone eg)),
     engClose = Close,
     engShare = (\<lambda>users eg. eg\<lparr>UserMap := map_option (\<lambda>m. map_of users) (UserMap eg)\<rparr>)\<rparr>"

section \<open>Rooms\<close>

record 'e Room =
  roomKey :: string
  Users :: "(string \<times> UserInfo) list"
  AllowWatch :: bool
  roomEngine :: 'e
  CreatedAt :: int

datatype room_error =
    BadPlayers | UnsupportedEngine int | CloneFailed int | InitFailed string | NilEngine
  | NoRoom string | NotInRoom string string | NotInAnyRoom string

definition hex_digit :: "nat \<Rightarrow> char" where
  "hex_digit n = ''0123456789abcdef'' ! n"

definition EncodeToString :: "nat list \<Rightarrow> string" where
  "EncodeToString bs = concat (map (\<lambda>b. [hex_digit (b div 16), hex_digit (b mod 16)]) bs)"

text \<open>From the Unix time and four random bytes.\<close>

definition GenerateRoomID :: "nat \<Rightarrow> nat list \<Rightarrow> string" where
  "GenerateRoomID timestamp randomBytes = ''room_'' @ decimal timestamp @ ''_'' @ EncodeToString randomBytes"

definition RoomClose :: "'e Engine_if \<Rightarrow> 'e Room \<Rightarrow> 'e Room option" where
  "RoomClose ops r = map_option (\<lambda>e. r\<lparr>roomEngine := e\<rparr>) (engClose ops (roomEngine r))"

definition NewRoom :: "string \<Rightarrow> int \<Rightarrow> 'e option \<Rightarrow> (string \<times> string) list \<Rightarrow> room_error + 'e Room" where
  "NewRoom roomID time engine users = (case engine of
     None \<Rightarrow> Inl NilEngine
   | Some e \<Rightarrow> Inr \<lparr>roomKey = roomID, Users = map (\<lambda>(k, v). (k, NewUserInfo k v)) users, AllowWatch = False,
                     roomEngine = e, CreatedAt = time\<rparr>)"

definition set_users :: "'e Engine_if \<Rightarrow> (string \<times> UserInfo) list \<Rightarrow> 'e Room \<Rightarrow> 'e Room" where
  "set_users ops us r = r\<lparr>Users := us, roomEngine := engShare ops us (roomEngine r)\<rparr>"

definition RemovePlayer :: "'e Engine_if \<Rightarrow> string \<Rightarrow> 'e Room \<Rightarrow> room_error option \<times> 'e Room" where
  "RemovePlayer ops userID r =
     (if map_of (Users r) userID = None then (Some (NotInRoom userID (roomKey r)), r)
      else (None, set_users ops (AList.delete userID (Users r)) r))"

definition GetPlayer :: "'e Room \<Rightarrow> string \<Rightarrow> UserInfo option" where
  "GetPlayer r userID = map_of (Users r) userID"

definition GetPlayerCount :: "'e Room \<Rightarrow> int" where
  "GetPlayerCount r = int (length (Users r))"

definition GetAllPlayers :: "'e Room \<Rightarrow> UserInfo list" where
  "GetAllPlayers r = map snd (Users r)"

section \<open>The room manager\<close>

record 'e RoomManager =
  rooms :: "(string \<times> 'e Room) list"
  playerRoom :: "string \<rightharpoonup> string"
  enginePrototypes :: "int \<rightharpoonup> 'e"

definition NewRoomManager :: "'e RoomManager" where
  "NewRoomManager = \<lparr>rooms = [], playerRoom = Map.empty, enginePrototypes = Map.empty\<rparr>"

definition SetEnginePrototype :: "int \<Rightarrow> 'e option \<Rightarrow> 'e RoomManager \<Rightarrow> room_error option \<times> 'e RoomManager" where
  "SetEnginePrototype engineType engine rm = (case engine of
     None \<Rightarrow> (Some NilEngine, rm)
   | Some e \<Rightarrow> (None, rm\<lparr>enginePrototypes := (enginePrototypes rm)(engineType \<mapsto> e)\<rparr>))"

definition unroute :: "(string \<times> 'v) list \<Rightarrow> (string \<rightharpoonup> string) \<Rightarrow> (string \<rightharpoonup> string)" where
  "unroute us pr = fold (\<lambda>(u, ui) pr. pr(u := None)) us pr"

definition cleanupRoom :: "'e Engine_if \<Rightarrow> string \<Rightarrow> 'e RoomManager \<Rightarrow> 'e RoomManager option" where
  "cleanupRoom ops roomID rm = (case map_of (rooms rm) roomID of
     None \<Rightarrow> Some rm
   | Some room \<Rightarrow> do {
       closed \<leftarrow> RoomClose ops room;
       Some (rm\<lparr>playerRoom := unroute (Users room) (playerRoom rm), rooms := AList.delete roomID (rooms rm)\<rparr>)
     })"

text \<open>\<open>roomID\<close> and \<open>time\<close> are what \<open>NewRoom\<close> takes from \<open>GenerateRoomID\<close> and the clock; \<open>users\<close> is the map in the order
  \<open>InitializeEngine\<close> visits it.  Users that are in another room are only logged.\<close>

definition CreateRoom ::
  "'e Engine_if \<Rightarrow> string \<Rightarrow> int \<Rightarrow> (string \<times> string) list \<Rightarrow> int \<Rightarrow> 'e RoomManager
   \<Rightarrow> ((room_error + 'e Room) \<times> 'e RoomManager) option" where
  "CreateRoom ops roomID time users engineType rm =
     (if \<not> (length users = 4 \<and> engineType = RIICHI_MAHJONG_4P_ENGINE) then Some (Inl BadPlayers, rm)
      else case enginePrototypes rm engineType of
        None \<Rightarrow> Some (Inl (UnsupportedEngine engineType), rm)
      | Some prototype \<Rightarrow> do {
          engine \<leftarrow> engClone ops prototype;
          case engine of
            None \<Rightarrow> Some (Inl (CloneFailed engineType), rm)
          | Some _ \<Rightarrow> (case NewRoom roomID time engine users of
              Inl e \<Rightarrow> Some (Inl e, rm)
            | Inr room \<Rightarrow>
                let rm = rm\<lparr>playerRoom := fold (\<lambda>(u, c) pr. pr(u \<mapsto> roomKey room)) users (playerRoom rm)\<rparr>
                in do {
                  r \<leftarrow> engInitialize ops (roomKey room) (Users room) (roomEngine room);
                  case r of
                    Inl err \<Rightarrow> do { rm \<leftarrow> cleanupRoom ops (roomKey room) rm; Some (Inl (InitFailed err), rm) }
                  | Inr (e, us) \<Rightarrow>
                      let room = room\<lparr>roomEngine := e, Users := us\<rparr>
                      in Some (Inr room, rm\<lparr>rooms := AList.update (roomKey room) room (rooms rm)\<rparr>)
                })
        })"

definition GetRoom :: "'e RoomManager \<Rightarrow> string \<Rightarrow> 'e Room option" where
  "GetRoom rm roomID = map_of (rooms rm) roomID"

definition GetPlayerRoom :: "'e RoomManager \<Rightarrow> string \<Rightarrow> 'e Room option" where
  "GetPlayerRoom rm playerID = (case playerRoom rm playerID of None \<Rightarrow> None | Some roomID \<Rightarrow> map_of (rooms rm) roomID)"

definition DeleteRoom :: "'e Engine_if \<Rightarrow> string \<Rightarrow> 'e RoomManager \<Rightarrow> (room_error option \<times> 'e RoomManager) option" where
  "DeleteRoom ops roomID rm = (case map_of (rooms rm) roomID of
     None \<Rightarrow> Some (Some (NoRoom roomID), rm)
   | Some room \<Rightarrow> do {
       closed \<leftarrow> RoomClose ops room;
       Some (None, rm\<lparr>playerRoom := unroute (Users room) (playerRoom rm), rooms := AList.delete roomID (rooms rm)\<rparr>)
     })"

text \<open>A write to a room through its pointer.\<close>

definition put_room :: "string \<Rightarrow> 'e Room \<Rightarrow> 'e RoomManager \<Rightarrow> 'e RoomManager" where
  "put_room roomID room rm = rm\<lparr>rooms := AList.update roomID room (rooms rm)\<rparr>"

definition UpdatePlayerConnector :: "'e Engine_if \<Rightarrow> string \<Rightarrow> string \<Rightarrow> 'e RoomManager \<Rightarrow> room_error option \<times> 'e RoomManager" where
  "UpdatePlayerConnector ops userID newConnectorTopic rm = (case playerRoom rm userID of
     None \<Rightarrow> (Some (NotInAnyRoom userID), rm)
   | Some roomID \<Rightarrow> (case map_of (rooms rm) roomID of
       None \<Rightarrow> (Some (NoRoom roomID), rm)
     | Some room \<Rightarrow> (case GetPlayer room userID of
         None \<Rightarrow> (Some (NotInRoom userID roomID), rm)
       | Some player \<Rightarrow>
           (None, put_room roomID (set_users ops (AList.update userID (SetOnline newConnectorTopic player) (Users room)) room) rm))))"

definition GetStats :: "'e RoomManager \<Rightarrow> int \<times> int" where
  "GetStats rm = (int (length (rooms rm)), int (length (remdups (concat (map (\<lambda>(k, r). map fst (Users r)) (rooms rm))))))"

definition GetAllRooms :: "'e RoomManager \<Rightarrow> 'e Room list" where
  "GetAllRooms rm = map snd (rooms rm)"

section \<open>The worker\<close>

text \<open>The queue of rooms to destroy is a channel of capacity 128.\<close>

record 'e Worker =
  wRooms :: "'e RoomManager"
  NodeID :: string
  destroyRoomCh :: "string list"
  destroyClosed :: bool

definition NewWorker :: "string \<Rightarrow> 'e Worker" where
  "NewWorker nodeID = \<lparr>wRooms = NewRoomManager, NodeID = nodeID, destroyRoomCh = [], destroyClosed = False\<rparr>"

text \<open>\<open>RequestDestroyRoom\<close> is two atomic sections: the check under the lock, and the send after it, which panics
  when the channel was closed in between.\<close>

definition request_check :: "string \<Rightarrow> 'e Worker \<Rightarrow> bool" where
  "request_check roomID w \<longleftrightarrow> roomID \<noteq> '''' \<and> \<not> destroyClosed w"

definition request_send :: "string \<Rightarrow> 'e Worker \<Rightarrow> 'e Worker option" where
  "request_send roomID w =
     (if destroyClosed w then None
      else if length (destroyRoomCh w) < 128 then Some (w\<lparr>destroyRoomCh := destroyRoomCh w @ [roomID]\<rparr>)
      else Some w)"

definition RequestDestroyRoom :: "string \<Rightarrow> 'e Worker \<Rightarrow> 'e Worker option" where
  "RequestDestroyRoom roomID w = (if request_check roomID w then request_send roomID w else Some w)"

text \<open>One round of \<open>destroyRoomLoop\<close>.\<close>

definition destroyRoomLoop :: "'e Engine_if \<Rightarrow> 'e Worker \<Rightarrow> 'e Worker option" where
  "destroyRoomLoop ops w = (case destroyRoomCh w of
     [] \<Rightarrow> Some w
   | roomID # rest \<Rightarrow>
       let w = w\<lparr>destroyRoomCh := rest\<rparr>
       in if roomID = '''' then Some w
          else do { (err, rm) \<leftarrow> DeleteRoom ops roomID (wRooms w); Some (w\<lparr>wRooms := rm\<rparr>) })"

definition WorkerClose :: "'e Worker \<Rightarrow> 'e Worker" where
  "WorkerClose w = w\<lparr>destroyClosed := True\<rparr>"

text \<open>A message of a user, parsed by \<open>parse\<close>, is queued with the engine of the room the user is in.\<close>

definition event_user :: "GameEvent \<Rightarrow> string" where
  "event_user ev = (case ev of DropTileEvent u t \<Rightarrow> u | PengTileEvent u \<Rightarrow> u | GangEvent u \<Rightarrow> u | _ \<Rightarrow> '''')"

definition handle_with :: "('b \<Rightarrow> GameEvent option) \<Rightarrow> 'e Engine_if \<Rightarrow> 'b \<Rightarrow> 'e Worker \<Rightarrow> 'e Worker" where
  "handle_with parse ops data w = (case parse data of
     None \<Rightarrow> w
   | Some event \<Rightarrow> (case GetPlayerRoom (wRooms w) (event_user event) of
       None \<Rightarrow> w
     | Some room \<Rightarrow> w\<lparr>wRooms := put_room (roomKey room) (room\<lparr>roomEngine := engNotify ops event (roomEngine room)\<rparr>) (wRooms w)\<rparr>))"

definition handleDropTileHandler :: "('b \<Rightarrow> (string \<times> Tile) option) \<Rightarrow> 'e Engine_if \<Rightarrow> 'b \<Rightarrow> 'e Worker \<Rightarrow> 'e Worker" where
  "handleDropTileHandler unmarshal = handle_with (\<lambda>data. map_option (\<lambda>(u, t). DropTileEvent u t) (unmarshal data))"

definition handlePengTileHandler :: "('b \<Rightarrow> string option) \<Rightarrow> 'e Engine_if \<Rightarrow> 'b \<Rightarrow> 'e Worker \<Rightarrow> 'e Worker" where
  "handlePengTileHandler unmarshal = handle_with (\<lambda>data. map_option PengTileEvent (unmarshal data))"

definition handleGangTileHandler :: "('b \<Rightarrow> string option) \<Rightarrow> 'e Engine_if \<Rightarrow> 'b \<Rightarrow> 'e Worker \<Rightarrow> 'e Worker" where
  "handleGangTileHandler unmarshal = handle_with (\<lambda>data. map_option GangEvent (unmarshal data))"

definition handleReconnect :: "'b \<Rightarrow> 'e Worker \<Rightarrow> 'e Worker" where
  "handleReconnect data w = w"

text \<open>The handlers \<open>registerHandlers\<close> installs, by route.\<close>

definition registerHandlers :: "('b \<Rightarrow> (string \<times> Tile) option) \<Rightarrow> 'e Engine_if \<Rightarrow> string \<rightharpoonup> ('b \<Rightarrow> 'e Worker \<Rightarrow> 'e Worker)" where
  "registerHandlers unmarshal ops =
     [''game.play.droptile'' \<mapsto> handleDropTileHandler unmarshal ops, ''game.reconnect'' \<mapsto> handleReconnect]"

section \<open>The service\<close>

record CreateRoomResp =
  Success :: bool
  respRoomID :: string
  respError :: "room_error option"

definition service_CreateRoom ::
  "'e Engine_if \<Rightarrow> string \<Rightarrow> int \<Rightarrow> ((string \<times> string) list \<times> int) option \<Rightarrow> 'e RoomManager
   \<Rightarrow> (CreateRoomResp \<times> 'e RoomManager) option" where
  "service_CreateRoom ops roomID time req rm = (case req of
     None \<Rightarrow> Some (\<lparr>Success = False, respRoomID = '''', respError = None\<rparr>, rm)
   | Some (players, engineType) \<Rightarrow>
       if players = [] then Some (\<lparr>Success = False, respRoomID = '''', respError = None\<rparr>, rm)
       else do {
         (r, rm) \<leftarrow> CreateRoom ops roomID time players engineType rm;
         case r of
           Inl err \<Rightarrow> Some (\<lparr>Success = False, respRoomID = '''', respError = Some err\<rparr>, rm)
         | Inr room \<Rightarrow> Some (\<lparr>Success = True, respRoomID = roomKey room, respError = None\<rparr>, rm)
       })"

section \<open>Start of a node\<close>

text \<open>The container builds the worker and injects its engine prototypes.\<close>

definition createEnginePrototypes :: "string \<Rightarrow> (int \<times> engine) list" where
  "createEnginePrototypes worker = [(RIICHI_MAHJONG_4P_ENGINE, NewRiichiMahjong4p (Some worker))]"

definition NewGameContainer :: "string \<Rightarrow> engine Worker" where
  "NewGameContainer nodeID =
     (let w = NewWorker nodeID
      in fold (\<lambda>(t, e) w. w\<lparr>wRooms := snd (SetEnginePrototype t (Some e) (wRooms w))\<rparr>) (createEnginePrototypes nodeID) w)"

end
