(* ===== verification/RoomsSpec.thy ===== *)
theory RoomsSpec
  imports Rooms
begin

text \<open>
  The routing of a game node: as long as nobody is put into two rooms, a user's route leads exactly to the
  room that seats the user, in every state the node can reach, and no operation panics.  The contract
  between rooms and engines is the locale \<open>game_engine\<close>, interpreted on the riichi engine.
\<close>

section \<open>Maps\<close>

lemma unroute_apply: "unroute us pr u = (if u \<in> fst ` set us then None else pr u)"
  unfolding unroute_def by (induction us arbitrary: pr) auto

lemma route_apply: "fold (\<lambda>(u, c) pr. pr(u \<mapsto> k)) us pr u = (if u \<in> fst ` set us then Some k else pr u)"
  by (induction us arbitrary: pr) auto

lemma set_update_distinct:
  assumes "distinct (map fst al)"
  shows "(k', v') \<in> set (AList.update k v al) \<longleftrightarrow> (if k' = k then v' = v else (k', v') \<in> set al)"
proof -
  have "distinct (map fst (AList.update k v al))" using assms by (rule AList.distinct_update)
  then have "(k', v') \<in> set (AList.update k v al) \<longleftrightarrow> map_of (AList.update k v al) k' = Some v'" by simp
  then show ?thesis using assms by (auto simp: update_conv')
qed

lemma set_delete_distinct:
  "distinct (map fst al) \<Longrightarrow> (k', v') \<in> set (AList.delete k al) \<longleftrightarrow> k' \<noteq> k \<and> (k', v') \<in> set al"
  by (auto simp: AList.delete_eq)

lemma in_alist_iff: "distinct (map fst al) \<Longrightarrow> map_of al k = Some v \<Longrightarrow> (k, v') \<in> set al \<longleftrightarrow> v' = v"
  by (metis map_of_is_SomeI map_of_SomeD option.inject)

section \<open>The contract with the engine\<close>

definition seats_valid :: "(string \<times> UserInfo) list \<Rightarrow> bool" where
  "seats_valid us \<longleftrightarrow> (\<forall>(u, ui) \<in> set us. seat_ok (uiSeatIndex ui))"

definition room_ok :: "('e \<Rightarrow> bool) \<Rightarrow> 'e Room \<Rightarrow> bool" where
  "room_ok ok r \<longleftrightarrow> ok (roomEngine r) \<and> distinct (map fst (Users r)) \<and> length (Users r) = 4 \<and> seats_valid (Users r)"

definition routes_ok :: "'e RoomManager \<Rightarrow> bool" where
  "routes_ok rm \<longleftrightarrow> (\<forall>u k. playerRoom rm u = Some k \<longleftrightarrow> (\<exists>r. (k, r) \<in> set (rooms rm) \<and> u \<in> fst ` set (Users r)))"

definition rm_ok :: "('e \<Rightarrow> bool) \<Rightarrow> ('e \<Rightarrow> bool) \<Rightarrow> 'e RoomManager \<Rightarrow> bool" where
  "rm_ok proto ok rm \<longleftrightarrow> distinct (map fst (rooms rm)) \<and> (\<forall>(k, r) \<in> set (rooms rm). roomKey r = k \<and> room_ok ok r)
     \<and> (\<forall>t p. enginePrototypes rm t = Some p \<longrightarrow> proto p) \<and> routes_ok rm"

definition free_users :: "(string \<times> 'v) list \<Rightarrow> 'e RoomManager \<Rightarrow> bool" where
  "free_users users rm \<longleftrightarrow> (\<forall>u \<in> fst ` set users. playerRoom rm u = None)"

lemma rm_ok_room: "rm_ok proto ok rm \<Longrightarrow> map_of (rooms rm) k = Some r \<Longrightarrow> roomKey r = k \<and> room_ok ok r"
  by (auto simp: rm_ok_def dest!: map_of_SomeD)

lemma put_room_ok:
  assumes "rm_ok proto ok rm" "map_of (rooms rm) k = Some r" "roomKey r' = k" "room_ok ok r'" "fst ` set (Users r') = fst ` set (Users r)"
  shows "rm_ok proto ok (put_room k r' rm)"
proof -
  have d: "distinct (map fst (rooms rm))" using assms(1) by (simp add: rm_ok_def)
  have "(\<exists>r0. (k', r0) \<in> set (AList.update k r' (rooms rm)) \<and> u \<in> fst ` set (Users r0))
      \<longleftrightarrow> (\<exists>r0. (k', r0) \<in> set (rooms rm) \<and> u \<in> fst ` set (Users r0))" for k' u
    using assms(5) by (cases "k' = k") (simp_all add: set_update_distinct [OF d] in_alist_iff [OF d assms(2)])
  then have "routes_ok (put_room k r' rm)" using assms(1) by (simp add: rm_ok_def routes_ok_def put_room_def)
  then show ?thesis using assms(1,3,4) d
    by (auto simp: rm_ok_def put_room_def set_update_distinct AList.distinct_update split: if_splits)
qed

lemma GetPlayerRoom_iff:
  assumes "rm_ok proto ok rm"
  shows "GetPlayerRoom rm u = Some r \<longleftrightarrow> (roomKey r, r) \<in> set (rooms rm) \<and> u \<in> fst ` set (Users r)"
proof -
  have d: "distinct (map fst (rooms rm))" and key: "\<And>k r. (k, r) \<in> set (rooms rm) \<Longrightarrow> roomKey r = k"
    and route: "\<And>k. playerRoom rm u = Some k \<longleftrightarrow> (\<exists>r. (k, r) \<in> set (rooms rm) \<and> u \<in> fst ` set (Users r))"
    using assms by (auto simp: rm_ok_def routes_ok_def)
  show ?thesis
  proof
    assume "GetPlayerRoom rm u = Some r"
    then obtain k where k: "playerRoom rm u = Some k" "(k, r) \<in> set (rooms rm)"
      by (auto simp: GetPlayerRoom_def split: option.splits dest: map_of_SomeD)
    then obtain r' where "(k, r') \<in> set (rooms rm)" "u \<in> fst ` set (Users r')" using route by blast
    then show "(roomKey r, r) \<in> set (rooms rm) \<and> u \<in> fst ` set (Users r)" using k key d by (metis eq_key_imp_eq_value)
  next
    assume r: "(roomKey r, r) \<in> set (rooms rm) \<and> u \<in> fst ` set (Users r)"
    then have "playerRoom rm u = Some (roomKey r)" using route by blast
    then show "GetPlayerRoom rm u = Some r" using r d by (simp add: GetPlayerRoom_def)
  qed
qed

locale game_engine =
  fixes ops :: "'e Engine_if" and proto :: "'e \<Rightarrow> bool" and ok :: "'e \<Rightarrow> bool"
  assumes start_ok: "proto p \<Longrightarrow> length users = 4 \<Longrightarrow> \<exists>e e' us. engClone ops p = Some (Some e)
      \<and> engInitialize ops roomID users e = Some (Inr (e', us)) \<and> ok e' \<and> map fst us = map fst users \<and> seats_valid us"
    and notify_ok: "ok e \<Longrightarrow> client_event ev \<Longrightarrow> ok (engNotify ops ev e)"
    and close_ok: "ok e \<Longrightarrow> \<exists>e'. engClose ops e = Some e'"
    and share_ok: "ok e \<Longrightarrow> seats_valid us \<Longrightarrow> ok (engShare ops us e)"
begin

lemma CreateRoom_ok:
  assumes "rm_ok proto ok rm" "enginePrototypes rm RIICHI_MAHJONG_4P_ENGINE = Some p" "length users = 4" "distinct (map fst users)"
    "free_users users rm" "map_of (rooms rm) roomID = None"
  shows "\<exists>room rm'. CreateRoom ops roomID time users RIICHI_MAHJONG_4P_ENGINE rm = Some (Inr room, rm') \<and> rm_ok proto ok rm'
    \<and> roomKey room = roomID \<and> map fst (Users room) = map fst users \<and> rooms rm' = AList.update roomID room (rooms rm)
    \<and> enginePrototypes rm' = enginePrototypes rm"
proof -
  let ?us = "map (\<lambda>(k, v). (k, NewUserInfo k v)) users"
  have proto: "proto p" using assms(1,2) by (auto simp: rm_ok_def)
  obtain e e' us where e: "engClone ops p = Some (Some e)" "engInitialize ops roomID ?us e = Some (Inr (e', us))" "ok e'"
    "map fst us = map fst ?us" "seats_valid us"
    using start_ok [OF proto, of ?us roomID] assms(3) by auto
  have names: "map fst us = map fst users" using e(4) by (simp add: case_prod_unfold comp_def)
  define room where "room = \<lparr>roomKey = roomID, Users = us, AllowWatch = False, roomEngine = e', CreatedAt = time\<rparr>"
  define rm' where "rm' = rm\<lparr>playerRoom := fold (\<lambda>(u, c) pr. pr(u \<mapsto> roomID)) users (playerRoom rm), rooms := AList.update roomID room (rooms rm)\<rparr>"
  have run: "CreateRoom ops roomID time users RIICHI_MAHJONG_4P_ENGINE rm = Some (Inr room, rm')"
    using assms(2,3) e(1,2) by (simp add: CreateRoom_def NewRoom_def Let_def room_def rm'_def)
  have d: "distinct (map fst (rooms rm))" using assms(1) by (simp add: rm_ok_def)
  have "length us = 4" using names assms(3) by (metis length_map)
  then have "room_ok ok room" using names assms(4) e(3,5) by (simp add: room_ok_def room_def)
  moreover have "fst ` set us = fst ` set users" using names by (metis list.set_map)
  moreover have "(roomID, r) \<notin> set (rooms rm)" for r using assms(6) by (metis map_of_eq_None_iff image_eqI fst_conv)
  ultimately have r: "room_ok ok room" "fst ` set (Users room) = fst ` set users" "\<And>r. (roomID, r) \<notin> set (rooms rm)"
    by (simp_all add: room_def)
  have "routes_ok rm'" unfolding routes_ok_def
  proof (intro allI)
    fix u k
    have "playerRoom rm u = None" if "u \<in> fst ` set users" using assms(5) that unfolding free_users_def by (rule bspec)
    moreover have "(\<exists>r. (k, r) \<in> set (rooms rm) \<and> u \<in> fst ` set (Users r)) \<longleftrightarrow> playerRoom rm u = Some k"
      using assms(1) by (simp add: rm_ok_def routes_ok_def)
    ultimately show "playerRoom rm' u = Some k \<longleftrightarrow> (\<exists>r. (k, r) \<in> set (rooms rm') \<and> u \<in> fst ` set (Users r))"
      using r(2,3) by (cases "k = roomID"; cases "u \<in> fst ` set users") (simp_all add: rm'_def set_update_distinct [OF d] route_apply)
  qed
  moreover have "roomKey room = roomID" by (simp add: room_def)
  ultimately have "rm_ok proto ok rm'"
    using assms(1) d r(1) by (auto simp: rm_ok_def rm'_def set_update_distinct AList.distinct_update split: if_splits)
  then show ?thesis using run names by (auto simp: rm'_def room_def)
qed

lemma DeleteRoom_ok:
  assumes "rm_ok proto ok rm"
  shows "\<exists>rm'. DeleteRoom ops k rm = Some (if map_of (rooms rm) k = None then Some (NoRoom k) else None, rm') \<and> rm_ok proto ok rm'
    \<and> rooms rm' = AList.delete k (rooms rm)"
proof (cases "map_of (rooms rm) k")
  case None
  then have "AList.delete k (rooms rm) = rooms rm" by (simp add: delete_id map_of_eq_None_iff)
  then show ?thesis using assms None by (simp add: DeleteRoom_def)
next
  case (Some r)
  let ?rm = "rm\<lparr>playerRoom := unroute (Users r) (playerRoom rm), rooms := AList.delete k (rooms rm)\<rparr>"
  have d: "distinct (map fst (rooms rm))" using assms by (simp add: rm_ok_def)
  have r: "(k, r0) \<in> set (rooms rm) \<longleftrightarrow> r0 = r" for r0 using in_alist_iff [OF d Some] .
  obtain e' where "engClose ops (roomEngine r) = Some e'" using close_ok rm_ok_room [OF assms Some] by (auto simp: room_ok_def)
  then have "DeleteRoom ops k rm = Some (None, ?rm)"
    using Some by (simp add: DeleteRoom_def RoomClose_def)
  moreover have "routes_ok ?rm"
    unfolding routes_ok_def
  proof (intro allI)
    fix u k'
    have "(\<exists>r'. (j, r') \<in> set (rooms rm) \<and> u \<in> fst ` set (Users r')) \<longleftrightarrow> playerRoom rm u = Some j" for j
      using assms by (simp add: rm_ok_def routes_ok_def)
    from this [of k'] this [of k] show "playerRoom ?rm u = Some k'
        \<longleftrightarrow> (\<exists>r'. (k', r') \<in> set (rooms ?rm) \<and> u \<in> fst ` set (Users r'))"
      by (cases "k' = k"; cases "u \<in> fst ` set (Users r)") (simp_all add: set_delete_distinct [OF d] unroute_apply r)
  qed
  then have "rm_ok proto ok ?rm"
    using assms d by (auto simp: rm_ok_def set_delete_distinct distinct_delete)
  ultimately show ?thesis using Some by auto
qed

lemma UpdatePlayerConnector_ok:
  assumes "rm_ok proto ok rm" "UpdatePlayerConnector ops u c rm = (err, rm')"
  shows "rm_ok proto ok rm'"
proof (cases "err = None")
  case True
  then obtain k r ui where k: "playerRoom rm u = Some k" "map_of (rooms rm) k = Some r" "map_of (Users r) u = Some ui"
    "rm' = put_room k (set_users ops (AList.update u (SetOnline c ui) (Users r)) r) rm"
    using assms(2) by (auto simp: UpdatePlayerConnector_def GetPlayer_def split: option.splits)
  note r = rm_ok_room [OF assms(1) k(2)]
  let ?us = "AList.update u (SetOnline c ui) (Users r)"
  have d: "distinct (map fst (Users r))" and u: "(u, ui) \<in> set (Users r)" using r k(3) by (auto simp: room_ok_def dest: map_of_SomeD)
  have keys: "map fst ?us = map fst (Users r)" using u by (auto simp: update_keys image_iff) force
  have "seats_valid ?us" using r d u by (fastforce simp: room_ok_def seats_valid_def set_update_distinct SetOnline_def split: if_splits)
  moreover have "length ?us = length (Users r)" using keys by (metis length_map)
  ultimately have "room_ok ok (set_users ops ?us r)" using r share_ok keys by (simp add: room_ok_def set_users_def)
  moreover have "fst ` set ?us = fst ` set (Users r)" using keys by (metis list.set_map)
  ultimately show ?thesis unfolding k(4) using r by (intro put_room_ok [OF assms(1) k(2)]) (auto simp: set_users_def)
next
  case False
  then have "rm' = rm" using assms(2) by (auto simp: UpdatePlayerConnector_def split: option.splits)
  then show ?thesis using assms(1) by simp
qed

lemma put_engine_ok:
  "rm_ok proto ok rm \<Longrightarrow> map_of (rooms rm) k = Some r \<Longrightarrow> ok e \<Longrightarrow> rm_ok proto ok (put_room k (r\<lparr>roomEngine := e\<rparr>) rm)"
  using rm_ok_room [of proto ok rm k r] by (intro put_room_ok) (auto simp: room_ok_def)

lemma handle_with_ok:
  assumes "rm_ok proto ok (wRooms w)" "\<And>ev. parse data = Some ev \<Longrightarrow> client_event ev"
  shows "rm_ok proto ok (wRooms (handle_with parse ops data w))"
proof -
  have "rm_ok proto ok (put_room (roomKey r) (r\<lparr>roomEngine := engNotify ops ev (roomEngine r)\<rparr>) (wRooms w))"
    if "parse data = Some ev" "GetPlayerRoom (wRooms w) (event_user ev) = Some r" for ev r
  proof -
    have m: "map_of (rooms (wRooms w)) (roomKey r) = Some r"
      using that(2) assms(1) by (auto simp: GetPlayerRoom_iff [OF assms(1)] rm_ok_def)
    then show ?thesis using put_engine_ok [OF assms(1) m] notify_ok assms(2) [OF that(1)] rm_ok_room [OF assms(1) m] by (auto simp: room_ok_def)
  qed
  then show ?thesis using assms(1) by (auto simp: handle_with_def split: option.splits)
qed

lemma registered_ok:
  "rm_ok proto ok (wRooms w) \<Longrightarrow> registerHandlers unmarshal ops route = Some h \<Longrightarrow> rm_ok proto ok (wRooms (h data w))"
  by (auto simp: registerHandlers_def handleDropTileHandler_def handleReconnect_def split: if_splits intro!: handle_with_ok)

lemma destroyRoomLoop_ok: "rm_ok proto ok (wRooms w) \<Longrightarrow> wp (destroyRoomLoop ops w) (\<lambda>w'. rm_ok proto ok (wRooms w'))"
proof (cases "destroyRoomCh w")
  case (Cons k ks)
  assume "rm_ok proto ok (wRooms w)"
  then show ?thesis using Cons DeleteRoom_ok [of "wRooms w" k] by (auto simp: destroyRoomLoop_def Let_def)
qed (simp add: destroyRoomLoop_def)

lemma destroy_round:
  assumes "rm_ok proto ok (wRooms w)" "destroyRoomCh w = k # ks"
  shows "\<exists>w'. destroyRoomLoop ops w = Some w' \<and> destroyRoomCh w' = ks \<and> rm_ok proto ok (wRooms w')
    \<and> set (rooms (wRooms w')) \<subseteq> set (rooms (wRooms w)) \<and> (k \<noteq> [] \<longrightarrow> k \<notin> fst ` set (rooms (wRooms w')))"
proof (cases "k = []")
  case False
  then show ?thesis using assms DeleteRoom_ok [OF assms(1), of k]
    by (auto simp: destroyRoomLoop_def Let_def AList.delete_eq)
qed (use assms in \<open>auto simp: destroyRoomLoop_def\<close>)

lemma destroy_all:
  assumes "rm_ok proto ok (wRooms w)"
  shows "wp (run_all (\<lambda>_ :: unit. destroyRoomLoop ops) (replicate (length (destroyRoomCh w)) ()) w)
    (\<lambda>w'. rm_ok proto ok (wRooms w') \<and> set (rooms (wRooms w')) \<subseteq> set (rooms (wRooms w))
       \<and> (\<forall>k \<in> set (destroyRoomCh w). k \<noteq> [] \<longrightarrow> k \<notin> fst ` set (rooms (wRooms w'))))"
  using assms
proof (induction "destroyRoomCh w" arbitrary: w)
  case Nil
  then show ?case by (simp flip: Nil.hyps)
next
  case (Cons k ks)
  obtain w1 where w1: "destroyRoomLoop ops w = Some w1" "ks = destroyRoomCh w1" "rm_ok proto ok (wRooms w1)"
    "set (rooms (wRooms w1)) \<subseteq> set (rooms (wRooms w))" "k \<noteq> [] \<longrightarrow> k \<notin> fst ` set (rooms (wRooms w1))"
    using destroy_round [OF Cons.prems Cons.hyps(2) [symmetric]] by auto
  have "destroyRoomCh w = k # destroyRoomCh w1" using Cons.hyps(2) w1(2) by simp
  then show ?case using w1(1,4,5) by (auto intro!: wp_mono [OF Cons.hyps(1) [OF w1(2,3)]])
qed

end

section \<open>The riichi engine fulfils the contract\<close>

definition riichi_prototype :: "engine \<Rightarrow> bool" where
  "riichi_prototype p \<longleftrightarrow> (\<exists>worker. p = NewRiichiMahjong4p (Some worker))"

lemma riichi_start:
  assumes "riichi_prototype p" "length users = 4"
  shows "\<exists>e e' us. engClone (riichi en repo) p = Some (Some e) \<and> engInitialize (riichi en repo) roomID users e = Some (Inr (e', us))
     \<and> eg_inv 100000 e' \<and> map fst us = map fst users \<and> seats_valid us"
proof -
  obtain worker where p: "p = NewRiichiMahjong4p (Some worker)" using assms(1) by (auto simp: riichi_prototype_def)
  obtain e where e: "Clone p = Some e" by (simp add: p Clone_def NewRiichiMahjong4p_def)
  obtain e' where e': "InitializeEngine en repo roomID users e = Some e'" "eg_inv 100000 e'"
    using new_game_wp [OF assms(2), of en repo worker roomID] e p by (auto simp: new_game_def wp_iff)
  have "map fst (seat_users users) = map fst users"
    by (auto simp: seat_users_simps case_prod_unfold intro!: nth_equalityI)
  moreover have "seats_valid (seat_users users)"
    using assms(2) by (auto simp: seats_valid_def in_set_conv_nth seat_users_simps seat_ok_def)
  ultimately show ?thesis using e e' by (simp add: riichi_def)
qed

lemma Close_total: "eg_inv K eg \<Longrightarrow> \<exists>eg'. Close eg = Some eg'"
proof -
  assume "eg_inv K eg"
  then obtain tm q where "egTurn eg = Some tm" "tm_ok tm" "gameEvents eg = Some q"
    by (auto simp: eg_inv_def base_inv_def queue_ok_def split: option.splits)
  moreover obtain tm' where "stopAllTickers tm = Some tm'" using stopAllTickers_wp [OF \<open>tm_ok tm\<close>] by (auto simp: wp_iff)
  ultimately show ?thesis by (simp add: Close_def stop_clocks_def)
qed

lemma share_inv:
  "eg_inv K eg \<Longrightarrow> seats_valid us \<Longrightarrow> eg_inv K (eg\<lparr>UserMap := map_option (\<lambda>m. map_of us) (UserMap eg)\<rparr>)"
  by (auto simp: eg_inv_def base_inv_def fresh_def dealt_def react_ok_def users_ok_def seats_valid_def split: option.splits dest!: map_of_SomeD)

interpretation table: game_engine "riichi en repo" riichi_prototype "eg_inv 100000" for en repo
proof
  show "eg_inv 100000 e \<Longrightarrow> client_event ev \<Longrightarrow> eg_inv 100000 (engNotify (riichi en repo) ev e)" for e ev
    by (simp add: riichi_def eg_inv_NotifyEvent client_event_ok)
  show "eg_inv 100000 e \<Longrightarrow> seats_valid us \<Longrightarrow> eg_inv 100000 (engShare (riichi en repo) us e)" for e us
    by (simp add: riichi_def share_inv)
  show "eg_inv 100000 e \<Longrightarrow> \<exists>e'. engClose (riichi en repo) e = Some e'" for e by (simp add: riichi_def Close_total)
qed (rule riichi_start)

section \<open>The running node\<close>

text \<open>
  Rooms are created for users that are in none, under ids not in use; clients send messages; users reconnect;
  the engines run; engines ask for the destruction of rooms and the loop of the worker serves them.
\<close>

inductive node_step :: "engine Worker \<Rightarrow> engine Worker \<Rightarrow> bool" where
  create: "distinct (map fst users) \<Longrightarrow> free_users users (wRooms w) \<Longrightarrow> GetRoom (wRooms w) roomID = None
    \<Longrightarrow> CreateRoom (riichi en repo) roomID time users engineType (wRooms w) = Some (r, rm) \<Longrightarrow> node_step w (w\<lparr>wRooms := rm\<rparr>)"
| message: "registerHandlers (unmarshal :: string \<Rightarrow> (string \<times> Tile) option) (riichi en repo) route = Some h \<Longrightarrow> node_step w (h data w)"
| reconnect: "UpdatePlayerConnector (riichi en repo) u topic (wRooms w) = (err, rm) \<Longrightarrow> node_step w (w\<lparr>wRooms := rm\<rparr>)"
| engine: "GetRoom (wRooms w) k = Some r \<Longrightarrow> eg_step (roomEngine r) eg
    \<Longrightarrow> node_step w (w\<lparr>wRooms := put_room k (r\<lparr>roomEngine := eg\<rparr>) (wRooms w)\<rparr>)"
| request: "RequestDestroyRoom roomID w = Some w' \<Longrightarrow> node_step w w'"
| destroy: "destroyRoomLoop (riichi en repo) w = Some w' \<Longrightarrow> node_step w w'"

abbreviation rooms_ok :: "engine RoomManager \<Rightarrow> bool" where
  "rooms_ok \<equiv> rm_ok riichi_prototype (eg_inv 100000)"

definition node_ok :: "engine Worker \<Rightarrow> bool" where
  "node_ok w \<longleftrightarrow> rooms_ok (wRooms w) \<and> enginePrototypes (wRooms w) RIICHI_MAHJONG_4P_ENGINE \<noteq> None"

lemma CreateRoom_failed:
  assumes "CreateRoom (riichi en repo) roomID time users t rm = Some (r, rm')"
    "\<not> (length users = 4 \<and> t = RIICHI_MAHJONG_4P_ENGINE \<and> enginePrototypes rm t \<noteq> None)"
  shows "rm' = rm"
  using assms by (auto simp: CreateRoom_def split: if_splits option.splits)

lemma destroyRoomLoop_prototypes: "destroyRoomLoop ops w = Some w' \<Longrightarrow> enginePrototypes (wRooms w') = enginePrototypes (wRooms w)"
  by (auto simp: destroyRoomLoop_def DeleteRoom_def Let_def bind_eq_Some_conv split: list.splits if_splits option.splits)

lemma handler_prototypes: "enginePrototypes (wRooms (handle_with parse ops data w)) = enginePrototypes (wRooms w)"
  by (auto simp: handle_with_def put_room_def split: option.splits)

lemma node_step_ok:
  assumes "node_ok w" "node_step w w'"
  shows "node_ok w'"
  using assms(2)
proof cases
  case (create users roomID en repo time engineType r rm)
  show ?thesis
  proof (cases "length users = 4 \<and> engineType = RIICHI_MAHJONG_4P_ENGINE \<and> enginePrototypes (wRooms w) engineType \<noteq> None")
    case True
    then show ?thesis using create assms(1) table.CreateRoom_ok [of "wRooms w" _ users roomID en repo time]
      by (auto simp: node_ok_def GetRoom_def)
  next
    case False
    then have "rm = wRooms w" using CreateRoom_failed [OF create(5)] by simp
    then show ?thesis using create(1) assms(1) by simp
  qed
next
  case (message unmarshal en repo route h data)
  have "enginePrototypes (wRooms (h data w)) = enginePrototypes (wRooms w)"
    using message(2) by (auto simp: registerHandlers_def handleDropTileHandler_def handleReconnect_def handler_prototypes split: if_splits)
  then show ?thesis using assms(1) message table.registered_ok by (auto simp: node_ok_def)
next
  case (reconnect en repo u topic err rm)
  have "enginePrototypes rm = enginePrototypes (wRooms w)"
    using reconnect(2) by (auto simp: UpdatePlayerConnector_def put_room_def split: option.splits)
  then show ?thesis using assms(1) reconnect table.UpdatePlayerConnector_ok by (auto simp: node_ok_def)
next
  case (engine k r eg)
  have r: "map_of (rooms (wRooms w)) k = Some r" using engine(2) by (simp add: GetRoom_def)
  have "eg_inv 100000 (roomEngine r)" using rm_ok_room [OF _ r] assms(1) by (auto simp: node_ok_def room_ok_def)
  then have "eg_inv 100000 eg" using engine(3) by (rule game.step_keeps)
  then show ?thesis using assms(1) engine table.put_engine_ok [OF _ r] by (auto simp: node_ok_def put_room_def)
next
  case (request roomID)
  then have "wRooms w' = wRooms w" by (auto simp: RequestDestroyRoom_def request_send_def split: if_splits)
  then show ?thesis using assms(1) by (simp add: node_ok_def)
next
  case (destroy en repo)
  then show ?thesis using assms(1) table.destroyRoomLoop_ok [of w en repo] destroyRoomLoop_prototypes [OF destroy] by (auto simp: node_ok_def)
qed

interpretation node: invariant_system node_step node_ok
  by unfold_locales (rule node_step_ok)

lemma node_ok_start: "node_ok (NewGameContainer nodeID)"
  by (auto simp: node_ok_def NewGameContainer_def createEnginePrototypes_def SetEnginePrototype_def NewWorker_def NewRoomManager_def
      rm_ok_def routes_ok_def riichi_prototype_def)

lemma node_reach: "node_step\<^sup>*\<^sup>* (NewGameContainer nodeID) w \<Longrightarrow> node_ok w"
  using node.reach_keeps node_ok_start by blast

section \<open>Properties of the node\<close>

lemma run_node_create:
  assumes "node_ok w" "length users = 4" "distinct (map fst users)" "free_users users (wRooms w)" "GetRoom (wRooms w) roomID = None"
  shows "\<exists>room rm. CreateRoom (riichi en repo) roomID time users RIICHI_MAHJONG_4P_ENGINE (wRooms w) = Some (Inr room, rm)
     \<and> GetRoom rm roomID = Some room \<and> (\<forall>u \<in> fst ` set users. GetPlayerRoom rm u = Some room)
     \<and> node_step w (w\<lparr>wRooms := rm\<rparr>)"
proof -
  obtain p where p: "enginePrototypes (wRooms w) RIICHI_MAHJONG_4P_ENGINE = Some p" using assms(1) by (auto simp: node_ok_def)
  have none: "map_of (rooms (wRooms w)) roomID = None" using assms(5) by (simp add: GetRoom_def)
  have ok: "rooms_ok (wRooms w)" using assms(1) by (simp add: node_ok_def)
  obtain room rm where r: "CreateRoom (riichi en repo) roomID time users RIICHI_MAHJONG_4P_ENGINE (wRooms w) = Some (Inr room, rm)"
    "rooms_ok rm" "roomKey room = roomID" "map fst (Users room) = map fst users" "rooms rm = AList.update roomID room (rooms (wRooms w))"
    using table.CreateRoom_ok [OF ok p assms(2-4) none, of en repo time] by auto
  have d: "distinct (map fst (rooms (wRooms w)))" using ok by (simp add: rm_ok_def)
  have "fst ` set (Users room) = fst ` set users" using r(4) by (metis list.set_map)
  then have "\<forall>u \<in> fst ` set users. GetPlayerRoom rm u = Some room"
    using r(3,5) by (auto simp: GetPlayerRoom_iff [OF r(2)] set_update_distinct [OF d])
  moreover have "GetRoom rm roomID = Some room" using r(5) by (simp add: GetRoom_def update_conv')
  moreover have "node_step w (w\<lparr>wRooms := rm\<rparr>)" by (rule node_step.create [OF assms(3-5) r(1)])
  ultimately show ?thesis using r(1) by blast
qed

text \<open>A node with one room, for the witnesses.\<close>

definition table_of :: "string list \<Rightarrow> (string \<times> string) list" where
  "table_of us = map (\<lambda>u. (u, ''connector'')) us"

lemma first_room:
  "\<exists>room rm. CreateRoom (riichi plain_env False) ''r1'' 0 (table_of [''a'', ''b'', ''c'', ''d'']) RIICHI_MAHJONG_4P_ENGINE (wRooms (NewGameContainer ''game'')) = Some (Inr room, rm)
     \<and> GetRoom rm ''r1'' = Some room \<and> (\<forall>u \<in> set [''a'', ''b'', ''c'', ''d'']. GetPlayerRoom rm u = Some room)
     \<and> node_step (NewGameContainer ''game'') ((NewGameContainer ''game'')\<lparr>wRooms := rm\<rparr>)"
proof -
  have "wRooms (NewGameContainer ''game'') = NewRoomManager\<lparr>enginePrototypes := [0 \<mapsto> NewRiichiMahjong4p (Some ''game'')]\<rparr>"
    by (simp add: NewGameContainer_def createEnginePrototypes_def SetEnginePrototype_def NewWorker_def NewRoomManager_def)
  then have "free_users (table_of [''a'', ''b'', ''c'', ''d'']) (wRooms (NewGameContainer ''game''))"
    "GetRoom (wRooms (NewGameContainer ''game'')) ''r1'' = None"
    by (simp_all add: free_users_def NewRoomManager_def GetRoom_def)
  moreover have "length (table_of [''a'', ''b'', ''c'', ''d'']) = 4" "distinct (map fst (table_of [''a'', ''b'', ''c'', ''d'']))"
    by (simp_all add: table_of_def)
  ultimately show ?thesis using run_node_create [OF node_ok_start [of "''game''"], of "table_of [''a'', ''b'', ''c'', ''d'']" "''r1''" plain_env False 0]
    by (simp add: table_of_def)
qed





text \<open>A request to destroy a room is served.  With space in the queue and the node not closing, the loop of the worker
  deletes the room after as many rounds as the queue is then long, and its users are routed nowhere.\<close>

lemma destroy_request_served:
  assumes "node_step\<^sup>*\<^sup>* (NewGameContainer nodeID) w" "k \<noteq> []" "\<not> destroyClosed w" "length (destroyRoomCh w) < 128"
  shows "\<exists>w1 w2. RequestDestroyRoom k w = Some w1
     \<and> run_all (\<lambda>_ :: unit. destroyRoomLoop (riichi en repo)) (replicate (length (destroyRoomCh w) + 1) ()) w1 = Some w2
     \<and> GetRoom (wRooms w2) k = None
     \<and> (\<forall>r u. GetRoom (wRooms w) k = Some r \<and> GetPlayer r u \<noteq> None \<longrightarrow> GetPlayerRoom (wRooms w2) u = None)"
proof -
  have ok: "rooms_ok (wRooms w)" using node_reach [OF assms(1)] by (simp add: node_ok_def)
  define w1 where "w1 = w\<lparr>destroyRoomCh := destroyRoomCh w @ [k]\<rparr>"
  have "RequestDestroyRoom k w = Some w1" using assms(2-4) by (simp add: RequestDestroyRoom_def request_check_def request_send_def w1_def)
  moreover obtain w2 where w2: "run_all (\<lambda>_ :: unit. destroyRoomLoop (riichi en repo)) (replicate (length (destroyRoomCh w) + 1) ()) w1 = Some w2"
    "rooms_ok (wRooms w2)" "set (rooms (wRooms w2)) \<subseteq> set (rooms (wRooms w))" "k \<notin> fst ` set (rooms (wRooms w2))"
    using table.destroy_all [of w1 en repo] ok assms(2) by (auto simp: w1_def wp_iff)
  moreover have "GetPlayerRoom (wRooms w2) u = None" if "GetRoom (wRooms w) k = Some r" "GetPlayer r u \<noteq> None" for r u
  proof (rule ccontr)
    assume "GetPlayerRoom (wRooms w2) u \<noteq> None"
    then obtain r' where r': "GetPlayerRoom (wRooms w2) u = Some r'" by blast
    have "GetPlayerRoom (wRooms w) u = Some r'" using r' w2(3) by (auto simp: GetPlayerRoom_iff [OF w2(2)] GetPlayerRoom_iff [OF ok])
    moreover have "GetPlayerRoom (wRooms w) u = Some r"
      using that rm_ok_room [OF ok, of k r] by (auto simp: GetPlayerRoom_iff [OF ok] GetRoom_def GetPlayer_def map_of_eq_None_iff dest: map_of_SomeD)
    ultimately have "roomKey r' = k" using that(1) rm_ok_room [OF ok, of k r] by (simp add: GetRoom_def)
    then show False using r' w2(4) by (auto simp: GetPlayerRoom_iff [OF w2(2)] image_iff)
  qed
  ultimately show ?thesis by (auto simp: GetRoom_def map_of_eq_None_iff)
qed

text \<open>Nothing stops a user of one room from being put into a second one, and deleting the first room then cuts the
  user off from the second: the user is seated there, but has no route.\<close>

lemma second_room_loses_route:
  assumes "GetRoom rm k = Some r" "GetPlayer r u \<noteq> None" "DeleteRoom ops k rm = Some (None, rm')" "GetRoom rm k' = Some r'" "k' \<noteq> k" "GetPlayer r' u \<noteq> None"
  shows "GetPlayerRoom rm' u = None \<and> GetRoom rm' k' = Some r'"
proof -
  have rm': "rm' = rm\<lparr>playerRoom := unroute (Users r) (playerRoom rm), rooms := AList.delete k (rooms rm)\<rparr>"
    using assms(1,3) by (auto simp: GetRoom_def DeleteRoom_def bind_eq_Some_conv)
  have "u \<in> fst ` set (Users r)" using assms(2) by (simp add: GetPlayer_def map_of_eq_None_iff)
  then show ?thesis using assms(4,5) by (simp add: rm' GetPlayerRoom_def GetRoom_def unroute_apply delete_conv')
qed

text \<open>A room whose engine fails to start leaves its users routed to a room that does not exist, since the clean-up
  looks for a room that has not been entered yet.\<close>

lemma failed_start_keeps_routes:
  assumes "length users = 4" "enginePrototypes rm RIICHI_MAHJONG_4P_ENGINE = Some p" "engClone ops p = Some (Some e)"
    "\<forall>us. engInitialize ops roomID us e = Some (Inl err)" "GetRoom rm roomID = None" "u \<in> fst ` set users"
  shows "\<exists>rm'. CreateRoom ops roomID time users RIICHI_MAHJONG_4P_ENGINE rm = Some (Inl (InitFailed err), rm')
     \<and> playerRoom rm' u = Some roomID \<and> GetRoom rm' roomID = None"
  using assms by (simp add: CreateRoom_def NewRoom_def cleanupRoom_def GetRoom_def Let_def route_apply)

text \<open>Closing the worker between the check and the send of a destruction request makes the sender panic, although either
  alone is safe.\<close>

lemma request_close_race:
  assumes "request_check k w"
  shows "request_send k w \<noteq> None \<and> request_send k (WorkerClose w) = None"
  using assms by (simp add: request_check_def request_send_def WorkerClose_def)

end
