(* ===== verification/MatchSpec.thy ===== *)
theory MatchSpec
  imports Match RoomsSpec "HOL-Library.Char_ord" "HOL-Library.List_Lexorder" "HOL-Library.Product_Lexorder"
begin

text \<open>
  The match queues: a user waits in at most one pool, the pool map and the queues agree, players leave in the
  order of their scores, and a match of four reaches a game node as a room.  The laws of the Redis
  commands are the locale \<open>redis\<close>; a store in memory shows that they can hold.
\<close>

section \<open>The laws of Redis\<close>

locale redis =
  fixes R :: "'r Redis"
  assumes hget_hset: "HGET R h f (HSET R h' f' v s) = (if h = h' \<and> f = f' then Some v else HGET R h f s)"
    and hget_hdel: "HGET R h f (HDEL R h' f' s) = (if h = h' \<and> f = f' then None else HGET R h f s)"
    and hget_zadd: "h \<noteq> k \<Longrightarrow> HGET R h f (ZADD R k score m s) = HGET R h f s"
    and hget_zrem: "h \<noteq> k \<Longrightarrow> HGET R h f (ZREM R k m s) = HGET R h f s"
    and zscore_zadd: "ZSCORE R k m (ZADD R k' score m' s) = (if k = k' \<and> m = m' then Some score else ZSCORE R k m s)"
    and zscore_zrem: "ZSCORE R k m (ZREM R k' m' s) = (if k = k' \<and> m = m' then None else ZSCORE R k m s)"
    and zscore_hset: "k \<noteq> h \<Longrightarrow> ZSCORE R k m (HSET R h f v s) = ZSCORE R k m s"
    and zscore_hdel: "k \<noteq> h \<Longrightarrow> ZSCORE R k m (HDEL R h f s) = ZSCORE R k m s"
    and zcard: "ZCARD R k s = int (length (ZRANGE R k 0 (- 1) s))"
    and zrange_prefix: "0 < n \<Longrightarrow> ZRANGE R k 0 (n - 1) s = take (nat n) (ZRANGE R k 0 (- 1) s)"
    and zrange_distinct: "distinct (ZRANGE R k 0 (- 1) s)"
    and zrange_members: "m \<in> set (ZRANGE R k 0 (- 1) s) \<longleftrightarrow> ZSCORE R k m s \<noteq> None"
    and zrange_sorted: "sorted_wrt (\<lambda>a b. (the (ZSCORE R k a s), a) \<le> (the (ZSCORE R k b s), b)) (ZRANGE R k 0 (- 1) s)"

text \<open>A user waits in pool \<open>p\<close> exactly when the pool map says so.\<close>

definition waiting_ok :: "'r Redis \<Rightarrow> 'r \<Rightarrow> bool" where
  "waiting_ok R s \<longleftrightarrow> (\<forall>u p. p \<noteq> [] \<longrightarrow> (HGET R userPoolKey u s = Some p \<longleftrightarrow> ZSCORE R (getQueueKey p) u s \<noteq> None))"

lemma waiting_okI:
  "(\<And>u p. p \<noteq> [] \<Longrightarrow> HGET R userPoolKey u s = Some p \<longleftrightarrow> ZSCORE R (getQueueKey p) u s \<noteq> None) \<Longrightarrow> waiting_ok R s"
  by (simp add: waiting_ok_def)

lemma waiting_okD: "waiting_ok R s \<Longrightarrow> p \<noteq> [] \<Longrightarrow> HGET R userPoolKey u s = Some p \<longleftrightarrow> ZSCORE R (getQueueKey p) u s \<noteq> None"
  by (simp add: waiting_ok_def)

inductive queue_step :: "'r Redis \<Rightarrow> 'r \<Rightarrow> 'r \<Rightarrow> bool" for R where
  join: "service_JoinQueue up R findByID time pool u s = (err, s') \<Longrightarrow> queue_step R s s'"
| leave: "LeaveQueue up R u s = (err, s') \<Longrightarrow> queue_step R s s'"
| batch: "doBatchMatch stopped pick R p mes s ch = (s', ch') \<Longrightarrow> queue_step R s s'"

lemma queue_keys [simp]: "getQueueKey p \<noteq> userPoolKey" "userPoolKey \<noteq> getQueueKey p" "getQueueKey p = getQueueKey q \<longleftrightarrow> p = q"
  by (auto simp: getQueueKey_def userPoolKey_def queueKeyPrefix_def)

lemma remove_script:
  "removeFromQueueScript R u s = (case HGET R userPoolKey u s of None \<Rightarrow> (0, s)
     | Some p \<Rightarrow> if p = [] then (0, s) else (1, HDEL R userPoolKey u (ZREM R (getQueueKey p) u s)))"
  by (cases "HGET R userPoolKey u s") (simp_all add: removeFromQueueScript_def getQueueKey_def queueKeyPrefix_def)

context redis
begin

lemmas commands = hget_hset hget_hdel hget_zadd hget_zrem zscore_zadd zscore_zrem zscore_hset zscore_hdel

lemma join_script:
  assumes "waiting_ok R s" "p \<noteq> []"
  shows "joinQueueScript R (getQueueKey p) u score p s =
    (if HGET R userPoolKey u s \<in> {None, Some []} then (1, HSET R userPoolKey u p (ZADD R (getQueueKey p) score u s))
     else if HGET R userPoolKey u s = Some p then (- 2, s) else (- 1, s))"
  using assms by (auto simp: joinQueueScript_def waiting_ok_def Let_def)

lemma waiting_ok_join:
  assumes "waiting_ok R s" "p \<noteq> []" "HGET R userPoolKey u s \<in> {None, Some []}"
  shows "waiting_ok R (HSET R userPoolKey u p (ZADD R (getQueueKey p) score u s))"
proof (rule waiting_okI)
  fix v q :: string
  assume q: "q \<noteq> []"
  have "ZSCORE R (getQueueKey q) u s = None" using waiting_okD [OF assms(1) q, of u] assms(3) q by auto
  then show "HGET R userPoolKey v (HSET R userPoolKey u p (ZADD R (getQueueKey p) score u s)) = Some q
      \<longleftrightarrow> ZSCORE R (getQueueKey q) v (HSET R userPoolKey u p (ZADD R (getQueueKey p) score u s)) \<noteq> None"
    by (cases "v = u"; cases "q = p") (simp_all add: commands waiting_okD [OF assms(1) q] waiting_okD [OF assms(1,2)])
qed

text \<open>Removing several players one after the other.\<close>

lemma drop_players:
  "HGET R userPoolKey u (fold (\<lambda>u s. HDEL R userPoolKey u (ZREM R (getQueueKey p) u s)) us s)
     = (if u \<in> set us then None else HGET R userPoolKey u s)"
  "ZSCORE R (getQueueKey q) u (fold (\<lambda>u s. HDEL R userPoolKey u (ZREM R (getQueueKey p) u s)) us s)
     = (if q = p \<and> u \<in> set us then None else ZSCORE R (getQueueKey q) u s)"
  by (induction us arbitrary: s) (auto simp: commands)

lemma pop_script:
  assumes "0 < n"
  shows "popPlayersScript R k n s = (let us = (if ZCARD R k s < n then [] else take (nat n) (ZRANGE R k 0 (- 1) s))
     in (us, fold (\<lambda>u s. HDEL R userPoolKey u (ZREM R k u s)) us s))"
  using assms by (simp add: popPlayersScript_def zrange_prefix Let_def)

lemma waiting_ok_pop:
  assumes "waiting_ok R s" "p \<noteq> []" "\<forall>u \<in> set us. ZSCORE R (getQueueKey p) u s \<noteq> None"
  shows "waiting_ok R (fold (\<lambda>u s. HDEL R userPoolKey u (ZREM R (getQueueKey p) u s)) us s)"
proof (rule waiting_okI)
  fix v q :: string
  assume q: "q \<noteq> []"
  have "ZSCORE R (getQueueKey q) v s = None" if "v \<in> set us" "q \<noteq> p"
  proof -
    have "HGET R userPoolKey v s = Some p" using waiting_okD [OF assms(1,2), of v] assms(3) that(1) by simp
    then show ?thesis using waiting_okD [OF assms(1) q, of v] that(2) by simp
  qed
  then show "HGET R userPoolKey v (fold (\<lambda>u s. HDEL R userPoolKey u (ZREM R (getQueueKey p) u s)) us s) = Some q
      \<longleftrightarrow> ZSCORE R (getQueueKey q) v (fold (\<lambda>u s. HDEL R userPoolKey u (ZREM R (getQueueKey p) u s)) us s) \<noteq> None"
    by (cases "v \<in> set us"; cases "q = p") (simp_all add: drop_players waiting_okD [OF assms(1) q] waiting_okD [OF assms(1,2)])
qed

lemma take_waiting: "u \<in> set (take n (ZRANGE R k 0 (- 1) s)) \<Longrightarrow> ZSCORE R k u s \<noteq> None"
  using in_set_takeD [of u n] zrange_members by blast

lemma PopPlayers_ok: "waiting_ok R s \<Longrightarrow> PopPlayers up R p n s = (r, s') \<Longrightarrow> waiting_ok R s'"
  using waiting_ok_pop [of s p] take_waiting by (auto simp: PopPlayers_def pop_script Let_def split: if_splits)

lemma JoinQueue_ok: "waiting_ok R s \<Longrightarrow> JoinQueue up R p u score s = (err, s') \<Longrightarrow> waiting_ok R s'"
  using waiting_ok_join [of s p u score] by (auto simp: JoinQueue_def join_script Let_def split: if_splits)

lemma RemoveFromQueue_ok: "waiting_ok R s \<Longrightarrow> RemoveFromQueue up R u s = (err, s') \<Longrightarrow> waiting_ok R s'"
  using waiting_ok_pop [of s _ "[u]"] waiting_okD [of R s]
  by (auto simp: RemoveFromQueue_def remove_script split: if_splits option.splits)

lemma tryMatch_ok: "waiting_ok R s \<Longrightarrow> tryMatch me R p s = (r, s') \<Longrightarrow> waiting_ok R s'"
  by (auto simp: tryMatch_def poll_Match_def split: prod.splits sum.splits if_splits option.splits intro: PopPlayers_ok)

lemma doBatchMatch_ok: "waiting_ok R s \<Longrightarrow> doBatchMatch stopped pick R p mes s ch = (s', ch') \<Longrightarrow> waiting_ok R s'"
proof (induction mes arbitrary: s ch)
  case (Cons me mes)
  obtain r s1 where t: "tryMatch me R p s = (r, s1)" by force
  have "waiting_ok R s1" by (rule tryMatch_ok [OF Cons.prems(1) t])
  then show ?case using Cons.IH Cons.prems(2) t by (auto split: sum.splits option.splits if_splits)
qed simp

lemma queue_step_ok: "waiting_ok R s \<Longrightarrow> queue_step R s s' \<Longrightarrow> waiting_ok R s'"
  by (erule queue_step.cases)
    (auto simp: service_JoinQueue_def LeaveQueue_def split: sum.splits prod.splits if_splits intro: JoinQueue_ok RemoveFromQueue_ok doBatchMatch_ok)

lemma PopPlayers_exact:
  assumes "waiting_ok R s" "p \<noteq> []" "0 < n" "PopPlayers True R p n s = (Inr us, s')"
  shows "us = (if ZCARD R (getQueueKey p) s < n then [] else take (nat n) (ZRANGE R (getQueueKey p) 0 (- 1) s))"
    "s' = fold (\<lambda>u s. HDEL R userPoolKey u (ZREM R (getQueueKey p) u s)) us s"
  using assms(2-4) by (auto simp: PopPlayers_def pop_script Let_def)

text \<open>Those taken come before those left.\<close>

lemma popped_first:
  assumes "u \<in> set (take n (ZRANGE R k 0 (- 1) s))" "v \<in> set (drop n (ZRANGE R k 0 (- 1) s))"
  shows "(the (ZSCORE R k u s), u) \<le> (the (ZSCORE R k v s), v)"
proof -
  have "sorted_wrt (\<lambda>a b. (the (ZSCORE R k a s), a) \<le> (the (ZSCORE R k b s), b)) (take n (ZRANGE R k 0 (- 1) s) @ drop n (ZRANGE R k 0 (- 1) s))"
    by (simp only: append_take_drop_id zrange_sorted)
  then show ?thesis using assms unfolding sorted_wrt_append by blast
qed

end

sublocale redis \<subseteq> waiting: invariant_system "queue_step R" "waiting_ok R"
  by unfold_locales (rule queue_step_ok)

context redis
begin

lemma queue_reach: "(queue_step R)\<^sup>*\<^sup>* s s' \<Longrightarrow> waiting_ok R s \<Longrightarrow> waiting_ok R s'"
  by (rule waiting.reach_keeps)

end

section \<open>Redis in memory\<close>

record memory =
  hashes :: "((string \<times> string) \<times> string) list"
  zsets :: "((string \<times> string) \<times> int) list"

definition mem_members :: "string \<Rightarrow> memory \<Rightarrow> string list" where
  "mem_members k s = map snd (sort (map (\<lambda>m. (the (map_of (zsets s) (k, m)), m))
     (remdups (map (snd \<circ> fst) (filter (\<lambda>e. fst (fst e) = k) (zsets s))))))"

definition mem_redis :: "memory Redis" where
  "mem_redis = \<lparr>HGET = (\<lambda>h f s. map_of (hashes s) (h, f)), HSET = (\<lambda>h f v s. s\<lparr>hashes := AList.update (h, f) v (hashes s)\<rparr>),
     HDEL = (\<lambda>h f s. s\<lparr>hashes := AList.delete (h, f) (hashes s)\<rparr>),
     ZADD = (\<lambda>k score m s. s\<lparr>zsets := AList.update (k, m) score (zsets s)\<rparr>),
     ZREM = (\<lambda>k m s. s\<lparr>zsets := AList.delete (k, m) (zsets s)\<rparr>),
     ZSCORE = (\<lambda>k m s. map_of (zsets s) (k, m)), ZCARD = (\<lambda>k s. int (length (mem_members k s))),
     ZRANGE = (\<lambda>k a b s. let xs = mem_members k s; b = (if b < 0 then int (length xs) + b else b)
        in take (nat (b + 1 - a)) (drop (nat a) xs))\<rparr>"

lemma mem_members_set: "m \<in> set (mem_members k s) \<longleftrightarrow> map_of (zsets s) (k, m) \<noteq> None"
  by (auto simp: mem_members_def image_iff map_of_eq_None_iff) force+

lemma mem_members_distinct: "distinct (mem_members k s)"
  by (auto simp: mem_members_def distinct_map intro!: inj_onI)

lemma mem_members_sorted:
  "sorted_wrt (\<lambda>a b. (the (map_of (zsets s) (k, a)), a) \<le> (the (map_of (zsets s) (k, b)), b)) (mem_members k s)"
proof -
  let ?key = "\<lambda>m. (the (map_of (zsets s) (k, m)), m)"
  let ?ms = "sort (map ?key (remdups (map (snd \<circ> fst) (filter (\<lambda>e. fst (fst e) = k) (zsets s)))))"
  have "sorted_wrt (\<lambda>x y. ?key (snd x) \<le> ?key (snd y)) ?ms"
    by (rule sorted_wrt_mono_rel [of _ "(\<le>)"]) auto
  then show ?thesis by (simp add: mem_members_def sorted_wrt_map)
qed

interpretation mem: redis mem_redis
  by unfold_locales (simp_all add: mem_redis_def Let_def update_conv' delete_conv' mem_members_set mem_members_distinct mem_members_sorted
      del: less_eq_prod_simp)

definition empty_store :: memory where
  "empty_store = \<lparr>hashes = [], zsets = []\<rparr>"

lemma empty_store_ok: "waiting_ok mem_redis empty_store"
  by (simp add: waiting_ok_def mem_redis_def empty_store_def)

definition one_waiting :: memory where
  "one_waiting = snd (service_JoinQueue True mem_redis (\<lambda>u. Some 700) 5 ''classic:rank4'' ''a'' empty_store)"

lemma one_waiting_step: "queue_step mem_redis empty_store one_waiting"
  unfolding one_waiting_def by (rule queue_step.join) (rule surjective_pairing)

section \<open>Properties of the queues\<close>

text \<open>C29: whatever users join and leave and however the pools pick matches, a user waits in at most one pool, and the pool
  map names it exactly.\<close>

theorem queue_consistent:
  assumes "redis R" "waiting_ok R s" "(queue_step R)\<^sup>*\<^sup>* s s'" "p \<noteq> []" "q \<noteq> []"
  shows "(HGET R userPoolKey u s' = Some p \<longleftrightarrow> ZSCORE R (getQueueKey p) u s' \<noteq> None)
     \<and> (ZSCORE R (getQueueKey p) u s' \<noteq> None \<and> ZSCORE R (getQueueKey q) u s' \<noteq> None \<longrightarrow> p = q)"
proof -
  have "waiting_ok R s'" by (rule redis.queue_reach [OF assms(1,3,2)])
  then show ?thesis using waiting_okD [of R s' p u] waiting_okD [of R s' q u] assms(4,5) by auto
qed

text \<open>C29 on the store in memory after one user joined.\<close>

theorem queue_consistent_witness:
  "ZSCORE mem_redis (getQueueKey ''classic:rank4:hero'') ''a'' one_waiting = Some 5
   \<and> HGET mem_redis userPoolKey ''a'' one_waiting = Some ''classic:rank4:hero''"
proof -
  have "ZSCORE mem_redis (getQueueKey ''classic:rank4:hero'') ''a'' one_waiting = Some 5" by code_simp
  then show ?thesis
    using queue_consistent [OF mem.redis_axioms empty_store_ok r_into_rtranclp [of "queue_step mem_redis", OF one_waiting_step], of "''classic:rank4:hero''" "''classic:rank4:hero''" "''a''"] by simp
qed

lemma popped:
  assumes "redis R" "waiting_ok R s" "p \<noteq> []" "0 < n" "PopPlayers True R p n s = (Inr us, s')"
  shows "(us = [] \<and> s' = s \<or> int (length us) = n) \<and> distinct us
     \<and> (\<forall>u \<in> set us. ZSCORE R (getQueueKey p) u s \<noteq> None \<and> HGET R userPoolKey u s' = None)
     \<and> (\<forall>u q. u \<notin> set us \<longrightarrow> HGET R userPoolKey u s' = HGET R userPoolKey u s \<and> ZSCORE R (getQueueKey q) u s' = ZSCORE R (getQueueKey q) u s)
     \<and> (\<forall>u \<in> set us. \<forall>v. v \<notin> set us \<and> ZSCORE R (getQueueKey p) v s \<noteq> None
          \<longrightarrow> (the (ZSCORE R (getQueueKey p) u s), u) \<le> (the (ZSCORE R (getQueueKey p) v s), v))"
proof -
  let ?zs = "ZRANGE R (getQueueKey p) 0 (- 1) s"
  note x = redis.PopPlayers_exact [OF assms]
  have a: "us = [] \<and> s' = s \<or> int (length us) = n" using x redis.zcard [OF assms(1), of "getQueueKey p" s] assms(4) by auto
  have b: "distinct us" using x(1) redis.zrange_distinct [OF assms(1)] by simp
  have c: "ZSCORE R (getQueueKey p) u s \<noteq> None \<and> HGET R userPoolKey u s' = None" if "u \<in> set us" for u
    using that x redis.take_waiting [OF assms(1)] by (auto simp: redis.drop_players [OF assms(1)] split: if_splits)
  have d: "HGET R userPoolKey u s' = HGET R userPoolKey u s \<and> ZSCORE R (getQueueKey q) u s' = ZSCORE R (getQueueKey q) u s" if "u \<notin> set us" for u q
    using that x(2) by (simp add: redis.drop_players [OF assms(1)])
  have e: "(the (ZSCORE R (getQueueKey p) u s), u) \<le> (the (ZSCORE R (getQueueKey p) v s), v)"
    if "u \<in> set us" "v \<notin> set us" "ZSCORE R (getQueueKey p) v s \<noteq> None" for u v
  proof -
    have us: "us = take (nat n) ?zs" using x(1) that(1) by (auto split: if_splits)
    have "v \<in> set ?zs" using that(3) redis.zrange_members [OF assms(1)] by blast
    then have "v \<in> set (drop (nat n) ?zs)" using that(2) us by (metis Un_iff append_take_drop_id set_append)
    then show ?thesis using redis.popped_first [OF assms(1)] that(1) us by blast
  qed
  show ?thesis by (intro conjI ballI allI impI a b) (use c d e in auto)
qed

text \<open>\<open>PopPlayers\<close> takes nobody, or the number asked for: distinct users that wait in the pool, none of whom comes after
  a user who stays, by score and then by id.  Those taken are in no pool afterwards; everybody else is where they were.\<close>

lemma PopPlayers_spec:
  assumes "redis R" "waiting_ok R s" "p \<noteq> []" "0 < n" "PopPlayers True R p n s = (Inr us, s')"
  shows "(us = [] \<and> s' = s \<or> int (length us) = n) \<and> distinct us
     \<and> (\<forall>u \<in> set us. ZSCORE R (getQueueKey p) u s \<noteq> None \<and> HGET R userPoolKey u s' = None)
     \<and> (\<forall>u q. u \<notin> set us \<longrightarrow> HGET R userPoolKey u s' = HGET R userPoolKey u s \<and> ZSCORE R (getQueueKey q) u s' = ZSCORE R (getQueueKey q) u s)
     \<and> (\<forall>u \<in> set us. \<forall>v. v \<notin> set us \<and> ZSCORE R (getQueueKey p) v s \<noteq> None
          \<longrightarrow> (the (ZSCORE R (getQueueKey p) u s), u) \<le> (the (ZSCORE R (getQueueKey p) v s), v))"
  by (rule popped [OF assms])

text \<open>Leaving undoes joining.  A user who is in no pool and joins one at a positive time is then in that pool; leaving
  takes the user out of it, and everybody else is where they were.\<close>

lemma join_leave:
  assumes "redis R" "waiting_ok R s" "p \<noteq> []" "u \<noteq> []" "HGET R userPoolKey u s = None" "0 < time" "\<not> HasPrefix p rank4Prefix"
  shows "\<exists>s1 s2. service_JoinQueue True R findByID time p u s = (None, s1) \<and> IsInQueue True R u s1 = Inr (True, p)
     \<and> LeaveQueue True R u s1 = (None, s2) \<and> IsInQueue True R u s2 = Inr (False, [])
     \<and> (\<forall>v q. HGET R userPoolKey v s2 = HGET R userPoolKey v s \<and> (v \<noteq> u \<or> q \<noteq> [] \<longrightarrow> ZSCORE R (getQueueKey q) v s2 = ZSCORE R (getQueueKey q) v s))"
proof -
  define s1 where "s1 = HSET R userPoolKey u p (ZADD R (getQueueKey p) time u s)"
  define s2 where "s2 = HDEL R userPoolKey u (ZREM R (getQueueKey p) u s1)"
  note c = redis.commands [OF assms(1)]
  have "service_JoinQueue True R findByID time p u s = (None, s1)"
    using assms(3-5,7) redis.join_script [OF assms(1-3)] by (simp add: service_JoinQueue_def IsInQueue_def resolvePoolID_def JoinQueue_def s1_def)
  moreover have "IsInQueue True R u s1 = Inr (True, p)" using assms(3,4,6) by (simp add: IsInQueue_def s1_def c)
  moreover have "LeaveQueue True R u s1 = (None, s2)"
    using assms(3,4) by (simp add: LeaveQueue_def RemoveFromQueue_def remove_script s2_def) (simp add: s1_def c)
  moreover have "IsInQueue True R u s2 = Inr (False, [])" using assms(4) by (simp add: IsInQueue_def s2_def c)
  moreover have "ZSCORE R (getQueueKey q) u s = None" if "q \<noteq> []" for q using waiting_okD [OF assms(2) that, of u] assms(5) by simp
  then have "\<forall>v q. HGET R userPoolKey v s2 = HGET R userPoolKey v s \<and> (v \<noteq> u \<or> q \<noteq> [] \<longrightarrow> ZSCORE R (getQueueKey q) v s2 = ZSCORE R (getQueueKey q) v s)"
    using assms(5) by (auto simp: s1_def s2_def c)
  ultimately show ?thesis by blast
qed

section \<open>From match to room\<close>

lemma update_new: "k \<notin> fst ` set al \<Longrightarrow> AList.update k v al = al @ [(k, v)]"
  by (induction al) auto

lemma route_players_spec:
  assumes "distinct us" "fst ` set acc \<inter> set us = {}" "route_players router us acc = Some ps"
  shows "\<exists>qs. ps = acc @ qs \<and> map fst qs = us \<and> (\<forall>(u, c) \<in> set qs. router u = Some c \<and> c \<noteq> [])"
  using assms
proof (induction us arbitrary: acc)
  case (Cons u us)
  then obtain c where c: "router u = Some c" "c \<noteq> []" "route_players router us (acc @ [(u, c)]) = Some ps"
    by (auto simp: update_new split: option.splits if_splits)
  have "fst ` set (acc @ [(u, c)]) \<inter> set us = {}" using Cons.prems(1,2) by auto
  then obtain qs where "ps = (acc @ [(u, c)]) @ qs" "map fst qs = us" "\<forall>(u, c) \<in> set qs. router u = Some c \<and> c \<noteq> []"
    using Cons.IH [OF _ _ c(3)] Cons.prems(1) by auto
  then show ?case using c by (intro exI [of _ "(u, c) # qs"]) auto
qed simp

lemma tryMatch_result:
  assumes "redis R" "waiting_ok R s" "tryMatch me R p s = (Inr (Some r), s')" "poolID p \<noteq> []" "0 < requiredPlayers p"
  shows "mrPoolID r = poolID p \<and> int (length (mrPlayers r)) = requiredPlayers p \<and> distinct (map fst (mrPlayers r))
     \<and> (\<forall>(u, c) \<in> set (mrPlayers r). meRouter me u = Some c \<and> c \<noteq> [])
     \<and> (\<forall>u \<in> fst ` set (mrPlayers r). ZSCORE R (getQueueKey (poolID p)) u s \<noteq> None \<and> HGET R userPoolKey u s' = None)"
proof -
  obtain us gn where us: "PopPlayers (meUp me) R (poolID p) (requiredPlayers p) s = (Inr us, s')" "requiredPlayers p \<le> int (length us)"
    "route_players (meRouter me) us [] = Some (mrPlayers r)" "mrPoolID r = poolID p"
    using assms(3,5) by (auto simp: tryMatch_def poll_Match_def split: prod.splits sum.splits if_splits option.splits)
  have up: "PopPlayers True R (poolID p) (requiredPlayers p) s = (Inr us, s')"
    using us(1) assms(4,5) by (cases "meUp me") (auto simp: PopPlayers_def)
  note pop = popped [OF assms(1,2,4,5) up]
  have p: "distinct us" "\<forall>u \<in> set us. ZSCORE R (getQueueKey (poolID p)) u s \<noteq> None \<and> HGET R userPoolKey u s' = None"
    "int (length us) = requiredPlayers p"
    using pop us(2) assms(5) by auto
  obtain qs where q: "mrPlayers r = qs" "map fst qs = us" "\<forall>(u, c) \<in> set qs. meRouter me u = Some c \<and> c \<noteq> []"
    using route_players_spec [OF p(1) _ us(3)] by auto
  moreover have "fst ` set qs = set us" "length qs = length us" using q(2) by (metis list.set_map, metis length_map)
  ultimately show ?thesis using p us(4) by simp
qed

text \<open>Users waiting in one pool of the store in memory, and an attempt with a connector for everybody and one game node.\<close>

definition waiting_in :: "string \<Rightarrow> string list \<Rightarrow> memory" where
  "waiting_in pool us = fold (\<lambda>u s. snd (service_JoinQueue True mem_redis (\<lambda>u. None) 5 pool u s)) us empty_store"

lemma waiting_in_ok: "waiting_ok mem_redis (waiting_in pool us)"
proof -
  have "waiting_ok mem_redis (fold (\<lambda>u s. snd (service_JoinQueue True mem_redis (\<lambda>u. None) 5 pool u s)) us s)" if "waiting_ok mem_redis s" for s
    using that
  proof (induction us arbitrary: s)
    case (Cons u us)
    have "waiting_ok mem_redis (snd (service_JoinQueue True mem_redis (\<lambda>u. None) 5 pool u s))"
      by (rule mem.queue_step_ok [OF Cons.prems queue_step.join [OF surjective_pairing]])
    then show ?case using Cons.IH by simp
  qed simp
  then show ?thesis unfolding waiting_in_def using empty_store_ok .
qed

definition one_node :: match_env where
  "one_node = \<lparr>meUp = True, meRouter = (\<lambda>u. Some ''connector''), meNodes = \<lparr>gameServers = [zero_server\<lparr>Addr := ''g'', Load := 1\<rparr>], nsStrategy = LeastLoad\<rparr>,
     meIntn = (\<lambda>n. 0)\<rparr>"

definition pool_of :: "string \<Rightarrow> MatchPool" where
  "pool_of name = \<lparr>poolID = name, batchSize = 30, requiredPlayers = inferRequiredPlayers name\<rparr>"

text \<open>A match becomes a room.  What a four-player pool matches are four distinct users who waited in it, each with a
  connector, and no longer wait.  When none of them is in a room, the game node that is asked creates the room and routes
  all four to it.\<close>

lemma match_creates_room:
  assumes "redis R" "waiting_ok R s" "tryMatch me R p s = (Inr (Some r), s')" "poolID p \<noteq> []" "requiredPlayers p = 4" "\<not> contains (poolID p) ''casual3''"
    "node_step\<^sup>*\<^sup>* (NewGameContainer nodeID) w" "free_users (mrPlayers r) (wRooms w)" "GetRoom (wRooms w) roomID = None"
  shows "\<exists>rm. service_CreateRoom (riichi en repo) roomID time (Some (mrPlayers r, inferEngineType (mrPoolID r))) (wRooms w)
         = Some (\<lparr>Success = True, respRoomID = roomID, respError = None\<rparr>, rm)
     \<and> length (mrPlayers r) = 4 \<and> (\<forall>u \<in> fst ` set (mrPlayers r). GetPlayerRoom rm u = GetRoom rm roomID \<and> GetPlayerRoom rm u \<noteq> None
          \<and> ZSCORE R (getQueueKey (poolID p)) u s \<noteq> None \<and> HGET R userPoolKey u s' = None)"
proof -
  have t: "mrPoolID r = poolID p" "length (mrPlayers r) = 4" "distinct (map fst (mrPlayers r))"
    "\<forall>u \<in> fst ` set (mrPlayers r). ZSCORE R (getQueueKey (poolID p)) u s \<noteq> None \<and> HGET R userPoolKey u s' = None"
    using tryMatch_result [OF assms(1-4)] assms(5) by auto
  obtain room rm where r: "CreateRoom (riichi en repo) roomID time (mrPlayers r) RIICHI_MAHJONG_4P_ENGINE (wRooms w) = Some (Inr room, rm)"
    "GetRoom rm roomID = Some room" "\<forall>u \<in> fst ` set (mrPlayers r). GetPlayerRoom rm u = Some room"
    using run_node_create [OF node_reach [OF assms(7)] t(2,3) assms(8,9), of en repo time] by blast
  have "roomKey room = roomID" using r(1) by (auto simp: CreateRoom_def NewRoom_def riichi_def Let_def bind_eq_Some_conv split: if_splits option.splits)
  moreover have "mrPlayers r \<noteq> []" using t(2) by auto
  ultimately show ?thesis using r t assms(6) by (simp add: service_CreateRoom_def inferEngineType_def)
qed

text \<open>Matches of three never start.  The players a three-player pool matches have left the queue, and every game node
  rejects the room, since it accepts four players and engine type zero only.\<close>

lemma three_players_lost:
  assumes "redis R" "waiting_ok R s" "tryMatch me R p s = (Inr (Some r), s')" "poolID p \<noteq> []" "requiredPlayers p = inferRequiredPlayers (poolID p)"
    "contains (poolID p) ''casual3''"
  shows "(\<forall>u \<in> fst ` set (mrPlayers r). HGET R userPoolKey u s' = None)
     \<and> (\<exists>resp. service_CreateRoom ops roomID time (Some (mrPlayers r, inferEngineType (mrPoolID r))) rm = Some (resp, rm) \<and> \<not> Success resp)"
proof -
  have "0 < requiredPlayers p" by (simp add: assms(5) inferRequiredPlayers_def)
  note t = tryMatch_result [OF assms(1-4) this]
  then have "inferEngineType (mrPoolID r) = 1" using assms(6) by (simp add: inferEngineType_def)
  then show ?thesis using t by (simp add: service_CreateRoom_def CreateRoom_def)
qed

text \<open>A match that fails loses its players: with too few connectors nobody is matched and nobody waits any more.\<close>

lemma failed_match_loses_players:
  assumes "redis R" "waiting_ok R s" "poolID p \<noteq> []" "0 < requiredPlayers p" "meUp me"
    "PopPlayers True R (poolID p) (requiredPlayers p) s = (Inr us, s')" "us \<noteq> []" "u \<in> set us" "meRouter me u = None"
  shows "tryMatch me R p s = (Inr None, s') \<and> (\<forall>v \<in> set us. HGET R userPoolKey v s' = None)"
proof -
  have "route_players (meRouter me) us acc = None" for acc using assms(8,9) by (induction us arbitrary: acc) (auto split: option.splits)
  then show ?thesis using assms(4-6) popped [OF assms(1-4,6)] by (simp add: tryMatch_def poll_Match_def)
qed

end
