(* ===== verification/Records.thy ===== *)
theory Records
  imports Persist "HOL-Library.AList" Complex_Main
begin

text \<open>
  The repository of game records: \<^verbatim>\<open>game/infrastructure/persistence/game_record_persist.go\<close> with the conversions of
  \<^verbatim>\<open>game/infrastructure/utils/tools.go\<close>.

  \<^item> A value of Go type \<open>interface{}\<close> carries its dynamic type, and a type assertion or a case of a type switch matches that
    type only: \<open>bson\<close> has a constructor for every dynamic type the code puts into a document or gets out of one.  \<open>BM\<close> is
    \<^verbatim>\<open>bson.M\<close>, \<open>BMap\<close> is \<^verbatim>\<open>map[string]interface{}\<close>, \<open>BA\<close> is \<^verbatim>\<open>bson.A\<close> and \<open>BIfaces\<close> is \<^verbatim>\<open>[]interface{}\<close>; Go tells them apart.  A
    failed assertion panics, \<open>None\<close>.
  \<^item> MongoDB is a parameter: the record \<open>Mongo\<close> of the driver's calls.
  \<^item> Times are whole seconds, which a BSON date holds exactly; 0 is the zero time.
\<close>

section \<open>Documents\<close>

datatype bson =
    BNil
  | BInt int | BInt32 int | BInt64 int | BDouble rat
  | BString string | BOid string
  | BTime int | BDateTime int
  | BM "(string \<times> bson) list" | BNilM | BMs "(string \<times> bson) list list"
  | BMap "(string \<times> bson) list" | BMaps "(string \<times> bson) list list"
  | BA "bson list" | BIfaces "bson list" | BStrings "string list" | BInts "int list"

type_synonym doc = "(string \<times> bson) list"

text \<open>A missing key reads as nil.\<close>

definition field :: "string \<Rightarrow> doc \<Rightarrow> bson" where
  "field k d = (case map_of d k of None \<Rightarrow> BNil | Some v \<Rightarrow> v)"

fun as_string :: "bson \<Rightarrow> string option" where
  "as_string (BString s) = Some s"
| "as_string _ = None"

fun as_oid :: "bson \<Rightarrow> string option" where
  "as_oid (BOid s) = Some s"
| "as_oid _ = None"

fun as_M :: "bson \<Rightarrow> doc option" where
  "as_M (BM d) = Some d"
| "as_M BNilM = Some []"
| "as_M _ = None"

fun as_A :: "bson \<Rightarrow> bson list option" where
  "as_A (BA vs) = Some vs"
| "as_A _ = None"

fun as_map :: "bson \<Rightarrow> doc option" where
  "as_map (BMap d) = Some d"
| "as_map _ = None"

section \<open>Conversions\<close>

fun ToTime :: "bson \<Rightarrow> int" where
  "ToTime (BDateTime t) = t"
| "ToTime (BTime t) = t"
| "ToTime _ = 0"

fun ToInt :: "bson \<Rightarrow> int" where
  "ToInt (BInt n) = n"
| "ToInt (BInt32 n) = n"
| "ToInt (BInt64 n) = n"
| "ToInt (BDouble x) = (if 0 \<le> x then \<lfloor>x\<rfloor> else \<lceil>x\<rceil>)"
| "ToInt _ = 0"

fun ToString :: "bson \<Rightarrow> string" where
  "ToString (BString s) = s"
| "ToString _ = []"

fun ToIntArray :: "bson \<Rightarrow> int list" where
  "ToIntArray (BIfaces vs) = take 4 (map ToInt vs @ replicate 4 0)"
| "ToIntArray _ = replicate 4 0"

fun ToStringArray :: "bson \<Rightarrow> string list" where
  "ToStringArray (BIfaces vs) = map ToString vs"
| "ToStringArray (BStrings ss) = ss"
| "ToStringArray _ = []"

section \<open>Entities to documents\<close>

definition tile_doc :: "Tile \<Rightarrow> doc" where
  "tile_doc t = [(''type'', BInt (tType t)), (''id'', BInt (tID t))]"

text \<open>The values the persister puts into the data of an event.\<close>

fun bval_bson :: "bval \<Rightarrow> bson" where
  "bval_bson VNil = BNil"
| "bval_bson (VInt n) = BInt n"
| "bval_bson (VTile t) = BMap (tile_doc t)"
| "bval_bson (VTiles ts) = BMaps (map tile_doc ts)"

definition playersToBson :: "PlayerInfo list \<Rightarrow> bson" where
  "playersToBson players = BMs (map (\<lambda>p. [(''user_id'', BString (piUserID p)), (''seat_index'', BInt (piSeatIndex p)),
     (''nickname'', BString (Nickname p))]) players)"

definition finalResultToBson :: "(PlayerRankingDTO list \<times> int list) option \<Rightarrow> bson" where
  "finalResultToBson result = (case result of
     None \<Rightarrow> BNilM
   | Some (rankings, points) \<Rightarrow> BM [(''rankings'', BMs (map (\<lambda>r. [(''seat_index'', BInt (rkSeatIndex r)), (''user_id'', BString (rkUserID r)),
         (''points'', BInt (rkPoints r)), (''rank'', BInt (Rank r))]) rankings)), (''points'', BInts points)])"

definition eventsToBson :: "RoundEvent list \<Rightarrow> bson" where
  "eventsToBson events = BMs (map (\<lambda>e. [(''sequence'', BInt (int (Sequence e))), (''event_type'', BString (EventType e)),
     (''timestamp'', BTime (Timestamp e)), (''seat_index'', BInt (evSeatIndex e)), (''data'', BMap (map (\<lambda>(k, v). (k, bval_bson v)) (Data e)))]) events)"

definition roundResultToBson :: "RoundResult option \<Rightarrow> bson" where
  "roundResultToBson result = (case result of
     None \<Rightarrow> BNilM
   | Some r \<Rightarrow> BM [(''end_type'', BString (EndType r)),
       (''claims'', BMs (map (\<lambda>c. [(''winner_seat'', BInt (dWinnerSeat c)), (''loser_seat'', BInt (dLoserSeat c)),
          (''win_tile'', BM (tile_doc (dWinTile c))), (''han'', BInt (dHan c)), (''fu'', BInt (dFu c)), (''yaku'', BStrings (dYaku c)),
          (''points'', BInt (dPoints c))]) (Claims r))),
       (''delta'', BInts (Delta r)), (''points'', BInts (rPoints r)), (''reason'', BString (Reason r)), (''next_dealer'', BInt (NextDealer r))])"

definition gameRecordDoc :: "GameRecord \<Rightarrow> doc" where
  "gameRecordDoc record = [(''_id'', BOid (grID record)), (''room_id'', BString (grRoomID record)), (''game_type'', BString (GameType record)),
     (''players'', playersToBson (grPlayers record)), (''start_time'', BTime (grStartTime record)), (''end_time'', BTime (grEndTime record)),
     (''duration'', BInt (grDuration record)), (''final_result'', finalResultToBson (FinalResult record)), (''status'', BString (Status record)),
     (''created_at'', BTime (grCreatedAt record))]"

definition roundRecordDoc :: "RoundRecord \<Rightarrow> doc" where
  "roundRecordDoc rr = [(''_id'', BOid (rrID rr)), (''game_record_id'', BOid (GameRecordID rr)), (''round_number'', BInt (rrRoundNumber rr)),
     (''round_wind'', BString (rrRoundWind rr)), (''dealer_index'', BInt (rrDealerIndex rr)), (''honba'', BInt (rrHonba rr)),
     (''events'', eventsToBson (Events rr)), (''round_result'', roundResultToBson (rrResult rr)), (''start_time'', BTime (rrStartTime rr)),
     (''end_time'', BTime (rrEndTime rr)), (''duration'', BInt (rrDuration rr)), (''created_at'', BTime (rrCreatedAt rr))]"

section \<open>Documents to entities\<close>

text \<open>The loops over the elements of an array panic when one of them does.\<close>

definition player_of_doc :: "bson \<Rightarrow> PlayerInfo option" where
  "player_of_doc p = do {
     m \<leftarrow> as_M p;
     u \<leftarrow> as_string (field ''user_id'' m);
     Some \<lparr>piUserID = u, piSeatIndex = ToInt (field ''seat_index'' m), Nickname = ToString (field ''nickname'' m)\<rparr>
   }"

definition ranking_of_doc :: "bson \<Rightarrow> PlayerRankingDTO option" where
  "ranking_of_doc rr = do {
     m \<leftarrow> as_M rr;
     u \<leftarrow> as_string (field ''user_id'' m);
     Some \<lparr>rkSeatIndex = ToInt (field ''seat_index'' m), rkUserID = u, rkPoints = ToInt (field ''points'' m), Rank = ToInt (field ''rank'' m)\<rparr>
   }"

definition finalResult_of_doc :: "bson \<Rightarrow> (PlayerRankingDTO list \<times> int list) option option" where
  "finalResult_of_doc v =
     (if v = BNil then Some None
      else do {
        m \<leftarrow> as_M v;
        rankingsDoc \<leftarrow> as_A (field ''rankings'' m);
        rankings \<leftarrow> those (map ranking_of_doc rankingsDoc);
        Some (Some (rankings, ToIntArray (field ''points'' m)))
      })"

definition docToGameRecord :: "doc \<Rightarrow> GameRecord option" where
  "docToGameRecord d = do {
     playersDoc \<leftarrow> as_A (field ''players'' d);
     players \<leftarrow> those (map player_of_doc playersDoc);
     finalResult \<leftarrow> finalResult_of_doc (field ''final_result'' d);
     oid \<leftarrow> as_oid (field ''_id'' d);
     room \<leftarrow> as_string (field ''room_id'' d);
     gameType \<leftarrow> as_string (field ''game_type'' d);
     status \<leftarrow> as_string (field ''status'' d);
     Some \<lparr>grID = oid, grRoomID = room, GameType = gameType, grPlayers = players, grStartTime = ToTime (field ''start_time'' d),
       grEndTime = ToTime (field ''end_time'' d), grDuration = ToInt (field ''duration'' d), FinalResult = finalResult, Status = status,
       grCreatedAt = ToTime (field ''created_at'' d)\<rparr>
   }"

text \<open>An event read back keeps its data as the document it is; the entity of the code holds it as \<^verbatim>\<open>map[string]interface{}\<close>.\<close>

record EventRead =
  erSequence :: int
  erEventType :: string
  erTimestamp :: int
  erSeatIndex :: int
  erData :: doc

definition event_of_doc :: "bson \<Rightarrow> EventRead option" where
  "event_of_doc e = do {
     m \<leftarrow> as_M e;
     t \<leftarrow> as_string (field ''event_type'' m);
     data \<leftarrow> as_map (field ''data'' m);
     Some \<lparr>erSequence = ToInt (field ''sequence'' m), erEventType = t, erTimestamp = ToTime (field ''timestamp'' m),
       erSeatIndex = ToInt (field ''seat_index'' m), erData = data\<rparr>
   }"

definition claim_of_doc :: "bson \<Rightarrow> HuClaimDTO option" where
  "claim_of_doc c = do {
     m \<leftarrow> as_M c;
     t \<leftarrow> as_M (field ''win_tile'' m);
     Some \<lparr>dWinnerSeat = ToInt (field ''winner_seat'' m), dLoserSeat = ToInt (field ''loser_seat'' m),
       dWinTile = \<lparr>tType = ToInt (field ''type'' t), tID = ToInt (field ''id'' t)\<rparr>, dHan = ToInt (field ''han'' m), dFu = ToInt (field ''fu'' m),
       dYaku = ToStringArray (field ''yaku'' m), dPoints = ToInt (field ''points'' m)\<rparr>
   }"

definition roundResult_of_doc :: "bson \<Rightarrow> RoundResult option option" where
  "roundResult_of_doc v =
     (if v = BNil then Some None
      else do {
        m \<leftarrow> as_M v;
        claimsDoc \<leftarrow> as_A (field ''claims'' m);
        claims \<leftarrow> those (map claim_of_doc claimsDoc);
        endType \<leftarrow> as_string (field ''end_type'' m);
        Some (Some \<lparr>EndType = endType, Claims = claims, Delta = ToIntArray (field ''delta'' m), rPoints = ToIntArray (field ''points'' m),
          Reason = ToString (field ''reason'' m), NextDealer = ToInt (field ''next_dealer'' m)\<rparr>)
      })"

text \<open>A round read back: the record without its events, and the events.\<close>

definition docToRoundRecord :: "doc \<Rightarrow> (RoundRecord \<times> EventRead list) option" where
  "docToRoundRecord d = do {
     eventsDoc \<leftarrow> as_A (field ''events'' d);
     events \<leftarrow> those (map event_of_doc eventsDoc);
     roundResult \<leftarrow> roundResult_of_doc (field ''round_result'' d);
     oid \<leftarrow> as_oid (field ''_id'' d);
     gid \<leftarrow> as_oid (field ''game_record_id'' d);
     wind \<leftarrow> as_string (field ''round_wind'' d);
     Some (\<lparr>rrID = oid, GameRecordID = gid, rrRoundNumber = ToInt (field ''round_number'' d), rrRoundWind = wind,
       rrDealerIndex = ToInt (field ''dealer_index'' d), rrHonba = ToInt (field ''honba'' d), Events = [], rrResult = roundResult,
       rrStartTime = ToTime (field ''start_time'' d), rrEndTime = ToTime (field ''end_time'' d), rrDuration = ToInt (field ''duration'' d),
       rrCreatedAt = ToTime (field ''created_at'' d)\<rparr>, events)
   }"

section \<open>The repository\<close>

datatype insert_error = DuplicateKey | InsertFailed
datatype find_error = ErrNoDocuments | FindFailed
datatype repo_error = ErrMongodb | ErrGameRecordNotFound | ErrFind

text \<open>The calls of the driver: insertion of one or more documents, the first match of a filter, and the matches in the order of a
  key, a page of them; a document the cursor cannot decode is \<open>None\<close>.  \<open>UpdateOne\<close> sets fields of the first match and returns the
  number of matches, \<open>None\<close> for an error.\<close>

record 'db Mongo =
  InsertOne :: "string \<Rightarrow> doc \<Rightarrow> 'db \<Rightarrow> insert_error option \<times> 'db"
  InsertMany :: "string \<Rightarrow> doc list \<Rightarrow> 'db \<Rightarrow> insert_error option \<times> 'db"
  FindOne :: "string \<Rightarrow> doc \<Rightarrow> 'db \<Rightarrow> find_error + doc"
  FindAll :: "string \<Rightarrow> doc \<Rightarrow> string \<times> int \<Rightarrow> (int \<times> int) option \<Rightarrow> 'db \<Rightarrow> find_error + doc option list"
  UpdateOne :: "string \<Rightarrow> doc \<Rightarrow> doc \<Rightarrow> 'db \<Rightarrow> int option \<times> 'db"

definition SaveGameRecord :: "'db Mongo \<Rightarrow> GameRecord \<Rightarrow> 'db \<Rightarrow> repo_error option \<times> 'db" where
  "SaveGameRecord M record db = (case InsertOne M ''game_records'' (gameRecordDoc record) db of
     (err, db) \<Rightarrow> (if err = None then None else Some ErrMongodb, db))"

definition find_one :: "'db Mongo \<Rightarrow> string \<Rightarrow> doc \<Rightarrow> (doc \<Rightarrow> 'a option) \<Rightarrow> 'db \<Rightarrow> (repo_error + 'a) option" where
  "find_one M collection filt read db = (case FindOne M collection filt db of
     Inl ErrNoDocuments \<Rightarrow> Some (Inl ErrGameRecordNotFound)
   | Inl FindFailed \<Rightarrow> Some (Inl ErrFind)
   | Inr d \<Rightarrow> map_option Inr (read d))"

text \<open>The loop over a cursor skips what does not decode.\<close>

definition find_all :: "(doc \<Rightarrow> 'a option) \<Rightarrow> find_error + doc option list \<Rightarrow> (repo_error + 'a list) option" where
  "find_all read r = (case r of
     Inl e \<Rightarrow> Some (Inl ErrFind)
   | Inr ds \<Rightarrow> map_option Inr (those (map read (List.map_filter id ds))))"

definition FindGameRecord :: "'db Mongo \<Rightarrow> string \<Rightarrow> 'db \<Rightarrow> (repo_error + GameRecord) option" where
  "FindGameRecord M recordID = find_one M ''game_records'' [(''_id'', BOid recordID)] docToGameRecord"

definition FindGameRecordsByUser :: "'db Mongo \<Rightarrow> string \<Rightarrow> int \<Rightarrow> int \<Rightarrow> 'db \<Rightarrow> (repo_error + GameRecord list) option" where
  "FindGameRecordsByUser M userID limit offset db = find_all docToGameRecord
     (FindAll M ''game_records'' [(''players.user_id'', BString userID)] (''start_time'', -1) (Some (limit, offset)) db)"

definition FindGameRecordsByRoom :: "'db Mongo \<Rightarrow> string \<Rightarrow> 'db \<Rightarrow> (repo_error + GameRecord) option" where
  "FindGameRecordsByRoom M roomID = find_one M ''game_records'' [(''room_id'', BString roomID)] docToGameRecord"

definition SaveRoundRecord :: "'db Mongo \<Rightarrow> RoundRecord \<Rightarrow> 'db \<Rightarrow> repo_error option \<times> 'db" where
  "SaveRoundRecord M rr db = (case InsertOne M ''round_records'' (roundRecordDoc rr) db of
     (err, db) \<Rightarrow> (if err = None then None else Some ErrMongodb, db))"

text \<open>The slice of rounds may hold nil pointers, which are skipped.\<close>

definition SaveRoundRecords :: "'db Mongo \<Rightarrow> RoundRecord option list \<Rightarrow> 'db \<Rightarrow> repo_error option \<times> 'db" where
  "SaveRoundRecords M rrs db =
     (let docs = map roundRecordDoc (List.map_filter id rrs)
      in if rrs = [] \<or> docs = [] then (None, db)
         else case InsertMany M ''round_records'' docs db of (err, db) \<Rightarrow> (if err = None then None else Some ErrMongodb, db))"

definition FindRoundRecords :: "'db Mongo \<Rightarrow> string \<Rightarrow> 'db \<Rightarrow> (repo_error + (RoundRecord \<times> EventRead list) list) option" where
  "FindRoundRecords M gameRecordID db = find_all docToRoundRecord
     (FindAll M ''round_records'' [(''game_record_id'', BOid gameRecordID)] (''round_number'', 1) None db)"

definition FindRoundRecord :: "'db Mongo \<Rightarrow> string \<Rightarrow> int \<Rightarrow> 'db \<Rightarrow> (repo_error + RoundRecord \<times> EventRead list) option" where
  "FindRoundRecord M gameRecordID roundNumber = find_one M ''round_records''
     [(''game_record_id'', BOid gameRecordID), (''round_number'', BInt roundNumber)] docToRoundRecord"

text \<open>The goroutine of \<open>FinalizeGame\<close>: the record, then all rounds; an error ends it.\<close>

definition save_game :: "'db Mongo \<Rightarrow> GameRecord \<times> RoundRecord list \<Rightarrow> 'db \<Rightarrow> 'db" where
  "save_game M g db = (case SaveGameRecord M (fst g) db of
     (None, db) \<Rightarrow> snd (SaveRoundRecords M (map Some (snd g)) db)
   | (Some e, db) \<Rightarrow> db)"

text \<open>\<open>SaveCurrentRound\<close> of the persister: nothing to save is no error.\<close>

definition SaveCurrentRound :: "'db Mongo \<Rightarrow> GamePersister \<Rightarrow> 'db \<Rightarrow> repo_error option \<times> 'db" where
  "SaveCurrentRound M gp db =
     (if pClosed gp then (None, db)
      else case currentRound gp of
        None \<Rightarrow> (None, db)
      | Some i \<Rightarrow> SaveRoundRecord M (rounds gp ! i) db)"

end
