(* ===== verification/Protocol.thy ===== *)
theory Protocol
  imports Prelude "HOL-Library.Word"
begin

text \<open>
  The wire protocol between client and connector, \<^verbatim>\<open>connector/infrastructure/message/protocol/protocal.go\<close>
  and \<^verbatim>\<open>tools.go\<close> (the game and march nodes carry the same files).

  \<^item> A byte is an \<open>8 word\<close>, \<open>uint\<close> a \<open>64 word\<close> and a route code a \<open>16 word\<close>; a Go string is its bytes, a
    \<open>string\<close>.
  \<^item> A byte slice is its bytes together with the spare bytes of its array behind them: Go checks
    \<open>body[a:b]\<close> against the capacity, and \<open>body[i]\<close> against the length.  A failed check is a panic, \<open>None\<close>.
  \<^item> The package variables \<open>routes\<close> and \<open>codes\<close> are the record \<open>dictionary\<close>, passed and returned.
  \<^item> JSON and zlib are parameters: \<open>unmarshal\<close> parses the body of a handshake, with the dictionary in the
    order Go visits it, and \<open>inflate\<close> unpacks compressed data.
\<close>

unbundle bit_operations_syntax

type_synonym byte = "8 word"
type_synonym PackageType = "8 word"
type_synonym MessageType = "8 word"

definition PkgNone :: PackageType where [simp]: "PkgNone = 0x00"
definition Handshake :: PackageType where [simp]: "Handshake = 0x01"
definition HandshakeAck :: PackageType where [simp]: "HandshakeAck = 0x02"
definition Heartbeat :: PackageType where [simp]: "Heartbeat = 0x03"
definition DataPkg :: PackageType where [simp]: "DataPkg = 0x04"
definition Kick :: PackageType where [simp]: "Kick = 0x05"

definition MsgRequest :: MessageType where [simp]: "MsgRequest = 0x00"
definition MsgNotify :: MessageType where [simp]: "MsgNotify = 0x01"
definition MsgResponse :: MessageType where [simp]: "MsgResponse = 0x02"
definition MsgPush :: MessageType where [simp]: "MsgPush = 0x03"

definition RouteCompressMask :: byte where [simp]: "RouteCompressMask = 0x01"
definition TypeMask :: byte where [simp]: "TypeMask = 0x07"
definition GZIPMask :: byte where [simp]: "GZIPMask = 0x10"
definition ErrorMask :: byte where [simp]: "ErrorMask = 0x20"

definition HeaderLen :: nat where [simp]: "HeaderLen = 4"
definition MaxPacketSize :: nat where [simp]: "MaxPacketSize = 2 ^ 24"

datatype proto_error =
    UnsupportedPackageType | BodyTooBig | BadFormat | InvalidType | InvalidTransfer | RouteNotFound | BadZlib | BadJson

record Message =
  msgType :: MessageType
  ID :: "64 word"
  msgRoute :: string
  msgData :: "byte list option"
  routeCompressed :: bool
  msgError :: bool

record Sys =
  sysType :: string
  sysVersion :: string
  ProtoVersion :: byte
  sysHeartbeat :: byte
  Dict :: "(string \<times> 16 word) list option"
  Serializer :: string

datatype PacketBody = NoBody | HandshakeBody Sys | MessageBody Message

record Packet =
  pktType :: PackageType
  pktLen :: "32 word"
  pktBody :: PacketBody

record dictionary =
  routes :: "string \<rightharpoonup> 16 word"
  codes :: "16 word \<rightharpoonup> string"

definition no_routes :: dictionary where
  "no_routes = \<lparr>routes = Map.empty, codes = Map.empty\<rparr>"

section \<open>Bytes\<close>

definition bytes_of_string :: "string \<Rightarrow> byte list" where
  "bytes_of_string s = map (\<lambda>c. word_of_nat (of_char c)) s"

definition string_of_bytes :: "byte list \<Rightarrow> string" where
  "string_of_bytes bs = map (\<lambda>b. char_of (unat b)) bs"

text \<open>The slice expression \<open>xs[a:b]\<close>.\<close>

definition slice_at :: "'a list \<Rightarrow> 'a list \<Rightarrow> nat \<Rightarrow> nat \<Rightarrow> 'a list option" where
  "slice_at xs spare a b =
     (if a \<le> b \<and> b \<le> length xs + length spare then Some (take (b - a) (drop a (xs @ spare))) else None)"

definition IntToBytes :: "int \<Rightarrow> byte list" where
  "IntToBytes n =
     [word_of_int (drop_bit 16 n AND 0xFF), word_of_int (drop_bit 8 n AND 0xFF), word_of_int (n AND 0xFF)]"

definition BytesToInt :: "byte list \<Rightarrow> int" where
  "BytesToInt b =
     (if 3 \<le> length b then push_bit 16 (uint (b ! 0)) OR push_bit 8 (uint (b ! 1)) OR uint (b ! 2)
      else fold (\<lambda>v result. push_bit 8 result + uint v) b 0)"

section \<open>Packets\<close>

definition Wrap :: "PackageType \<Rightarrow> byte list \<Rightarrow> proto_error + byte list" where
  "Wrap packageType body =
     (if packageType = PkgNone then Inl UnsupportedPackageType
      else if MaxPacketSize < length body then Inl BodyTooBig
      else Inr (packageType # IntToBytes (int (length body)) @ body))"

definition ParseBody :: "Packet \<Rightarrow> Message option option" where
  "ParseBody p =
     (if pktType p = DataPkg then (case pktBody p of MessageBody m \<Rightarrow> Some (Some m) | _ \<Rightarrow> None) else Some None)"

section \<open>Encoding\<close>

definition messageHasRoute :: "MessageType \<Rightarrow> bool" where
  "messageHasRoute t \<longleftrightarrow> t = MsgRequest \<or> t = MsgNotify \<or> t = MsgPush"

definition messageHasID :: "MessageType \<Rightarrow> bool" where
  "messageHasID t \<longleftrightarrow> t = MsgRequest \<or> t = MsgResponse"

text \<open>Seven bits of the id per byte, the low ones first; the top bit says that more follow.\<close>

lemma drop7_less: "drop_bit 7 x \<noteq> 0 \<Longrightarrow> unat (drop_bit 7 x) < unat (x :: 64 word)"
proof -
  have "unat (drop_bit 7 x) = unat x div 128" by (simp add: drop_bit_eq_div unat_div)
  moreover assume "drop_bit 7 x \<noteq> 0"
  then have "0 < unat (drop_bit 7 x)" by (simp add: unat_gt_0)
  ultimately show ?thesis by linarith
qed

function encodeMessageID :: "64 word \<Rightarrow> byte list" where
  "encodeMessageID n =
     (let b = ucast (n mod 128); n' = drop_bit 7 n
      in if n' \<noteq> 0 then (b + 128) # encodeMessageID n' else [b])"
  by pat_completeness auto
termination
  by (relation "measure unat") (auto simp: drop7_less)

declare encodeMessageID.simps [simp del]

definition encodeMessageFlag :: "MessageType \<Rightarrow> bool \<Rightarrow> byte" where
  "encodeMessageFlag t compressed = (let flag = push_bit 1 t in if compressed then flag OR RouteCompressMask else flag)"

definition encodeMessageRoute :: "16 word \<Rightarrow> bool \<Rightarrow> string \<Rightarrow> byte list" where
  "encodeMessageRoute code compressed route =
     (if compressed then [ucast (drop_bit 8 code AND 0xFF), ucast (code AND 0xFF)]
      else word_of_nat (length route) # bytes_of_string route)"

definition MessageEncode :: "dictionary \<Rightarrow> Message \<Rightarrow> byte list" where
  "MessageEncode d m =
     (let (code, compressed) = (case routes d (msgRoute m) of Some c \<Rightarrow> (c, True) | None \<Rightarrow> (0, False))
      in encodeMessageFlag (msgType m) compressed
         # (if messageHasID (msgType m) then encodeMessageID (ID m) else [])
         @ (if messageHasRoute (msgType m) then encodeMessageRoute code compressed (msgRoute m) else [])
         @ (case msgData m of None \<Rightarrow> [] | Some data \<Rightarrow> data))"

section \<open>Decoding\<close>

text \<open>The loop over the bytes behind the flag, \<open>k\<close> of them read: the id and the number of bytes it took, none if
  the body ends before the id does.\<close>

fun decodeMessageID :: "byte list \<Rightarrow> nat \<Rightarrow> 64 word \<Rightarrow> 64 word \<times> nat option" where
  "decodeMessageID [] k n = (n, None)"
| "decodeMessageID (b # bs) k n =
     (let n' = n + push_bit (7 * k) (ucast (b AND 0x7F))
      in if b < 128 then (n', Some (k + 1)) else decodeMessageID bs (k + 1) n')"

definition GetRoute :: "dictionary \<Rightarrow> 16 word \<Rightarrow> string option" where
  "GetRoute d code = codes d code"

definition Uint16 :: "byte list \<Rightarrow> 16 word" where
  "Uint16 bs = push_bit 8 (ucast (bs ! 0)) OR ucast (bs ! 1)"

text \<open>The route and the offset behind it.\<close>

definition decodeMessageRoute :: "dictionary \<Rightarrow> bool \<Rightarrow> byte list \<Rightarrow> byte list \<Rightarrow> nat \<Rightarrow> (proto_error + string \<times> nat) option" where
  "decodeMessageRoute d compressed body spare offset =
     (if compressed then do {
        bs \<leftarrow> slice_at body spare offset (offset + 2);
        Some (case GetRoute d (Uint16 bs) of None \<Rightarrow> Inl RouteNotFound | Some route \<Rightarrow> Inr (route, offset + 2))
      }
      else do {
        rl \<leftarrow> idx body (int offset);
        bs \<leftarrow> slice_at body spare (offset + 1) (offset + 1 + unat rl);
        Some (Inr (string_of_bytes bs, offset + 1 + unat rl))
      })"

definition MessageDecode ::
  "(byte list \<Rightarrow> byte list option) \<Rightarrow> dictionary \<Rightarrow> byte list \<Rightarrow> byte list \<Rightarrow> (proto_error + Message) option" where
  "MessageDecode inflate d body spare = do {
     flag \<leftarrow> idx body 0;
     let t = drop_bit 1 flag AND TypeMask;
     if t < MsgRequest \<or> MsgPush < t then Some (Inl InvalidType)
     else
       let (n, offset) = (if t = MsgRequest \<or> t = MsgResponse
             then (case decodeMessageID (drop 1 body) 0 0 of (n, None) \<Rightarrow> (n, 1) | (n, Some l) \<Rightarrow> (n, 1 + l))
             else (0, 1))
       in if length body < offset then Some (Inl InvalidTransfer)
       else do {
         r \<leftarrow> (if t = MsgRequest \<or> t = MsgNotify \<or> t = MsgPush
               then decodeMessageRoute d (flag AND RouteCompressMask = 1) body spare offset
               else Some (Inr ([], offset)));
         case r of Inl e \<Rightarrow> Some (Inl e)
         | Inr (route, offset) \<Rightarrow>
             if length body < offset then Some (Inl InvalidTransfer)
             else
               let m = \<lparr>msgType = t, ID = n, msgRoute = route, msgData = Some (drop offset body),
                        routeCompressed = messageHasRoute t \<and> flag AND RouteCompressMask = 1,
                        msgError = (flag AND ErrorMask = ErrorMask)\<rparr>
               in if flag AND GZIPMask = GZIPMask
                  then Some (case inflate (drop offset body) of None \<Rightarrow> Inl BadZlib | Some data \<Rightarrow> Inr (m\<lparr>msgData := Some data\<rparr>))
                  else Some (Inr m)
       }
   }"

section \<open>The route dictionary\<close>

text \<open>The white space \<open>strings.TrimSpace\<close> removes, as UTF-8.\<close>

definition go_spaces :: "string list" where
  "go_spaces =
    [[CHR 0x09], [CHR 0x0A], [CHR 0x0B], [CHR 0x0C], [CHR 0x0D], [CHR 0x20],
     [CHR 0xC2, CHR 0x85], [CHR 0xC2, CHR 0xA0], [CHR 0xE1, CHR 0x9A, CHR 0x80],
     [CHR 0xE2, CHR 0x80, CHR 0x80], [CHR 0xE2, CHR 0x80, CHR 0x81], [CHR 0xE2, CHR 0x80, CHR 0x82], [CHR 0xE2, CHR 0x80, CHR 0x83],
     [CHR 0xE2, CHR 0x80, CHR 0x84], [CHR 0xE2, CHR 0x80, CHR 0x85], [CHR 0xE2, CHR 0x80, CHR 0x86], [CHR 0xE2, CHR 0x80, CHR 0x87],
     [CHR 0xE2, CHR 0x80, CHR 0x88], [CHR 0xE2, CHR 0x80, CHR 0x89], [CHR 0xE2, CHR 0x80, CHR 0x8A], [CHR 0xE2, CHR 0x80, CHR 0xA8],
     [CHR 0xE2, CHR 0x80, CHR 0xA9], [CHR 0xE2, CHR 0x80, CHR 0xAF],
     [CHR 0xE2, CHR 0x81, CHR 0x9F], [CHR 0xE3, CHR 0x80, CHR 0x80]]"

definition space_at_front :: "string \<Rightarrow> nat" where
  "space_at_front s = (case filter (\<lambda>w. take (length w) s = w) go_spaces of [] \<Rightarrow> 0 | w # ws \<Rightarrow> length w)"

definition space_at_end :: "string \<Rightarrow> nat" where
  "space_at_end s = (case filter (\<lambda>w. length w \<le> length s \<and> drop (length s - length w) s = w) go_spaces of [] \<Rightarrow> 0 | w # ws \<Rightarrow> length w)"

text \<open>Every round removes a byte or is the last.\<close>

primrec trim_front :: "nat \<Rightarrow> string \<Rightarrow> string" where
  "trim_front 0 s = s"
| "trim_front (Suc n) s = (if space_at_front s = 0 then s else trim_front n (drop (space_at_front s) s))"

primrec trim_end :: "nat \<Rightarrow> string \<Rightarrow> string" where
  "trim_end 0 s = s"
| "trim_end (Suc n) s = (if space_at_end s = 0 then s else trim_end n (take (length s - space_at_end s) s))"

definition TrimSpace :: "string \<Rightarrow> string" where
  "TrimSpace s = (let t = trim_front (length s) s in trim_end (length t) t)"

fun SetDictionary :: "(string \<times> 16 word) list \<Rightarrow> dictionary \<Rightarrow> dictionary" where
  "SetDictionary [] d = d"
| "SetDictionary ((route, code) # dict) d =
     (let r = TrimSpace route
      in if routes d r \<noteq> None then d
         else if codes d code \<noteq> None then d
         else SetDictionary dict (d\<lparr>routes := (routes d)(r \<mapsto> code), codes := (codes d)(code \<mapsto> r)\<rparr>))"

definition Decode ::
  "(byte list \<Rightarrow> Sys option) \<Rightarrow> (byte list \<Rightarrow> byte list option) \<Rightarrow> dictionary \<Rightarrow> byte list \<Rightarrow> byte list
   \<Rightarrow> ((proto_error + Packet) \<times> dictionary) option" where
  "Decode unmarshal inflate d payload spare =
     (if length payload < HeaderLen then Some (Inl BadFormat, d)
      else
        let p = \<lparr>pktType = payload ! 0, pktLen = word_of_int (BytesToInt (take 3 (drop 1 payload))), pktBody = NoBody\<rparr>;
            body = drop HeaderLen payload
        in if pktType p = Handshake
           then Some (case unmarshal body of
                  None \<Rightarrow> (Inl BadJson, d)
                | Some sys \<Rightarrow> (Inr (p\<lparr>pktBody := HandshakeBody sys\<rparr>),
                    case Dict sys of None \<Rightarrow> d | Some dict \<Rightarrow> SetDictionary dict d))
           else if pktType p = DataPkg
           then do {
             r \<leftarrow> MessageDecode inflate d body spare;
             Some (case r of Inl e \<Rightarrow> (Inl e, d) | Inr m \<Rightarrow> (Inr (p\<lparr>pktBody := MessageBody m\<rparr>), d))
           }
           else Some (Inr p, d))"

end
