(* ===== verification/Auth.thy ===== *)
theory Auth
  imports Records Protocol Match
begin

text \<open>
  The auth node: \<^verbatim>\<open>auth/domain/vo\<close>, \<^verbatim>\<open>auth/domain/entity/user.go\<close>, \<^verbatim>\<open>auth/infrastructure/persistence/user_persist.go\<close>,
  \<^verbatim>\<open>auth/application/service/auth_service.go\<close> and \<^verbatim>\<open>auth/interfaces/grpc/provider.go\<close>.

  \<^item> bcrypt is a parameter: \<open>hash\<close>, which may fail, and \<open>compare\<close>.  Object ids, their printed form, the clock and the replies
    of Redis are parameters as well; MongoDB is the record \<open>Mongo\<close>.
  \<^item> The ranking of a score is the one of \<open>Match\<close>: the two nodes have the same table.
\<close>

section \<open>Accounts and passwords\<close>

datatype auth_error =
    EmptyAccount | ShortAccount | ShortPassword | HashFailed
  | ErrAccountAlreadyExists | ErrUserNotFound | ErrInvalidPassword | ErrInvalidSMSCode | AuthErrMongodb | RedisFailed | QueryFailed

definition NewAccount :: "string \<Rightarrow> auth_error + string" where
  "NewAccount account =
     (let account = TrimSpace account
      in if account = [] then Inl EmptyAccount
         else if length account < 3 then Inl ShortAccount
         else Inr account)"

definition NewPassword :: "(string \<Rightarrow> string option) \<Rightarrow> string \<Rightarrow> auth_error + string" where
  "NewPassword hash plainPassword =
     (if length plainPassword < 6 then Inl ShortPassword
      else case hash plainPassword of None \<Rightarrow> Inl HashFailed | Some h \<Rightarrow> Inr h)"

section \<open>Users\<close>

record User =
  usID :: string
  Account :: string
  Password :: string
  usRanking :: int
  usCreatedAt :: int
  usUpdatedAt :: int
  usLastLogin :: int

definition NewUser :: "(string \<Rightarrow> string option) \<Rightarrow> string \<Rightarrow> int \<Rightarrow> string \<Rightarrow> string \<Rightarrow> auth_error + User" where
  "NewUser hash oid now account password = (case NewAccount account of
     Inl e \<Rightarrow> Inl e
   | Inr acc \<Rightarrow> (case NewPassword hash password of
       Inl e \<Rightarrow> Inl e
     | Inr pwd \<Rightarrow> Inr \<lparr>usID = oid, Account = acc, Password = pwd, usRanking = 0, usCreatedAt = now, usUpdatedAt = now, usLastLogin = now\<rparr>))"

definition VerifyPassword :: "(string \<Rightarrow> string \<Rightarrow> bool) \<Rightarrow> string \<Rightarrow> User \<Rightarrow> bool" where
  "VerifyPassword compare plainPassword u = compare (Password u) plainPassword"

definition user_UpdateLastLogin :: "int \<Rightarrow> User \<Rightarrow> User" where
  "user_UpdateLastLogin now u = u\<lparr>usLastLogin := now, usUpdatedAt := now\<rparr>"

definition GetRanking :: "User \<Rightarrow> RankingType" where
  "GetRanking u = GetRankingByScore (usRanking u)"

definition UpdateRanking :: "int \<Rightarrow> int \<Rightarrow> User \<Rightarrow> User" where
  "UpdateRanking now ranking u = u\<lparr>usRanking := (if ranking < 0 then 0 else ranking), usUpdatedAt := now\<rparr>"

section \<open>The user repository\<close>

definition userDoc :: "int \<Rightarrow> User \<Rightarrow> doc" where
  "userDoc seqID u = [(''_id'', BOid (usID u)), (''user_no'', BInt64 seqID), (''account'', BString (Account u)), (''password_hash'', BString (Password u)),
     (''ranking'', BInt (usRanking u)), (''created_at'', BTime (usCreatedAt u)), (''updated_at'', BTime (usUpdatedAt u)), (''last_login'', BTime (usLastLogin u))]"

text \<open>\<open>seqID\<close> is the reply of Redis to the increment of the user number.\<close>

definition user_Save :: "'db Mongo \<Rightarrow> int option \<Rightarrow> User \<Rightarrow> 'db \<Rightarrow> auth_error option \<times> 'db" where
  "user_Save M seqID u db = (case seqID of
     None \<Rightarrow> (Some RedisFailed, db)
   | Some n \<Rightarrow> (case InsertOne M ''users'' (userDoc n u) db of
       (None, db) \<Rightarrow> (None, db)
     | (Some DuplicateKey, db) \<Rightarrow> (Some ErrAccountAlreadyExists, db)
     | (Some InsertFailed, db) \<Rightarrow> (Some AuthErrMongodb, db)))"

definition docToEntity :: "doc \<Rightarrow> User option" where
  "docToEntity d = do {
     i \<leftarrow> as_oid (field ''_id'' d);
     a \<leftarrow> as_string (field ''account'' d);
     h \<leftarrow> as_string (field ''password_hash'' d);
     Some \<lparr>usID = i, Account = a, Password = h, usRanking = ToInt (field ''ranking'' d), usCreatedAt = ToTime (field ''created_at'' d),
       usUpdatedAt = ToTime (field ''updated_at'' d), usLastLogin = ToTime (field ''last_login'' d)\<rparr>
   }"

definition find_user :: "'db Mongo \<Rightarrow> doc \<Rightarrow> 'db \<Rightarrow> (auth_error + User) option" where
  "find_user M filt db = (case FindOne M ''users'' filt db of
     Inl ErrNoDocuments \<Rightarrow> Some (Inl ErrUserNotFound)
   | Inl FindFailed \<Rightarrow> Some (Inl QueryFailed)
   | Inr d \<Rightarrow> map_option Inr (docToEntity d))"

definition FindByAccount :: "'db Mongo \<Rightarrow> string \<Rightarrow> 'db \<Rightarrow> (auth_error + User) option" where
  "FindByAccount M account = find_user M [(''account'', BString account)]"

definition FindByID :: "'db Mongo \<Rightarrow> (string \<Rightarrow> string option) \<Rightarrow> string \<Rightarrow> 'db \<Rightarrow> (auth_error + User) option" where
  "FindByID M fromHex i db = (case fromHex i of None \<Rightarrow> Some (Inl ErrUserNotFound) | Some oid \<Rightarrow> find_user M [(''_id'', BOid oid)] db)"

definition UpdateLastLogin :: "'db Mongo \<Rightarrow> int \<Rightarrow> User \<Rightarrow> 'db \<Rightarrow> auth_error option \<times> 'db" where
  "UpdateLastLogin M now u db =
     (let u = user_UpdateLastLogin now u
      in case UpdateOne M ''users'' [(''_id'', BOid (usID u))] [(''last_login'', BTime (usLastLogin u)), (''updated_at'', BTime (usUpdatedAt u))] db of
           (matched, db) \<Rightarrow> (if matched = None \<or> matched = Some 0 then Some AuthErrMongodb else None, db))"

section \<open>The service\<close>

text \<open>What one call takes from outside.\<close>

record auth_env =
  aeHash :: "string \<Rightarrow> string option"
  aeCompare :: "string \<Rightarrow> string \<Rightarrow> bool"
  aeOid :: string
  aeHex :: "string \<Rightarrow> string"
  aeNow :: int
  aeSeq :: "int option"

definition Register :: "auth_env \<Rightarrow> 'db Mongo \<Rightarrow> string \<Rightarrow> string \<Rightarrow> 'db \<Rightarrow> (auth_error + string) \<times> 'db" where
  "Register ae M account password db = (case NewUser (aeHash ae) (aeOid ae) (aeNow ae) account password of
     Inl e \<Rightarrow> (Inl e, db)
   | Inr u \<Rightarrow> (case user_Save M (aeSeq ae) u db of
       (Some e, db) \<Rightarrow> (Inl e, db)
     | (None, db) \<Rightarrow> (Inr (aeHex ae (usID u)), db)))"

definition Login :: "auth_env \<Rightarrow> 'db Mongo \<Rightarrow> string \<Rightarrow> string \<Rightarrow> 'db \<Rightarrow> ((auth_error + string) \<times> 'db) option" where
  "Login ae M account password db = do {
     r \<leftarrow> FindByAccount M account db;
     case r of
       Inl e \<Rightarrow> Some (Inl e, db)
     | Inr u \<Rightarrow> if \<not> VerifyPassword (aeCompare ae) password u then Some (Inl ErrInvalidPassword, db)
         else Some (Inr (aeHex ae (usID u)), snd (UpdateLastLogin M (aeNow ae) u db))
   }"

text \<open>The codes sent by SMS, kept in Redis.\<close>

definition generateSMSCode :: string where "generateSMSCode = ''000000''"

definition GetSMSCode :: "string \<Rightarrow> (string \<rightharpoonup> string) \<Rightarrow> (string \<rightharpoonup> string)" where
  "GetSMSCode account redis = redis(''sms:'' @ account \<mapsto> generateSMSCode)"

definition verifySMSCode :: "string \<Rightarrow> string \<Rightarrow> (string \<rightharpoonup> string) \<Rightarrow> auth_error option" where
  "verifySMSCode account smsCode redis = (case redis (''sms:'' @ account) of
     None \<Rightarrow> Some ErrInvalidSMSCode
   | Some code \<Rightarrow> if code \<noteq> smsCode then Some ErrInvalidSMSCode else None)"

definition deleteSMSCode :: "string \<Rightarrow> (string \<rightharpoonup> string) \<Rightarrow> (string \<rightharpoonup> string)" where
  "deleteSMSCode account redis = redis(''sms:'' @ account := None)"

section \<open>The RPC provider\<close>

datatype grpc_code = InvalidArgument | AlreadyExists | NotFound | Unauthenticated | Internal

fun MapError :: "auth_error \<Rightarrow> grpc_code" where
  "MapError ErrAccountAlreadyExists = AlreadyExists"
| "MapError ErrUserNotFound = NotFound"
| "MapError ErrInvalidPassword = Unauthenticated"
| "MapError ErrInvalidSMSCode = InvalidArgument"
| "MapError _ = Internal"

definition validateRegisterParams :: "string \<Rightarrow> string \<Rightarrow> string \<Rightarrow> bool" where
  "validateRegisterParams account password smsCode \<longleftrightarrow>
     TrimSpace account \<noteq> [] \<and> TrimSpace password \<noteq> [] \<and> \<not> length password < 6 \<and> TrimSpace smsCode \<noteq> []"

definition validateLoginParams :: "string \<Rightarrow> string \<Rightarrow> bool" where
  "validateLoginParams account password \<longleftrightarrow> TrimSpace account \<noteq> [] \<and> TrimSpace password \<noteq> []"

definition provider_Register :: "auth_env \<Rightarrow> 'db Mongo \<Rightarrow> string \<Rightarrow> string \<Rightarrow> string \<Rightarrow> 'db \<Rightarrow> (grpc_code + string) \<times> 'db" where
  "provider_Register ae M account password smsCode db =
     (if \<not> validateRegisterParams account password smsCode then (Inl InvalidArgument, db)
      else case Register ae M account password db of
             (Inl e, db) \<Rightarrow> (Inl (MapError e), db)
           | (Inr uid, db) \<Rightarrow> (Inr uid, db))"

definition provider_Login :: "auth_env \<Rightarrow> 'db Mongo \<Rightarrow> string \<Rightarrow> string \<Rightarrow> 'db \<Rightarrow> ((grpc_code + string) \<times> 'db) option" where
  "provider_Login ae M account password db =
     (if \<not> validateLoginParams account password then Some (Inl InvalidArgument, db)
      else map_option (\<lambda>(r, db). (case r of Inl e \<Rightarrow> Inl (MapError e) | Inr uid \<Rightarrow> Inr uid, db)) (Login ae M account password db))"

definition provider_GetSMSCode :: "string \<Rightarrow> (string \<rightharpoonup> string) \<Rightarrow> grpc_code option \<times> (string \<rightharpoonup> string)" where
  "provider_GetSMSCode phone redis = (if TrimSpace phone = [] then (Some InvalidArgument, redis) else (None, GetSMSCode phone redis))"

end
