(* ===== verification/RecordsSpec.thy ===== *)
theory RecordsSpec
  imports Records
begin

text \<open>
  What can be read back of a saved game.  The driver is known by its contract only: what it does to each type of value on
  the way into the database and back, and that an inserted document is found again.  The conversions of the
  repository expect types the driver does not return, so the points of the players are lost and no round can be read.
\<close>

section \<open>The contract of the driver\<close>

definition stored_doc :: "(bson \<Rightarrow> bson) \<Rightarrow> doc \<Rightarrow> doc" where
  "stored_doc stored d = map (\<lambda>(k, v). (k, stored v)) d"

locale bson_codec =
  fixes stored :: "bson \<Rightarrow> bson"
  assumes stored_nil [simp]: "stored BNil = BNil" "stored BNilM = BNil"
    and stored_int32: "- (2 ^ 31) \<le> n \<Longrightarrow> n < 2 ^ 31 \<Longrightarrow> stored (BInt n) = BInt32 n"
    and stored_int64: "n < - (2 ^ 31) \<or> 2 ^ 31 \<le> n \<Longrightarrow> - (2 ^ 63) \<le> n \<Longrightarrow> n < 2 ^ 63 \<Longrightarrow> stored (BInt n) = BInt64 n"
    and stored_atoms [simp]: "stored (BString s) = BString s" "stored (BOid s) = BOid s" "stored (BTime t) = BDateTime t"
    and stored_docs [simp]: "stored (BM d) = BM (stored_doc stored d)" "stored (BMap d) = BM (stored_doc stored d)"
      "stored (BMs ds) = BA (map (\<lambda>d. BM (stored_doc stored d)) ds)" "stored (BMaps ds) = BA (map (\<lambda>d. BM (stored_doc stored d)) ds)"
    and stored_lists [simp]: "stored (BStrings ss) = BA (map BString ss)" "stored (BInts ns) = BA (map (\<lambda>n. stored (BInt n)) ns)"
begin

text \<open>Go's \<open>int\<close> has 64 bits.\<close>

lemma ToInt_stored: "- (2 ^ 63) \<le> n \<Longrightarrow> n < 2 ^ 63 \<Longrightarrow> ToInt (stored (BInt n)) = n"
  using stored_int32 [of n] stored_int64 [of n] by (cases "- (2 ^ 31) \<le> n \<and> n < 2 ^ 31") auto

end

locale mongo = bson_codec stored for stored :: "bson \<Rightarrow> bson" +
  fixes M :: "'db Mongo"
  assumes find_inserted: "FindOne M c filt db = Inl ErrNoDocuments \<Longrightarrow> InsertOne M c d db = (None, db') \<Longrightarrow>
      \<forall>(k, v) \<in> set filt. map_of d k = Some v \<Longrightarrow> FindOne M c filt db' = Inr (stored_doc stored d)"
    and find_other: "FindOne M c [(k, BString s)] db = Inl ErrNoDocuments \<Longrightarrow> InsertOne M c d db = (None, db') \<Longrightarrow>
      map_of d k = Some (BString s') \<Longrightarrow> s \<noteq> s' \<Longrightarrow> FindOne M c [(k, BString s)] db' = Inl ErrNoDocuments"
    and find_all_inserted: "InsertMany M c ds db = (None, db') \<Longrightarrow> FindAll M c filt srt None db' = Inr rs \<Longrightarrow> d \<in> set ds \<Longrightarrow>
      \<forall>(k, v) \<in> set filt. map_of d k = Some v \<Longrightarrow> Some (stored_doc stored d) \<in> set rs"

section \<open>Reading back\<close>

definition int64 :: "int \<Rightarrow> bool" where
  "int64 n \<longleftrightarrow> - (2 ^ 63) \<le> n \<and> n < 2 ^ 63"

definition game_in_range :: "GameRecord \<Rightarrow> bool" where
  "game_in_range r \<longleftrightarrow> int64 (grDuration r) \<and> (\<forall>p \<in> set (grPlayers r). int64 (piSeatIndex p))
     \<and> (\<forall>(rks, pts) \<in> set_option (FinalResult r). \<forall>k \<in> set rks. int64 (rkSeatIndex k) \<and> int64 (rkPoints k) \<and> int64 (Rank k))"

lemma those_map_Some: "(\<And>x. x \<in> set xs \<Longrightarrow> f x = Some (g x)) \<Longrightarrow> those (map f xs) = Some (map g xs)"
  by (induction xs) auto

lemma those_None: "None \<in> set xs \<Longrightarrow> those xs = None"
  by (induction xs) (auto split: option.split)

lemma field_Cons: "field k ((k', v) # d) = (if k = k' then v else field k d)"
  by (simp add: field_def)

lemma field_nil [simp]: "field k [] = BNil"
  by (simp add: field_def)

lemma stored_doc_nil [simp]: "stored_doc stored [] = []"
  by (simp add: stored_doc_def)

context bson_codec
begin

lemma field_stored [simp]:
  "field k (stored_doc stored ((k', v) # d)) = (if k = k' then stored v else field k (stored_doc stored d))"
  by (simp add: stored_doc_def field_Cons)

lemma int_back: "int64 n \<Longrightarrow> ToInt (stored (BInt n)) = n"
  unfolding int64_def by (blast intro: ToInt_stored)

lemma players_back:
  assumes "\<forall>p \<in> set players. int64 (piSeatIndex p)"
  shows "\<exists>ds. stored (playersToBson players) = BA ds \<and> those (map player_of_doc ds) = Some players"
proof -
  define pd where "pd p = [(''user_id'', BString (piUserID p)), (''seat_index'', BInt (piSeatIndex p)), (''nickname'', BString (Nickname p))]"
    for p :: PlayerInfo
  have "player_of_doc (BM (stored_doc stored (pd p))) = Some p" if "p \<in> set players" for p
    using that assms int_back by (simp add: player_of_doc_def pd_def)
  then have "those (map (player_of_doc \<circ> (\<lambda>p. BM (stored_doc stored (pd p)))) players) = Some (map id players)"
    by (intro those_map_Some) simp
  then show ?thesis by (simp add: playersToBson_def pd_def [symmetric] comp_def)
qed

lemma final_result_back:
  assumes "\<forall>(rks, pts) \<in> set_option fr. \<forall>k \<in> set rks. int64 (rkSeatIndex k) \<and> int64 (rkPoints k) \<and> int64 (Rank k)"
  shows "finalResult_of_doc (stored (finalResultToBson fr)) = Some (map_option (\<lambda>(rks, pts). (rks, [0, 0, 0, 0])) fr)"
proof (cases fr)
  case (Some x)
  obtain rks pts where x: "x = (rks, pts)" by fastforce
  define rd where "rd r = [(''seat_index'', BInt (rkSeatIndex r)), (''user_id'', BString (rkUserID r)), (''points'', BInt (rkPoints r)),
    (''rank'', BInt (Rank r))]" for r :: PlayerRankingDTO
  have "ranking_of_doc (BM (stored_doc stored (rd r))) = Some r" if "r \<in> set rks" for r
    using that assms Some x int_back by (simp add: ranking_of_doc_def rd_def)
  then have "those (map (ranking_of_doc \<circ> (\<lambda>r. BM (stored_doc stored (rd r)))) rks) = Some (map id rks)"
    by (intro those_map_Some) simp
  then show ?thesis
    by (simp add: Some x finalResultToBson_def rd_def [symmetric] finalResult_of_doc_def comp_def numeral_eq_Suc)
qed (simp add: finalResultToBson_def finalResult_of_doc_def)

lemma game_record_back:
  assumes "game_in_range r"
  shows "docToGameRecord (stored_doc stored (gameRecordDoc r))
    = Some (r\<lparr>FinalResult := map_option (\<lambda>(rks, pts). (rks, [0, 0, 0, 0])) (FinalResult r)\<rparr>)"
proof -
  obtain ds where ds: "stored (playersToBson (grPlayers r)) = BA ds" "those (map player_of_doc ds) = Some (grPlayers r)"
    using players_back [of "grPlayers r"] assms unfolding game_in_range_def by blast
  have "finalResult_of_doc (stored (finalResultToBson (FinalResult r))) = Some (map_option (\<lambda>(rks, pts). (rks, [0, 0, 0, 0])) (FinalResult r))"
    using assms unfolding game_in_range_def by (intro final_result_back) blast
  then show ?thesis using ds assms int_back by (simp add: docToGameRecord_def gameRecordDoc_def game_in_range_def)
qed

text \<open>The data of an event comes back as a \<^verbatim>\<open>bson.M\<close>, which is not a \<^verbatim>\<open>map[string]interface{}\<close>.\<close>

lemma round_with_event_unreadable:
  assumes "Events rr \<noteq> []"
  shows "docToRoundRecord (stored_doc stored (roundRecordDoc rr)) = None"
proof -
  have "those (map event_of_doc ds) = None" if "stored (eventsToBson (Events rr)) = BA ds" for ds
    using that assms by (cases "Events rr") (auto simp: eventsToBson_def event_of_doc_def intro!: those_None)
  moreover have "\<exists>ds. stored (eventsToBson (Events rr)) = BA ds" by (simp add: eventsToBson_def)
  ultimately show ?thesis by (auto simp: docToRoundRecord_def roundRecordDoc_def)
qed

end

context mongo
begin

lemma save_then_find:
  assumes "FindOne M ''game_records'' [(''_id'', BOid (grID r))] db = Inl ErrNoDocuments" "SaveGameRecord M r db = (None, db')" "game_in_range r"
  shows "FindGameRecord M (grID r) db' = Some (Inr (r\<lparr>FinalResult := map_option (\<lambda>(rks, pts). (rks, [0, 0, 0, 0])) (FinalResult r)\<rparr>))"
proof -
  have "InsertOne M ''game_records'' (gameRecordDoc r) db = (None, db')"
    using assms(2) by (auto simp: SaveGameRecord_def split: prod.splits if_splits)
  then have "FindOne M ''game_records'' [(''_id'', BOid (grID r))] db' = Inr (stored_doc stored (gameRecordDoc r))"
    by (intro find_inserted [OF assms(1)]) (simp_all add: gameRecordDoc_def)
  then show ?thesis using game_record_back [OF assms(3)] by (simp add: FindGameRecord_def find_one_def)
qed

lemma rounds_unreadable:
  assumes "\<forall>rr \<in> set rrs. Events rr \<noteq> [] \<and> GameRecordID rr = gid" "rrs \<noteq> []" "SaveRoundRecords M (map Some rrs) db = (None, db')"
  shows "FindRoundRecords M gid db' \<in> {None, Some (Inl ErrFind)}"
proof (cases "FindAll M ''round_records'' [(''game_record_id'', BOid gid)] (''round_number'', 1) None db'")
  case (Inr rs)
  have docs: "List.map_filter id (map Some rrs) = rrs" by (induction rrs) (simp_all add: List.map_filter_simps)
  then have ins: "InsertMany M ''round_records'' (map roundRecordDoc rrs) db = (None, db')"
    using assms(2,3) by (auto simp: SaveRoundRecords_def split: prod.splits if_splits)
  have "Some (stored_doc stored (roundRecordDoc (hd rrs))) \<in> set rs"
    using assms(1,2) by (intro find_all_inserted [OF ins Inr]) (auto simp: roundRecordDoc_def)
  then have "stored_doc stored (roundRecordDoc (hd rrs)) \<in> set (List.map_filter id rs)" by (force simp: List.map_filter_def)
  moreover have "docToRoundRecord (stored_doc stored (roundRecordDoc (hd rrs))) = None"
    using assms(1,2) by (intro round_with_event_unreadable) simp
  ultimately have "those (map docToRoundRecord (List.map_filter id rs)) = None" by (metis those_None image_eqI list.set_map)
  then show ?thesis using Inr by (simp add: FindRoundRecords_def find_all_def)
qed (simp add: FindRoundRecords_def find_all_def)

end

section \<open>A database in memory\<close>

text \<open>What the driver's documentation says of each type.\<close>

primrec reads :: "bson \<Rightarrow> bson" where
  "reads BNil = BNil"
| "reads (BInt n) = (if - (2 ^ 31) \<le> n \<and> n < 2 ^ 31 then BInt32 n else BInt64 n)"
| "reads (BInt32 n) = BInt32 n"
| "reads (BInt64 n) = BInt64 n"
| "reads (BDouble x) = BDouble x"
| "reads (BString s) = BString s"
| "reads (BOid s) = BOid s"
| "reads (BTime t) = BDateTime t"
| "reads (BDateTime t) = BDateTime t"
| "reads (BM d) = BM (map (map_prod id reads) d)"
| "reads BNilM = BNil"
| "reads (BMs ds) = BA (map BM (map (map (map_prod id reads)) ds))"
| "reads (BMap d) = BM (map (map_prod id reads) d)"
| "reads (BMaps ds) = BA (map BM (map (map (map_prod id reads)) ds))"
| "reads (BA vs) = BA (map reads vs)"
| "reads (BIfaces vs) = BA (map reads vs)"
| "reads (BStrings ss) = BA (map BString ss)"
| "reads (BInts ns) = BA (map (\<lambda>n. if - (2 ^ 31) \<le> n \<and> n < 2 ^ 31 then BInt32 n else BInt64 n) ns)"

lemma stored_doc_reads: "stored_doc reads = map (map_prod id reads)"
  by (rule ext) (auto simp: stored_doc_def)

type_synonym mem_db = "(string \<times> doc) list"

definition matches :: "doc \<Rightarrow> doc \<Rightarrow> bool" where
  "matches filt d \<longleftrightarrow> list_all (\<lambda>(k, v). map_of d k = Some (reads v)) filt"

definition mem_find :: "string \<Rightarrow> doc \<Rightarrow> mem_db \<Rightarrow> doc list" where
  "mem_find c filt db = map snd (filter (\<lambda>(c', d). c' = c \<and> matches filt d) db)"

primrec mem_update :: "string \<Rightarrow> doc \<Rightarrow> doc \<Rightarrow> mem_db \<Rightarrow> mem_db" where
  "mem_update c filt chg [] = []"
| "mem_update c filt chg (e # db) =
     (if fst e = c \<and> matches filt (snd e) then (c, fold (\<lambda>(k, v). AList.update k (reads v)) chg (snd e)) # db
      else e # mem_update c filt chg db)"

definition mem_mongo :: "mem_db Mongo" where
  "mem_mongo = \<lparr>InsertOne = (\<lambda>c d db. (None, db @ [(c, stored_doc reads d)])),
     InsertMany = (\<lambda>c ds db. (None, db @ map (\<lambda>d. (c, stored_doc reads d)) ds)),
     FindOne = (\<lambda>c filt db. case mem_find c filt db of [] \<Rightarrow> Inl ErrNoDocuments | d # ds \<Rightarrow> Inr d),
     FindAll = (\<lambda>c filt (key, dir) page db.
       let ds = sort_key (\<lambda>d. dir * (ToInt (field key d) + ToTime (field key d))) (mem_find c filt db)
       in Inr (map Some (case page of None \<Rightarrow> ds | Some (limit, offset) \<Rightarrow> take (nat limit) (drop (nat offset) ds)))),
     UpdateOne = (\<lambda>c filt chg db. (Some (if mem_find c filt db = [] then 0 else 1), mem_update c filt chg db))\<rparr>"

lemma map_of_stored: "map_of (stored_doc reads d) k = map_option reads (map_of d k)"
  by (induction d) (auto simp: stored_doc_def)

lemma matches_stored: "\<forall>(k, v) \<in> set filt. map_of d k = Some v \<Longrightarrow> matches filt (stored_doc reads d)"
  by (auto simp: matches_def list_all_iff map_of_stored)

interpretation stored_mem: mongo reads mem_mongo
proof unfold_locales
  fix c filt db d db'
  assume "FindOne mem_mongo c filt db = Inl ErrNoDocuments" "InsertOne mem_mongo c d db = (None, db')"
    "\<forall>(k, v) \<in> set filt. map_of d k = Some v"
  then show "FindOne mem_mongo c filt db' = Inr (stored_doc reads d)"
    using matches_stored [of filt d] by (auto simp: mem_mongo_def mem_find_def split: list.splits)
next
  fix c k s db d db' s'
  assume "FindOne mem_mongo c [(k, BString s)] db = Inl ErrNoDocuments" "InsertOne mem_mongo c d db = (None, db')"
    "map_of d k = Some (BString s')" "s \<noteq> s'"
  then show "FindOne mem_mongo c [(k, BString s)] db' = Inl ErrNoDocuments"
    by (auto simp: mem_mongo_def mem_find_def matches_def map_of_stored split: list.splits)
next
  fix c ds db db' filt srt rs d
  assume "InsertMany mem_mongo c ds db = (None, db')" "FindAll mem_mongo c filt srt None db' = Inr rs" "d \<in> set ds"
    "\<forall>(k, v) \<in> set filt. map_of d k = Some v"
  then show "Some (stored_doc reads d) \<in> set rs"
    using matches_stored [of filt d] by (auto simp: mem_mongo_def mem_find_def Let_def image_iff split: prod.splits)
qed (auto simp: stored_doc_reads)

section \<open>Properties\<close>


text \<open>A finished game of one player and one round, for the witnesses.\<close>

definition played :: GamePersister where
  "played = FinalizeGame 9 [\<lparr>rkSeatIndex = 0, rkUserID = ''u'', rkPoints = 25000, Rank = 1\<rparr>] [25000, 25000, 25000, 25000]
     (StartRound ''r'' 5 1 ''East'' 0 0 (NewGamePersister ''g'' 1 ''room'' [\<lparr>piUserID = ''u'', piSeatIndex = 0, Nickname = []\<rparr>]))"


text \<open>C33: the rounds of a saved game cannot be read.  Whatever the persister recorded, once a finished game with a round has
  been saved, asking for its rounds makes the node panic, unless the query itself fails: the data of every event comes
  back as a \<^verbatim>\<open>bson.M\<close>, and the assertion to \<^verbatim>\<open>map[string]interface{}\<close> fails.\<close>

theorem saved_rounds_unreadable:
  assumes "mongo stored M" "persister_ok gp" "(g, rrs) \<in> set (saved gp)" "rrs \<noteq> []" "SaveRoundRecords M (map Some rrs) db = (None, db')"
  shows "FindRoundRecords M (GetGameRecordID gp) db' \<in> {None, Some (Inl ErrFind)}"
  using mongo.rounds_unreadable [OF assms(1) _ assms(4,5), of "GetGameRecordID gp"] assms(2,3)
  by (auto simp: persister_ok_def round_ok_def GetGameRecordID_def split: if_splits)

text \<open>C33 on the same game.\<close>

theorem saved_rounds_unreadable_witness:
  "\<exists>db. SaveRoundRecords mem_mongo (map Some (rounds played)) [] = (None, db) \<and> rounds played \<noteq> [] \<and> FindRoundRecords mem_mongo ''g'' db = None"
proof -
  have ok: "persister_ok played" unfolding played_def by (intro persister_ok_FinalizeGame persister_ok_StartRound persister_ok_new)
  have p: "rounds played \<noteq> []" "saved played = [(gameRecord played, rounds played)]" "GetGameRecordID played = ''g''"
    by (simp_all add: played_def FinalizeGame_def StartRound_def NewGamePersister_def NewGameRecord_def CompleteGame_def on_round_def
        GetGameRecordID_def Let_def)
  define db where "db = snd (SaveRoundRecords mem_mongo (map Some (rounds played)) [])"
  have s: "SaveRoundRecords mem_mongo (map Some (rounds played)) [] = (None, db)"
    by (auto simp: db_def SaveRoundRecords_def mem_mongo_def Let_def)
  have "FindRoundRecords mem_mongo ''g'' db \<noteq> Some (Inl ErrFind)"
    by (simp add: FindRoundRecords_def find_all_def mem_mongo_def Let_def)
  then show ?thesis using saved_rounds_unreadable [OF stored_mem.mongo_axioms ok _ p(1) s, of "gameRecord played"] p s by simp
qed

end
