(* ===== verification/EventLog.thy ===== *)
theory EventLog
  imports RecordsSpec "HOL-Library.Sublist"
begin

text \<open>
  The log of user events on the auth node: \<^verbatim>\<open>auth/domain/entity/user_event_log.go\<close> and
  \<^verbatim>\<open>auth/infrastructure/persistence/user_event_log_persist.go\<close>.

  \<^item> The two writing goroutines are their steps: a value received, a tick, the cancelled context.  \<open>asyncBatch\<close> is the
    local slice of \<open>asyncWriteLoop\<close>.  Which case of a \<open>select\<close> statement is taken when several are ready is open.
  \<^item> \<open>asyncFlushed\<close> and \<open>batchFlushed\<close> list the calls of \<open>flushBatch\<close> of the two goroutines with their outcome; whether MongoDB accepts
    an insertion is the parameter \<open>ok\<close>.
  \<^item> \<open>SaveEventLogAsync\<close> reads the flag \<open>closed\<close> under the lock and sends after it released the lock: two sections.
\<close>

section \<open>Entries\<close>

record UserEventLog =
  elID :: string
  elUserID :: string
  elEventType :: string
  elTimestamp :: int
  IP :: string
  UserAgent :: string
  Metadata :: doc
  elCreatedAt :: int

definition NewUserEventLog :: "string \<Rightarrow> int \<Rightarrow> string \<Rightarrow> string \<Rightarrow> UserEventLog" where
  "NewUserEventLog oid now userID eventType = \<lparr>elID = oid, elUserID = userID, elEventType = eventType, elTimestamp = now, IP = [], UserAgent = [],
     Metadata = [], elCreatedAt = now\<rparr>"

definition SetIP :: "string \<Rightarrow> UserEventLog \<Rightarrow> UserEventLog" where
  "SetIP ip l = l\<lparr>IP := ip\<rparr>"

definition SetUserAgent :: "string \<Rightarrow> UserEventLog \<Rightarrow> UserEventLog" where
  "SetUserAgent userAgent l = l\<lparr>UserAgent := userAgent\<rparr>"

definition SetMetadata :: "string \<Rightarrow> bson \<Rightarrow> UserEventLog \<Rightarrow> UserEventLog" where
  "SetMetadata key val l = l\<lparr>Metadata := AList.update key val (Metadata l)\<rparr>"

definition logToBson :: "UserEventLog \<Rightarrow> doc" where
  "logToBson l = [(''_id'', BOid (elID l)), (''user_id'', BString (elUserID l)), (''event_type'', BString (elEventType l)), (''timestamp'', BTime (elTimestamp l)),
     (''created_at'', BTime (elCreatedAt l))] @ (if IP l \<noteq> [] then [(''ip'', BString (IP l))] else [])
     @ (if UserAgent l \<noteq> [] then [(''user_agent'', BString (UserAgent l))] else [])
     @ (if Metadata l \<noteq> [] then [(''metadata'', BMap (Metadata l))] else [])"

text \<open>Metadata of another type than \<^verbatim>\<open>bson.M\<close> is dropped.  A nil map and an empty one are both [].\<close>

definition docToLog :: "doc \<Rightarrow> UserEventLog option" where
  "docToLog d = do {
     i \<leftarrow> as_oid (field ''_id'' d);
     u \<leftarrow> as_string (field ''user_id'' d);
     t \<leftarrow> as_string (field ''event_type'' d);
     Some \<lparr>elID = i, elUserID = u, elEventType = t, elTimestamp = ToTime (field ''timestamp'' d), IP = ToString (field ''ip'' d),
       UserAgent = ToString (field ''user_agent'' d), Metadata = (case as_M (field ''metadata'' d) of None \<Rightarrow> [] | Some m \<Rightarrow> m),
       elCreatedAt = ToTime (field ''created_at'' d)\<rparr>
   }"

section \<open>Queries\<close>

definition find_logs :: "'db Mongo \<Rightarrow> doc \<Rightarrow> int \<Rightarrow> int \<Rightarrow> 'db \<Rightarrow> (repo_error + UserEventLog list) option" where
  "find_logs M filt limit offset db = find_all docToLog (FindAll M ''user_event_logs'' filt (''timestamp'', -1) (Some (limit, offset)) db)"

definition FindEventLogsByUser :: "'db Mongo \<Rightarrow> string \<Rightarrow> int \<Rightarrow> int \<Rightarrow> 'db \<Rightarrow> (repo_error + UserEventLog list) option" where
  "FindEventLogsByUser M userID = find_logs M [(''user_id'', BString userID)]"

definition FindEventLogsByUserAndType :: "'db Mongo \<Rightarrow> string \<Rightarrow> string \<Rightarrow> int \<Rightarrow> int \<Rightarrow> 'db \<Rightarrow> (repo_error + UserEventLog list) option" where
  "FindEventLogsByUserAndType M userID eventType = find_logs M [(''user_id'', BString userID), (''event_type'', BString eventType)]"

definition FindEventLogsByTimeRange :: "'db Mongo \<Rightarrow> int \<Rightarrow> int \<Rightarrow> int \<Rightarrow> int \<Rightarrow> 'db \<Rightarrow> (repo_error + UserEventLog list) option" where
  "FindEventLogsByTimeRange M startTime endTime =
     find_logs M [(''timestamp'', BM [(''$gte'', BTime startTime), (''$lte'', BTime endTime)])]"

definition FindEventLogsByUserAndTimeRange ::
    "'db Mongo \<Rightarrow> string \<Rightarrow> int \<Rightarrow> int \<Rightarrow> int \<Rightarrow> int \<Rightarrow> 'db \<Rightarrow> (repo_error + UserEventLog list) option" where
  "FindEventLogsByUserAndTimeRange M userID startTime endTime =
     find_logs M [(''user_id'', BString userID), (''timestamp'', BM [(''$gte'', BTime startTime), (''$lte'', BTime endTime)])]"

section \<open>Writing\<close>

definition SaveEventLog :: "'db Mongo \<Rightarrow> UserEventLog \<Rightarrow> 'db \<Rightarrow> repo_error option \<times> 'db" where
  "SaveEventLog M l db = (case InsertOne M ''user_event_logs'' (logToBson l) db of (err, db) \<Rightarrow> (if err = None then None else Some ErrMongodb, db))"

definition SaveEventLogs :: "'db Mongo \<Rightarrow> UserEventLog option list \<Rightarrow> 'db \<Rightarrow> repo_error option \<times> 'db" where
  "SaveEventLogs M logs db =
     (let docs = map logToBson (List.map_filter id logs)
      in if logs = [] \<or> docs = [] then (None, db)
         else case InsertMany M ''user_event_logs'' docs db of (err, db) \<Rightarrow> (if err = None then None else Some ErrMongodb, db))"

definition asyncBufferSize :: nat where [simp]: "asyncBufferSize = 1000"
definition batchSize :: nat where [simp]: "batchSize = 100"

record LogRepo =
  asyncChan :: "UserEventLog list"
  batchChan :: "UserEventLog list list"
  asyncBatch :: "UserEventLog list"
  asyncRunning :: bool
  batchRunning :: bool
  repoClosed :: bool
  ctxDone :: bool
  chansClosed :: bool
  asyncFlushed :: "(bool \<times> UserEventLog list) list"
  batchFlushed :: "(bool \<times> UserEventLog list) list"

definition NewUserEventLogRepository :: LogRepo where
  "NewUserEventLogRepository = \<lparr>asyncChan = [], batchChan = [], asyncBatch = [], asyncRunning = True, batchRunning = True, repoClosed = False,
     ctxDone = False, chansClosed = False, asyncFlushed = [], batchFlushed = []\<rparr>"

text \<open>The second section of \<open>SaveEventLogAsync\<close>: a send on a closed channel panics, a full channel drops the entry.\<close>

definition async_send :: "UserEventLog \<Rightarrow> LogRepo \<Rightarrow> LogRepo option" where
  "async_send l r =
     (if chansClosed r then None
      else if length (asyncChan r) < asyncBufferSize then Some (r\<lparr>asyncChan := asyncChan r @ [l]\<rparr>)
      else Some r)"

definition SaveEventLogAsync :: "UserEventLog \<Rightarrow> LogRepo \<Rightarrow> LogRepo option" where
  "SaveEventLogAsync l r = (if repoClosed r then Some r else async_send l r)"

definition SaveEventLogsAsync :: "UserEventLog option list \<Rightarrow> LogRepo \<Rightarrow> LogRepo option" where
  "SaveEventLogsAsync logs r =
     (let validLogs = List.map_filter id logs
      in if logs = [] \<or> repoClosed r \<or> validLogs = [] then Some r
         else if chansClosed r then None
         else if length (batchChan r) < 100 then Some (r\<lparr>batchChan := batchChan r @ [validLogs]\<rparr>)
         else Some r)"

definition flush_async :: "bool \<Rightarrow> LogRepo \<Rightarrow> LogRepo" where
  "flush_async ok r = (if asyncBatch r = [] then r else r\<lparr>asyncFlushed := asyncFlushed r @ [(ok, asyncBatch r)], asyncBatch := []\<rparr>)"

text \<open>The cases of \<open>asyncWriteLoop\<close>.\<close>

definition async_receive :: "bool \<Rightarrow> LogRepo \<Rightarrow> LogRepo" where
  "async_receive ok r =
     (if \<not> asyncRunning r then r
      else case asyncChan r of
             [] \<Rightarrow> if chansClosed r then (flush_async ok r)\<lparr>asyncRunning := False\<rparr> else r
           | l # ls \<Rightarrow> let r = r\<lparr>asyncChan := ls, asyncBatch := asyncBatch r @ [l]\<rparr>
               in if batchSize \<le> length (asyncBatch r) then flush_async ok r else r)"

definition async_tick :: "bool \<Rightarrow> LogRepo \<Rightarrow> LogRepo" where
  "async_tick ok r = (if asyncRunning r then flush_async ok r else r)"

definition async_done :: "bool \<Rightarrow> LogRepo \<Rightarrow> LogRepo" where
  "async_done ok r = (if asyncRunning r \<and> ctxDone r then (flush_async ok r)\<lparr>asyncRunning := False\<rparr> else r)"

text \<open>The cases of \<open>batchWriteLoop\<close>.\<close>

definition batch_receive :: "bool \<Rightarrow> LogRepo \<Rightarrow> LogRepo" where
  "batch_receive ok r =
     (if \<not> batchRunning r then r
      else case batchChan r of
             [] \<Rightarrow> if chansClosed r then r\<lparr>batchRunning := False\<rparr> else r
           | ls # lss \<Rightarrow> r\<lparr>batchChan := lss, batchFlushed := batchFlushed r @ (if ls = [] then [] else [(ok, ls)])\<rparr>)"

definition batch_done :: "LogRepo \<Rightarrow> LogRepo" where
  "batch_done r = (if batchRunning r \<and> ctxDone r then r\<lparr>batchRunning := False\<rparr> else r)"

text \<open>\<open>Close\<close> up to the wait for the goroutines.\<close>

definition log_Close :: "LogRepo \<Rightarrow> LogRepo" where
  "log_Close r = (if repoClosed r then r else r\<lparr>repoClosed := True, ctxDone := True, chansClosed := True\<rparr>)"

section \<open>Nothing is lost or reordered while the repository is open\<close>

datatype log_op = SendLog UserEventLog | SendLogs "UserEventLog option list" | ReceiveLog bool | Tick bool | ReceiveLogs bool

fun log_step :: "log_op \<Rightarrow> LogRepo \<Rightarrow> LogRepo option" where
  "log_step (SendLog l) r = SaveEventLogAsync l r"
| "log_step (SendLogs ls) r = SaveEventLogsAsync ls r"
| "log_step (ReceiveLog ok) r = Some (async_receive ok r)"
| "log_step (Tick ok) r = Some (async_tick ok r)"
| "log_step (ReceiveLogs ok) r = Some (batch_receive ok r)"

definition sent :: "log_op list \<Rightarrow> UserEventLog list" where
  "sent ops = List.map_filter (\<lambda>op. case op of SendLog l \<Rightarrow> Some l | _ \<Rightarrow> None) ops"

text \<open>All entries on their way, from the first written to the last waiting.\<close>

definition all_logs :: "LogRepo \<Rightarrow> UserEventLog list" where
  "all_logs r = concat (map snd (asyncFlushed r)) @ asyncBatch r @ asyncChan r"

definition log_open :: "LogRepo \<Rightarrow> bool" where
  "log_open r \<longleftrightarrow> \<not> repoClosed r \<and> \<not> chansClosed r \<and> asyncRunning r \<and> length (asyncChan r) \<le> 1000 \<and> length (asyncBatch r) < 100
     \<and> (\<forall>(ok, ls) \<in> set (asyncFlushed r). ls \<noteq> [] \<and> length ls \<le> 100)"

lemma flush_async_all [simp]: "all_logs (flush_async ok r) = all_logs r"
  by (simp add: flush_async_def all_logs_def)

lemma flush_async_open: "log_open (r\<lparr>asyncBatch := []\<rparr>) \<Longrightarrow> length (asyncBatch r) \<le> 100 \<Longrightarrow> log_open (flush_async ok r)"
  by (auto simp: flush_async_def log_open_def)

lemma async_receive_open:
  assumes "log_open r"
  shows "log_open (async_receive ok r) \<and> all_logs (async_receive ok r) = all_logs r \<and> length (asyncChan (async_receive ok r)) = length (asyncChan r) - 1"
proof (cases "asyncChan r")
  case (Cons l ls)
  let ?r = "r\<lparr>asyncChan := ls, asyncBatch := asyncBatch r @ [l]\<rparr>"
  have "all_logs ?r = all_logs r" using Cons by (simp add: all_logs_def)
  moreover have "log_open (flush_async ok ?r)" using assms Cons by (intro flush_async_open) (auto simp: log_open_def)
  moreover have "asyncChan (flush_async ok ?r) = ls" by (simp add: flush_async_def)
  moreover have "log_open ?r" if "\<not> 99 \<le> length (asyncBatch r)" using that assms Cons by (simp add: log_open_def)
  moreover have "async_receive ok r = (if 99 \<le> length (asyncBatch r) then flush_async ok ?r else ?r)"
    using assms Cons by (simp add: async_receive_def log_open_def Let_def)
  ultimately show ?thesis using Cons by simp
qed (use assms in \<open>simp add: async_receive_def log_open_def\<close>)

lemma log_step_open:
  assumes "log_open r"
  shows "\<exists>r'. log_step op r = Some r' \<and> log_open r'
    \<and> all_logs r' = all_logs r @ (case op of SendLog l \<Rightarrow> if length (asyncChan r) < 1000 then [l] else [] | _ \<Rightarrow> [])"
proof (cases op)
  case (SendLog l)
  then show ?thesis using assms by (auto simp: SaveEventLogAsync_def async_send_def log_open_def all_logs_def)
next
  case (SendLogs ls)
  then show ?thesis using assms by (auto simp: SaveEventLogsAsync_def log_open_def all_logs_def Let_def)
next
  case (Tick ok)
  then show ?thesis using assms flush_async_open [of r ok] by (auto simp: async_tick_def log_open_def)
next
  case (ReceiveLogs ok)
  then show ?thesis using assms by (auto simp: batch_receive_def log_open_def all_logs_def split: list.split)
qed (use async_receive_open [OF assms] in auto)

lemma run_log:
  assumes "log_open r" "run_all log_step ops r = Some r'"
  shows "log_open r' \<and> (\<exists>ls. all_logs r' = all_logs r @ ls \<and> subseq ls (sent ops)
     \<and> (length (asyncChan r) + length (sent ops) \<le> 1000 \<longrightarrow> ls = sent ops))"
  using assms
proof (induction ops arbitrary: r)
  case Nil
  then show ?case by (simp add: sent_def List.map_filter_simps)
next
  case (Cons op ops)
  obtain r1 where r1: "log_step op r = Some r1" "log_open r1"
    "all_logs r1 = all_logs r @ (case op of SendLog l \<Rightarrow> if length (asyncChan r) < 1000 then [l] else [] | _ \<Rightarrow> [])"
    using log_step_open [OF Cons.prems(1), of op] by blast
  have grow: "length (asyncChan r1) \<le> length (asyncChan r) + (case op of SendLog l \<Rightarrow> 1 | _ \<Rightarrow> 0)"
    using r1(1) Cons.prems(1) async_receive_open [OF Cons.prems(1)]
    by (cases op) (auto simp: SaveEventLogAsync_def async_send_def SaveEventLogsAsync_def Let_def async_tick_def flush_async_def
        batch_receive_def split: if_splits list.splits)
  obtain ls where ls: "log_open r'" "all_logs r' = all_logs r1 @ ls" "subseq ls (sent ops)"
    "length (asyncChan r1) + length (sent ops) \<le> 1000 \<longrightarrow> ls = sent ops"
    using Cons.IH [OF r1(2)] Cons.prems(2) r1(1) by auto
  have s: "sent (op # ops) = (case op of SendLog l \<Rightarrow> [l] | _ \<Rightarrow> []) @ sent ops"
    by (cases op) (simp_all add: sent_def List.map_filter_simps)
  show ?case using r1(3) ls grow s by (cases op) (auto intro: exI [of _ "_ # ls"])
qed

lemma drain:
  assumes "log_open r"
  shows "\<exists>r'. run_all log_step (replicate (length (asyncChan r)) (ReceiveLog ok) @ [Tick ok]) r = Some r' \<and> asyncChan r' = [] \<and> asyncBatch r' = []
     \<and> log_open r' \<and> all_logs r' = all_logs r"
  using assms
proof (induction "length (asyncChan r)" arbitrary: r)
  case 0
  then show ?case using flush_async_open [of r ok] flush_async_all [of ok r]
    by (auto simp: async_tick_def log_open_def) (auto simp: flush_async_def)
next
  case (Suc n)
  let ?r = "async_receive ok r"
  have a: "log_open ?r" "all_logs ?r = all_logs r" "n = length (asyncChan ?r)"
    using async_receive_open [OF Suc.prems, of ok] Suc.hyps(2) by simp_all
  obtain r' where r': "run_all log_step (replicate n (ReceiveLog ok) @ [Tick ok]) ?r = Some r'" "asyncChan r' = []" "asyncBatch r' = []"
    "log_open r'" "all_logs r' = all_logs ?r"
    using Suc.hyps(1) [OF a(3,1)] a(3) by auto
  have "replicate (length (asyncChan r)) (ReceiveLog ok) = ReceiveLog ok # replicate n (ReceiveLog ok)"
    by (simp only: Suc.hyps(2) [symmetric] replicate_Suc)
  then show ?case using r' a(2) by simp
qed

lemma log_open_new: "log_open NewUserEventLogRepository"
  by (simp add: log_open_def NewUserEventLogRepository_def)



section \<open>Reading an entry back\<close>

text \<open>An entry is read back as it was written, its metadata with the types of the driver.\<close>

lemma log_read_back:
  assumes "bson_codec stored"
  shows "docToLog (stored_doc stored (logToBson l)) = Some (l\<lparr>Metadata := stored_doc stored (Metadata l)\<rparr>)"
proof -
  note c = bson_codec.field_stored [OF assms] bson_codec.stored_atoms [OF assms] bson_codec.stored_docs [OF assms]
  show ?thesis
    by (cases "IP l = []"; cases "UserAgent l = []"; cases "Metadata l = []") (simp_all add: docToLog_def logToBson_def c)
qed

section \<open>Closing\<close>

text \<open>When the repository is closed, the writing goroutine may see the cancelled context first: everything in the channel is lost.\<close>

lemma close_loses_entries:
  assumes "log_open r"
  shows "\<not> asyncRunning (async_done ok (log_Close r)) \<and> asyncChan (async_done ok (log_Close r)) = asyncChan r"
  using assms by (simp add: async_done_def log_Close_def log_open_def flush_async_def)

text \<open>An entry sent by a caller who found the repository open just before it was closed panics the node.\<close>

lemma send_close_race: "log_open r \<Longrightarrow> async_send l (log_Close r) = None"
  by (simp add: async_send_def log_Close_def log_open_def)

end
