(* ===== verification/AuthSpec.thy ===== *)
theory AuthSpec
  imports Auth EventLog
begin

text \<open>
  Registration and login.  The contract of the environment extends the one of the database by what bcrypt promises: a hash
  verifies the password it was made of.
\<close>

locale accounts = mongo stored M for stored :: "bson \<Rightarrow> bson" and M :: "'db Mongo" +
  fixes ae :: auth_env
  assumes hash_verifies: "aeHash ae p = Some h \<Longrightarrow> aeCompare ae h p"
begin

text \<open>What a successful registration leaves in the database.\<close>

lemma registered:
  assumes "provider_Register ae M account password sms db = (Inr uid, db')"
  obtains n h where "aeHash ae password = Some h" "uid = aeHex ae (aeOid ae)" "TrimSpace account \<noteq> []" "TrimSpace password \<noteq> []"
    "InsertOne M ''users'' (userDoc n \<lparr>usID = aeOid ae, Account = TrimSpace account, Password = h, usRanking = 0, usCreatedAt = aeNow ae,
       usUpdatedAt = aeNow ae, usLastLogin = aeNow ae\<rparr>) db = (None, db')"
  using assms
  by (auto simp: provider_Register_def Register_def NewUser_def NewAccount_def NewPassword_def user_Save_def validateRegisterParams_def Let_def
      split: if_splits sum.splits prod.splits option.splits insert_error.splits)

lemma user_read_back: "docToEntity (stored_doc stored (userDoc n u)) = Some (u\<lparr>usRanking := ToInt (stored (BInt (usRanking u)))\<rparr>)"
  by (simp add: docToEntity_def userDoc_def)

lemma found_after_register:
  assumes "provider_Register ae M account password sms db = (Inr uid, db')"
    and "FindOne M ''users'' [(''account'', BString (TrimSpace account))] db = Inl ErrNoDocuments"
  obtains u h where "FindByAccount M (TrimSpace account) db' = Some (Inr u)" "aeHex ae (usID u) = uid" "aeHash ae password = Some h" "Password u = h"
proof -
  define u where "u h = \<lparr>usID = aeOid ae, Account = TrimSpace account, Password = h, usRanking = 0, usCreatedAt = aeNow ae,
    usUpdatedAt = aeNow ae, usLastLogin = aeNow ae\<rparr>" for h
  obtain n h where r: "aeHash ae password = Some h" "uid = aeHex ae (aeOid ae)" and ins: "InsertOne M ''users'' (userDoc n (u h)) db = (None, db')"
    using registered [OF assms(1)] unfolding u_def by metis
  have "FindOne M ''users'' [(''account'', BString (TrimSpace account))] db' = Inr (stored_doc stored (userDoc n (u h)))"
    by (rule find_inserted [OF assms(2) ins]) (simp add: userDoc_def u_def)
  then have "FindByAccount M (TrimSpace account) db' = Some (Inr ((u h)\<lparr>usRanking := ToInt (stored (BInt (usRanking (u h))))\<rparr>))"
    using user_read_back [of n "u h"] by (simp add: FindByAccount_def find_user_def)
  then show thesis using that r by (simp add: u_def)
qed

lemma login_after_register:
  assumes "provider_Register ae M account password sms db = (Inr uid, db')"
    and "FindOne M ''users'' [(''account'', BString account)] db = Inl ErrNoDocuments" "TrimSpace account = account"
  shows "\<exists>db''. provider_Login ae M account password db' = Some (Inr uid, db'')"
    and "TrimSpace pw \<noteq> [] \<Longrightarrow> (\<And>h. aeHash ae password = Some h \<Longrightarrow> \<not> aeCompare ae h pw) \<Longrightarrow>
      provider_Login ae M account pw db' = Some (Inl Unauthenticated, db')"
proof -
  obtain u h where u: "FindByAccount M account db' = Some (Inr u)" "aeHex ae (usID u) = uid" "aeHash ae password = Some h" "Password u = h"
    using found_after_register [OF assms(1)] assms(2,3) by metis
  have v: "account \<noteq> []" "TrimSpace password \<noteq> []" using registered [OF assms(1)] assms(3) by metis+
  show "\<exists>db''. provider_Login ae M account password db' = Some (Inr uid, db'')"
    using u v assms(3) hash_verifies [OF u(3)]
    by (simp add: provider_Login_def Login_def validateLoginParams_def VerifyPassword_def)
  show "provider_Login ae M account pw db' = Some (Inl Unauthenticated, db')"
    if "TrimSpace pw \<noteq> []" "\<And>h. aeHash ae password = Some h \<Longrightarrow> \<not> aeCompare ae h pw"
    using that(2) [OF u(3)] that(1) u v assms(3) by (simp add: provider_Login_def Login_def validateLoginParams_def VerifyPassword_def)
qed

text \<open>Registration cuts blanks off the account, login does not: with the account as it was typed the user is not found.\<close>

lemma padded_account_not_found:
  assumes "provider_Register ae M account password sms db = (Inr uid, db')"
    and "FindOne M ''users'' [(''account'', BString account)] db = Inl ErrNoDocuments" "TrimSpace account \<noteq> account"
  shows "provider_Login ae M account password db' = Some (Inl NotFound, db')"
proof -
  obtain n h where r: "TrimSpace account \<noteq> []" "TrimSpace password \<noteq> []"
    and ins: "InsertOne M ''users'' (userDoc n \<lparr>usID = aeOid ae, Account = TrimSpace account, Password = h, usRanking = 0, usCreatedAt = aeNow ae,
       usUpdatedAt = aeNow ae, usLastLogin = aeNow ae\<rparr>) db = (None, db')"
    using registered [OF assms(1)] by metis
  have "FindOne M ''users'' [(''account'', BString account)] db' = Inl ErrNoDocuments"
    using assms(3) by (intro find_other [OF assms(2) ins, of "TrimSpace account"]) (auto simp: userDoc_def)
  then show ?thesis using r by (simp add: provider_Login_def Login_def validateLoginParams_def FindByAccount_def find_user_def)
qed

end

text \<open>An environment for the witnesses; its hash keeps the password behind a mark and fails, as bcrypt does, above 72 bytes.\<close>

definition plain_auth :: auth_env where
  "plain_auth = \<lparr>aeHash = (\<lambda>p. if length p \<le> 72 then Some (CHR ''#'' # p) else None), aeCompare = (\<lambda>h p. h = CHR ''#'' # p), aeOid = ''oid1'', aeHex = id,
     aeNow = 7, aeSeq = Some 1\<rparr>"

interpretation plain_accounts: accounts reads mem_mongo plain_auth
  by unfold_locales (simp add: plain_auth_def split: if_splits)

lemma trimmed_words [simp]: "TrimSpace ''bob'' = ''bob''" "TrimSpace ''secret'' = ''secret''" "TrimSpace ''guess!'' = ''guess!''" "TrimSpace ''0'' = ''0''"
  by code_simp+

lemma plain_register: "\<exists>db. provider_Register plain_auth mem_mongo ''bob'' ''secret'' ''0'' [] = (Inr ''oid1'', db)"
  by (simp add: provider_Register_def validateRegisterParams_def Register_def NewUser_def NewAccount_def NewPassword_def plain_auth_def
      user_Save_def mem_mongo_def)

lemma empty_no_account: "FindOne mem_mongo ''users'' [(''account'', BString a)] [] = Inl ErrNoDocuments"
  by (simp add: mem_mongo_def mem_find_def)

text \<open>Who registers can log in.  After a successful registration of a new account without surrounding blanks, a login with the
  same account and password returns the same user id, and a login with a password that does not match the hash is
  rejected as unauthenticated and changes nothing.\<close>

lemma register_then_login:
  assumes "accounts stored M ae" "provider_Register ae M account password sms db = (Inr uid, db')"
    and "FindOne M ''users'' [(''account'', BString account)] db = Inl ErrNoDocuments" "TrimSpace account = account"
  shows "(\<exists>db''. provider_Login ae M account password db' = Some (Inr uid, db''))
     \<and> (\<forall>pw. TrimSpace pw \<noteq> [] \<and> (\<forall>h. aeHash ae password = Some h \<longrightarrow> \<not> aeCompare ae h pw) \<longrightarrow>
          provider_Login ae M account pw db' = Some (Inl Unauthenticated, db'))"
  using accounts.login_after_register [OF assms] by blast

section \<open>Flaws\<close>

text \<open>The code sent by SMS is not checked: any text that is not blank registers.\<close>

lemma sms_code_ignored:
  "TrimSpace c \<noteq> [] \<Longrightarrow> TrimSpace c' \<noteq> [] \<Longrightarrow> provider_Register ae M account password c db = provider_Register ae M account password c' db"
  by (simp add: provider_Register_def validateRegisterParams_def)

text \<open>An account of one or two bytes, the caller's mistake, is reported as an internal error.\<close>

lemma short_account_internal:
  assumes "validateRegisterParams account password sms" "length (TrimSpace account) < 3"
  shows "provider_Register ae M account password sms db = (Inl Internal, db)"
  using assms by (simp add: provider_Register_def Register_def NewUser_def NewAccount_def validateRegisterParams_def Let_def)

end
