(* ===== verification/Connector.thy ===== *)
theory Connector
  imports Protocol Complex_Main
begin

text \<open>
  The connector, which holds the clients' websockets: \<^verbatim>\<open>connector/runtime/session.go\<close>, \<^verbatim>\<open>connection.go\<close>,
  \<^verbatim>\<open>connection_pool.go\<close>, \<^verbatim>\<open>worker.go\<close>, \<^verbatim>\<open>white_list.go\<close>, \<^verbatim>\<open>handler.go\<close>, \<^verbatim>\<open>pomelo_handler.go\<close>, \<^verbatim>\<open>connector_handler.go\<close> and
  \<^verbatim>\<open>middle_worker_handler.go\<close>.

  \<^item> Connection objects are recycled by a pool and shared between the client buckets and the map of users, so they
    live in an explicit store \<open>heap\<close>; a pointer is a number.
  \<^item> \<open>WriteChan\<close>, a channel of capacity 1024, is the messages waiting to be written, nil after a reset; the writing
    goroutine closes it when it ends.  A send on a closed channel panics; otherwise \<open>SendMessage\<close> says whether
    the sender gets past the send.
  \<^item> The stores of connector routes (Redis) and of game routes (a cache) are maps.  NATS is the list \<open>natsOut\<close> of packets
    handed over, a channel of capacity 1024.  JSON, JWT and the RPC to the march node are parameters.
  \<^item> Values of Go type \<open>any\<close> kept in a session are opaque; they are strings here.
\<close>

section \<open>Sessions\<close>

record Session =
  sessConnID :: string
  sessUserID :: string
  sessData :: "string \<rightharpoonup> string"
  sessAll :: "string \<rightharpoonup> string"

definition NewSession :: "string \<Rightarrow> Session" where
  "NewSession connID = \<lparr>sessConnID = connID, sessUserID = [], sessData = Map.empty, sessAll = Map.empty\<rparr>"

definition SetData :: "string \<Rightarrow> (string \<rightharpoonup> string) \<Rightarrow> Session \<Rightarrow> Session" where
  "SetData connID data s = (if sessConnID s = connID then s\<lparr>sessData := sessData s ++ data\<rparr> else s)"

definition SetAll :: "(string \<rightharpoonup> string) \<Rightarrow> Session \<Rightarrow> Session" where
  "SetAll data s = s\<lparr>sessAll := sessAll s ++ data\<rparr>"

definition SetUserID :: "string \<Rightarrow> Session \<Rightarrow> Session" where
  "SetUserID userID s = s\<lparr>sessUserID := userID\<rparr>"

definition GetUserID :: "Session \<Rightarrow> string" where
  "GetUserID s = sessUserID s"

definition SessionClose :: "Session \<Rightarrow> Session" where
  "SessionClose s = s\<lparr>sessData := Map.empty, sessAll := Map.empty\<rparr>"

section \<open>Connections and the worker\<close>

datatype socket = SocketNil | SocketOpen | SocketClosed
datatype close_chan = ChanNil | ChanOpen | ChanClosed
datatype ticker = TickerNil | TickerOn | TickerOff

text \<open>What is written to a websocket.\<close>

datatype frame = BinaryFrame "byte list" | PingFrame | CloseFrame

record LongConnection =
  ConnID :: string
  Conn :: socket
  hasWorker :: bool
  WriteChan :: "byte list list option"
  writeClosed :: bool
  connSession :: "Session option"
  pingTicker :: ticker
  closeChan :: close_chan
  connCloseOnce :: bool
  written :: "frame list"

record ServicePacket =
  spBody :: Message
  spSource :: string
  spDestination :: string
  spRoute :: string
  spPushUser :: "string list"

record ConnectionPack =
  packConnID :: string
  packBody :: "byte list"

text \<open>The goroutines \<open>BindUser\<close> and \<open>UnbindUser\<close> start to update the store of routes.\<close>

datatype route_op = SaveOp string string | DeleteOp string

record ConnWorker =
  cwNodeID :: string
  cwData :: "string \<rightharpoonup> string"
  clientBuckets :: "(string \<rightharpoonup> nat) list"
  clientWorkers :: "ConnectionPack list list"
  connSemaphore :: nat
  currentConnections :: int
  messageErrors :: int
  connMap :: "string \<rightharpoonup> nat"
  heap :: "nat \<Rightarrow> LongConnection"
  nextPtr :: nat
  freePool :: "nat list"
  poolCount :: int
  connIDBase :: nat
  routeOps :: "route_op list"
  UserRouter :: "string \<rightharpoonup> string"
  GameRouteCache :: "string \<rightharpoonup> string"
  natsOut :: "ServicePacket list"
  dict :: dictionary

definition maxConnectionCount :: int where [simp]: "maxConnectionCount = 100000"
definition bucketCount :: nat where [simp]: "bucketCount = 32"

definition zero_connection :: LongConnection where
  "zero_connection = \<lparr>ConnID = [], Conn = SocketNil, hasWorker = False, WriteChan = None, writeClosed = False, connSession = None,
     pingTicker = TickerNil, closeChan = ChanNil, connCloseOnce = False, written = []\<rparr>"

definition NewWorkerWithDeps :: "string \<Rightarrow> nat \<Rightarrow> ConnWorker" where
  "NewWorkerWithDeps nodeID workerCount = \<lparr>cwNodeID = nodeID, cwData = Map.empty, clientBuckets = replicate bucketCount Map.empty,
     clientWorkers = replicate workerCount [], connSemaphore = 0,
     currentConnections = 0, messageErrors = 0, connMap = Map.empty, heap = (\<lambda>p. zero_connection), nextPtr = 0, freePool = [],
     poolCount = 0, connIDBase = 10000, routeOps = [], UserRouter = Map.empty, GameRouteCache = Map.empty, natsOut = [], dict = no_routes\<rparr>"

text \<open>A write through a pointer.\<close>

definition put_conn :: "nat \<Rightarrow> LongConnection \<Rightarrow> ConnWorker \<Rightarrow> ConnWorker" where
  "put_conn p con w = w\<lparr>heap := (heap w)(p := con)\<rparr>"

section \<open>Client buckets\<close>

definition fnv32 :: "string \<Rightarrow> 32 word" where
  "fnv32 key = fold (\<lambda>b h. (h XOR ucast b) * 16777619) (bytes_of_string key) 2166136261"

definition bucketMask :: "32 word" where [simp]: "bucketMask = 31"

definition getBucket :: "string \<Rightarrow> nat" where
  "getBucket connID = unat (fnv32 connID AND bucketMask)"

text \<open>Reading and writing a bucket, with the bounds check of Go.\<close>

definition bucket_get :: "string \<Rightarrow> ConnWorker \<Rightarrow> nat option option" where
  "bucket_get connID w = map_option (\<lambda>b. b connID) (idx (clientBuckets w) (int (getBucket connID)))"

definition bucket_put :: "string \<Rightarrow> nat option \<Rightarrow> ConnWorker \<Rightarrow> ConnWorker option" where
  "bucket_put connID v w = do {
     b \<leftarrow> idx (clientBuckets w) (int (getBucket connID));
     bs \<leftarrow> upd (clientBuckets w) (int (getBucket connID)) (b(connID := v));
     Some (w\<lparr>clientBuckets := bs\<rparr>)
   }"

section \<open>The life of a connection\<close>

definition reset :: "LongConnection \<Rightarrow> LongConnection" where
  "reset con = con\<lparr>ConnID := [], Conn := SocketNil, hasWorker := False, WriteChan := None, writeClosed := False, connSession := None,
     pingTicker := TickerNil, closeChan := ChanNil\<rparr>"

text \<open>\<open>sync.Pool\<close> hands out any free object or a new one: \<open>reuse\<close> is its choice.\<close>

definition pool_take :: "nat option \<Rightarrow> ConnWorker \<Rightarrow> nat \<times> ConnWorker" where
  "pool_take reuse w = (case reuse of
     Some p \<Rightarrow> if p \<in> set (freePool w) then (p, w\<lparr>freePool := remove1 p (freePool w)\<rparr>)
       else (nextPtr w, w\<lparr>nextPtr := nextPtr w + 1, poolCount := poolCount w + 1\<rparr>)
   | None \<Rightarrow> (nextPtr w, w\<lparr>nextPtr := nextPtr w + 1, poolCount := poolCount w + 1\<rparr>))"

text \<open>\<open>uuid\<close> is the random part of the connection id.  The counter, a \<open>uint64\<close>, does not wrap in any run that can happen.\<close>

definition takeLongConnection :: "string \<Rightarrow> nat option \<Rightarrow> ConnWorker \<Rightarrow> nat \<times> ConnWorker" where
  "takeLongConnection uuid reuse w =
     (let (p, w) = pool_take reuse w;
          connID = uuid @ ''-'' @ cwNodeID w @ ''-'' @ decimal (connIDBase w + 1)
      in (p, put_conn p \<lparr>ConnID = connID, Conn = SocketOpen, hasWorker = True, WriteChan = Some [], writeClosed = False, connSession = Some (NewSession connID),
                         pingTicker = pingTicker (heap w p), closeChan = ChanOpen, connCloseOnce = False, written = []\<rparr> (w\<lparr>connIDBase := connIDBase w + 1\<rparr>)))"

text \<open>The delayed return of a closed connection to the pool.\<close>

definition pool_Put :: "nat \<Rightarrow> ConnWorker \<Rightarrow> ConnWorker" where
  "pool_Put p w =
     (if 10000 < poolCount w then w\<lparr>poolCount := poolCount w - 1\<rparr>
      else (put_conn p (reset (heap w p)) w)\<lparr>freePool := p # freePool w\<rparr>)"

definition conn_Close :: "nat \<Rightarrow> ConnWorker \<Rightarrow> ConnWorker option" where
  "conn_Close p w =
     (let con = heap w p
      in if connCloseOnce con then Some w
         else if closeChan con \<noteq> ChanOpen then None
         else Some (put_conn p (con\<lparr>connCloseOnce := True, closeChan := ChanClosed,
                Conn := (if Conn con = SocketNil then SocketNil else SocketClosed),
                pingTicker := (if pingTicker con = TickerNil then TickerNil else TickerOff),
                connSession := map_option SessionClose (connSession con)\<rparr>) w))"

datatype sent = Sent | Blocked

definition SendMessage :: "byte list \<Rightarrow> nat \<Rightarrow> ConnWorker \<Rightarrow> (sent \<times> ConnWorker) option" where
  "SendMessage buf p w =
     (let con = heap w p
      in case WriteChan con of
           None \<Rightarrow> Some (Blocked, w)
         | Some q \<Rightarrow> if writeClosed con then None
             else if length q < 1024 then Some (Sent, put_conn p (con\<lparr>WriteChan := Some (q @ [buf])\<rparr>) w)
             else Some (Blocked, w))"

definition doPush :: "byte list \<Rightarrow> nat \<Rightarrow> ConnWorker \<Rightarrow> (sent \<times> ConnWorker) option" where
  "doPush bye p w = SendMessage bye p w"

section \<open>Users and clients\<close>

text \<open>The keys of the connector routes, \<^verbatim>\<open>connector/infrastructure/realtime/user_router.go\<close>.\<close>

definition connectorRouterPrefix :: string where "connectorRouterPrefix = ''user:router:connector:''"

definition SaveConnectorRouter :: "string \<Rightarrow> string \<Rightarrow> (string \<rightharpoonup> string) \<Rightarrow> (string \<rightharpoonup> string)" where
  "SaveConnectorRouter userID connectorID store = store(connectorRouterPrefix @ userID \<mapsto> connectorID)"

definition GetConnectorRouter :: "string \<Rightarrow> (string \<rightharpoonup> string) \<Rightarrow> string option" where
  "GetConnectorRouter userID store = store (connectorRouterPrefix @ userID)"

definition DeleteConnectorRouter :: "string \<Rightarrow> (string \<rightharpoonup> string) \<Rightarrow> (string \<rightharpoonup> string)" where
  "DeleteConnectorRouter userID store = store(connectorRouterPrefix @ userID := None)"

definition BindUser :: "string \<Rightarrow> nat \<Rightarrow> ConnWorker \<Rightarrow> ConnWorker option" where
  "BindUser userID p w =
     (if userID = [] then Some w
      else do {
        w \<leftarrow> (case connMap w userID of
               Some old \<Rightarrow> if old \<noteq> p then conn_Close old w else Some w
             | None \<Rightarrow> Some w);
        Some (w\<lparr>connMap := (connMap w)(userID \<mapsto> p), routeOps := routeOps w @ [SaveOp userID (cwNodeID w)]\<rparr>)
      })"

definition UnbindUser :: "string \<Rightarrow> nat \<Rightarrow> ConnWorker \<Rightarrow> ConnWorker" where
  "UnbindUser userID p w =
     (if userID = [] then w
      else let w = (if connMap w userID = Some p then w\<lparr>connMap := (connMap w)(userID := None)\<rparr> else w)
           in w\<lparr>routeOps := routeOps w @ [DeleteOp userID]\<rparr>)"

text \<open>One of the started goroutines runs.\<close>

definition run_route_op :: "nat \<Rightarrow> ConnWorker \<Rightarrow> ConnWorker" where
  "run_route_op n w =
     (if n < length (routeOps w)
      then w\<lparr>routeOps := take n (routeOps w) @ drop (n + 1) (routeOps w),
        UserRouter := (case routeOps w ! n of
            SaveOp u c \<Rightarrow> SaveConnectorRouter u c (UserRouter w)
          | DeleteOp u \<Rightarrow> DeleteConnectorRouter u (UserRouter w))\<rparr>
      else w)"

definition addClient :: "nat \<Rightarrow> ConnWorker \<Rightarrow> ConnWorker option" where
  "addClient p w =
     (if connSemaphore w < 100000
      then do {
        w \<leftarrow> bucket_put (ConnID (heap w p)) (Some p) (w\<lparr>connSemaphore := connSemaphore w + 1\<rparr>);
        s \<leftarrow> connSession (heap w p);
        Some ((put_conn p ((heap w p)\<lparr>connSession := Some (SetAll (cwData w) s)\<rparr>) w)\<lparr>currentConnections := currentConnections w + 1\<rparr>)
      }
      else conn_Close p w)"

definition removeClient :: "nat \<Rightarrow> ConnWorker \<Rightarrow> ConnWorker option" where
  "removeClient p w = do {
     c \<leftarrow> bucket_get (ConnID (heap w p)) w;
     if c = None then Some w
     else do {
       w \<leftarrow> bucket_put (ConnID (heap w p)) None w;
       w \<leftarrow> Some (case connSession (heap w p) of None \<Rightarrow> w | Some s \<Rightarrow> UnbindUser (GetUserID s) p w);
       w \<leftarrow> conn_Close p w;
       Some (w\<lparr>connSemaphore := connSemaphore w - 1, currentConnections := currentConnections w - 1\<rparr>)
     }
   }"

text \<open>The ends of \<open>writeMessage\<close> and \<open>readMessage\<close>: the write channel is closed, the client removed through the
  connection's worker pointer, which a reset has cleared.\<close>

definition close_writer :: "nat \<Rightarrow> ConnWorker \<Rightarrow> ConnWorker" where
  "close_writer p w = (if WriteChan (heap w p) = None then w else put_conn p ((heap w p)\<lparr>writeClosed := True\<rparr>) w)"

definition readMessage_end :: "nat \<Rightarrow> ConnWorker \<Rightarrow> ConnWorker option" where
  "readMessage_end p w = (if hasWorker (heap w p) then removeClient p w else None)"

definition writeMessage_end :: "nat \<Rightarrow> ConnWorker \<Rightarrow> ConnWorker option" where
  "writeMessage_end p w = readMessage_end p (close_writer p w)"

text \<open>\<open>WriteMessage\<close> of the websocket: \<open>ok\<close> is whether an open socket takes the frame; a closed one takes none.\<close>

definition socket_write :: "bool \<Rightarrow> frame \<Rightarrow> nat \<Rightarrow> ConnWorker \<Rightarrow> (bool \<times> ConnWorker) option" where
  "socket_write ok f p w = (case Conn (heap w p) of
     SocketNil \<Rightarrow> None
   | SocketClosed \<Rightarrow> Some (False, w)
   | SocketOpen \<Rightarrow> if ok then Some (True, put_conn p ((heap w p)\<lparr>written := written (heap w p) @ [f]\<rparr>) w) else Some (False, w))"

definition writeMessage_start :: "nat \<Rightarrow> ConnWorker \<Rightarrow> ConnWorker" where
  "writeMessage_start p w = put_conn p ((heap w p)\<lparr>pingTicker := TickerOn\<rparr>) w"

text \<open>One round of the loop of \<open>writeMessage\<close>, in which the given case of the \<open>select\<close> is ready and chosen: it says whether the
  loop goes on.  A case that is not ready changes nothing.  The \<open>select\<close> reads the channel of the ticker first.\<close>

datatype write_case = OnMessage | OnTick | OnClose

definition writeMessage_case :: "bool \<Rightarrow> write_case \<Rightarrow> nat \<Rightarrow> ConnWorker \<Rightarrow> (bool \<times> ConnWorker) option" where
  "writeMessage_case ok c p w =
     (let con = heap w p
      in if pingTicker con = TickerNil then None
         else case c of
           OnMessage \<Rightarrow> (case WriteChan con of
               Some (message # q) \<Rightarrow> do {
                 (_, w) \<leftarrow> socket_write ok (BinaryFrame message) p (put_conn p (con\<lparr>WriteChan := Some q\<rparr>) w);
                 Some (True, w)
               }
             | Some [] \<Rightarrow>
                 if writeClosed con then do {
                   (_, w) \<leftarrow> socket_write ok CloseFrame p w;
                   w \<leftarrow> conn_Close p w;
                   Some (False, w)
                 }
                 else Some (True, w)
             | None \<Rightarrow> Some (True, w))
         | OnTick \<Rightarrow>
             if pingTicker con = TickerOn then do {
               (sent, w) \<leftarrow> socket_write ok PingFrame p w;
               w \<leftarrow> (if sent then Some w else conn_Close p w);
               Some (True, w)
             }
             else Some (True, w)
         | OnClose \<Rightarrow> Some (closeChan con \<noteq> ChanClosed, w))"

definition writeMessage :: "bool \<Rightarrow> write_case \<Rightarrow> nat \<Rightarrow> ConnWorker \<Rightarrow> ConnWorker option" where
  "writeMessage ok c p w = do {
     (go, w) \<leftarrow> writeMessage_case ok c p w;
     if go then Some w else writeMessage_end p w
   }"

text \<open>\<open>upgradeFunc\<close> after the user is known and the websocket is open.\<close>

definition upgradeFunc :: "string \<Rightarrow> bool \<Rightarrow> string \<Rightarrow> nat option \<Rightarrow> ConnWorker \<Rightarrow> ConnWorker option" where
  "upgradeFunc userID allowed uuid reuse w =
     (if \<not> allowed then Some w
      else if maxConnectionCount \<le> currentConnections w then Some w
      else let (p, w) = takeLongConnection uuid reuse w;
               w = put_conn p ((heap w p)\<lparr>connSession := map_option (SetUserID userID) (connSession (heap w p))\<rparr>) w
           in do { w \<leftarrow> BindUser userID p w; addClient p w })"

section \<open>Who is connecting\<close>

definition trim_slashes :: "string \<Rightarrow> string" where
  "trim_slashes s = rev (dropWhile (\<lambda>c. c = CHR ''/'') (rev (dropWhile (\<lambda>c. c = CHR ''/'') s)))"

definition extractUserIDFromTestPath :: "bool \<Rightarrow> string \<Rightarrow> string option" where
  "extractUserIDFromTestPath allowTestPath path =
     (if allowTestPath then None
      else let trimmed = trim_slashes path
           in if trimmed = [] then None
              else (case filter (\<lambda>seg. HasPrefix seg ''test='' \<and> drop 5 seg \<noteq> []) (split_at (CHR ''/'') trimmed) of
                      [] \<Rightarrow> None
                    | seg # _ \<Rightarrow> Some (drop 5 seg)))"

datatype identify_error = MissingToken | NoSecret | BadToken | EmptyUser

definition identifyUser :: "bool \<Rightarrow> string \<Rightarrow> (string \<Rightarrow> string \<Rightarrow> string option) \<Rightarrow> string \<Rightarrow> string \<Rightarrow> identify_error + string \<times> string" where
  "identifyUser allowTestPath secret parseToken path barrier = (case extractUserIDFromTestPath allowTestPath path of
     Some userID \<Rightarrow> Inr (userID, ''test-path'')
   | None \<Rightarrow>
       if barrier = [] then Inl MissingToken
       else if secret = [] then Inl NoSecret
       else (case parseToken barrier secret of
           None \<Rightarrow> Inl BadToken
         | Some userID \<Rightarrow> if userID = [] then Inl EmptyUser else Inr (userID, ''token'')))"

section \<open>Packets from clients\<close>

datatype conn_error =
    Undecodable proto_error | NoClient | NoHandler | BadRoute | UnsupportedForward string | NoGameRoute string | NatsFull
  | Unwrappable proto_error | NotConnected string | Stuck

datatype fail_tip = NoUserID | BadRequest | NoPoolID | JoinFailed

datatype reply = Failed fail_tip | Joined string

text \<open>What the handlers take from outside.\<close>

record conn_env =
  ceUnmarshal :: "byte list \<Rightarrow> Sys option"
  ceInflate :: "byte list \<Rightarrow> byte list option"
  cePool :: "byte list \<Rightarrow> string option"
  ceJoin :: "string \<Rightarrow> string \<Rightarrow> string option"
  ceMarshal :: "reply \<Rightarrow> byte list"
  cePlayers :: "byte list \<Rightarrow> (string list \<times> string) option"

definition handshake_json :: string where
  "handshake_json = ''{\"code\":200,\"sys\":{\"type\":\"\",\"version\":\"\",\"protoVersion\":0,\"heartbeat\":3,\"dict\":null,\"serializer\":\"\"}}''"

text \<open>\<open>Stuck\<close> is not an error the code returns: the goroutine stays blocked in the send.\<close>

definition send_wrapped :: "PackageType \<Rightarrow> byte list \<Rightarrow> nat \<Rightarrow> ConnWorker \<Rightarrow> (conn_error option \<times> ConnWorker) option" where
  "send_wrapped t body p w = (case Wrap t body of
     Inl e \<Rightarrow> Some (Some (Unwrappable e), w)
   | Inr buf \<Rightarrow> do { (r, w) \<leftarrow> SendMessage buf p w; Some (if r = Sent then None else Some Stuck, w) })"

definition handshakeHandler :: "Packet \<Rightarrow> nat \<Rightarrow> ConnWorker \<Rightarrow> (conn_error option \<times> ConnWorker) option" where
  "handshakeHandler packet p w = send_wrapped (pktType packet) (bytes_of_string handshake_json) p w"

definition handshakeAckHandler :: "Packet \<Rightarrow> nat \<Rightarrow> ConnWorker \<Rightarrow> (conn_error option \<times> ConnWorker) option" where
  "handshakeAckHandler packet p w = Some (None, w)"

definition heartbeatHandler :: "Packet \<Rightarrow> nat \<Rightarrow> ConnWorker \<Rightarrow> (conn_error option \<times> ConnWorker) option" where
  "heartbeatHandler packet p w = send_wrapped (pktType packet) (bytes_of_string ''null'') p w"

definition kickHandler :: "Packet \<Rightarrow> nat \<Rightarrow> ConnWorker \<Rightarrow> (conn_error option \<times> ConnWorker) option" where
  "kickHandler packet p w = Some (None, w)"

definition PushMessage :: "ServicePacket \<Rightarrow> ConnWorker \<Rightarrow> conn_error option \<times> ConnWorker" where
  "PushMessage packet w = (if length (natsOut w) < 1024 then (None, w\<lparr>natsOut := natsOut w @ [packet]\<rparr>) else (Some NatsFull, w))"

definition dispatchGameNode :: "Message \<Rightarrow> nat \<Rightarrow> ConnWorker \<Rightarrow> (conn_error option \<times> ConnWorker) option" where
  "dispatchGameNode message p w = do {
     s \<leftarrow> connSession (heap w p);
     let userID = sessUserID s;
     case GameRouteCache w userID of
       None \<Rightarrow> Some (Some (NoGameRoute userID), w)
     | Some next' \<Rightarrow> Some (PushMessage \<lparr>spBody = message, spSource = cwNodeID w, spDestination = next', spRoute = msgRoute message,
                               spPushUser = []\<rparr> w)
   }"

definition joinQueueHandler :: "conn_env \<Rightarrow> Session \<Rightarrow> byte list \<Rightarrow> reply" where
  "joinQueueHandler ce session body =
     (let userID = GetUserID session
      in if userID = [] then Failed NoUserID
         else case (if body = [] then Some [] else cePool ce body) of
                None \<Rightarrow> Failed BadRequest
              | Some poolID \<Rightarrow> if poolID = [] then Failed NoPoolID
                  else (case ceJoin ce userID poolID of None \<Rightarrow> Failed JoinFailed | Some msg \<Rightarrow> Joined msg))"

definition joinQueueRoute :: string where [simp]: "joinQueueRoute = ''connector.joinqueue''"

definition messageHandler :: "conn_env \<Rightarrow> Packet \<Rightarrow> nat \<Rightarrow> ConnWorker \<Rightarrow> (conn_error option \<times> ConnWorker) option" where
  "messageHandler ce packet p w = do {
     m \<leftarrow> ParseBody packet;
     parse \<leftarrow> m;
     let routeList = split_at (CHR ''.'') (msgRoute parse);
     if length routeList < 2 then Some (Some BadRoute, w)
     else if hd routeList \<noteq> ''connector'' then
       (if hd routeList \<noteq> ''game'' then Some (Some (UnsupportedForward (hd routeList)), w)
        else dispatchGameNode parse p w)
     else if msgRoute parse = joinQueueRoute then do {
       s \<leftarrow> connSession (heap w p);
       let data = joinQueueHandler ce s (case msgData parse of None \<Rightarrow> [] | Some d \<Rightarrow> d);
       send_wrapped (pktType packet) (MessageEncode (dict w) (parse\<lparr>msgType := MsgResponse, msgData := Some (ceMarshal ce data)\<rparr>)) p w
     }
     else Some (None, w)
   }"

text \<open>The handlers \<open>injectDefaultHandlers\<close> installs, by packet type.\<close>

definition clientHandlers :: "conn_env \<Rightarrow> PackageType \<rightharpoonup> (Packet \<Rightarrow> nat \<Rightarrow> ConnWorker \<Rightarrow> (conn_error option \<times> ConnWorker) option)" where
  "clientHandlers ce = [Handshake \<mapsto> handshakeHandler, HandshakeAck \<mapsto> handshakeAckHandler, Heartbeat \<mapsto> heartbeatHandler,
     DataPkg \<mapsto> messageHandler ce, Kick \<mapsto> kickHandler]"

definition handleProtocolEvent :: "conn_env \<Rightarrow> Packet \<Rightarrow> string \<Rightarrow> ConnWorker \<Rightarrow> (conn_error option \<times> ConnWorker) option" where
  "handleProtocolEvent ce packet connID w = do {
     c \<leftarrow> bucket_get connID w;
     case c of
       None \<Rightarrow> Some (Some NoClient, w)
     | Some p \<Rightarrow> (case clientHandlers ce (pktType packet) of
         None \<Rightarrow> Some (Some NoHandler, w)
       | Some handler \<Rightarrow> handler packet p w)
   }"

definition DecodeAndHandlePack :: "conn_env \<Rightarrow> string \<Rightarrow> byte list \<Rightarrow> byte list \<Rightarrow> ConnWorker \<Rightarrow> ConnWorker option" where
  "DecodeAndHandlePack ce connID body spare w = do {
     (r, d) \<leftarrow> Decode (ceUnmarshal ce) (ceInflate ce) (dict w) body spare;
     let w = w\<lparr>dict := d\<rparr>;
     case r of
       Inl e \<Rightarrow> Some (w\<lparr>messageErrors := messageErrors w + 1\<rparr>)
     | Inr packet \<Rightarrow> do {
         (err, w) \<leftarrow> handleProtocolEvent ce packet connID w;
         Some (if err \<in> {None, Some Stuck} then w else w\<lparr>messageErrors := messageErrors w + 1\<rparr>)
       }
   }"

text \<open>\<open>readMessage\<close> hands a binary message to the worker goroutine of its connection, or handles it itself when that
  goroutine's queue of 256 is full.\<close>

definition readMessage_pack :: "conn_env \<Rightarrow> byte list \<Rightarrow> byte list \<Rightarrow> nat \<Rightarrow> ConnWorker \<Rightarrow> ConnWorker option" where
  "readMessage_pack ce message spare p w = do {
     let connID = ConnID (heap w p);
     let n = length (clientWorkers w);
     if n = 0 then None
     else do {
       let workerID = unat (fnv32 connID) mod n;
       if length (clientWorkers w ! workerID) < 256
       then Some (w\<lparr>clientWorkers := (clientWorkers w)[workerID := clientWorkers w ! workerID @ [\<lparr>packConnID = connID, packBody = message\<rparr>]]\<rparr>)
       else DecodeAndHandlePack ce connID message spare (w\<lparr>messageErrors := messageErrors w + 1\<rparr>)
     }
   }"

text \<open>One round of the loop of \<open>readMessage\<close>: what \<open>ReadMessage\<close> of the websocket returns, which fails for messages above the
  read limit, and the dispatch, where a close that came in between may be seen first.\<close>

datatype ws_input = ReadFailed | BinaryInput "byte list" | OtherInput
datatype read_result = ReadEnd | ReadSkip | ReadGot "byte list"

definition maxMessageSize :: nat where [simp]: "maxMessageSize = 1024"

definition readMessage_read :: "ws_input \<Rightarrow> nat \<Rightarrow> ConnWorker \<Rightarrow> read_result" where
  "readMessage_read input p w =
     (if closeChan (heap w p) = ChanClosed then ReadEnd
      else case input of
        ReadFailed \<Rightarrow> ReadEnd
      | OtherInput \<Rightarrow> ReadSkip
      | BinaryInput message \<Rightarrow> if maxMessageSize < length message then ReadEnd else ReadGot message)"

definition readMessage :: "conn_env \<Rightarrow> read_result \<Rightarrow> bool \<Rightarrow> byte list \<Rightarrow> nat \<Rightarrow> ConnWorker \<Rightarrow> ConnWorker option" where
  "readMessage ce r sees_close spare p w = (case r of
     ReadEnd \<Rightarrow> readMessage_end p w
   | ReadSkip \<Rightarrow> Some w
   | ReadGot message \<Rightarrow>
       if sees_close \<and> closeChan (heap w p) = ChanClosed then readMessage_end p w
       else readMessage_pack ce message spare p w)"

text \<open>One round of the loop of \<open>clientWorkerRoutine\<close>; it waits on an empty queue.\<close>

definition clientWorkerRoutine :: "conn_env \<Rightarrow> byte list \<Rightarrow> nat \<Rightarrow> ConnWorker \<Rightarrow> ConnWorker option" where
  "clientWorkerRoutine ce spare workerID w = do {
     q \<leftarrow> idx (clientWorkers w) (int workerID);
     case q of
       [] \<Rightarrow> Some w
     | pack # rest \<Rightarrow> DecodeAndHandlePack ce (packConnID pack) (packBody pack) spare (w\<lparr>clientWorkers := (clientWorkers w)[workerID := rest]\<rparr>)
   }"

section \<open>Messages from other nodes\<close>

definition conn_send :: "MessageType \<Rightarrow> string \<Rightarrow> string \<Rightarrow> byte list option \<Rightarrow> ConnWorker \<Rightarrow> (conn_error option \<times> ConnWorker) option" where
  "conn_send messageType userID route body w = (case connMap w userID of
     None \<Rightarrow> Some (Some (NotConnected userID), w)
   | Some p \<Rightarrow> send_wrapped DataPkg (MessageEncode (dict w)
       \<lparr>msgType = messageType, ID = 0, msgRoute = route, msgData = body, routeCompressed = False, msgError = False\<rparr>) p w)"

fun send_all :: "string list \<Rightarrow> string \<Rightarrow> byte list option \<Rightarrow> ConnWorker \<Rightarrow> ConnWorker option" where
  "send_all [] route body w = Some w"
| "send_all (u # us) route body w = do {
     (err, w) \<leftarrow> conn_send MsgPush u route body w;
     if err = Some Stuck then Some w else send_all us route body w
   }"

text \<open>\<open>Worker.Push\<close>, encoded once for all users.\<close>

fun push_users :: "byte list \<Rightarrow> string list \<Rightarrow> ConnWorker \<Rightarrow> ConnWorker option" where
  "push_users res [] w = Some w"
| "push_users res (userID # us) w =
     (if userID = [] then push_users res us w
      else case connMap w userID of
             None \<Rightarrow> push_users res us w
           | Some p \<Rightarrow> do {
               (r, w) \<leftarrow> doPush res p w;
               if r = Sent then push_users res us w else Some w
             })"

definition conn_Push :: "ServicePacket \<Rightarrow> ConnWorker \<Rightarrow> ConnWorker option" where
  "conn_Push message w = (case Wrap DataPkg (MessageEncode (dict w) (spBody message)) of
     Inl e \<Rightarrow> Some w
   | Inr res \<Rightarrow> if msgType (spBody message) = MsgPush then push_users res (spPushUser message) w else Some w)"

definition MatchingSuccess :: string where [simp]: "MatchingSuccess = ''matching.success''"
definition GamePush :: string where [simp]: "GamePush = ''game.push''"

definition handlePush :: "string list \<Rightarrow> Message \<Rightarrow> string \<Rightarrow> ConnWorker \<Rightarrow> ConnWorker option" where
  "handlePush users body route w =
     (if route = MatchingSuccess then send_all users MatchingSuccess (msgData body) w
      else if route = GamePush then send_all users GamePush (msgData body) w
      else Some w)"

definition cache_Set :: "string \<Rightarrow> string \<Rightarrow> ConnWorker \<Rightarrow> ConnWorker" where
  "cache_Set userID gameNodeID w =
     (if userID = [] \<or> gameNodeID = [] then w else w\<lparr>GameRouteCache := (GameRouteCache w)(userID \<mapsto> gameNodeID)\<rparr>)"

definition handlerMatchSuccess :: "conn_env \<Rightarrow> byte list option \<Rightarrow> ConnWorker \<Rightarrow> ConnWorker" where
  "handlerMatchSuccess ce message w = (case cePlayers ce (case message of None \<Rightarrow> [] | Some m \<Rightarrow> m) of
     None \<Rightarrow> w
   | Some (players, gameNodeID) \<Rightarrow> fold (\<lambda>u. cache_Set u gameNodeID) players w)"

text \<open>One packet of \<open>readChanMessage\<close>: the handler of its route, then the push handler.  The handler of the connector returns nothing.\<close>

definition readChanMessage :: "conn_env \<Rightarrow> ServicePacket \<Rightarrow> ConnWorker \<Rightarrow> ConnWorker option" where
  "readChanMessage ce packet w =
     (let w = (if spRoute packet = MatchingSuccess then handlerMatchSuccess ce (msgData (spBody packet)) w else w)
      in if msgType (spBody packet) = MsgPush then handlePush (spPushUser packet) (spBody packet) (spRoute packet) w else Some w)"

section \<open>Rate limit\<close>

text \<open>Seconds and tokens, finite \<open>float64\<close> values, are rationals; rounding is not modelled.\<close>

record RateLimiter =
  rate :: rat
  capacity :: rat
  tokens :: rat
  lastRefill :: rat

definition NewRateLimiter :: "int \<Rightarrow> int \<Rightarrow> rat \<Rightarrow> RateLimiter" where
  "NewRateLimiter r burst time = \<lparr>rate = of_int r, capacity = of_int (burst * r), tokens = of_int (burst * r), lastRefill = time\<rparr>"

definition Allow :: "rat \<Rightarrow> RateLimiter \<Rightarrow> bool \<times> RateLimiter" where
  "Allow time rl =
     (let newTokens = (time - lastRefill rl) * rate rl;
          rl = (if tokens rl < capacity rl then rl\<lparr>tokens := min (capacity rl) (tokens rl + newTokens)\<rparr> else rl);
          rl = rl\<lparr>lastRefill := time\<rparr>
      in if 1 \<le> tokens rl then (True, rl\<lparr>tokens := tokens rl - 1\<rparr>) else (False, rl))"

end
