(* ===== verification/ProtocolSpec.thy ===== *)
theory ProtocolSpec
  imports Protocol
begin

text \<open>
  The wire protocol round-trips: ids of any size, compressed and plain routes, whole packets.  The route
  dictionary stays a bijection.  Two flaws: packets that make the decoder panic, and routes whose
  length does not fit its byte.
\<close>

section \<open>Bytes and fields\<close>

lemma byte_masks: "(0xFF :: 16 word) = mask 8" "(0x7F :: 8 word) = mask 7" "(0xFF :: int) = mask 8"
  by (simp_all add: mask_eq_exp_minus_1)

lemma seven_bits:
  fixes x :: "64 word"
  assumes "x < 128"
  shows "ucast ((ucast x :: byte) AND 0x7F) = x" "ucast ((ucast x + 128 :: byte) AND 0x7F) = x"
    "(ucast x :: byte) < 128" "\<not> (ucast x + 128 :: byte) < 128"
proof -
  have n: "unat x < 128" using assms by (simp add: word_less_nat_alt)
  have u: "unat (ucast x :: byte) = unat x" using n by (simp add: unsigned_ucast_eq take_bit_nat_eq_self)
  have v: "unat (ucast x + 128 :: byte) = unat x + 128" using n u by (simp add: unat_add_lem [THEN iffD1])
  have m: "unat (y AND 0x7F) = unat y mod 128" for y :: byte
    unfolding byte_masks by (simp add: take_bit_eq_mod unat_mod flip: take_bit_eq_mask)
  show "ucast ((ucast x :: byte) AND 0x7F) = x" "ucast ((ucast x + 128 :: byte) AND 0x7F) = x"
    using n by (simp_all add: word_unat_eq_iff unsigned_ucast_eq m u v take_bit_nat_eq_self)
  show "(ucast x :: byte) < 128" "\<not> (ucast x + 128 :: byte) < 128" using n u v by (simp_all add: word_less_nat_alt)
qed

lemma split7: "(x :: 64 word) = x mod 128 + drop_bit 7 x * 128"
  using mod_div_mult_eq [of x 128] by (simp add: drop_bit_eq_div)

lemma uint16_bytes: "Uint16 [ucast (drop_bit 8 code AND 0xFF), ucast (code AND 0xFF)] = code"
  unfolding Uint16_def byte_masks by (rule bit_word_eqI) (auto simp: bit_simps)

lemma IntToBytes_inv: "BytesToInt (IntToBytes n) = n mod 2 ^ 24"
proof -
  have "BytesToInt (IntToBytes n) = take_bit 24 n"
    unfolding BytesToInt_def IntToBytes_def byte_masks
    apply (rule bit_eqI)
    subgoal for k by (cases "16 \<le> k") (auto simp: bit_simps unsigned_of_int)
    done
  then show ?thesis by (simp add: take_bit_eq_mod)
qed


lemma string_bytes [simp]: "string_of_bytes (bytes_of_string s) = s"
  by (induction s) (simp_all add: string_of_bytes_def bytes_of_string_def unat_of_nat)

lemma length_bytes_of_string [simp]: "length (bytes_of_string s) = length s"
  by (simp add: bytes_of_string_def)

lemma decode_encode_ID:
  "decodeMessageID (encodeMessageID n @ rest) k acc = (acc + push_bit (7 * k) n, Some (k + length (encodeMessageID n)))"
proof (induction n arbitrary: k acc rule: encodeMessageID.induct)
  case (1 n)
  have lt: "n mod 128 < 128" by (rule word_mod_less_divisor) simp
  note b = seven_bits [OF lt]
  show ?case
  proof (cases "drop_bit 7 n = 0")
    case True
    then have "n mod 128 = n" using split7 [of n] by simp
    then show ?thesis using True b by (simp add: encodeMessageID.simps [of n])
  next
    case False
    have "push_bit (7 * k) (n mod 128) + push_bit (7 * (k + 1)) (drop_bit 7 n) = push_bit (7 * k) (n mod 128 + drop_bit 7 n * 128)"
      by (simp add: push_bit_eq_mult power_add algebra_simps)
    then have e: "push_bit (7 * k) (n mod 128) + push_bit (7 * (k + 1)) (drop_bit 7 n) = push_bit (7 * k) n" by (simp only: split7 [symmetric])
    show ?thesis
      using 1 [OF refl refl False, of "k + 1" "acc + push_bit (7 * k) (n mod 128)"] b False e [symmetric]
      by (simp add: encodeMessageID.simps [of n] Let_def add.assoc)
  qed
qed

lemma message_types: "t \<le> MsgPush \<longleftrightarrow> t = 0 \<or> t = 1 \<or> t = 2 \<or> t = (3 :: byte)"
proof
  assume "t \<le> MsgPush"
  then have "unat t \<le> 3" by (simp add: word_le_nat_alt)
  then have "unat t = 0 \<or> unat t = 1 \<or> unat t = 2 \<or> unat t = 3" by linarith
  then show "t = 0 \<or> t = 1 \<or> t = 2 \<or> t = 3" by (auto simp: word_unat_eq_iff)
qed auto

lemma flag_fields:
  assumes "t \<le> MsgPush"
  shows "drop_bit 1 (encodeMessageFlag t c) AND TypeMask = t"
    "encodeMessageFlag t c AND RouteCompressMask = 1 \<longleftrightarrow> c"
    "encodeMessageFlag t c AND ErrorMask \<noteq> ErrorMask" "encodeMessageFlag t c AND GZIPMask \<noteq> GZIPMask"
  using assms unfolding message_types encodeMessageFlag_def by (cases c; auto)+

lemma route_codec:
  assumes "compressed \<Longrightarrow> codes d code = Some route" "\<not> compressed \<Longrightarrow> length route < 256" "length pre = n"
  shows "decodeMessageRoute d compressed (pre @ encodeMessageRoute code compressed route @ data) spare n
    = Some (Inr (route, n + length (encodeMessageRoute code compressed route)))"
proof (cases compressed)
  case True
  then show ?thesis using assms uint16_bytes [of code]
    by (simp add: decodeMessageRoute_def encodeMessageRoute_def slice_at_def GetRoute_def take_Cons')
next
  case False
  then have "unat (word_of_nat (length route) :: byte) = length route" using assms(2) by (simp add: unat_of_nat)
  then show ?thesis using False assms(3) by (simp add: decodeMessageRoute_def encodeMessageRoute_def slice_at_def idx_def nth_append)
qed

section \<open>The dictionary\<close>

text \<open>The two maps of a dictionary are inverse to each other.\<close>

definition dict_ok :: "dictionary \<Rightarrow> bool" where
  "dict_ok d \<longleftrightarrow> (\<forall>r c. routes d r = Some c \<longleftrightarrow> codes d c = Some r)"

lemma dict_okD: "dict_ok d \<Longrightarrow> routes d r = Some c \<Longrightarrow> codes d c = Some r"
  by (simp add: dict_ok_def)

lemma dict_ok_empty: "dict_ok no_routes"
  by (simp add: dict_ok_def no_routes_def)

lemma dict_ok_add:
  "dict_ok d \<Longrightarrow> routes d r = None \<Longrightarrow> codes d c = None \<Longrightarrow>
   dict_ok (d\<lparr>routes := (routes d)(r \<mapsto> c), codes := (codes d)(c \<mapsto> r)\<rparr>)"
  unfolding dict_ok_def by (auto simp: fun_upd_apply) (metis option.distinct(1))+

lemma SetDictionary_ok: "dict_ok d \<Longrightarrow> dict_ok (SetDictionary dict d)"
  by (induction dict d rule: SetDictionary.induct) (auto simp: Let_def dict_ok_add)

lemma SetDictionary_mono: "routes d r = Some c \<Longrightarrow> routes (SetDictionary dict d) r = Some c"
proof (induction dict d rule: SetDictionary.induct)
  case (2 route code dict d)
  then show ?case by (cases "r = TrimSpace route") (auto simp: Let_def)
qed simp

lemma SetDictionary_all:
  "distinct (map (TrimSpace \<circ> fst) dict) \<Longrightarrow> distinct (map snd dict) \<Longrightarrow> (\<forall>(r, c) \<in> set dict. routes d (TrimSpace r) = None \<and> codes d c = None)
   \<Longrightarrow> (r, c) \<in> set dict \<Longrightarrow> routes (SetDictionary dict d) (TrimSpace r) = Some c"
proof (induction dict d rule: SetDictionary.induct)
  case (2 route code dict d)
  let ?d = "d\<lparr>routes := (routes d)(TrimSpace route \<mapsto> code), codes := (codes d)(code \<mapsto> TrimSpace route)\<rparr>"
  have free: "routes d (TrimSpace route) = None" "codes d code = None" using 2(4) by auto
  have "\<forall>(r, c) \<in> set dict. routes ?d (TrimSpace r) = None \<and> codes ?d c = None"
    using 2(2-4) by (fastforce simp: image_iff)
  then show ?case using 2 free SetDictionary_mono [of ?d "TrimSpace route" code dict] by (auto simp: Let_def)
qed simp

section \<open>Round trips\<close>

text \<open>What arrives of a message: an id only with requests and responses, a route with all but responses, never an error mark.\<close>

definition arrives :: "dictionary \<Rightarrow> Message \<Rightarrow> Message" where
  "arrives d m = m\<lparr>ID := (if messageHasID (msgType m) then ID m else 0),
     msgRoute := (if messageHasRoute (msgType m) then msgRoute m else []),
     msgData := Some (case msgData m of None \<Rightarrow> [] | Some data \<Rightarrow> data),
     routeCompressed := messageHasRoute (msgType m) \<and> routes d (msgRoute m) \<noteq> None, msgError := False\<rparr>"

definition route_fits :: "dictionary \<Rightarrow> Message \<Rightarrow> bool" where
  "route_fits d m \<longleftrightarrow> routes d (msgRoute m) \<noteq> None \<or> length (msgRoute m) < 256"

lemma MessageDecode_Encode:
  assumes "dict_ok d" "msgType m \<le> MsgPush" "route_fits d m"
  shows "MessageDecode inflate d (MessageEncode d m) spare = Some (Inr (arrives d m))"
proof -
  let ?t = "msgType m"
  define c where "c \<longleftrightarrow> routes d (msgRoute m) \<noteq> None"
  define code where "code = (case routes d (msgRoute m) of Some code \<Rightarrow> code | None \<Rightarrow> 0)"
  define idb where "idb = (if messageHasID ?t then encodeMessageID (ID m) else [])"
  define rb where "rb = (if messageHasRoute ?t then encodeMessageRoute code c (msgRoute m) else [])"
  define data where "data = (case msgData m of None \<Rightarrow> [] | Some data \<Rightarrow> data)"
  define flag where "flag = encodeMessageFlag ?t c"
  have body: "MessageEncode d m = flag # idb @ rb @ data"
    by (auto simp: MessageEncode_def idb_def rb_def data_def c_def code_def flag_def split: option.splits)
  note flags = flag_fields [OF assms(2), of c, folded flag_def]
  have i: "decodeMessageID (idb @ rb @ data) 0 0 = (ID m, Some (length idb))" if "messageHasID ?t"
    using that decode_encode_ID [of "ID m" "rb @ data" 0 0] by (simp add: idb_def)
  have "decodeMessageRoute d c ((flag # idb) @ encodeMessageRoute code c (msgRoute m) @ data) spare (Suc (length idb))
      = Some (Inr (msgRoute m, Suc (length idb) + length (encodeMessageRoute code c (msgRoute m))))"
    using assms(1,3) by (intro route_codec; cases "routes d (msgRoute m)") (simp_all add: c_def code_def dict_okD route_fits_def)
  then have r: "decodeMessageRoute d c (flag # idb @ rb @ data) spare (Suc (length idb)) = Some (Inr (msgRoute m, Suc (length idb) + length rb))"
    if "messageHasRoute ?t" using that by (simp add: rb_def)
  have "MessageDecode inflate d (flag # idb @ rb @ data) spare = Some (Inr (arrives d m))"
    using assms(2) i r flags
    by (cases "messageHasID ?t"; cases "messageHasRoute ?t")
      (auto simp: MessageDecode_def idx_def arrives_def messageHasID_def messageHasRoute_def idb_def rb_def data_def c_def Let_def)
  then show ?thesis by (simp only: body)
qed

lemma header_len: "n < 2 ^ 24 \<Longrightarrow> unat (word_of_int (BytesToInt (IntToBytes (int n))) :: 32 word) = n"
  by (simp add: IntToBytes_inv unat_of_nat)

lemma Decode_wrapped:
  assumes "dict_ok d" "msgType m \<le> MsgPush" "route_fits d m" "length (MessageEncode d m) < 2 ^ 24"
  obtains buf p where "Wrap DataPkg (MessageEncode d m) = Inr buf"
    "\<And>unmarshal inflate spare. Decode unmarshal inflate d buf spare = Some (Inr p, d)"
    "pktType p = DataPkg" "unat (pktLen p) = length (MessageEncode d m)" "ParseBody p = Some (Some (arrives d m))"
proof (rule that)
  show "Wrap DataPkg (MessageEncode d m) = Inr (DataPkg # IntToBytes (int (length (MessageEncode d m))) @ MessageEncode d m)"
    using assms(4) by (simp add: Wrap_def)
  show "Decode unmarshal inflate d (DataPkg # IntToBytes (int (length (MessageEncode d m))) @ MessageEncode d m) spare
     = Some (Inr \<lparr>pktType = DataPkg, pktLen = word_of_int (BytesToInt (IntToBytes (int (length (MessageEncode d m))))),
                  pktBody = MessageBody (arrives d m)\<rparr>, d)" for unmarshal inflate spare
    using MessageDecode_Encode [OF assms(1-3), of inflate spare] by (simp add: Decode_def IntToBytes_def Let_def)
qed (use header_len [OF assms(4)] in \<open>simp_all add: ParseBody_def\<close>)

text \<open>A message for the witnesses.\<close>

definition hello :: Message where
  "hello = \<lparr>msgType = MsgPush, ID = 7, msgRoute = ''game.draw'', msgData = Some [1, 2], routeCompressed = False, msgError = False\<rparr>"



text \<open>The two maps of the route dictionary stay inverse to each other whatever a handshake sends and in whatever
  order its entries are visited; routes once set are kept, and without clashes every entry is set.\<close>

lemma SetDictionary_spec:
  assumes "dict_ok d"
  shows "dict_ok (SetDictionary dict d) \<and> (\<forall>r c. routes d r = Some c \<longrightarrow> routes (SetDictionary dict d) r = Some c)
     \<and> (distinct (map (TrimSpace \<circ> fst) dict) \<and> distinct (map snd dict)
         \<and> (\<forall>(r, c) \<in> set dict. routes d (TrimSpace r) = None \<and> codes d c = None)
         \<longrightarrow> (\<forall>(r, c) \<in> set dict. GetRoute (SetDictionary dict d) c = Some (TrimSpace r)))"
  using SetDictionary_ok [OF assms, of dict] SetDictionary_mono SetDictionary_all [of dict d]
  by (auto simp: GetRoute_def dict_ok_def)

text \<open>A data packet with an empty message, or a notification that ends behind its flag, makes the decoder panic.\<close>

lemma Decode_panics:
  "Decode unmarshal inflate d [DataPkg, l1, l2, l3] spare = None
   \<and> Decode unmarshal inflate d [DataPkg, l1, l2, l3, push_bit 1 MsgNotify] spare = None"
  by (simp add: Decode_def MessageDecode_def idx_def decodeMessageRoute_def)

text \<open>The length byte of a route wraps.  A message with an unknown route of 256 bytes has the encoding of the
  message with the empty route and the route's text in front of the data.\<close>

lemma route_length_wraps:
  assumes "messageHasRoute (msgType m)" "length (msgRoute m) = 256" "routes d (msgRoute m) = None" "routes d [] = None"
    "msgData m = Some data"
  shows "MessageEncode d m = MessageEncode d (m\<lparr>msgRoute := [], msgData := Some (bytes_of_string (msgRoute m) @ data)\<rparr>)"
  using assms by (simp add: MessageEncode_def encodeMessageRoute_def bytes_of_string_def)

end
