(* ===== verification/ConnectorSpec.thy ===== *)
theory ConnectorSpec
  imports Connector ProtocolSpec Reach Match
begin

text \<open>
  The connector counts its clients exactly, forwards game messages unchanged, delivers pushes to the connections of
  the addressed users, and lets in no more clients than its rate limit allows.  Several races of the connection
  life cycle are shown as they are.
\<close>

section \<open>Client buckets as one map\<close>

lemma getBucket_less: "getBucket connID < 32"
proof -
  have "fnv32 connID AND 31 = take_bit 5 (fnv32 connID)" by (simp add: take_bit_eq_mask mask_eq_exp_minus_1)
  then have "unat (fnv32 connID AND 31) = take_bit 5 (unat (fnv32 connID))" by (simp only: unsigned_take_bit_eq)
  also have "\<dots> < 2 ^ 5" by (rule take_bit_nat_less_exp)
  finally show ?thesis by (simp add: getBucket_def)
qed

definition clients :: "ConnWorker \<Rightarrow> string \<rightharpoonup> nat" where
  "clients w connID = (clientBuckets w ! getBucket connID) connID"

lemma bucket_get_eq: "length (clientBuckets w) = 32 \<Longrightarrow> bucket_get connID w = Some (clients w connID)"
  using getBucket_less [of connID] by (simp add: bucket_get_def clients_def)

lemma bucket_put_eq:
  assumes "length (clientBuckets w) = 32"
  obtains bs where "bucket_put connID v w = Some (w\<lparr>clientBuckets := bs\<rparr>)" "length bs = 32"
    "\<And>w'. clientBuckets w' = bs \<Longrightarrow> clients w' = (clients w)(connID := v)"
proof -
  let ?i = "getBucket connID"
  define bs where "bs = (clientBuckets w)[?i := (clientBuckets w ! ?i)(connID := v)]"
  have i: "?i < length (clientBuckets w)" using getBucket_less assms by simp
  have "bucket_put connID v w = Some (w\<lparr>clientBuckets := bs\<rparr>)" using i by (simp add: bucket_put_def bs_def upd_def)
  moreover have "clients w' = (clients w)(connID := v)" if "clientBuckets w' = bs" for w'
    using i that by (auto simp: clients_def bs_def nth_list_update)
  ultimately show thesis using that assms by (simp add: bs_def)
qed

section \<open>Counting clients\<close>

text \<open>The semaphore and the counter are the number of clients; the ids of the clients were given out by the counter of ids.\<close>

definition given_out :: "nat \<Rightarrow> string \<Rightarrow> bool" where
  "given_out k c \<longleftrightarrow> (\<exists>a n. c = a @ ''-'' @ decimal n \<and> n \<le> k)"

lemma given_out_mono: "given_out k c \<Longrightarrow> k \<le> l \<Longrightarrow> given_out l c"
  unfolding given_out_def using le_trans by blast

definition counted :: "ConnWorker \<Rightarrow> bool" where
  "counted w \<longleftrightarrow> length (clientBuckets w) = 32 \<and> finite (dom (clients w)) \<and> connSemaphore w = card (dom (clients w))
     \<and> currentConnections w = int (card (dom (clients w))) \<and> card (dom (clients w)) \<le> 100000
     \<and> (\<forall>c \<in> dom (clients w). given_out (connIDBase w) c)"

lemma countedD: "counted w \<Longrightarrow> length (clientBuckets w) = 32"
  by (simp add: counted_def)

text \<open>The part of the state an operation leaves alone when it neither adds nor removes a client.\<close>

definition same_clients :: "ConnWorker \<Rightarrow> ConnWorker \<Rightarrow> bool" where
  "same_clients w w' \<longleftrightarrow> clientBuckets w' = clientBuckets w \<and> connSemaphore w' = connSemaphore w
     \<and> currentConnections w' = currentConnections w \<and> connIDBase w \<le> connIDBase w'"

lemma same_clients_refl [simp]: "same_clients w w"
  by (simp add: same_clients_def)

lemma same_clients_trans: "same_clients a b \<Longrightarrow> same_clients b c \<Longrightarrow> same_clients a c"
  by (simp add: same_clients_def)

lemma same_clients_clients: "same_clients w w' \<Longrightarrow> clients w' = clients w"
  by (rule ext) (simp add: same_clients_def clients_def)

lemma same_clients_counted: "same_clients w w' \<Longrightarrow> counted w \<Longrightarrow> counted w'"
  using same_clients_clients [of w w'] by (auto simp: same_clients_def counted_def intro: given_out_mono)

lemma same_clients_upd [simp]:
  "same_clients v (w\<lparr>dict := d\<rparr>) = same_clients v w" "same_clients v (w\<lparr>messageErrors := e\<rparr>) = same_clients v w"
  "same_clients (w\<lparr>dict := d\<rparr>) v = same_clients w v" "same_clients (w\<lparr>messageErrors := e\<rparr>) v = same_clients w v"
  "same_clients v (w\<lparr>clientWorkers := q\<rparr>) = same_clients v w" "same_clients (w\<lparr>clientWorkers := q\<rparr>) v = same_clients w v"
  "same_clients v (w\<lparr>connMap := c\<rparr>) = same_clients v w" "same_clients v (w\<lparr>routeOps := r\<rparr>) = same_clients v w"
  "same_clients v (w\<lparr>UserRouter := u\<rparr>) = same_clients v w" "same_clients v (w\<lparr>natsOut := o'\<rparr>) = same_clients v w"
  "same_clients v (w\<lparr>GameRouteCache := g\<rparr>) = same_clients v w" "same_clients v (w\<lparr>freePool := f\<rparr>) = same_clients v w"
  "same_clients v (w\<lparr>poolCount := i\<rparr>) = same_clients v w" "same_clients v (w\<lparr>nextPtr := m\<rparr>) = same_clients v w"
  "same_clients v (put_conn p con w) = same_clients v w"
  by (simp_all add: same_clients_def put_conn_def)

lemma conn_Close_same: "conn_Close p w = Some w' \<Longrightarrow> same_clients w w'"
  by (auto simp: conn_Close_def Let_def split: if_splits)

lemma SendMessage_same: "SendMessage buf p w = Some (r, w') \<Longrightarrow> same_clients w w'"
  by (auto simp: SendMessage_def Let_def split: if_splits option.splits)

lemma send_wrapped_same: "send_wrapped t body p w = Some (err, w') \<Longrightarrow> same_clients w w'"
  by (auto simp: send_wrapped_def bind_eq_Some_conv split: sum.splits dest: SendMessage_same)

lemma conn_send_same: "conn_send t u route body w = Some (err, w') \<Longrightarrow> same_clients w w'"
  by (auto simp: conn_send_def split: option.splits dest: send_wrapped_same)

lemma send_all_same: "send_all us route body w = Some w' \<Longrightarrow> same_clients w w'"
  by (induction us arbitrary: w) (auto simp: bind_eq_Some_conv split: if_splits dest!: conn_send_same intro: same_clients_trans)

lemma push_users_same: "push_users res us w = Some w' \<Longrightarrow> same_clients w w'"
  by (induction us arbitrary: w)
    (auto simp: bind_eq_Some_conv doPush_def split: if_splits option.splits dest!: SendMessage_same intro: same_clients_trans)

lemma conn_Push_same: "conn_Push m w = Some w' \<Longrightarrow> same_clients w w'"
  by (auto simp: conn_Push_def split: sum.splits if_splits dest: push_users_same)

lemma cache_fold_same: "same_clients v w \<Longrightarrow> same_clients v (fold (\<lambda>u. cache_Set u g) us w)"
  by (induction us arbitrary: w) (simp_all add: cache_Set_def)

lemma readChanMessage_same: "readChanMessage ce packet w = Some w' \<Longrightarrow> same_clients w w'"
proof -
  have "same_clients w (handlerMatchSuccess ce m w)" for m by (auto simp: handlerMatchSuccess_def cache_fold_same split: option.splits)
  then show "readChanMessage ce packet w = Some w' \<Longrightarrow> same_clients w w'"
    by (auto simp: readChanMessage_def handlePush_def Let_def split: if_splits dest!: send_all_same intro: same_clients_trans)
qed

lemma messageHandler_same: "messageHandler ce packet p w = Some (err, w') \<Longrightarrow> same_clients w w'"
  by (auto simp: messageHandler_def dispatchGameNode_def PushMessage_def Let_def bind_eq_Some_conv
      split: if_splits option.splits dest: send_wrapped_same)

lemma handler_same: "clientHandlers ce t = Some h \<Longrightarrow> h packet p w = Some (err, w') \<Longrightarrow> same_clients w w'"
  by (auto simp: clientHandlers_def handshakeHandler_def handshakeAckHandler_def heartbeatHandler_def kickHandler_def
      split: if_splits dest: send_wrapped_same messageHandler_same)

lemma handleProtocolEvent_same: "handleProtocolEvent ce packet connID w = Some (err, w') \<Longrightarrow> same_clients w w'"
  by (cases "bucket_get connID w") (auto simp: handleProtocolEvent_def split: option.split_asm dest: handler_same)

lemma DecodeAndHandlePack_same:
  assumes "DecodeAndHandlePack ce connID body spare w = Some w'"
  shows "same_clients w w'"
proof -
  obtain r d where rd: "Decode (ceUnmarshal ce) (ceInflate ce) (dict w) body spare = Some (r, d)"
    using assms by (auto simp: DecodeAndHandlePack_def bind_eq_Some_conv)
  then show ?thesis using assms
    by (cases r) (auto simp: DecodeAndHandlePack_def Let_def bind_eq_Some_conv dest!: handleProtocolEvent_same)
qed

lemma readMessage_pack_same: "readMessage_pack ce message spare p w = Some w' \<Longrightarrow> same_clients w w'"
  by (auto simp: readMessage_pack_def Let_def split: if_splits dest!: DecodeAndHandlePack_same)

lemma clientWorkerRoutine_same: "clientWorkerRoutine ce spare i w = Some w' \<Longrightarrow> same_clients w w'"
  by (cases "idx (clientWorkers w) (int i)") (auto simp: clientWorkerRoutine_def split: list.split_asm dest!: DecodeAndHandlePack_same)

lemma UnbindUser_same [simp]: "same_clients (UnbindUser u p w) v = same_clients w v"
  by (simp add: UnbindUser_def Let_def same_clients_def)

lemma pool_Put_same: "same_clients w (pool_Put p w)"
  by (simp add: pool_Put_def)

lemma run_route_op_same: "same_clients w (run_route_op n w)"
  by (auto simp: run_route_op_def split: route_op.splits)

lemma BindUser_same: "BindUser u p w = Some w' \<Longrightarrow> same_clients w w'"
  by (auto simp: BindUser_def bind_eq_Some_conv split: if_splits option.splits dest: conn_Close_same)

text \<open>Closing a connection keeps the ids of all connections and whether they have a session.\<close>

lemma conn_Close_keeps:
  "conn_Close p w = Some w' \<Longrightarrow> ConnID (heap w' q) = ConnID (heap w q) \<and> (connSession (heap w' q) = None \<longleftrightarrow> connSession (heap w q) = None)"
  by (auto simp: conn_Close_def Let_def put_conn_def split: if_splits)

lemma BindUser_keeps:
  "BindUser u p w = Some w' \<Longrightarrow> ConnID (heap w' q) = ConnID (heap w q) \<and> (connSession (heap w' q) = None \<longleftrightarrow> connSession (heap w q) = None)"
  by (auto simp: BindUser_def bind_eq_Some_conv split: if_split_asm option.split_asm dest: conn_Close_keeps [of _ _ _ q])

lemma addClient_counted:
  assumes "counted w" "clients w (ConnID (heap w p)) = None" "addClient p w = Some w'"
    "ConnID (heap w p) = a @ ''-'' @ decimal (connIDBase w)"
  shows "counted w'"
proof (cases "connSemaphore w < 100000")
  case True
  let ?w = "w\<lparr>connSemaphore := connSemaphore w + 1\<rparr>" and ?c = "ConnID (heap w p)"
  have "length (clientBuckets ?w) = 32" using countedD [OF assms(1)] by simp
  then obtain bs where bs: "bucket_put ?c (Some p) ?w = Some (?w\<lparr>clientBuckets := bs\<rparr>)" "length bs = 32"
    "\<And>w'. clientBuckets w' = bs \<Longrightarrow> clients w' = (clients ?w)(?c := Some p)"
    using bucket_put_eq by blast
  have "clients ?w = clients w" by (rule ext) (simp add: clients_def)
  then have "clients w' = (clients w)(?c \<mapsto> p)" "clientBuckets w' = bs" "connSemaphore w' = connSemaphore w + 1"
    "currentConnections w' = currentConnections w + 1" "connIDBase w' = connIDBase w"
    using assms(3) True bs by (auto simp: addClient_def bind_eq_Some_conv put_conn_def)
  then show ?thesis using assms(1,2,4) True bs(2) by (auto simp: counted_def domIff card_insert_if given_out_def)
next
  case False
  then show ?thesis using assms conn_Close_same [of p w w'] same_clients_counted [of w w'] by (simp add: addClient_def)
qed

lemma removeClient_counted:
  assumes "counted w" "removeClient p w = Some w'"
  shows "counted w'"
proof (cases "clients w (ConnID (heap w p))")
  case None
  then show ?thesis using assms bucket_get_eq [OF countedD] by (auto simp: removeClient_def)
next
  case (Some q)
  let ?c = "ConnID (heap w p)"
  obtain bs where bs: "bucket_put ?c None w = Some (w\<lparr>clientBuckets := bs\<rparr>)" "length bs = 32"
    "\<And>w'. clientBuckets w' = bs \<Longrightarrow> clients w' = (clients w)(?c := None)"
    using bucket_put_eq [OF countedD [OF assms(1)]] by blast
  obtain v where v: "same_clients (w\<lparr>clientBuckets := bs\<rparr>) v" "w' = v\<lparr>connSemaphore := connSemaphore v - 1, currentConnections := currentConnections v - 1\<rparr>"
    using assms Some bs(1) bucket_get_eq [OF countedD [OF assms(1)]]
    by (auto simp: removeClient_def bind_eq_Some_conv split: option.split_asm dest!: conn_Close_same)
  then have "clientBuckets w' = bs" "connSemaphore w' = connSemaphore w - 1" "currentConnections w' = currentConnections w - 1" "connIDBase w \<le> connIDBase w'"
    by (auto simp: same_clients_def)
  moreover have "card (dom (clients w) - {?c}) + 1 = card (dom (clients w))"
    using assms(1) Some by (subst card_Suc_Diff1 [symmetric, of "dom (clients w)" ?c]) (auto simp: counted_def)
  ultimately show ?thesis using assms(1) bs(2) bs(3) [of w'] by (auto simp: counted_def intro: given_out_mono)
qed

lemma fresh_id: "counted w \<Longrightarrow> clients w (a @ ''-'' @ decimal (Suc (connIDBase w))) = None"
proof (rule ccontr)
  assume "counted w" "clients w (a @ ''-'' @ decimal (Suc (connIDBase w))) \<noteq> None"
  then have "given_out (connIDBase w) (a @ ''-'' @ decimal (Suc (connIDBase w)))" by (simp add: counted_def domIff)
  then obtain b n where "a @ ''-'' @ decimal (Suc (connIDBase w)) = b @ ''-'' @ decimal n" "n \<le> connIDBase w"
    unfolding given_out_def by blast
  moreover from this(1) have "decimal (Suc (connIDBase w)) = decimal n"
    using last_word_eq [OF decimal_no_dash decimal_no_dash, of a "Suc (connIDBase w)" b n] by simp
  then have "Suc (connIDBase w) = n" by (rule decimal_inj)
  ultimately show False by simp
qed

lemma upgradeFunc_counted:
  assumes "counted w" "upgradeFunc userID allowed uuid reuse w = Some w'"
  shows "counted w'"
proof (cases "allowed \<and> currentConnections w < maxConnectionCount")
  case True
  obtain p w1 where t: "takeLongConnection uuid reuse w = (p, w1)" by fastforce
  have w1: "same_clients w w1" "connIDBase w1 = Suc (connIDBase w)" "connSession (heap w1 p) \<noteq> None"
    "ConnID (heap w1 p) = (uuid @ ''-'' @ cwNodeID w) @ ''-'' @ decimal (Suc (connIDBase w))"
    using t by (auto simp: takeLongConnection_def pool_take_def put_conn_def same_clients_def Let_def split: option.split_asm if_split_asm)
  let ?w1 = "put_conn p ((heap w1 p)\<lparr>connSession := map_option (SetUserID userID) (connSession (heap w1 p))\<rparr>) w1"
  obtain w2 where w2: "BindUser userID p ?w1 = Some w2" "addClient p w2 = Some w'"
    using assms(2) True t by (auto simp: upgradeFunc_def Let_def bind_eq_Some_conv)
  have "same_clients w ?w1" using w1(1) by simp
  then have s: "same_clients w w2" using BindUser_same [OF w2(1)] by (rule same_clients_trans)
  have id: "ConnID (heap w2 p) = (uuid @ ''-'' @ cwNodeID w) @ ''-'' @ decimal (Suc (connIDBase w))"
    using BindUser_keeps [OF w2(1), of p] w1(4) by (simp add: put_conn_def)
  have base: "connIDBase w2 = Suc (connIDBase w)"
    using w2(1) w1(2) by (auto simp: BindUser_def conn_Close_def put_conn_def Let_def bind_eq_Some_conv split: if_split_asm option.split_asm)
  have "clients w2 (ConnID (heap w2 p)) = None"
    unfolding same_clients_clients [OF s] id using fresh_id [OF assms(1)] by blast
  then show ?thesis using addClient_counted [OF same_clients_counted [OF s assms(1)] _ w2(2), of "uuid @ ''-'' @ cwNodeID w"] id base by simp
next
  case False
  then show ?thesis using assms by (auto simp: upgradeFunc_def split: if_split_asm)
qed

lemma readMessage_end_counted: "counted w \<Longrightarrow> readMessage_end p w = Some w' \<Longrightarrow> counted w'"
  using removeClient_counted by (auto simp: readMessage_end_def split: if_splits)

lemma readMessage_counted: "counted w \<Longrightarrow> readMessage ce r sees_close spare p w = Some w' \<Longrightarrow> counted w'"
  by (auto simp: readMessage_def split: read_result.split_asm if_split_asm
      intro: readMessage_end_counted same_clients_counted dest: readMessage_pack_same)

lemma socket_write_same: "socket_write ok f p w = Some (r, w') \<Longrightarrow> same_clients w w'"
  by (auto simp: socket_write_def split: socket.split_asm if_split_asm)

lemma writeMessage_case_same: "writeMessage_case ok c p w = Some (go, w') \<Longrightarrow> same_clients w w'"
proof -
  have put: "same_clients (put_conn p con w) w' = same_clients w w'" for con w' by (simp add: same_clients_def put_conn_def)
  show "writeMessage_case ok c p w = Some (go, w') \<Longrightarrow> same_clients w w'"
    by (auto simp: writeMessage_case_def Let_def bind_eq_Some_conv put split: write_case.split_asm option.split_asm list.split_asm if_split_asm
        dest!: socket_write_same conn_Close_same intro: same_clients_trans)
qed

lemma close_writer_counted: "counted w \<Longrightarrow> counted (close_writer p w)"
  using same_clients_counted [of w "close_writer p w"] by (simp add: close_writer_def)

lemma writeMessage_counted: "counted w \<Longrightarrow> writeMessage ok c p w = Some w' \<Longrightarrow> counted w'"
  by (auto simp: writeMessage_def writeMessage_end_def bind_eq_Some_conv split: if_split_asm
      dest!: writeMessage_case_same intro: same_clients_counted readMessage_end_counted close_writer_counted)

section \<open>The running connector\<close>

text \<open>Every operation is one step: connecting with any user and any choice of the pool, the ends of the two goroutines of a
  connection and their rounds, closing, the delayed return to the pool, the route goroutines, and messages from either side.\<close>

inductive conn_step :: "ConnWorker \<Rightarrow> ConnWorker \<Rightarrow> bool" where
  step_upgrade: "upgradeFunc userID allowed uuid reuse w = Some w' \<Longrightarrow> conn_step w w'"
| step_close: "conn_Close p w = Some w' \<Longrightarrow> conn_step w w'"
| step_close_writer: "conn_step w (close_writer p w)"
| step_end: "readMessage_end p w = Some w' \<Longrightarrow> conn_step w w'"
| step_put: "conn_step w (pool_Put p w)"
| step_route: "conn_step w (run_route_op n w)"
| step_read: "readMessage ce r sees_close spare p w = Some w' \<Longrightarrow> conn_step w w'"
| step_write_start: "conn_step w (writeMessage_start p w)"
| step_write: "writeMessage ok c p w = Some w' \<Longrightarrow> conn_step w w'"
| step_work: "clientWorkerRoutine ce spare i w = Some w' \<Longrightarrow> conn_step w w'"
| step_nats: "readChanMessage ce packet w = Some w' \<Longrightarrow> conn_step w w'"
| step_push: "conn_Push packet w = Some w' \<Longrightarrow> conn_step w w'"

lemma conn_step_counted: "conn_step w w' \<Longrightarrow> counted w \<Longrightarrow> counted w'"
proof (induction rule: conn_step.induct)
  case (step_write_start w p)
  then show ?case using same_clients_counted [of w "writeMessage_start p w"] by (simp add: writeMessage_start_def)
qed (auto intro: same_clients_counted upgradeFunc_counted pool_Put_same run_route_op_same readMessage_end_counted readMessage_counted writeMessage_counted
    close_writer_counted dest: conn_Close_same clientWorkerRoutine_same readChanMessage_same conn_Push_same)

interpretation connector: invariant_system conn_step counted
  by unfold_locales (rule conn_step_counted)

lemma counted_start: "counted (NewWorkerWithDeps nodeID n)"
proof -
  have "clients (NewWorkerWithDeps nodeID n) = Map.empty"
    using getBucket_less by (auto simp: clients_def NewWorkerWithDeps_def)
  then show ?thesis by (simp add: counted_def) (simp add: NewWorkerWithDeps_def)
qed

text \<open>C26: after any run of the connector, in any order of its operations, the connection counter and the tokens held in
  the semaphore are the number of clients in the buckets, and there are never more than 100000.\<close>

theorem connections_counted:
  assumes "conn_step\<^sup>*\<^sup>* (NewWorkerWithDeps nodeID n) w"
  shows "currentConnections w = int (card (dom (clients w))) \<and> connSemaphore w = card (dom (clients w))
     \<and> finite (dom (clients w)) \<and> card (dom (clients w)) \<le> 100000"
  using connector.reach_keeps [OF assms counted_start] by (simp add: counted_def)

text \<open>C26 after user u connected to an empty connector.\<close>

theorem connections_counted_witness:
  "\<exists>w. upgradeFunc ''u'' True ''id'' None (NewWorkerWithDeps ''c'' 2) = Some w \<and> clients w ''id-c-10001'' = Some 0
     \<and> currentConnections w = int (card (dom (clients w)))"
proof -
  have d: "decimal 10001 = ''10001''" by (simp add: decimal.simps digit_def)
  let ?w = "NewWorkerWithDeps ''c'' 2"
  obtain w where w: "upgradeFunc ''u'' True ''id'' None ?w = Some w" "clients w ''id-c-10001'' = Some 0"
    using getBucket_less [of "''id-c-10001''"]
    by (auto simp: upgradeFunc_def NewWorkerWithDeps_def takeLongConnection_def pool_take_def put_conn_def BindUser_def addClient_def
        bucket_put_def upd_def d clients_def NewSession_def Let_def)
  then have "conn_step\<^sup>*\<^sup>* ?w w" by (blast intro: step_upgrade)
  then show ?thesis using w connections_counted by blast
qed

section \<open>From the client to the game node\<close>

lemma split_at_not_empty: "split_at c s \<noteq> []"
  by (induction s) (auto split: list.split)

lemma game_route: "msgRoute m = ''game.'' @ rest \<Longrightarrow>
  hd (split_at (CHR ''.'') (msgRoute m)) = ''game'' \<and> \<not> length (split_at (CHR ''.'') (msgRoute m)) < 2"
  using split_at_word [of "CHR ''.''" "''game''" rest] split_at_not_empty [of "CHR ''.''" rest]
  by (cases "split_at (CHR ''.'') rest") auto

text \<open>A connector with one client, whose user plays on the game node g.\<close>

definition one_client :: ConnWorker where
  "one_client = (NewWorkerWithDeps ''c'' 2)\<lparr>clientBuckets := (replicate 32 Map.empty)[getBucket ''x'' := [''x'' \<mapsto> 0]],
     heap := (\<lambda>p. zero_connection\<lparr>ConnID := ''x'', WriteChan := Some [], connSession := Some (SetUserID ''u'' (NewSession ''x''))\<rparr>),
     connMap := [''u'' \<mapsto> 0], GameRouteCache := [''u'' \<mapsto> ''g'']\<rparr>"

text \<open>An environment in which nothing parses.\<close>

definition mute_env :: conn_env where
  "mute_env = \<lparr>ceUnmarshal = (\<lambda>b. None), ceInflate = (\<lambda>b. None), cePool = (\<lambda>b. None), ceJoin = (\<lambda>u p. None), ceMarshal = (\<lambda>r. []),
     cePlayers = (\<lambda>b. None)\<rparr>"

text \<open>C27: a game message of a client reaches the game node as it was sent.  When the user plays on a game node and the queue
  to NATS is not full, a request, notification or push with a route below \<open>game.\<close>, encoded and wrapped with
  the shared dictionary, is decoded, found to be for the game node, and handed to NATS with the same route, id and
  data, from this node to that node; nothing else changes.\<close>

theorem client_message_forwarded:
  assumes "dict_ok (dict w)" "length (clientBuckets w) = 32" "clients w connID = Some p" "connSession (heap w p) = Some s"
    and "GameRouteCache w (GetUserID s) = Some node" "length (natsOut w) < 1024"
    and "msgType m \<le> MsgPush" "messageHasRoute (msgType m)" "msgRoute m = ''game.'' @ rest"
    and "route_fits (dict w) m" "length (MessageEncode (dict w) m) < 2 ^ 24" "Wrap DataPkg (MessageEncode (dict w) m) = Inr buf"
  shows "DecodeAndHandlePack ce connID buf spare w = Some (w\<lparr>natsOut := natsOut w @
     [\<lparr>spBody = arrives (dict w) m, spSource = cwNodeID w, spDestination = node, spRoute = msgRoute m, spPushUser = []\<rparr>]\<rparr>)"
proof -
  obtain pk where pk: "Decode (ceUnmarshal ce) (ceInflate ce) (dict w) buf spare = Some (Inr pk, dict w)" "pktType pk = DataPkg"
    "ParseBody pk = Some (Some (arrives (dict w) m))"
    using Decode_wrapped [OF assms(1,7,10,11)] assms(12) by (metis Inr_inject)
  have r: "msgRoute (arrives (dict w) m) = msgRoute m" using assms(8) by (simp add: arrives_def)
  have "handleProtocolEvent ce pk connID w = messageHandler ce pk p w"
    using bucket_get_eq [OF assms(2)] assms(3) pk(2) by (simp add: handleProtocolEvent_def clientHandlers_def)
  also have "\<dots> = dispatchGameNode (arrives (dict w) m) p w"
    using game_route [OF assms(9)] pk(3) r by (simp add: messageHandler_def Let_def)
  finally show ?thesis using pk(1) assms(4-6) r
    by (simp add: DecodeAndHandlePack_def dispatchGameNode_def PushMessage_def GetUserID_def Let_def)
qed

text \<open>C27 on a push to \<open>game.draw\<close>.\<close>

theorem client_message_forwarded_witness:
  "\<exists>buf. Wrap DataPkg (MessageEncode no_routes hello) = Inr buf \<and>
     DecodeAndHandlePack mute_env ''x'' buf [] one_client = Some (one_client\<lparr>natsOut :=
       [\<lparr>spBody = hello\<lparr>ID := 0\<rparr>, spSource = ''c'', spDestination = ''g'', spRoute = ''game.draw'', spPushUser = []\<rparr>]\<rparr>)"
proof -
  have l: "length (MessageEncode no_routes hello) < 2 ^ 24" "route_fits no_routes hello" "msgType hello \<le> MsgPush" "messageHasRoute (msgType hello)"
    by (simp_all add: MessageEncode_def hello_def no_routes_def messageHasID_def messageHasRoute_def encodeMessageRoute_def route_fits_def)
  then obtain buf where b: "Wrap DataPkg (MessageEncode no_routes hello) = Inr buf" using Decode_wrapped [OF dict_ok_empty l(3,2,1)] by metis
  have w: "dict one_client = no_routes" "natsOut one_client = []" "cwNodeID one_client = ''c''" "length (clientBuckets one_client) = 32"
    "clients one_client ''x'' = Some 0" "connSession (heap one_client 0) = Some (SetUserID ''u'' (NewSession ''x''))"
    "GameRouteCache one_client (GetUserID (SetUserID ''u'' (NewSession ''x''))) = Some ''g''"
    using getBucket_less [of "''x''"] by (simp_all add: one_client_def NewWorkerWithDeps_def clients_def GetUserID_def SetUserID_def)
  have "msgRoute hello = ''game.'' @ ''draw''" by (simp add: hello_def)
  from client_message_forwarded [OF _ w(4,5,6,7) _ l(3,4) this, unfolded w(1,2), OF dict_ok_empty _ l(2,1) b, of mute_env "[]"] w
  show ?thesis using b by (auto simp: arrives_def hello_def no_routes_def messageHasID_def messageHasRoute_def)
qed

section \<open>From the game node to the clients\<close>

text \<open>A connection whose writer runs and has room.\<close>

definition ready :: "LongConnection \<Rightarrow> bool" where
  "ready con \<longleftrightarrow> \<not> writeClosed con \<and> (\<exists>q. WriteChan con = Some q \<and> length q < 1024)"

definition enqueue :: "byte list \<Rightarrow> LongConnection \<Rightarrow> LongConnection" where
  "enqueue buf con = con\<lparr>WriteChan := map_option (\<lambda>q. q @ [buf]) (WriteChan con)\<rparr>"

lemma SendMessage_ready: "ready (heap w p) \<Longrightarrow> SendMessage buf p w = Some (Sent, put_conn p (enqueue buf (heap w p)) w)"
  by (auto simp: ready_def SendMessage_def enqueue_def Let_def)

definition push_message :: "string \<Rightarrow> byte list option \<Rightarrow> Message" where
  "push_message route body = \<lparr>msgType = MsgPush, ID = 0, msgRoute = route, msgData = body, routeCompressed = False, msgError = False\<rparr>"

text \<open>The connections the addressed users are bound to.\<close>

definition bound :: "string set \<Rightarrow> ConnWorker \<Rightarrow> nat set" where
  "bound us w = {p. \<exists>u \<in> us. connMap w u = Some p}"

lemma bound_heap [simp]: "bound us (w\<lparr>heap := h\<rparr>) = bound us w"
  by (simp add: bound_def)

lemma send_all_delivers:
  assumes "Wrap DataPkg (MessageEncode (dict w) (push_message route body)) = Inr buf"
  shows "distinct us \<Longrightarrow> inj_on (connMap w) (set us \<inter> dom (connMap w)) \<Longrightarrow> \<forall>p \<in> bound (set us) w. ready (heap w p) \<Longrightarrow>
     send_all us route body w = Some (w\<lparr>heap := (\<lambda>p. if p \<in> bound (set us) w then enqueue buf (heap w p) else heap w p)\<rparr>)"
  using assms
proof (induction us arbitrary: w)
  case Nil
  then show ?case by (simp add: bound_def)
next
  case (Cons u us)
  show ?case
  proof (cases "connMap w u")
    case None
    then have "bound (set (u # us)) w = bound (set us) w" by (auto simp: bound_def)
    moreover have "inj_on (connMap w) (set us \<inter> dom (connMap w))" using Cons.prems(2) by (rule inj_on_subset) auto
    ultimately show ?thesis using Cons None by (simp add: conn_send_def)
  next
    case (Some p)
    let ?w = "put_conn p (enqueue buf (heap w p)) w"
    have new: "bound (set (u # us)) w = insert p (bound (set us) w)" using Some by (auto simp: bound_def)
    have p: "p \<notin> bound (set us) w" using Cons.prems(1,2) Some by (auto simp: bound_def dest: inj_onD [of _ _ _ u])
    have "conn_send MsgPush u route body w = Some (None, ?w)"
      using Some Cons.prems(3,4) new SendMessage_ready [of w p] by (simp add: conn_send_def send_wrapped_def push_message_def)
    moreover have "send_all us route body ?w = Some (?w\<lparr>heap := (\<lambda>q. if q \<in> bound (set us) ?w then enqueue buf (heap ?w q) else heap ?w q)\<rparr>)"
      using Cons.prems new p by (intro Cons.IH) (auto simp: put_conn_def intro: inj_on_subset)
    moreover have "?w\<lparr>heap := (\<lambda>q. if q \<in> bound (set us) ?w then enqueue buf (heap ?w q) else heap ?w q)\<rparr>
        = w\<lparr>heap := (\<lambda>q. if q \<in> bound (set (u # us)) w then enqueue buf (heap w q) else heap w q)\<rparr>"
      unfolding new using p by (auto simp: put_conn_def intro!: ConnWorker.fold_congs ext)
    ultimately show ?thesis by simp
  qed
qed

text \<open>A push of a game node reaches every addressed user who is connected.  With the users bound to different connections
  that have room, each gets exactly one new message in its write channel, no other connection gets any, and
  the client decodes that message to a push with the data the game node sent.  Its route is \<open>game.push\<close>, whatever
  the client route of the body was.\<close>

lemma game_push_delivered:
  assumes "dict_ok (dict w)" "spRoute packet = GamePush" "msgType (spBody packet) = MsgPush" "msgData (spBody packet) = Some data"
    and "length data < 2 ^ 24 - 16" "distinct (spPushUser packet)" "inj_on (connMap w) (set (spPushUser packet) \<inter> dom (connMap w))"
    and "\<forall>p \<in> bound (set (spPushUser packet)) w. ready (heap w p)"
  shows "\<exists>buf pk m. readChanMessage ce packet w
       = Some (w\<lparr>heap := (\<lambda>p. if p \<in> bound (set (spPushUser packet)) w then enqueue buf (heap w p) else heap w p)\<rparr>)
     \<and> Decode unmarshal inflate (dict w) buf spare = Some (Inr pk, dict w) \<and> ParseBody pk = Some (Some m)
     \<and> msgType m = MsgPush \<and> msgRoute m = GamePush \<and> msgData m = Some data"
proof -
  let ?m = "push_message GamePush (Some data)"
  have m: "msgType ?m \<le> MsgPush" "route_fits (dict w) ?m" by (simp_all add: push_message_def route_fits_def)
  have l: "length (MessageEncode (dict w) ?m) < 2 ^ 24"
    using assms(5) by (simp add: MessageEncode_def push_message_def messageHasID_def messageHasRoute_def encodeMessageRoute_def split: option.split)
  obtain buf pk where b: "Wrap DataPkg (MessageEncode (dict w) ?m) = Inr buf"
    "Decode unmarshal inflate (dict w) buf spare = Some (Inr pk, dict w)" "ParseBody pk = Some (Some (arrives (dict w) ?m))"
    using Decode_wrapped [OF assms(1) m l] by metis
  have "readChanMessage ce packet w = Some (w\<lparr>heap := (\<lambda>p. if p \<in> bound (set (spPushUser packet)) w then enqueue buf (heap w p) else heap w p)\<rparr>)"
    using send_all_delivers [OF b(1) assms(6-8)] assms(2-4) by (simp add: readChanMessage_def handlePush_def)
  moreover have "msgType (arrives (dict w) ?m) = MsgPush \<and> msgRoute (arrives (dict w) ?m) = GamePush \<and> msgData (arrives (dict w) ?m) = Some data"
    by (simp add: arrives_def push_message_def messageHasRoute_def)
  ultimately show ?thesis using b(2,3) by blast
qed

section \<open>Rate limit\<close>

text \<open>Connection attempts at the given times, and how many are let in.\<close>

primrec let_in :: "rat list \<Rightarrow> RateLimiter \<Rightarrow> nat" where
  "let_in [] rl = 0"
| "let_in (t # ts) rl = (case Allow t rl of (ok, rl) \<Rightarrow> (if ok then 1 else 0) + let_in ts rl)"

lemma Allow_tokens:
  assumes "Allow t rl = (ok, rl')" "0 \<le> rate rl" "lastRefill rl \<le> t"
  shows "tokens rl' + (if ok then 1 else 0) \<le> tokens rl + rate rl * (t - lastRefill rl) \<and> rate rl' = rate rl \<and> lastRefill rl' = t
     \<and> (0 \<le> tokens rl \<and> 0 \<le> capacity rl \<longrightarrow> 0 \<le> tokens rl') \<and> capacity rl' = capacity rl"
proof -
  have "0 \<le> (t - lastRefill rl) * rate rl" using assms(2,3) by simp
  then show ?thesis using assms by (auto simp: Allow_def Let_def min_def mult.commute split: if_splits)
qed

lemma let_in_bound:
  assumes "0 \<le> rate rl" "0 \<le> tokens rl" "0 \<le> capacity rl" "sorted (lastRefill rl # ts)"
  shows "of_nat (let_in ts rl) \<le> tokens rl + rate rl * (last (lastRefill rl # ts) - lastRefill rl)"
  using assms
proof (induction ts arbitrary: rl)
  case (Cons t ts)
  obtain ok rl' where a: "Allow t rl = (ok, rl')" by fastforce
  note k = Allow_tokens [OF a Cons.prems(1)]
  have "of_nat (let_in ts rl') \<le> tokens rl' + rate rl' * (last (lastRefill rl' # ts) - lastRefill rl')"
    using Cons.prems k by (intro Cons.IH) auto
  then show ?case using a k Cons.prems by (auto simp: algebra_simps split: if_splits)
qed simp



section \<open>Flaws\<close>

text \<open>The end of a kicked connection deletes the route of its user, who is connected through a new one.\<close>

lemma kicked_connection_unroutes:
  assumes "u \<noteq> []" "connMap w u = Some q" "q \<noteq> p" "routeOps w = []"
  defines "w' \<equiv> run_route_op 0 (UnbindUser u p w)"
  shows "connMap w' u = Some q \<and> GetConnectorRouter u (UserRouter w') = None"
  using assms by (simp add: UnbindUser_def run_route_op_def GetConnectorRouter_def DeleteConnectorRouter_def)

text \<open>A push to a user whose writer has just ended, before the user is unbound, panics.\<close>

lemma push_to_ended_writer_panics:
  assumes "connMap w u = Some p" "WriteChan (heap w p) = Some q" "Wrap DataPkg (MessageEncode (dict w) (push_message route body)) = Inr buf"
  shows "conn_send MsgPush u route body (close_writer p w) = None"
  using assms by (simp add: conn_send_def send_wrapped_def SendMessage_def close_writer_def put_conn_def push_message_def)

text \<open>A goroutine of a connection that ends after the connection went back to the pool panics.\<close>

lemma end_after_recycling_panics: "poolCount w \<le> 10000 \<Longrightarrow> readMessage_end p (pool_Put p w) = None"
  by (simp add: readMessage_end_def pool_Put_def put_conn_def reset_def)

text \<open>The march node looks for connector routes under another key: whatever the connector saved, it finds none.\<close>

lemma connector_routes_unseen:
  "march_GetConnectorRouter (fold (\<lambda>op store. case op of SaveOp u c \<Rightarrow> SaveConnectorRouter u c store | DeleteOp u \<Rightarrow> DeleteConnectorRouter u store)
     ops Map.empty) userID = None"
proof -
  have "store (''connector:router'' @ '':'' @ userID) = None \<Longrightarrow>
    fold (\<lambda>op store. case op of SaveOp u c \<Rightarrow> SaveConnectorRouter u c store | DeleteOp u \<Rightarrow> DeleteConnectorRouter u store) ops store
      (''connector:router'' @ '':'' @ userID) = None" for store
    by (induction ops arbitrary: store) (auto simp: SaveConnectorRouter_def DeleteConnectorRouter_def connectorRouterPrefix_def split: route_op.split)
  then show ?thesis by (simp add: march_GetConnectorRouter_def)
qed

text \<open>With the test path switched off any user id is taken from the path; switched on, none is.\<close>

lemma test_path_inverted:
  "identifyUser False secret parseToken ''/ws/test=u'' [] = Inr (''u'', ''test-path'')
   \<and> identifyUser True secret parseToken ''/ws/test=u'' [] = Inl MissingToken"
  by (simp add: identifyUser_def extractUserIDFromTestPath_def trim_slashes_def HasPrefix_def)

text \<open>A message that finds its queue full is handled at once, before the messages of the same connection in the queue.\<close>

lemma full_queue_overtakes:
  assumes "length (clientWorkers w) = n" "0 < n" "length (clientWorkers w ! (unat (fnv32 (ConnID (heap w p))) mod n)) = 256"
  shows "readMessage_pack ce message spare p w = DecodeAndHandlePack ce (ConnID (heap w p)) message spare (w\<lparr>messageErrors := messageErrors w + 1\<rparr>)"
  using assms by (simp add: readMessage_pack_def Let_def)

end
