(* ===== verification/MarchNode.thy ===== *)
theory MarchNode
  imports MatchSpec AuthSpec ConnectorSpec
begin

text \<open>
  The rest of the march node and its use by the connector: \<^verbatim>\<open>march/interfaces/grpc/provider.go\<close>, \<^verbatim>\<open>march/runtime/game_conn_pool.go\<close>, the set-up of
  the pools in \<^verbatim>\<open>march/runtime/worker.go\<close> and \<^verbatim>\<open>match_pool.go\<close>, and the user routes in Redis of both nodes,
  \<^verbatim>\<open>march/infrastructure/realtime/user_router.go\<close> and \<^verbatim>\<open>connector/infrastructure/realtime/user_router.go\<close>.

  \<^item> Strings in Redis are a map; times to live are not modelled.  \<open>up\<close> says whether Redis can be reached.
  \<^item> gRPC connections are numbered in the order in which they are made; \<open>isReady\<close> is their state.
\<close>

section \<open>User routes\<close>

datatype router_error = RouterRedis | RouterNil

definition gameRouterKey :: string where "gameRouterKey = ''game:router''"
definition connectorRouterKey :: string where "connectorRouterKey = ''connector:router''"

definition redis_Set :: "bool \<Rightarrow> string \<Rightarrow> string \<Rightarrow> (string \<rightharpoonup> string) \<Rightarrow> router_error option \<times> (string \<rightharpoonup> string)" where
  "redis_Set up k v s = (if up then (None, s(k \<mapsto> v)) else (Some RouterRedis, s))"

definition redis_Get :: "bool \<Rightarrow> string \<Rightarrow> (string \<rightharpoonup> string) \<Rightarrow> router_error + string" where
  "redis_Get up k s = (if \<not> up then Inl RouterRedis else case s k of None \<Rightarrow> Inl RouterNil | Some v \<Rightarrow> Inr v)"

definition redis_Del :: "bool \<Rightarrow> string list \<Rightarrow> (string \<rightharpoonup> string) \<Rightarrow> router_error option \<times> (string \<rightharpoonup> string)" where
  "redis_Del up ks s = (if up then (None, s |` (- set ks)) else (Some RouterRedis, s))"

definition redis_Exists :: "bool \<Rightarrow> string \<Rightarrow> (string \<rightharpoonup> string) \<Rightarrow> router_error + int" where
  "redis_Exists up k s = (if up then Inr (if s k = None then 0 else 1) else Inl RouterRedis)"

definition SaveGameRouter :: "bool \<Rightarrow> string \<Rightarrow> string \<Rightarrow> (string \<rightharpoonup> string) \<Rightarrow> router_error option \<times> (string \<rightharpoonup> string)" where
  "SaveGameRouter up userID gameTopic s = redis_Set up (gameRouterKey @ '':'' @ userID) gameTopic s"

definition GetGameRouter :: "bool \<Rightarrow> string \<Rightarrow> (string \<rightharpoonup> string) \<Rightarrow> router_error + string" where
  "GetGameRouter up userID s = redis_Get up (gameRouterKey @ '':'' @ userID) s"

definition DeleteGameRouter :: "bool \<Rightarrow> string \<Rightarrow> (string \<rightharpoonup> string) \<Rightarrow> router_error option \<times> (string \<rightharpoonup> string)" where
  "DeleteGameRouter up userID s = redis_Del up [gameRouterKey @ '':'' @ userID] s"

definition ExistsGameRouter :: "bool \<Rightarrow> string \<Rightarrow> (string \<rightharpoonup> string) \<Rightarrow> router_error + bool" where
  "ExistsGameRouter up userID s = map_sum id (\<lambda>n. 0 < n) (redis_Exists up (gameRouterKey @ '':'' @ userID) s)"

definition DeleteGameRouters :: "bool \<Rightarrow> string list \<Rightarrow> (string \<rightharpoonup> string) \<Rightarrow> router_error option \<times> (string \<rightharpoonup> string)" where
  "DeleteGameRouters up users s = (if users = [] then (None, s) else redis_Del up (map (\<lambda>u. gameRouterKey @ '':'' @ u) users) s)"

definition march_SaveConnectorRouter :: "bool \<Rightarrow> string \<Rightarrow> string \<Rightarrow> (string \<rightharpoonup> string) \<Rightarrow> router_error option \<times> (string \<rightharpoonup> string)" where
  "march_SaveConnectorRouter up userID connectorTopic s = redis_Set up (connectorRouterKey @ '':'' @ userID) connectorTopic s"

definition march_DeleteConnectorRouter :: "bool \<Rightarrow> string \<Rightarrow> (string \<rightharpoonup> string) \<Rightarrow> router_error option \<times> (string \<rightharpoonup> string)" where
  "march_DeleteConnectorRouter up userID s = redis_Del up [connectorRouterKey @ '':'' @ userID] s"

definition DeleteConnectorRouters :: "bool \<Rightarrow> string list \<Rightarrow> (string \<rightharpoonup> string) \<Rightarrow> router_error option \<times> (string \<rightharpoonup> string)" where
  "DeleteConnectorRouters up users s = (if users = [] then (None, s) else redis_Del up (map (\<lambda>u. connectorRouterKey @ '':'' @ u) users) s)"

definition ExistsConnectorRouter :: "bool \<Rightarrow> string \<Rightarrow> (string \<rightharpoonup> string) \<Rightarrow> router_error + bool" where
  "ExistsConnectorRouter up userID s = map_sum id (\<lambda>n. 0 < n) (redis_Exists up (connectorRouterKey @ '':'' @ userID) s)"

text \<open>The game routes of the connector; a missing key is the empty route.\<close>

definition gameRouterPrefix :: string where "gameRouterPrefix = ''user:router:game:''"

definition conn_SaveGameRouter :: "bool \<Rightarrow> string \<Rightarrow> string \<Rightarrow> (string \<rightharpoonup> string) \<Rightarrow> router_error option \<times> (string \<rightharpoonup> string)" where
  "conn_SaveGameRouter up userID gameNodeID s = redis_Set up (gameRouterPrefix @ userID) gameNodeID s"

definition conn_GetGameRouter :: "bool \<Rightarrow> string \<Rightarrow> (string \<rightharpoonup> string) \<Rightarrow> router_error + string" where
  "conn_GetGameRouter up userID s = (case redis_Get up (gameRouterPrefix @ userID) s of
     Inl RouterNil \<Rightarrow> Inr []
   | r \<Rightarrow> r)"

definition conn_DeleteGameRouter :: "bool \<Rightarrow> string \<Rightarrow> (string \<rightharpoonup> string) \<Rightarrow> router_error option \<times> (string \<rightharpoonup> string)" where
  "conn_DeleteGameRouter up userID s = redis_Del up [gameRouterPrefix @ userID] s"

definition HasGameRouter :: "bool \<Rightarrow> string \<Rightarrow> (string \<rightharpoonup> string) \<Rightarrow> router_error + bool" where
  "HasGameRouter up userID s = map_sum id (\<lambda>n. 0 < n) (redis_Exists up (gameRouterPrefix @ userID) s)"

section \<open>Connections to game nodes\<close>

record GameConnPool =
  conns :: "(string \<times> nat) list"
  made :: "string list"
  closed_conns :: "nat list"

definition NewGameConnPool :: GameConnPool where
  "NewGameConnPool = \<lparr>conns = [], made = [], closed_conns = []\<rparr>"

text \<open>\<open>dialable\<close> says whether a client for the address can be made.\<close>

definition GetClient :: "(nat \<Rightarrow> bool) \<Rightarrow> (string \<Rightarrow> bool) \<Rightarrow> string \<Rightarrow> GameConnPool \<Rightarrow> nat option \<times> GameConnPool" where
  "GetClient isReady dialable gameNodeAddr p =
     (let conn = map_of (conns p) gameNodeAddr
      in if conn \<noteq> None \<and> isReady (the conn) then (conn, p)
         else if \<not> dialable gameNodeAddr then (None, p)
         else (Some (length (made p)), p\<lparr>conns := AList.update gameNodeAddr (length (made p)) (conns p), made := made p @ [gameNodeAddr]\<rparr>))"

text \<open>\<open>Close\<close>; \<open>closes\<close> says whether closing a connection succeeds.  The result is the number of errors.\<close>

definition connpool_Close :: "(nat \<Rightarrow> bool) \<Rightarrow> GameConnPool \<Rightarrow> nat \<times> GameConnPool" where
  "connpool_Close closes p =
     (length (filter (\<lambda>(a, c). \<not> closes c) (conns p)), p\<lparr>conns := [], closed_conns := closed_conns p @ map snd (conns p)\<rparr>)"

section \<open>Pools of the worker\<close>

record MarchPoolConfig =
  cfgPoolID :: string
  cfgStrategy :: string
  cfgBatchSize :: int
  cfgInternal :: int

fun init_pools :: "MarchPoolConfig list \<Rightarrow> MatchPool list \<Rightarrow> march_error + MatchPool list" where
  "init_pools [] pools = Inr pools"
| "init_pools (cfg # cfgs) pools = (case NewMatchPool (cfgPoolID cfg) (cfgStrategy cfg) (cfgBatchSize cfg) of
     Inl err \<Rightarrow> Inl err
   | Inr pool \<Rightarrow> init_pools cfgs (pools @ [pool]))"

text \<open>The pools of the worker are left as they are on an error and without configurations.\<close>

definition InitMatchPools :: "MarchPoolConfig list \<Rightarrow> MatchPool list \<Rightarrow> march_error option \<times> MatchPool list" where
  "InitMatchPools cfgs pools =
     (if cfgs = [] then (None, pools)
      else case init_pools cfgs [] of Inl err \<Rightarrow> (Some err, pools) | Inr ps \<Rightarrow> (None, ps))"

section \<open>The RPC provider\<close>

datatype provider_error = ErrArgument | ErrService

text \<open>A success carries the estimated seconds.\<close>

definition provider_JoinQueue ::
    "bool \<Rightarrow> 'r Redis \<Rightarrow> (string \<Rightarrow> int option) \<Rightarrow> int \<Rightarrow> string \<Rightarrow> string \<Rightarrow> 'r \<Rightarrow> (provider_error + int) \<times> 'r" where
  "provider_JoinQueue up R findByID time userID pool s =
     (if userID = [] then (Inl ErrArgument, s)
      else if pool = [] then (Inl ErrArgument, s)
      else case service_JoinQueue up R findByID time pool userID s of
             (Some err, s) \<Rightarrow> (Inl ErrService, s)
           | (None, s) \<Rightarrow> (Inr 0, s))"

definition provider_LeaveQueue :: "bool \<Rightarrow> 'r Redis \<Rightarrow> string \<Rightarrow> 'r \<Rightarrow> provider_error option \<times> 'r" where
  "provider_LeaveQueue up R userID s =
     (if userID = [] then (Some ErrArgument, s)
      else case LeaveQueue up R userID s of
             (Some err, s) \<Rightarrow> (Some ErrService, s)
           | (None, s) \<Rightarrow> (None, s))"

datatype query_status = STATUS_UNKNOWN | STATUS_WAITING

definition QueryStatus :: "string \<Rightarrow> query_status" where
  "QueryStatus userID = (if userID \<noteq> [] then STATUS_WAITING else STATUS_UNKNOWN)"

section \<open>The RPC provider of the game node\<close>

text \<open>\<^verbatim>\<open>game/interfaces/grpc/provider.go\<close>; the error of the service, which it never returns, would become a failure.\<close>

definition provider_CreateRoom ::
    "'e Engine_if \<Rightarrow> string \<Rightarrow> int \<Rightarrow> (string \<times> string) list \<Rightarrow> int \<Rightarrow> 'e RoomManager \<Rightarrow> (CreateRoomResp \<times> 'e RoomManager) option" where
  "provider_CreateRoom ops roomID time players engineType rm = service_CreateRoom ops roomID time (Some (players, engineType)) rm"

text \<open>The call as the march node sees it: a panic of the game node is a failed call.\<close>

definition game_rpc ::
    "'e Engine_if \<Rightarrow> string \<Rightarrow> int \<Rightarrow> string \<Rightarrow> (string \<times> string) list \<Rightarrow> int \<Rightarrow> 'e RoomManager \<Rightarrow> bool option \<times> 'e RoomManager" where
  "game_rpc ops roomID time addr players engineType rm = (case provider_CreateRoom ops roomID time players engineType rm of
     None \<Rightarrow> (None, rm)
   | Some (resp, rm) \<Rightarrow> (Some (Success resp), rm))"

section \<open>Routes, connections and pools\<close>

lemmas march_route_defs = SaveGameRouter_def GetGameRouter_def DeleteGameRouter_def ExistsGameRouter_def DeleteGameRouters_def march_SaveConnectorRouter_def
  march_DeleteConnectorRouter_def DeleteConnectorRouters_def ExistsConnectorRouter_def redis_Set_def redis_Get_def redis_Del_def redis_Exists_def

text \<open>A saved game route is found until it is deleted, alone or with others, and the routes of other users and of connectors are not touched.\<close>

lemma march_game_routes:
  assumes "SaveGameRouter True u t s = (err, s')"
  shows "GetGameRouter True u s' = Inr t" "ExistsGameRouter True u s' = Inr True"
    "GetGameRouter True u (snd (DeleteGameRouters True us s')) = (if u \<in> set us then Inl RouterNil else Inr t)"
    "v \<noteq> u \<Longrightarrow> GetGameRouter True v s' = GetGameRouter True v s" "ExistsConnectorRouter True v s' = ExistsConnectorRouter True v s"
  using assms by (auto simp: march_route_defs gameRouterKey_def connectorRouterKey_def restrict_map_def)

text \<open>What the march node saves as a game route, the connector does not find.\<close>

lemma game_routes_unseen:
  assumes "SaveGameRouter True u t s = (err, s')"
  shows "conn_GetGameRouter True v s' = conn_GetGameRouter True v s"
  using assms by (auto simp: march_route_defs conn_GetGameRouter_def gameRouterKey_def gameRouterPrefix_def)

text \<open>The pool leads an address only to connections made for it.\<close>

definition connpool_ok :: "GameConnPool \<Rightarrow> bool" where
  "connpool_ok p \<longleftrightarrow> distinct (map fst (conns p)) \<and> (\<forall>a c. map_of (conns p) a = Some c \<longrightarrow> c < length (made p) \<and> made p ! c = a)"

lemma GetClient_ok:
  assumes "connpool_ok p" "GetClient isReady dialable a p = (r, p')"
  shows "connpool_ok p' \<and> (case r of None \<Rightarrow> p' = p | Some c \<Rightarrow> c < length (made p') \<and> made p' ! c = a \<and> map_of (conns p') a = Some c)"
proof (cases "(map_of (conns p) a \<noteq> None \<and> isReady (the (map_of (conns p) a))) \<or> \<not> dialable a")
  case True
  then show ?thesis using assms by (auto simp: GetClient_def connpool_ok_def Let_def split: if_splits)
next
  case False
  then have "r = Some (length (made p))" "p' = p\<lparr>conns := AList.update a (length (made p)) (conns p), made := made p @ [a]\<rparr>"
    using assms(2) by (auto simp: GetClient_def Let_def split: if_splits)
  then show ?thesis using assms(1) by (auto simp: connpool_ok_def distinct_update update_conv' nth_append less_Suc_eq)
qed

text \<open>A connection that is not ready, as a new one is not until it is used, is replaced and forgotten: closing the pool does not close it.\<close>

lemma replaced_connection_leaks:
  assumes "connpool_ok p" "map_of (conns p) a = Some c" "\<not> isReady c" "dialable a" "c \<notin> set (closed_conns p)"
  shows "c \<notin> set (closed_conns (snd (connpool_Close closes (snd (GetClient isReady dialable a p)))))"
proof -
  let ?n = "length (made p)"
  have g: "GetClient isReady dialable a p = (Some ?n, p\<lparr>conns := AList.update a ?n (conns p), made := made p @ [a]\<rparr>)"
    using assms(2-4) by (simp add: GetClient_def)
  have c: "c < ?n" using assms(1,2) by (simp add: connpool_ok_def)
  have "c' \<noteq> c" if "(b, c') \<in> set (AList.update a ?n (conns p))" for b c'
  proof -
    have "map_of (AList.update a ?n (conns p)) b = Some c'" using that assms(1) by (simp add: connpool_ok_def distinct_update)
    then show ?thesis using c assms(1,2) by (auto simp: update_conv' connpool_ok_def split: if_splits)
  qed
  then have "c \<notin> snd ` set (AList.update a ?n (conns p))" by (metis imageE prod.collapse)
  then show ?thesis using assms(5) by (simp add: g connpool_Close_def)
qed

lemma InitMatchPools_spec:
  "init_pools cfgs acc = Inr ps \<longleftrightarrow> (\<forall>cfg \<in> set cfgs. cfgStrategy cfg = ''classic:poll'')
     \<and> ps = acc @ map (\<lambda>cfg. \<lparr>poolID = cfgPoolID cfg, batchSize = cfgBatchSize cfg, requiredPlayers = inferRequiredPlayers (cfgPoolID cfg)\<rparr>) cfgs"
  by (induction cfgs arbitrary: acc) (auto simp: NewMatchPool_def createStrategy_def)

text \<open>The state of a user is a guess: everybody is told to be waiting.\<close>

lemma QueryStatus_always_waiting: "u \<noteq> [] \<Longrightarrow> QueryStatus u = STATUS_WAITING"
  by (simp add: QueryStatus_def)

section \<open>From the queue to the room\<close>



section \<open>From the account to the queue\<close>

text \<open>The ranking points the service reads from the database of users.\<close>

definition ranking_of :: "'db Mongo \<Rightarrow> (string \<Rightarrow> string option) \<Rightarrow> 'db \<Rightarrow> string \<Rightarrow> int option" where
  "ranking_of M fromHex db userID = (case FindByID M fromHex userID db of Some (Inr u) \<Rightarrow> Some (usRanking u) | _ \<Rightarrow> None)"

context accounts
begin

lemma new_user_ranking:
  assumes "provider_Register ae M account password sms db = (Inr uid, db')" "fromHex (aeHex ae (aeOid ae)) = Some (aeOid ae)"
    and "FindOne M ''users'' [(''_id'', BOid (aeOid ae))] db = Inl ErrNoDocuments"
  shows "ranking_of M fromHex db' uid = Some 0"
proof -
  define u where "u h = \<lparr>usID = aeOid ae, Account = TrimSpace account, Password = h, usRanking = 0, usCreatedAt = aeNow ae,
    usUpdatedAt = aeNow ae, usLastLogin = aeNow ae\<rparr>" for h
  obtain n h where uid: "uid = aeHex ae (aeOid ae)" and ins: "InsertOne M ''users'' (userDoc n (u h)) db = (None, db')"
    using registered [OF assms(1)] unfolding u_def by metis
  have "FindOne M ''users'' [(''_id'', BOid (aeOid ae))] db' = Inr (stored_doc stored (userDoc n (u h)))"
    by (rule find_inserted [OF assms(3) ins]) (simp add: userDoc_def u_def)
  then show ?thesis using user_read_back [of n "u h"] assms(2) uid
    by (simp add: ranking_of_def FindByID_def find_user_def u_def stored_int32)
qed

end

text \<open>The RPC client of the connector in front of the march node with Redis in state \<open>s\<close>; the response carries a text.\<close>

definition rpc_join :: "'r Redis \<Rightarrow> (string \<Rightarrow> int option) \<Rightarrow> int \<Rightarrow> string \<Rightarrow> 'r \<Rightarrow> string \<Rightarrow> string \<Rightarrow> string option" where
  "rpc_join R findByID time text s userID pool = (case fst (provider_JoinQueue True R findByID time userID pool s) of Inl e \<Rightarrow> None | Inr secs \<Rightarrow> Some text)"

text \<open>C10: from the registration to the queue, over four nodes.  A user who has just registered and whose client asks for a ranked pool is told
  to have joined, and then waits in the ranked pool of beginners; leaving takes him out again.\<close>

theorem registered_user_queues:
  assumes "accounts stored M ae" "provider_Register ae M account password sms db = (Inr uid, db')" "fromHex (aeHex ae (aeOid ae)) = Some (aeOid ae)"
    and "FindOne M ''users'' [(''_id'', BOid (aeOid ae))] db = Inl ErrNoDocuments"
    and "redis R" "waiting_ok R s" "HGET R userPoolKey uid s = None" "0 < time" "uid \<noteq> []"
    and "ceJoin ce = rpc_join R (ranking_of M fromHex db') time text s" "GetUserID session = uid" "body \<noteq> []" "cePool ce body = Some ''classic:rank4''"
  shows "\<exists>s1 s2. joinQueueHandler ce session body = Joined text
     \<and> provider_JoinQueue True R (ranking_of M fromHex db') time uid ''classic:rank4'' s = (Inr 0, s1)
     \<and> IsInQueue True R uid s1 = Inr (True, ''classic:rank4:novice'')
     \<and> provider_LeaveQueue True R uid s1 = (None, s2) \<and> IsInQueue True R uid s2 = Inr (False, [])"
proof -
  let ?p = "''classic:rank4:novice''"
  define s1 where "s1 = HSET R userPoolKey uid ?p (ZADD R (getQueueKey ?p) time uid s)"
  define s2 where "s2 = HDEL R userPoolKey uid (ZREM R (getQueueKey ?p) uid s1)"
  note c = redis.commands [OF assms(5)]
  have r: "ranking_of M fromHex db' uid = Some 0" by (rule accounts.new_user_ranking [OF assms(1,2) _ assms(4)]) (rule assms(3))
  have j: "provider_JoinQueue True R (ranking_of M fromHex db') time uid ''classic:rank4'' s = (Inr 0, s1)"
    using assms(7,9) redis.join_script [OF assms(5,6), of ?p] r
    by (simp add: provider_JoinQueue_def service_JoinQueue_def IsInQueue_def resolvePoolID_def HasPrefix_def rank4Prefix_def GetRankingByScore_def
        JoinQueue_def s1_def)
  moreover have "IsInQueue True R uid s1 = Inr (True, ?p)" using assms(8,9) by (simp add: IsInQueue_def s1_def c)
  moreover have "provider_LeaveQueue True R uid s1 = (None, s2)"
    using assms(9) by (simp add: provider_LeaveQueue_def LeaveQueue_def RemoveFromQueue_def remove_script s2_def) (simp add: s1_def c)
  moreover have "IsInQueue True R uid s2 = Inr (False, [])" using assms(9) by (simp add: IsInQueue_def s2_def c)
  moreover have "joinQueueHandler ce session body = Joined text"
    using assms(9-13) j by (simp add: joinQueueHandler_def rpc_join_def)
  ultimately show ?thesis by blast
qed

text \<open>C10 on the account \<open>bob\<close> in an empty database and an empty Redis.\<close>

theorem registered_user_queues_witness:
  "\<exists>db s1. provider_Register plain_auth mem_mongo ''bob'' ''secret'' ''0'' [] = (Inr ''oid1'', db)
     \<and> provider_JoinQueue True mem_redis (ranking_of mem_mongo Some db) 5 ''oid1'' ''classic:rank4'' empty_store = (Inr 0, s1)
     \<and> IsInQueue True mem_redis ''oid1'' s1 = Inr (True, ''classic:rank4:novice'')"
proof -
  obtain db where r: "provider_Register plain_auth mem_mongo ''bob'' ''secret'' ''0'' [] = (Inr ''oid1'', db)" using plain_register by blast
  let ?ce = "\<lparr>ceUnmarshal = (\<lambda>b. None), ceInflate = (\<lambda>b. None), cePool = (\<lambda>b. Some ''classic:rank4''),
    ceJoin = rpc_join mem_redis (ranking_of mem_mongo Some db) 5 ''ok'' empty_store, ceMarshal = (\<lambda>r. []), cePlayers = (\<lambda>b. None)\<rparr>"
  have h: "Some (aeHex plain_auth (aeOid plain_auth)) = Some (aeOid plain_auth)" by (simp add: plain_auth_def)
  have f: "FindOne mem_mongo ''users'' [(''_id'', BOid (aeOid plain_auth))] [] = Inl ErrNoDocuments" by (simp add: mem_mongo_def mem_find_def)
  have g: "HGET mem_redis userPoolKey ''oid1'' empty_store = None" by (simp add: mem_redis_def empty_store_def)
  have u: "GetUserID (SetUserID ''oid1'' (NewSession ''c'')) = ''oid1''" by (simp add: GetUserID_def SetUserID_def NewSession_def)
  show ?thesis
    using registered_user_queues [where fromHex = Some, OF plain_accounts.accounts_axioms r h f mem.redis_axioms empty_store_ok g, of 5 ?ce "''ok''" "SetUserID ''oid1'' (NewSession ''c'')" "[0]"] r u
    by auto
qed

end
