(* ===== verification/PushSpec.thy ===== *)
theory PushSpec
  imports Push
begin

text \<open>
  What the messages of \<open>Push\<close> guarantee: the final ranking is the players sorted by points, and a
  broadcast reaches every user exactly once, through his own connector node.
\<close>

section \<open>The exchange sort of the ranking\<close>

lemma rank_inner_props:
  assumes "i < length xs" "\<forall>j \<in> set js. i < j \<and> j < length xs" "distinct js"
  shows "mset (rank_inner i js xs) = mset xs \<and> length (rank_inner i js xs) = length xs
    \<and> (\<forall>k. k \<noteq> i \<longrightarrow> k \<notin> set js \<longrightarrow> rank_inner i js xs ! k = xs ! k)
    \<and> st_points (xs ! i) \<le> st_points (rank_inner i js xs ! i)
    \<and> (\<forall>j \<in> set js. st_points (rank_inner i js xs ! j) \<le> st_points (rank_inner i js xs ! i))"
  using assms
proof (induction js arbitrary: xs)
  case (Cons j js)
  let ?xs = "if st_points (xs ! i) < st_points (xs ! j) then swap_at xs i j else xs"
  let ?ys = "rank_inner i js ?xs"
  have j: "i < j" "j < length xs" "j \<notin> set js" using Cons.prems by auto
  have step: "mset ?xs = mset xs" "length ?xs = length xs" "st_points (?xs ! j) \<le> st_points (?xs ! i)"
    "st_points (xs ! i) \<le> st_points (?xs ! i)" "\<forall>k. k \<noteq> i \<longrightarrow> k \<noteq> j \<longrightarrow> ?xs ! k = xs ! k"
    using Cons.prems(1) j by (auto simp: swap_at_def nth_list_update mset_swap)
  have "mset ?ys = mset ?xs \<and> length ?ys = length ?xs \<and> (\<forall>k. k \<noteq> i \<longrightarrow> k \<notin> set js \<longrightarrow> ?ys ! k = ?xs ! k)
    \<and> st_points (?xs ! i) \<le> st_points (?ys ! i) \<and> (\<forall>j \<in> set js. st_points (?ys ! j) \<le> st_points (?ys ! i))"
    by (rule Cons.IH) (use Cons.prems step(2) in auto)
  moreover from this j have "?ys ! j = ?xs ! j" by auto
  ultimately show ?case using step by (auto simp del: rank_inner.simps simp: rank_inner.simps(2))
qed simp

definition ranked_upto :: "nat \<Rightarrow> standing list \<Rightarrow> bool" where
  "ranked_upto k xs \<longleftrightarrow> (\<forall>a < k. \<forall>b < length xs. a < b \<longrightarrow> st_points (xs ! b) \<le> st_points (xs ! a))"

lemma rank_inner_step:
  assumes "ranked_upto k xs" "k < length xs" "ys = rank_inner k [k + 1..<length xs] xs"
  shows "mset ys = mset xs" "length ys = length xs" "ranked_upto (Suc k) ys"
proof -
  note p = rank_inner_props [OF assms(2), of "[k + 1..<length xs]", folded assms(3)]
  show m: "mset ys = mset xs" and l: "length ys = length xs" using p by auto
  have pre: "take k ys = take k xs" using p l by (intro nth_equalityI) auto
  then have "mset (drop k ys) = mset (drop k xs)"
    using m by (metis add_left_cancel append_take_drop_id mset_append)
  then have suf: "set (drop k ys) = set (drop k xs)" by (rule mset_eq_setD)
  have old: "\<exists>c < length xs. k \<le> c \<and> ys ! b = xs ! c" if "k \<le> b" "b < length xs" for b
  proof -
    have "ys ! b \<in> set (drop k ys)" using that l by (auto simp: in_set_conv_nth intro!: exI [of _ "b - k"])
    then obtain n where "n < length xs - k" "ys ! b = xs ! (k + n)" unfolding suf by (auto simp: in_set_conv_nth)
    then show ?thesis by (intro exI [of _ "k + n"]) auto
  qed
  show "ranked_upto (Suc k) ys" unfolding ranked_upto_def
  proof (intro allI impI)
    fix a b assume a: "a < Suc k" and b: "b < length ys" "a < b"
    show "st_points (ys ! b) \<le> st_points (ys ! a)"
    proof (cases "a = k")
      case True
      then show ?thesis using p b l by auto
    next
      case False
      then have ak: "a < k" "ys ! a = xs ! a" using a p assms(2) by auto
      show ?thesis
      proof (cases "b < k")
        case True
        then have "ys ! b = xs ! b" using p by auto
        then show ?thesis using assms(1) ak b l by (simp add: ranked_upto_def)
      next
        case False
        then obtain c where "c < length xs" "k \<le> c" "ys ! b = xs ! c" using old [of b] b l by auto
        then show ?thesis using assms(1) ak by (simp add: ranked_upto_def)
      qed
    qed
  qed
qed

lemma rank_outer_props:
  "ranked_upto k xs \<Longrightarrow> k \<le> m \<Longrightarrow> m \<le> length xs \<Longrightarrow>
   mset (rank_outer [k..<m] xs) = mset xs \<and> ranked_upto m (rank_outer [k..<m] xs)"
proof (induction "m - k" arbitrary: k xs)
  case (Suc n)
  then have k: "k < m" "k < length xs" "[k..<m] = k # [Suc k..<m]" by (auto simp: upt_conv_Cons)
  note s = rank_inner_step [OF Suc.prems(1) k(2) refl]
  from Suc.hyps(1) [OF _ s(3)] Suc.hyps(2) Suc.prems(3) k(1) s(1,2) show ?case by (simp add: k(3) del: upt_Suc)
qed auto

lemma rank_sort_props:
  shows "mset (rank_sort xs) = mset xs" "sorted_wrt (\<lambda>p q. st_points q \<le> st_points p) (rank_sort xs)"
proof -
  have r: "mset (rank_sort xs) = mset xs" "ranked_upto (length xs - 1) (rank_sort xs)"
    using rank_outer_props [of 0 xs "length xs - 1"] by (auto simp: rank_sort_def ranked_upto_def)
  then show "mset (rank_sort xs) = mset xs" by simp
  have "length (rank_sort xs) = length xs" using r(1) by (rule mset_eq_length)
  then show "sorted_wrt (\<lambda>p q. st_points q \<le> st_points p) (rank_sort xs)"
    using r(2) by (auto simp: sorted_wrt_iff_nth_less ranked_upto_def)
qed

text \<open>C17: The final ranking lists every seated player exactly once, by descending points, with the ranks
  1, 2, 3, ... in that order.\<close>

theorem finalRankings_spec:
  "mset (map (\<lambda>r. (rkSeatIndex r, rkPoints r, rkUserID r)) (finalRankings eg)) = mset (playerList eg)
   \<and> sorted_wrt (\<lambda>r q. rkPoints q \<le> rkPoints r) (finalRankings eg)
   \<and> map Rank (finalRankings eg) = map (\<lambda>n. int n + 1) [0..<length (playerList eg)]"
proof -
  define xs where "xs = rank_sort (playerList eg)"
  note p = rank_sort_props [of "playerList eg", folded xs_def]
  have f: "finalRankings eg = map (\<lambda>r. rankingDTO r (xs ! r)) [0..<length xs]" by (simp add: finalRankings_def xs_def Let_def)
  have "map (\<lambda>r. (rkSeatIndex r, rkPoints r, rkUserID r)) (finalRankings eg) = xs"
    unfolding f by (intro nth_equalityI) (auto simp: rankingDTO_def)
  moreover have "sorted_wrt (\<lambda>r q. rkPoints q \<le> rkPoints r) (finalRankings eg)"
    using p(2) unfolding f by (auto simp: sorted_wrt_iff_nth_less rankingDTO_def)
  moreover have "length xs = length (playerList eg)" using p(1) by (rule mset_eq_length)
  then have "map Rank (finalRankings eg) = map (\<lambda>n. int n + 1) [0..<length (playerList eg)]"
    unfolding f by (simp add: rankingDTO_def)
  ultimately show ?thesis using p(1) by simp
qed

section \<open>One packet per connector\<close>

text \<open>The groups of the users handled so far.\<close>

definition groups_ok :: "(string \<Rightarrow> string option) \<Rightarrow> string list \<Rightarrow> (string \<times> string list) list \<Rightarrow> bool" where
  "groups_ok con users gs \<longleftrightarrow> distinct (map fst gs) \<and> fst ` set gs = {c. \<exists>u \<in> set users. con u = Some c}
     \<and> (\<forall>g \<in> set gs. snd g = filter (\<lambda>u. con u = Some (fst g)) users)"

lemma group_add_keys: "map fst (group_add c u gs) = (if c \<in> fst ` set gs then map fst gs else map fst gs @ [c])"
  by (induction c u gs rule: group_add.induct) auto

lemma group_add_mem:
  "distinct (map fst gs) \<Longrightarrow> set (group_add c u gs) =
     (if c \<in> fst ` set gs then (\<lambda>g. if fst g = c then (c, snd g @ [u]) else g) ` set gs else insert (c, [u]) (set gs))"
proof (induction c u gs rule: group_add.induct)
  case (2 c u k us gs)
  show ?case
  proof (cases "k = c")
    case True
    then have "(\<lambda>g. if fst g = c then (c, snd g @ [u]) else g) ` set gs = set gs"
      using 2(2) by (intro image_cong [where g = id, simplified]) (auto intro: rev_image_eqI)
    with True show ?thesis by simp
  next
    case False
    with 2 show ?thesis by auto
  qed
qed simp

lemma groups_ok_add:
  assumes "groups_ok con users gs" "con u = Some c"
  shows "groups_ok con (users @ [u]) (group_add c u gs)"
proof -
  have d: "distinct (map fst gs)" using assms(1) by (simp add: groups_ok_def)
  have none: "filter (\<lambda>u. con u = Some c) users = []" if "c \<notin> fst ` set gs"
    using that assms(1) by (auto simp: groups_ok_def filter_empty_conv)
  have "distinct (map fst (group_add c u gs))" using d by (simp add: group_add_keys)
  moreover have "set (map fst (group_add c u gs)) = insert c (fst ` set gs)" by (auto simp: group_add_keys)
  then have "fst ` set (group_add c u gs) = {c. \<exists>u \<in> set (users @ [u]). con u = Some c}"
    using assms by (auto simp: groups_ok_def)
  moreover have "snd g = filter (\<lambda>u. con u = Some (fst g)) (users @ [u])" if "g \<in> set (group_add c u gs)" for g
    using that assms none by (auto simp: group_add_mem [OF d] groups_ok_def split: if_splits)
  ultimately show ?thesis by (simp add: groups_ok_def)
qed

lemma connector_groups_ok: "groups_ok (connector_of eg) users (connector_groups eg users)"
proof (induction users rule: rev_induct)
  case (snoc u users)
  show ?case
  proof (cases "connector_of eg u")
    case None
    then show ?thesis using snoc by (auto simp: connector_groups_def groups_ok_def)
  next
    case (Some c)
    then show ?thesis using groups_ok_add [OF snoc Some] by (simp add: connector_groups_def)
  qed
qed (simp add: connector_groups_def groups_ok_def)

text \<open>A push reaches every user exactly once.  It appends packets to the outbox, at most one for each
  connector node, and the packet for a node addresses exactly those of the given users that are
  connected to it, in order; a node gets a packet exactly when one of the users is connected to it.
  This holds whatever order Go visits the map of connectors in.\<close>

lemma dispatchPush_spec:
  assumes "env_ok en" "Worker eg = Some node"
  shows "\<exists>ps. dispatchPush en users connectorRoute clientRoute data eg = Some (eg\<lparr>outbox := outbox eg @ map Push ps\<rparr>)
     \<and> distinct (map Destination ps)
     \<and> Destination ` set ps = {c. \<exists>u \<in> set users. connector_of eg u = Some c}
     \<and> (\<forall>p \<in> set ps. Source p = node \<and> Route p = connectorRoute \<and> BodyRoute p = clientRoute \<and> Body p = data
          \<and> PushUser p = filter (\<lambda>u. connector_of eg u = Some (Destination p)) users)"
proof -
  let ?gs = "connector_groups eg users"
  let ?mk = "\<lambda>(c, us). \<lparr>Source = node, Destination = c, Route = connectorRoute, PushUser = us, BodyRoute = clientRoute, Body = data\<rparr>"
  note g = connector_groups_ok [of eg users]
  have m: "mset (rangeGroups en ?gs) = mset ?gs" using assms(1) by (simp add: env_ok_def)
  have set: "set (rangeGroups en ?gs) = set ?gs" using m by (rule mset_eq_setD)
  have "mset (map fst (rangeGroups en ?gs)) = mset (map fst ?gs)" using m by simp
  then have dist: "distinct (map fst (rangeGroups en ?gs))" using g by (metis groups_ok_def mset_eq_imp_distinct_iff)
  have dst: "map Destination (map ?mk (rangeGroups en ?gs)) = map fst (rangeGroups en ?gs)" by auto
  have e: "rangeGroups en ?gs = []" if "?gs = []" using m that by simp
  have nil: "?gs = []" if "users = []" using that by (simp add: connector_groups_def)
  have out: "map (\<lambda>(c, us). Push \<lparr>Source = node, Destination = c, Route = connectorRoute, PushUser = us, BodyRoute = clientRoute,
      Body = data\<rparr>) gs = map Push (map ?mk gs)" for gs by auto
  have "dispatchPush en users connectorRoute clientRoute data eg = Some (eg\<lparr>outbox := outbox eg @ map Push (map ?mk (rangeGroups en ?gs))\<rparr>)"
  proof (cases "?gs = []")
    case True
    then show ?thesis using e [OF True] by (simp add: dispatchPush_def)
  next
    case False
    then have "users \<noteq> []" using nil by blast
    with False show ?thesis by (simp only: dispatchPush_def assms(2) out Let_def length_0_conv if_False bind.bind_lunit)
  qed
  moreover have "distinct (map Destination (map ?mk (rangeGroups en ?gs)))" unfolding dst by (rule dist)
  moreover have "Destination ` set (map ?mk (rangeGroups en ?gs)) = {c. \<exists>u \<in> set users. connector_of eg u = Some c}"
  proof -
    have "Destination ` set (map ?mk (rangeGroups en ?gs)) = set (map fst (rangeGroups en ?gs))"
      unfolding dst [symmetric] by (simp only: set_map)
    then show ?thesis using g by (simp only: set_map set groups_ok_def)
  qed
  moreover have "\<forall>p \<in> set (map ?mk (rangeGroups en ?gs)). Source p = node \<and> Route p = connectorRoute \<and> BodyRoute p = clientRoute
      \<and> Body p = data \<and> PushUser p = filter (\<lambda>u. connector_of eg u = Some (Destination p)) users"
    using g unfolding set_map set ball_simps(9) groups_ok_def by (simp add: case_prod_unfold)
  ultimately show ?thesis by (intro exI [of _ "map ?mk (rangeGroups en ?gs)"] conjI)
qed

text \<open>An engine with two users behind one connector, for the witness.\<close>

definition two_users :: engine where
  "two_users = \<lparr>egState = GameWaiting, Worker = Some ''game'', RoomID = ''room'',
     UserMap = Some [''a'' \<mapsto> NewUserInfo ''a'' ''node'', ''b'' \<mapsto> NewUserInfo ''b'' ''node''],
     egSituation = None, Players = replicate 4 None, egDeck = None, egTurn = None, roundStartTimer = TimerNil,
     lastDiscard = \<lparr>Seat = 0, ldTile = zero_tile, Valid = False\<rparr>, Persister = None, gameEvents = None, closed = False,
     closeOnce = False, Reactions = [], outbox = []\<rparr>"

end
