(* ===== verification/Websocket.thy ===== *)
theory Websocket
  imports ConnectorSpec "HOL-Library.Sublist"
begin

text \<open>
  The two goroutines of a connection, \<^verbatim>\<open>connector/runtime/connection.go\<close>: what senders put into the write channel
  reaches the websocket in order, and answered pings keep the connection open.
\<close>

section \<open>Senders and the writer of one connection\<close>

text \<open>Any goroutine may send, any may close the connection, and the writer goes through its rounds.  A run returns the messages whose send went
  through.\<close>

datatype socket_op = Send "byte list" | Shut | Round bool write_case

fun run_socket :: "nat \<Rightarrow> socket_op list \<Rightarrow> ConnWorker \<Rightarrow> (byte list list \<times> ConnWorker) option" where
  "run_socket p [] w = Some ([], w)"
| "run_socket p (Send m # ops) w = do {
     (r, w) \<leftarrow> SendMessage m p w;
     (ms, w) \<leftarrow> run_socket p ops w;
     Some (if r = Sent then m # ms else ms, w)
   }"
| "run_socket p (Shut # ops) w = do { w \<leftarrow> conn_Close p w; run_socket p ops w }"
| "run_socket p (Round ok c # ops) w = do { w \<leftarrow> writeMessage ok c p w; run_socket p ops w }"

text \<open>What the client gets.\<close>

fun data_frames :: "frame list \<Rightarrow> byte list list" where
  "data_frames [] = []"
| "data_frames (BinaryFrame m # fs) = m # data_frames fs"
| "data_frames (f # fs) = data_frames fs"

lemma data_frames_append [simp]: "data_frames (fs @ gs) = data_frames fs @ data_frames gs"
  by (induction fs rule: data_frames.induct) simp_all

section \<open>What one operation does to the write channel and the websocket\<close>

lemma conn_Close_channel: "conn_Close p w = Some w' \<Longrightarrow> WriteChan (heap w' q) = WriteChan (heap w q) \<and> written (heap w' q) = written (heap w q)"
  by (auto simp: conn_Close_def Let_def put_conn_def split: if_split_asm)

lemma readMessage_end_channel:
  assumes "readMessage_end p w = Some w'"
  shows "WriteChan (heap w' q) = WriteChan (heap w q) \<and> written (heap w' q) = written (heap w q)"
proof -
  have u: "heap (UnbindUser u p v) = heap v" for u v by (simp add: UnbindUser_def Let_def)
  have b: "bucket_put c x v = Some v' \<Longrightarrow> heap v' = heap v" for c x v v' by (auto simp: bucket_put_def bind_eq_Some_conv)
  show ?thesis using assms
    by (auto simp: readMessage_end_def removeClient_def bind_eq_Some_conv u split: if_split_asm option.split_asm dest!: b conn_Close_channel [where q = q])
qed

lemma writeMessage_end_channel:
  "writeMessage_end p w = Some w' \<Longrightarrow> WriteChan (heap w' q) = WriteChan (heap w q) \<and> written (heap w' q) = written (heap w q)"
  by (auto simp: writeMessage_end_def close_writer_def put_conn_def split: if_split_asm dest!: readMessage_end_channel [where q = q])

lemma socket_write_channel:
  assumes "socket_write ok f p w = Some (r, w')"
  shows "WriteChan (heap w' p) = WriteChan (heap w p) \<and> written (heap w' p) = written (heap w p) @ (if r then [f] else [])"
  using assms by (auto simp: socket_write_def put_conn_def split: socket.split_asm if_split_asm)

text \<open>A round of the writer takes the first message or none, and a message it takes reaches the websocket or is lost.\<close>

lemma writeMessage_channel:
  assumes "writeMessage ok c p w = Some w'" "WriteChan (heap w p) = Some q"
  shows "\<exists>taken q' fs. q = taken @ q' \<and> WriteChan (heap w' p) = Some q' \<and> written (heap w' p) = written (heap w p) @ fs
     \<and> subseq (data_frames fs) taken"
proof -
  obtain go v where v: "writeMessage_case ok c p w = Some (go, v)" "if go then w' = v else writeMessage_end p v = Some w'"
    using assms(1) by (auto simp: writeMessage_def bind_eq_Some_conv split: if_split_asm)
  have end': "WriteChan (heap w' p) = WriteChan (heap v p) \<and> written (heap w' p) = written (heap v p)"
    using v(2) writeMessage_end_channel [of p v w' p] by (cases go) auto
  show ?thesis
  proof (cases c)
    case OnMessage
    then show ?thesis using v(1) assms(2) unfolding end' [THEN conjunct1] end' [THEN conjunct2]
      by (cases q) (auto simp: writeMessage_case_def Let_def bind_eq_Some_conv put_conn_def split: if_split_asm
          dest!: socket_write_channel conn_Close_channel [where q = p])
  next
    case OnTick
    then show ?thesis using v(1) assms(2) unfolding end' [THEN conjunct1] end' [THEN conjunct2]
      by (auto simp: writeMessage_case_def Let_def bind_eq_Some_conv split: if_split_asm
          dest!: socket_write_channel conn_Close_channel [where q = p])
  next
    case OnClose
    then show ?thesis using v(1) assms(2) end' by (auto simp: writeMessage_case_def Let_def split: if_split_asm)
  qed
qed

lemma SendMessage_channel:
  assumes "SendMessage m p w = Some (r, w')" "WriteChan (heap w p) = Some q"
  shows "WriteChan (heap w' p) = Some (q @ (if r = Sent then [m] else [])) \<and> written (heap w' p) = written (heap w p)"
  using assms by (auto simp: SendMessage_def put_conn_def Let_def split: if_split_asm)

lemma run_socket_channel:
  assumes "run_socket p ops w = Some (ms, w')" "WriteChan (heap w p) = Some q"
  shows "\<exists>taken q' fs. q @ ms = taken @ q' \<and> WriteChan (heap w' p) = Some q' \<and> written (heap w' p) = written (heap w p) @ fs
     \<and> subseq (data_frames fs) taken"
  using assms
proof (induction p ops w arbitrary: ms q rule: run_socket.induct)
  case (2 p m ops w)
  then obtain r v ns where r: "SendMessage m p w = Some (r, v)" "run_socket p ops v = Some (ns, w')" "ms = (if r = Sent then m # ns else ns)"
    by (auto simp: bind_eq_Some_conv)
  show ?case using "2.IH" [OF r(1) refl r(2)] SendMessage_channel [OF r(1) "2.prems"(2)] r(3) by (cases "r = Sent") auto
next
  case (3 p ops w)
  then obtain v where v: "conn_Close p w = Some v" "run_socket p ops v = Some (ms, w')" by (auto simp: bind_eq_Some_conv)
  then show ?case using "3.IH" [OF v, of q] "3.prems"(2) conn_Close_channel [OF v(1), of p] by simp
next
  case (4 p ok c ops w)
  then obtain v where v: "writeMessage ok c p w = Some v" "run_socket p ops v = Some (ms, w')" by (auto simp: bind_eq_Some_conv)
  obtain t q1 fs where 1: "q = t @ q1" "WriteChan (heap v p) = Some q1" "written (heap v p) = written (heap w p) @ fs" "subseq (data_frames fs) t"
    using writeMessage_channel [OF v(1) "4.prems"(2)] by blast
  obtain t' q2 gs where 2: "q1 @ ms = t' @ q2" "WriteChan (heap w' p) = Some q2" "written (heap w' p) = written (heap v p) @ gs" "subseq (data_frames gs) t'"
    using "4.IH" [OF v 1(2)] by blast
  have "q @ ms = (t @ t') @ q2" "written (heap w' p) = written (heap w p) @ fs @ gs" "subseq (data_frames (fs @ gs)) (t @ t')"
    using 1 2 by (simp_all add: list_emb_append_mono)
  then show ?case using 2(2) by blast
qed simp

section \<open>A connection that stays up\<close>

definition conn_up :: "LongConnection \<Rightarrow> bool" where
  "conn_up con \<longleftrightarrow> Conn con = SocketOpen \<and> pingTicker con = TickerOn \<and> closeChan con = ChanOpen \<and> \<not> writeClosed con"

text \<open>Operations without a failed write or a close.\<close>

fun smooth :: "socket_op \<Rightarrow> bool" where
  "smooth (Send m) = True"
| "smooth Shut = False"
| "smooth (Round ok c) = ok"

fun sends :: "socket_op list \<Rightarrow> byte list list" where
  "sends [] = []"
| "sends (Send m # ops) = m # sends ops"
| "sends (op # ops) = sends ops"

lemma sends_append [simp]: "sends (as @ bs) = sends as @ sends bs"
  by (induction as rule: sends.induct) simp_all

lemma up_round:
  assumes "conn_up (heap w p)" "WriteChan (heap w p) = Some q"
  shows "\<exists>w'. writeMessage True c p w = Some w' \<and> conn_up (heap w' p)
     \<and> WriteChan (heap w' p) = Some (if c = OnMessage then tl q else q)
     \<and> data_frames (written (heap w' p)) = data_frames (written (heap w p)) @ (if c = OnMessage then take 1 q else [])"
  using assms by (cases c; cases q) (auto simp: conn_up_def writeMessage_def writeMessage_case_def socket_write_def put_conn_def Let_def)

lemma smooth_run:
  assumes "\<forall>op \<in> set ops. smooth op" "conn_up (heap w p)" "WriteChan (heap w p) = Some q" "length q + length (sends ops) \<le> 1024"
  shows "\<exists>w' taken q'. run_socket p ops w = Some (sends ops, w') \<and> conn_up (heap w' p) \<and> q @ sends ops = taken @ q'
     \<and> WriteChan (heap w' p) = Some q' \<and> data_frames (written (heap w' p)) = data_frames (written (heap w p)) @ taken"
  using assms
proof (induction p ops w arbitrary: q rule: run_socket.induct)
  case (2 p m ops w)
  let ?v = "put_conn p ((heap w p)\<lparr>WriteChan := Some (q @ [m])\<rparr>) w"
  have s: "SendMessage m p w = Some (Sent, ?v)" using "2.prems" by (simp add: SendMessage_def conn_up_def Let_def)
  have "conn_up (heap ?v p)" "WriteChan (heap ?v p) = Some (q @ [m])" "written (heap ?v p) = written (heap w p)"
    using "2.prems"(2) by (simp_all add: put_conn_def conn_up_def)
  then show ?case using "2.IH" [OF s refl, of "q @ [m]"] "2.prems"(1,4) s by auto
next
  case (4 p ok c ops w)
  then have "ok" by simp
  then obtain v where v: "writeMessage ok c p w = Some v" "conn_up (heap v p)" "WriteChan (heap v p) = Some (if c = OnMessage then tl q else q)"
    "data_frames (written (heap v p)) = data_frames (written (heap w p)) @ (if c = OnMessage then take 1 q else [])"
    using up_round [OF "4.prems"(2,3), of c] by auto
  have l: "length (if c = OnMessage then tl q else q) + length (sends ops) \<le> 1024" using "4.prems"(4) by auto
  have q: "q = (if c = OnMessage then take 1 q else []) @ (if c = OnMessage then tl q else q)" by (cases q) auto
  obtain w' t q' where w': "run_socket p ops v = Some (sends ops, w')" "conn_up (heap w' p)"
    "(if c = OnMessage then tl q else q) @ sends ops = t @ q'"
    "WriteChan (heap w' p) = Some q'" "data_frames (written (heap w' p)) = data_frames (written (heap v p)) @ t"
    using "4.IH" [OF v(1) _ v(2,3) l] "4.prems"(1) by auto
  have "q @ sends ops = ((if c = OnMessage then take 1 q else []) @ t) @ q'" by (subst q) (simp only: append_assoc w'(3))
  then show ?case using v(1,4) w' by auto
qed auto

lemma run_socket_append:
  "run_socket p (as @ bs) w = do { (ms, w) \<leftarrow> run_socket p as w; (ns, w) \<leftarrow> run_socket p bs w; Some (ms @ ns, w) }"
  by (induction p as w rule: run_socket.induct) (auto split: Option.bind_splits)

lemma writer_drains:
  assumes "conn_up (heap w p)" "WriteChan (heap w p) = Some q"
  shows "\<exists>w'. run_socket p (replicate (length q) (Round True OnMessage)) w = Some ([], w') \<and> WriteChan (heap w' p) = Some []
     \<and> data_frames (written (heap w' p)) = data_frames (written (heap w p)) @ q"
  using assms
proof (induction q arbitrary: w)
  case (Cons m q)
  obtain v where "writeMessage True OnMessage p w = Some v" "conn_up (heap v p)" "WriteChan (heap v p) = Some q"
    "data_frames (written (heap v p)) = data_frames (written (heap w p)) @ [m]"
    using up_round [OF Cons.prems, of OnMessage] by auto
  then show ?case using Cons.IH [of v] by auto
qed simp

section \<open>Keeping a connection alive\<close>

text \<open>Durations are in nanoseconds.  The reader sets its deadline when it starts; a pong sets it anew; nothing else does.\<close>

definition pongWait :: int where "pongWait = 10 * 1000000000"
definition pingInterval :: int where "pingInterval = (pongWait * 9) div 10"

definition readMessage_deadline :: "int \<Rightarrow> int" where
  "readMessage_deadline time = time + pongWait"

definition PongHandler :: "int \<Rightarrow> int \<Rightarrow> int" where
  "PongHandler time deadline = time + pongWait"

text \<open>Pongs at the given times: each must come before the deadline in force.\<close>

fun kept_alive :: "int \<Rightarrow> int list \<Rightarrow> bool" where
  "kept_alive deadline [] = True"
| "kept_alive deadline (t # ts) = (t \<le> deadline \<and> kept_alive (PongHandler t deadline) ts)"

text \<open>The times of the pongs of a client that answers the ping of round k after the k-th delay.\<close>

fun pong_times :: "int \<Rightarrow> int list \<Rightarrow> int list" where
  "pong_times start [] = []"
| "pong_times start (d # ds) = (start + pingInterval + d) # pong_times (start + pingInterval) ds"

lemma pongs_keep_alive:
  assumes "\<forall>d \<in> set ds. 0 \<le> d \<and> d \<le> 1000000000" "start + pongWait \<le> deadline"
  shows "kept_alive deadline (pong_times start ds)"
  using assms
  by (induction ds arbitrary: start deadline) (auto simp: pongWait_def pingInterval_def PongHandler_def)

section \<open>Properties\<close>

text \<open>C37: the messages sent to a client arrive in order.  On a connection with messages q in its write channel, whatever the senders, the
  writer and those who close it do, the messages whose send went through follow q: first those the writer has taken, then those
  still in the channel, and the websocket got a subsequence of those taken, in order.  As long as the socket takes what is
  written, nobody closes it and the channel does not overflow, no send blocks, and after a round for each message the
  websocket got all of them.\<close>

theorem messages_in_order:
  assumes "WriteChan (heap w p) = Some q"
  shows "(run_socket p ops w = Some (ms, w') \<longrightarrow>
      (\<exists>taken q' fs. q @ ms = taken @ q' \<and> WriteChan (heap w' p) = Some q' \<and> written (heap w' p) = written (heap w p) @ fs
        \<and> subseq (data_frames fs) taken))
    \<and> (conn_up (heap w p) \<and> (\<forall>op \<in> set ops. smooth op) \<and> length q + length (sends ops) \<le> 1024 \<longrightarrow>
      (\<exists>w1 w2 n. n \<le> length q + length (sends ops) \<and> run_socket p ops w = Some (sends ops, w1)
        \<and> run_socket p (replicate n (Round True OnMessage)) w1 = Some ([], w2)
        \<and> data_frames (written (heap w2 p)) = data_frames (written (heap w p)) @ q @ sends ops))"
proof (intro conjI impI)
  assume "conn_up (heap w p) \<and> (\<forall>op \<in> set ops. smooth op) \<and> length q + length (sends ops) \<le> 1024"
  then obtain w1 taken q' where w1: "run_socket p ops w = Some (sends ops, w1)" "conn_up (heap w1 p)" "q @ sends ops = taken @ q'"
    "WriteChan (heap w1 p) = Some q'" "data_frames (written (heap w1 p)) = data_frames (written (heap w p)) @ taken"
    using smooth_run [of ops w p q] assms by blast
  obtain w2 where "run_socket p (replicate (length q') (Round True OnMessage)) w1 = Some ([], w2)"
    "data_frames (written (heap w2 p)) = data_frames (written (heap w1 p)) @ q'"
    using writer_drains [OF w1(2,4)] by blast
  moreover have "length q' \<le> length q + length (sends ops)" using arg_cong [OF w1(3), of length] by simp
  ultimately show "\<exists>w1 w2 n. n \<le> length q + length (sends ops) \<and> run_socket p ops w = Some (sends ops, w1)
      \<and> run_socket p (replicate n (Round True OnMessage)) w1 = Some ([], w2)
      \<and> data_frames (written (heap w2 p)) = data_frames (written (heap w p)) @ q @ sends ops"
    using w1 by (intro exI [of _ w1] exI [of _ w2] exI [of _ "length q'"]) simp
qed (use run_socket_channel assms in blast)

definition up_client :: ConnWorker where
  "up_client = put_conn 0 \<lparr>ConnID = ''x'', Conn = SocketOpen, hasWorker = True, WriteChan = Some [], writeClosed = False, connSession = None,
     pingTicker = TickerOn, closeChan = ChanOpen, connCloseOnce = False, written = []\<rparr> (NewWorkerWithDeps ''c'' 2)"

text \<open>C37 on a new connection: two messages with a ping in between.\<close>

theorem messages_in_order_witness:
  "\<exists>w1 w2 n. run_socket 0 [Send [1], Round True OnTick, Send [2], Round True OnMessage] up_client = Some ([[1], [2]], w1)
     \<and> run_socket 0 (replicate n (Round True OnMessage)) w1 = Some ([], w2) \<and> data_frames (written (heap w2 0)) = [[1], [2]]"
proof -
  let ?ops = "[Send [1], Round True OnTick, Send [2], Round True OnMessage]"
  have c: "WriteChan (heap up_client 0) = Some []" "written (heap up_client 0) = []" "conn_up (heap up_client 0)"
    by (simp_all add: up_client_def put_conn_def conn_up_def)
  have "\<exists>w1 w2 n. n \<le> length ([] :: byte list list) + length (sends ?ops) \<and> run_socket 0 ?ops up_client = Some (sends ?ops, w1)
      \<and> run_socket 0 (replicate n (Round True OnMessage)) w1 = Some ([], w2)
      \<and> data_frames (written (heap w2 0)) = data_frames (written (heap up_client 0)) @ [] @ sends ?ops"
    by (rule messages_in_order [OF c(1), THEN conjunct2, THEN mp]) (simp add: c)
  then show ?thesis unfolding c(2) by (auto simp del: run_socket.simps)
qed

text \<open>Pings go out every nine seconds and the deadline is ten: a client that answers each ping within a second is never cut off, however
  long it stays.\<close>

lemma answered_pings:
  "\<forall>d \<in> set ds. 0 \<le> d \<and> d \<le> 1000000000 \<Longrightarrow> kept_alive (readMessage_deadline start) (pong_times start ds)"
  by (rule pongs_keep_alive) (simp_all add: readMessage_deadline_def)

section \<open>Flaws\<close>

text \<open>A round of a writer that comes after its connection went back to the pool panics on the missing ticker.\<close>

lemma round_after_recycling_panics: "poolCount w \<le> 10000 \<Longrightarrow> writeMessage ok c p (pool_Put p w) = None"
  by (simp add: writeMessage_def writeMessage_case_def pool_Put_def put_conn_def reset_def)

text \<open>A client that sends more than 1024 bytes at once is cut off, though a packet may say it has up to 16 million.\<close>

lemma long_message_ends: "1024 < length message \<Longrightarrow> readMessage_read (BinaryInput message) p w = ReadEnd"
  by (simp add: readMessage_read_def)

end
