(* ===== verification/Nodes.thy ===== *)
theory Nodes
  imports PushSpec Websocket
begin

text \<open>
  Packets between nodes: the rest of \<^verbatim>\<open>connector/infrastructure/message/node/nats_worker.go\<close>, of which the game and the march node have
  identical copies, with \<^verbatim>\<open>nats_client.go\<close>.

  \<^item> NATS is a parameter in effect: what is published under a subject arrives at the node of that name.  The JSON of packets is the
    parameters \<open>marshal\<close> and \<open>unmarshal\<close>; a packet may come without its body, a nil pointer.
\<close>

datatype raw_packet = BadPacket | WithoutBody | GoodPacket ServicePacket

record NatsWorker =
  writeChan :: "ServicePacket list"
  nwConnected :: bool

definition NewNatsWorker :: NatsWorker where
  "NewNatsWorker = \<lparr>writeChan = [], nwConnected = False\<rparr>"

definition nats_Run :: "bool \<Rightarrow> NatsWorker \<Rightarrow> bool \<times> NatsWorker" where
  "nats_Run connects nw = (connects, nw\<lparr>nwConnected := connects\<rparr>)"

definition nats_PushMessage :: "ServicePacket \<Rightarrow> NatsWorker \<Rightarrow> bool \<times> NatsWorker" where
  "nats_PushMessage packet nw = (if length (writeChan nw) < 1024 then (True, nw\<lparr>writeChan := writeChan nw @ [packet]\<rparr>) else (False, nw))"

text \<open>\<open>SendMessage\<close> of the client: an unconnected one publishes nothing.\<close>

definition nats_SendMessage :: "string \<Rightarrow> byte list \<Rightarrow> NatsWorker \<Rightarrow> (string \<times> byte list) list" where
  "nats_SendMessage subject bs nw = (if nwConnected nw then [(subject, bs)] else [])"

text \<open>One round of \<open>writeChanMessage\<close> with what it publishes; \<open>None\<close> while the channel is empty.\<close>

definition writeChanMessage :: "(ServicePacket \<Rightarrow> byte list) \<Rightarrow> NatsWorker \<Rightarrow> ((string \<times> byte list) list \<times> NatsWorker) option" where
  "writeChanMessage marshal nw = (case writeChan nw of
     [] \<Rightarrow> None
   | message # rest \<Rightarrow> Some (nats_SendMessage (spDestination message) (marshal message) nw, nw\<lparr>writeChan := rest\<rparr>))"

text \<open>One round of \<open>readChanMessage\<close> of the connector on raw bytes: what does not parse is skipped, a missing body is a nil dereference.\<close>

definition readChanRaw :: "(byte list \<Rightarrow> raw_packet) \<Rightarrow> conn_env \<Rightarrow> byte list \<Rightarrow> ConnWorker \<Rightarrow> ConnWorker option" where
  "readChanRaw unmarshal ce raw w = (case unmarshal raw of
     BadPacket \<Rightarrow> Some w
   | WithoutBody \<Rightarrow> None
   | GoodPacket packet \<Rightarrow> readChanMessage ce packet w)"

text \<open>The packet \<open>dispatchPush\<close> makes, with the data as JSON.\<close>

definition service_packet :: "(payload \<Rightarrow> byte list) \<Rightarrow> packet \<Rightarrow> ServicePacket" where
  "service_packet json p = \<lparr>spBody = push_message (BodyRoute p) (Some (json (Body p))), spSource = Source p, spDestination = Destination p,
     spRoute = Route p, spPushUser = PushUser p\<rparr>"

section \<open>The channel\<close>

fun write_all :: "(ServicePacket \<Rightarrow> byte list) \<Rightarrow> nat \<Rightarrow> NatsWorker \<Rightarrow> (string \<times> byte list) list \<times> NatsWorker" where
  "write_all marshal 0 nw = ([], nw)"
| "write_all marshal (Suc n) nw = (case writeChanMessage marshal nw of
     None \<Rightarrow> ([], nw)
   | Some (out, nw) \<Rightarrow> (case write_all marshal n nw of (outs, nw) \<Rightarrow> (out @ outs, nw)))"

lemma service_packet_destination [simp]: "spDestination (service_packet json p) = Destination p"
  by (simp add: service_packet_def)

lemma write_all_spec:
  assumes "nwConnected nw" "writeChan nw = ps"
  shows "write_all marshal (length ps) nw = (map (\<lambda>p. (spDestination p, marshal p)) ps, nw\<lparr>writeChan := []\<rparr>)"
  using assms by (induction ps arbitrary: nw) (auto simp: writeChanMessage_def nats_SendMessage_def)

lemma push_all_spec:
  assumes "length (writeChan nw) + length ps \<le> 1024"
  shows "fold (\<lambda>p nw. snd (nats_PushMessage p nw)) ps nw = nw\<lparr>writeChan := writeChan nw @ ps\<rparr>"
  using assms by (induction ps arbitrary: nw) (auto simp: nats_PushMessage_def)

text \<open>The packets of a push that are published for a node.\<close>

definition published_to :: "string \<Rightarrow> (string \<times> byte list) list \<Rightarrow> byte list list" where
  "published_to node out = map snd (filter (\<lambda>(subject, bs). subject = node) out)"

lemma one_packet:
  assumes "distinct (map Destination ps)" "p \<in> set ps"
  shows "filter (\<lambda>q. Destination q = Destination p) ps = [p]"
  using assms by (induction ps) (auto simp: filter_empty_conv image_iff)

lemma sent_packets:
  assumes "nwConnected nw" "writeChan nw = []" "length ps \<le> 1024"
  shows "fst (write_all marshal (length ps) (fold (\<lambda>p nw. snd (nats_PushMessage (f p) nw)) ps nw)) = map (\<lambda>p. (spDestination (f p), marshal (f p))) ps"
proof -
  have "fold (\<lambda>p nw. snd (nats_PushMessage (f p) nw)) ps nw = nw\<lparr>writeChan := map f ps\<rparr>"
    using push_all_spec [of nw "map f ps"] assms(2,3) by (simp add: fold_map comp_def)
  then show ?thesis using write_all_spec [of "nw\<lparr>writeChan := map f ps\<rparr>" "map f ps" marshal] assms(1) by (simp add: comp_def)
qed

lemma packets_bounded:
  assumes "distinct (map Destination ps)" "Destination ` set ps = {c. \<exists>u \<in> set users. connector_of eg u = Some c}"
  shows "length ps \<le> length users"
proof -
  have "length ps = card (Destination ` set ps)" using distinct_card [OF assms(1)] by simp
  also have "\<dots> \<le> card ((\<lambda>u. the (connector_of eg u)) ` set users)"
    unfolding assms(2) by (rule card_mono) (auto intro!: rev_image_eqI)
  also have "\<dots> \<le> length users" by (meson card_image_le card_length finite_set le_trans)
  finally show ?thesis .
qed

text \<open>The writer of a connection that is up puts a queued message on the websocket behind those queued before.\<close>

lemma queued_is_written:
  assumes "p \<in> B" "conn_up (heap w p)" "WriteChan (heap w p) = Some q"
  shows "\<exists>w'. run_socket p (replicate (Suc (length q)) (Round True OnMessage)) (w\<lparr>heap := (\<lambda>p. if p \<in> B then enqueue buf (heap w p) else heap w p)\<rparr>)
       = Some ([], w') \<and> data_frames (written (heap w' p)) = data_frames (written (heap w p)) @ q @ [buf]"
  using writer_drains [of "w\<lparr>heap := (\<lambda>p. if p \<in> B then enqueue buf (heap w p) else heap w p)\<rparr>" p "q @ [buf]"] assms
  by (auto simp: conn_up_def enqueue_def)

section \<open>Properties\<close>

text \<open>C9: a broadcast of the engine reaches the clients.  The packets the engine hands to an idle, connected NATS worker of its node are published in
  order; a connector that has players of the table connected gets exactly one of them, and handling it queues one message on the
  connection of each of these players that is bound, which decodes to the data of the broadcast.  The writer of a connection that is up then puts
  it on the websocket, behind what was queued before.\<close>

theorem broadcast_reaches_clients:
  fixes clientRoute :: string
  assumes "env_ok en" "Worker eg = Some node"
    and "nwConnected nw" "writeChan nw = []" "length users \<le> 1024" "distinct users"
    and "u \<in> set users" "connector_of eg u = Some (cwNodeID w)"
    and "dict_ok (dict w)" "length (json data) < 2 ^ 24 - 16"
  defines "here \<equiv> filter (\<lambda>u. connector_of eg u = Some (cwNodeID w)) users"
  assumes "inj_on (connMap w) (set here \<inter> dom (connMap w))" "\<forall>p \<in> bound (set here) w. ready (heap w p)"
  defines "sp \<equiv> service_packet json \<lparr>Source = node, Destination = cwNodeID w, Route = GamePush, PushUser = here, BodyRoute = clientRoute, Body = data\<rparr>"
  assumes "unmarshal (marshal sp) = GoodPacket sp"
  shows "\<exists>ps raw buf pk m. dispatchPush en users GamePush clientRoute data eg = Some (eg\<lparr>outbox := outbox eg @ map Push ps\<rparr>)
     \<and> published_to (cwNodeID w) (fst (write_all marshal (length ps) (fold (\<lambda>p nw. snd (nats_PushMessage (service_packet json p) nw)) ps nw))) = [raw]
     \<and> readChanRaw unmarshal ce raw w = Some (w\<lparr>heap := (\<lambda>p. if p \<in> bound (set here) w then enqueue buf (heap w p) else heap w p)\<rparr>)
     \<and> Decode unmarshalSys inflate (dict w) buf spare = Some (Inr pk, dict w) \<and> ParseBody pk = Some (Some m) \<and> msgType m = MsgPush \<and> msgData m = Some (json data)
     \<and> (\<forall>p q. p \<in> bound (set here) w \<and> conn_up (heap w p) \<and> WriteChan (heap w p) = Some q \<longrightarrow>
         (\<exists>w'. run_socket p (replicate (Suc (length q)) (Round True OnMessage))
              (w\<lparr>heap := (\<lambda>p. if p \<in> bound (set here) w then enqueue buf (heap w p) else heap w p)\<rparr>) = Some ([], w')
            \<and> data_frames (written (heap w' p)) = data_frames (written (heap w p)) @ q @ [buf]))"
proof -
  obtain ps where ps: "dispatchPush en users GamePush clientRoute data eg = Some (eg\<lparr>outbox := outbox eg @ map Push ps\<rparr>)"
    "distinct (map Destination ps)" "Destination ` set ps = {c. \<exists>u \<in> set users. connector_of eg u = Some c}"
    "\<forall>p \<in> set ps. Source p = node \<and> Route p = GamePush \<and> BodyRoute p = clientRoute \<and> Body p = data
       \<and> PushUser p = filter (\<lambda>u. connector_of eg u = Some (Destination p)) users"
    using dispatchPush_spec [OF assms(1,2), of users GamePush clientRoute data] by (elim exE conjE) (rule that, assumption+)
  have "cwNodeID w \<in> Destination ` set ps" unfolding ps(3) using assms(7,8) by simp (rule bexI)
  then obtain p where p: "p \<in> set ps" "Destination p = cwNodeID w" by (elim imageE) simp
  have "p = \<lparr>Source = node, Destination = cwNodeID w, Route = GamePush, PushUser = here, BodyRoute = clientRoute, Body = data\<rparr>"
    using ps(4) p by (simp add: here_def)
  then have sp: "service_packet json p = sp" by (simp add: sp_def)
  have "length ps \<le> length users" by (rule packets_bounded [OF ps(2,3)])
  then have out: "fst (write_all marshal (length ps) (fold (\<lambda>p nw. snd (nats_PushMessage (service_packet json p) nw)) ps nw))
      = map (\<lambda>p. (Destination p, marshal (service_packet json p))) ps"
    using sent_packets [OF assms(3,4), of ps marshal "service_packet json"] assms(5) by simp
  have pub: "published_to (cwNodeID w) (map (\<lambda>p. (Destination p, marshal (service_packet json p))) ps) = [marshal sp]"
    using one_packet [OF ps(2) p(1)] p(2) sp by (simp add: published_to_def filter_map comp_def)
  have f: "spRoute sp = GamePush" "msgType (spBody sp) = MsgPush" "msgData (spBody sp) = Some (json data)" "spPushUser sp = here"
    by (simp_all add: sp_def service_packet_def push_message_def)
  obtain buf pk m where "readChanMessage ce sp w = Some (w\<lparr>heap := (\<lambda>p. if p \<in> bound (set here) w then enqueue buf (heap w p) else heap w p)\<rparr>)"
    and d: "Decode unmarshalSys inflate (dict w) buf spare = Some (Inr pk, dict w)" "ParseBody pk = Some (Some m)" "msgType m = MsgPush" "msgData m = Some (json data)"
    using game_push_delivered [OF assms(9) f(1-3) assms(10), of ce unmarshalSys inflate spare] f(4) assms(6,12,13) by (auto simp: here_def)
  then have "readChanRaw unmarshal ce (marshal sp) w = Some (w\<lparr>heap := (\<lambda>p. if p \<in> bound (set here) w then enqueue buf (heap w p) else heap w p)\<rparr>)"
    using assms(15) by (simp add: readChanRaw_def)
  then show ?thesis using ps(1) out pub d by (intro exI [of _ ps] exI [of _ "marshal sp"] exI [of _ buf] exI [of _ pk] exI [of _ m] conjI allI impI)
    (simp_all del: replicate.simps add: queued_is_written)
qed

text \<open>C9 on a riichi at a table of two, one of whom is bound at the connector.\<close>

theorem broadcast_reaches_clients_witness:
  "\<exists>ps raw w. dispatchPush plain_env [''a'', ''b''] GamePush ''gameplay.riichi'' (RiichiDTO 0) two_users = Some (two_users\<lparr>outbox := map Push ps\<rparr>)
     \<and> published_to ''node'' (fst (write_all (\<lambda>p. [7]) (length ps)
         (fold (\<lambda>p nw. snd (nats_PushMessage (service_packet (\<lambda>d. [1, 2]) p) nw)) ps \<lparr>writeChan = [], nwConnected = True\<rparr>))) = [raw]
     \<and> readChanRaw (\<lambda>raw. GoodPacket (service_packet (\<lambda>d. [1, 2]) \<lparr>Source = ''game'', Destination = ''node'', Route = GamePush,
         PushUser = [''a'', ''b''], BodyRoute = ''gameplay.riichi'', Body = RiichiDTO 0\<rparr>)) mute_env raw
         (one_client\<lparr>cwNodeID := ''node'', connMap := [''a'' \<mapsto> 0]\<rparr>) = Some w
     \<and> (\<exists>buf. WriteChan (heap w 0) = Some [buf]) \<and> WriteChan (heap w 1) = Some []"
proof -
  let ?w = "one_client\<lparr>cwNodeID := ''node'', connMap := [''a'' \<mapsto> 0]\<rparr>" and ?json = "\<lambda>d :: payload. [1, 2] :: byte list"
  let ?um = "\<lambda>raw :: byte list. GoodPacket (service_packet ?json \<lparr>Source = ''game'', Destination = ''node'', Route = GamePush,
         PushUser = [''a'', ''b''], BodyRoute = ''gameplay.riichi'', Body = RiichiDTO 0\<rparr>)"
  have c: "connector_of two_users ''a'' = Some ''node''" "connector_of two_users ''b'' = Some ''node''"
    by (simp_all add: connector_of_def two_users_def NewUserInfo_def)
  have w: "dict_ok (dict ?w)" "bound {''a'', ''b''} ?w = {0}" "ready (heap ?w p)" "WriteChan (heap ?w p) = Some []" for p
    by (auto simp: one_client_def NewWorkerWithDeps_def dict_ok_empty bound_def ready_def zero_connection_def split: if_splits)
  have e: "Worker two_users = Some ''game''" "outbox two_users = []" by (simp_all add: two_users_def)
  let ?us = "[''a'', ''b'']"
  have here: "filter (\<lambda>u. connector_of two_users u = Some (cwNodeID ?w)) ?us = ?us" using c by simp
  have bs: "\<forall>p \<in> bound (set (filter (\<lambda>u. connector_of two_users u = Some (cwNodeID ?w)) ?us)) ?w. ready (heap ?w p)" unfolding here using w(3) by simp
  have inj: "inj_on (connMap ?w) (set (filter (\<lambda>u. connector_of two_users u = Some (cwNodeID ?w)) ?us) \<inter> dom (connMap ?w))"
    unfolding here by (simp add: inj_on_def)
  obtain ps raw buf where "dispatchPush plain_env ?us GamePush ''gameplay.riichi'' (RiichiDTO 0) two_users = Some (two_users\<lparr>outbox := outbox two_users @ map Push ps\<rparr>)"
    "published_to (cwNodeID ?w) (fst (write_all (\<lambda>p. [7]) (length ps)
         (fold (\<lambda>p nw. snd (nats_PushMessage (service_packet ?json p) nw)) ps \<lparr>writeChan = [], nwConnected = True\<rparr>))) = [raw]"
    and r: "readChanRaw ?um mute_env raw ?w = Some (?w\<lparr>heap := (\<lambda>p. if p \<in> bound (set ?us) ?w then enqueue buf (heap ?w p) else heap ?w p)\<rparr>)"
    using broadcast_reaches_clients [OF plain_env_ok e(1) _ _ _ _ _ _ w(1) _ inj bs, of "\<lparr>writeChan = [], nwConnected = True\<rparr>" "''a''" ?json "RiichiDTO 0" ?um
        "\<lambda>p. [7]" "''gameplay.riichi''" mute_env "\<lambda>b. None" "\<lambda>b. None" "[]"] c
    unfolding here by (elim meta_impE) (simp_all, blast)
  moreover define w' where "w' = ?w\<lparr>heap := (\<lambda>p. if p \<in> bound (set ?us) ?w then enqueue buf (heap ?w p) else heap ?w p)\<rparr>"
  moreover have "\<exists>b. WriteChan (heap w' 0) = Some [b]" "WriteChan (heap w' 1) = Some []" using w(2,4) by (simp_all add: w'_def enqueue_def)
  ultimately show ?thesis using e(2) by - (rule exI [of _ ps], rule exI [of _ raw], rule exI [of _ w'], simp)
qed

end
