(* ===== verification/MarchLife.thy ===== *)
theory MarchLife
  imports MarchNode Nodes
begin

text \<open>
  The goroutines of the march node from start to end: the loops of the pools, \<^verbatim>\<open>march/runtime/match_pool.go\<close>, the goroutine that
  processes results, and \<open>Start\<close> and \<open>Close\<close> of the worker, \<^verbatim>\<open>march/runtime/worker.go\<close>.

  \<^item> A goroutine is unstarted, started by a \<open>go\<close> statement, in its loop, or has ended.  A wait group is its counter; a loop adds itself to it
    when it is first scheduled.
  \<^item> \<open>Start\<close> and \<open>Close\<close> run in goroutines of their own, so their sections interleave with everything else; \<open>mwStart\<close> and \<open>mwClose\<close> say where they are.
  \<^item> The context given to \<open>Start\<close> is that of \<open>main\<close>, which is never cancelled.
\<close>

section \<open>Pools and worker\<close>

datatype goroutine = Unstarted | Spawned | Looping | Ended

record PoolRun =
  prPool :: MatchPool
  prInterval :: int
  prLoop :: goroutine
  prWg :: int
  prStopped :: bool

datatype start_at = StartNats | StartProcessor | StartPool nat | StartDone
datatype close_at = CloseIdle | CloseStop nat | CloseWait nat | CloseWorker | CloseJoin | CloseDone

record MarchWorker =
  mwNodeID :: string
  natsWorker :: NatsWorker
  gameConnPool :: GameConnPool
  matchPools :: "PoolRun list"
  matchResultChan :: "MatchResult list"
  mwProcessor :: goroutine
  mwWg :: int
  mwStopped :: bool
  mwStart :: start_at
  mwClose :: close_at

text \<open>The interval is configured in milliseconds and kept in nanoseconds.\<close>

definition pool_run :: "MarchPoolConfig \<Rightarrow> PoolRun" where
  "pool_run cfg = \<lparr>prPool = \<lparr>poolID = cfgPoolID cfg, batchSize = cfgBatchSize cfg, requiredPlayers = inferRequiredPlayers (cfgPoolID cfg)\<rparr>,
     prInterval = cfgInternal cfg * 1000000, prLoop = Unstarted, prWg = 0, prStopped = False\<rparr>"

definition NewMarchWorker :: "string \<Rightarrow> PoolRun list \<Rightarrow> MarchWorker" where
  "NewMarchWorker nodeID pools = \<lparr>mwNodeID = nodeID, natsWorker = NewNatsWorker, gameConnPool = NewGameConnPool, matchPools = pools, matchResultChan = [],
     mwProcessor = Unstarted, mwWg = 0, mwStopped = False, mwStart = StartNats, mwClose = CloseIdle\<rparr>"

section \<open>One pool\<close>

definition pool_Start :: "PoolRun \<Rightarrow> PoolRun" where
  "pool_Start pr = pr\<lparr>prLoop := Spawned\<rparr>"

text \<open>The sections of \<open>matchLoop\<close>: its first lines, where the ticker panics when the interval is not positive, and its end.\<close>

definition matchLoop_enter :: "PoolRun \<Rightarrow> PoolRun option" where
  "matchLoop_enter pr = (let pr = pr\<lparr>prWg := prWg pr + 1\<rparr> in if prInterval pr \<le> 0 then None else Some (pr\<lparr>prLoop := Looping\<rparr>))"

definition matchLoop_end :: "PoolRun \<Rightarrow> PoolRun" where
  "matchLoop_end pr = pr\<lparr>prLoop := Ended, prWg := prWg pr - 1\<rparr>"

text \<open>\<open>Stop\<close> closes the stop channel, which panics when it is closed already, and waits for the counter to be zero.\<close>

definition pool_Stop :: "PoolRun \<Rightarrow> PoolRun option" where
  "pool_Stop pr = (if prStopped pr then None else Some (pr\<lparr>prStopped := True\<rparr>))"

definition pool_stopped :: "PoolRun \<Rightarrow> bool" where
  "pool_stopped pr \<longleftrightarrow> prWg pr = 0"

definition put_pool :: "nat \<Rightarrow> PoolRun \<Rightarrow> MarchWorker \<Rightarrow> MarchWorker" where
  "put_pool i pr w = w\<lparr>matchPools := (matchPools w)[i := pr]\<rparr>"

section \<open>Start, results and end of the worker\<close>

text \<open>The next section of \<open>Start\<close>; without NATS it returns an error, on which the node exits.\<close>

definition worker_Start :: "bool \<Rightarrow> MarchWorker \<Rightarrow> MarchWorker option" where
  "worker_Start connects w = (case mwStart w of
     StartNats \<Rightarrow> (case nats_Run connects (natsWorker w) of
         (True, nw) \<Rightarrow> Some (w\<lparr>natsWorker := nw, mwStart := StartProcessor\<rparr>)
       | (False, nw) \<Rightarrow> None)
   | StartProcessor \<Rightarrow> Some (w\<lparr>mwProcessor := Spawned, mwStart := StartPool 0\<rparr>)
   | StartPool i \<Rightarrow>
       if i < length (matchPools w) then Some ((put_pool i (pool_Start (matchPools w ! i)) w)\<lparr>mwStart := StartPool (i + 1)\<rparr>)
       else Some (w\<lparr>mwStart := StartDone\<rparr>)
   | StartDone \<Rightarrow> Some w)"

definition processMatchResults_enter :: "MarchWorker \<Rightarrow> MarchWorker" where
  "processMatchResults_enter w = w\<lparr>mwProcessor := Looping, mwWg := mwWg w + 1\<rparr>"

definition processMatchResults_end :: "MarchWorker \<Rightarrow> MarchWorker" where
  "processMatchResults_end w = w\<lparr>mwProcessor := Ended, mwWg := mwWg w - 1\<rparr>"

text \<open>A round of \<open>processMatchResults\<close> with the connections to game nodes it uses.\<close>

definition processMatchResults ::
    "(nat \<Rightarrow> bool) \<Rightarrow> (string \<Rightarrow> bool) \<Rightarrow> (string \<Rightarrow> (string \<times> string) list \<Rightarrow> int \<Rightarrow> 'g \<Rightarrow> bool option \<times> 'g) \<Rightarrow> MarchWorker \<Rightarrow> 'g \<Rightarrow> MarchWorker \<times> 'g" where
  "processMatchResults isReady dialable rpc w g = (case matchResultChan w of
     [] \<Rightarrow> (w, g)
   | result # ch \<Rightarrow>
       (let (client, cp) = GetClient isReady dialable (GameNodeAddr result) (gameConnPool w);
            (ch, g) = processMatchResult (\<lambda>a. client \<noteq> None) rpc (matchResultChan w, g)
        in (w\<lparr>gameConnPool := cp, matchResultChan := ch\<rparr>, g)))"

text \<open>The next section of \<open>Close\<close>; it stays where it is while it has to wait.  An error of the connections is logged.\<close>

definition nats_Close :: "NatsWorker \<Rightarrow> NatsWorker" where
  "nats_Close nw = nw\<lparr>nwConnected := False\<rparr>"

definition worker_Close :: "(nat \<Rightarrow> bool) \<Rightarrow> MarchWorker \<Rightarrow> MarchWorker option" where
  "worker_Close closes w = (case mwClose w of
     CloseIdle \<Rightarrow> Some (w\<lparr>mwClose := CloseStop 0\<rparr>)
   | CloseStop i \<Rightarrow>
       if i < length (matchPools w) then do {
         pr \<leftarrow> pool_Stop (matchPools w ! i);
         Some ((put_pool i pr w)\<lparr>mwClose := CloseWait i\<rparr>)
       }
       else Some (w\<lparr>mwClose := CloseWorker\<rparr>)
   | CloseWait i \<Rightarrow> Some (if pool_stopped (matchPools w ! i) then w\<lparr>mwClose := CloseStop (i + 1)\<rparr> else w)
   | CloseWorker \<Rightarrow> if mwStopped w then None else Some (w\<lparr>mwStopped := True, mwClose := CloseJoin\<rparr>)
   | CloseJoin \<Rightarrow> Some (if mwWg w = 0
       then w\<lparr>gameConnPool := snd (connpool_Close closes (gameConnPool w)), natsWorker := nats_Close (natsWorker w), mwClose := CloseDone\<rparr> else w)
   | CloseDone \<Rightarrow> Some w)"

section \<open>The running node\<close>

text \<open>The worker with the queues in Redis and the game nodes it calls.\<close>

inductive march_step :: "'r Redis \<Rightarrow> MarchWorker \<times> 'r \<times> 'g \<Rightarrow> MarchWorker \<times> 'r \<times> 'g \<Rightarrow> bool" for R where
  go_start: "worker_Start connects w = Some w' \<Longrightarrow> march_step R (w, s, g) (w', s, g)"
| go_enter: "i < length (matchPools w) \<Longrightarrow> prLoop (matchPools w ! i) = Spawned \<Longrightarrow> matchLoop_enter (matchPools w ! i) = Some pr
    \<Longrightarrow> march_step R (w, s, g) (put_pool i pr w, s, g)"
| go_tick: "i < length (matchPools w) \<Longrightarrow> prLoop (matchPools w ! i) = Looping \<Longrightarrow> length mes = nat (MatchPool.batchSize (prPool (matchPools w ! i)))
    \<Longrightarrow> doBatchMatch (prStopped (matchPools w ! i)) pick R (prPool (matchPools w ! i)) mes s (matchResultChan w) = (s', ch)
    \<Longrightarrow> march_step R (w, s, g) (w\<lparr>matchResultChan := ch\<rparr>, s', g)"
| go_end: "i < length (matchPools w) \<Longrightarrow> prLoop (matchPools w ! i) = Looping \<Longrightarrow> prStopped (matchPools w ! i)
    \<Longrightarrow> march_step R (w, s, g) (put_pool i (matchLoop_end (matchPools w ! i)) w, s, g)"
| go_processor: "mwProcessor w = Spawned \<Longrightarrow> march_step R (w, s, g) (processMatchResults_enter w, s, g)"
| go_result: "mwProcessor w = Looping \<Longrightarrow> processMatchResults isReady dialable rpc w g = (w', g') \<Longrightarrow> march_step R (w, s, g) (w', s, g')"
| go_processor_end: "mwProcessor w = Looping \<Longrightarrow> mwStopped w \<Longrightarrow> march_step R (w, s, g) (processMatchResults_end w, s, g)"
| go_close: "worker_Close closes w = Some w' \<Longrightarrow> march_step R (w, s, g) (w', s, g)"

section \<open>Where start and end are\<close>

text \<open>How many pools \<open>Close\<close> has stopped and waited for, and whether \<open>Start\<close> has yet to start pool \<open>i\<close>.\<close>

fun stops :: "close_at \<Rightarrow> nat \<Rightarrow> nat" where
  "stops CloseIdle n = 0"
| "stops (CloseStop i) n = i"
| "stops (CloseWait i) n = i + 1"
| "stops c n = n"

fun waited :: "close_at \<Rightarrow> nat \<Rightarrow> nat" where
  "waited CloseIdle n = 0"
| "waited (CloseStop i) n = i"
| "waited (CloseWait i) n = i"
| "waited c n = n"

fun to_start :: "start_at \<Rightarrow> nat \<Rightarrow> bool" where
  "to_start (StartPool j) i = (j \<le> i)"
| "to_start StartDone i = False"
| "to_start st i = True"

definition pool_ok :: "bool \<Rightarrow> bool \<Rightarrow> PoolRun \<Rightarrow> bool" where
  "pool_ok stopped waits pr \<longleftrightarrow> prWg pr = (if prLoop pr = Looping then 1 else 0) \<and> (prStopped pr \<longleftrightarrow> stopped) \<and> (waits \<longrightarrow> prLoop pr = Unstarted)"

definition orderly :: "MarchWorker \<Rightarrow> bool" where
  "orderly w \<longleftrightarrow> (let n = length (matchPools w) in
     (\<forall>i < n. pool_ok (i < stops (mwClose w) n) (to_start (mwStart w) i) (matchPools w ! i))
     \<and> (\<forall>i. (mwClose w = CloseWait i \<longrightarrow> i < n) \<and> (mwClose w = CloseStop i \<longrightarrow> i \<le> n))
     \<and> mwWg w = (if mwProcessor w = Looping then 1 else 0) \<and> (mwStopped w \<longleftrightarrow> mwClose w \<in> {CloseJoin, CloseDone})
     \<and> (mwStart w \<in> {StartNats, StartProcessor} \<longrightarrow> mwProcessor w = Unstarted))"

lemma put_pool_simps [simp]:
  "length (matchPools (put_pool i pr w)) = length (matchPools w)" "mwClose (put_pool i pr w) = mwClose w" "mwStart (put_pool i pr w) = mwStart w"
  "mwWg (put_pool i pr w) = mwWg w" "mwProcessor (put_pool i pr w) = mwProcessor w" "mwStopped (put_pool i pr w) = mwStopped w"
  "j < length (matchPools w) \<Longrightarrow> matchPools (put_pool i pr w) ! j = (if i = j then pr else matchPools w ! j)"
  by (simp_all add: put_pool_def nth_list_update)

lemma orderly_pool:
  "orderly w \<Longrightarrow> i < length (matchPools w) \<Longrightarrow> pool_ok (i < stops (mwClose w) (length (matchPools w))) (to_start (mwStart w) i) (matchPools w ! i)"
  by (simp add: orderly_def Let_def)

lemma pool_ok_weaken: "pool_ok a b pr \<Longrightarrow> (b' \<Longrightarrow> b) \<Longrightarrow> pool_ok a b' pr"
  by (auto simp: pool_ok_def)

lemma orderlyI:
  assumes "\<And>i. i < length (matchPools w) \<Longrightarrow>
      pool_ok (i < stops (mwClose w) (length (matchPools w))) (to_start (mwStart w) i) (matchPools w ! i)"
    and "\<And>i. mwClose w = CloseWait i \<Longrightarrow> i < length (matchPools w)" "\<And>i. mwClose w = CloseStop i \<Longrightarrow> i \<le> length (matchPools w)"
    and "mwWg w = (if mwProcessor w = Looping then 1 else 0)" "mwStopped w \<longleftrightarrow> mwClose w \<in> {CloseJoin, CloseDone}"
    and "mwStart w \<in> {StartNats, StartProcessor} \<Longrightarrow> mwProcessor w = Unstarted"
  shows "orderly w"
  using assms by (simp add: orderly_def Let_def)

lemma orderlyD:
  assumes "orderly w"
  shows "mwClose w = CloseWait i \<Longrightarrow> i < length (matchPools w)" "mwClose w = CloseStop i \<Longrightarrow> i \<le> length (matchPools w)"
    "mwWg w = (if mwProcessor w = Looping then 1 else 0)" "mwStopped w \<longleftrightarrow> mwClose w \<in> {CloseJoin, CloseDone}"
    "mwStart w \<in> {StartNats, StartProcessor} \<Longrightarrow> mwProcessor w = Unstarted"
  using assms by (simp_all add: orderly_def Let_def)

lemma orderly_put:
  assumes "orderly w" "i < length (matchPools w)"
    and "pool_ok (i < stops (mwClose w) (length (matchPools w))) (to_start (mwStart w) i) (matchPools w ! i)
      \<Longrightarrow> pool_ok (i < stops (mwClose w) (length (matchPools w))) (to_start (mwStart w) i) pr"
  shows "orderly (put_pool i pr w)"
  using assms by (simp add: orderly_def Let_def)

lemma worker_Start_orderly:
  assumes "orderly w" "worker_Start connects w = Some w'"
  shows "orderly w'"
proof (cases "mwStart w")
  case (StartPool i)
  show ?thesis
  proof (cases "i < length (matchPools w)")
    case True
    then have "pool_ok (i < stops (mwClose w) (length (matchPools w))) True (matchPools w ! i)"
      using orderly_pool [OF assms(1)] StartPool by (metis order_refl to_start.simps(1))
    then have "pool_ok (i < stops (mwClose w) (length (matchPools w))) False (pool_Start (matchPools w ! i))"
      by (simp add: pool_ok_def pool_Start_def)
    moreover have "pool_ok (j < stops (mwClose w) (length (matchPools w))) (i + 1 \<le> j) (matchPools w ! j)" if "j < length (matchPools w)" for j
      by (rule pool_ok_weaken [OF orderly_pool [OF assms(1) that]]) (simp add: StartPool)
    moreover have "w' = (put_pool i (pool_Start (matchPools w ! i)) w)\<lparr>mwStart := StartPool (i + 1)\<rparr>"
      using assms(2) StartPool True by (simp add: worker_Start_def)
    ultimately show ?thesis using orderlyD [OF assms(1)] by (intro orderlyI) auto
  next
    case False
    then show ?thesis using assms StartPool by (auto simp: worker_Start_def orderly_def Let_def pool_ok_def)
  qed
qed (use assms in \<open>auto simp: worker_Start_def orderly_def Let_def pool_ok_def nats_Run_def split: prod.split_asm bool.split_asm\<close>)

lemma worker_Close_orderly:
  assumes "orderly w" "worker_Close closes w = Some w'"
  shows "orderly w'"
proof (cases "mwClose w")
  case (CloseStop i)
  show ?thesis
  proof (cases "i < length (matchPools w)")
    case True
    then have "pool_ok False (to_start (mwStart w) i) (matchPools w ! i)" using orderly_pool [OF assms(1)] CloseStop by fastforce
    then have "pool_ok True (to_start (mwStart w) i) ((matchPools w ! i)\<lparr>prStopped := True\<rparr>)"
      and w': "w' = (put_pool i ((matchPools w ! i)\<lparr>prStopped := True\<rparr>) w)\<lparr>mwClose := CloseWait i\<rparr>"
      using assms(2) CloseStop True by (simp_all add: pool_ok_def worker_Close_def pool_Stop_def)
    moreover have "pool_ok (j < i + 1) (to_start (mwStart w) j) (matchPools w ! j)" if "j < length (matchPools w)" "j \<noteq> i" for j
      using orderly_pool [OF assms(1) that(1)] CloseStop that(2) by (cases "j < i") simp_all
    ultimately show ?thesis using orderlyD [OF assms(1)] CloseStop True by (intro orderlyI) auto
  next
    case False
    then have "i = length (matchPools w)" using assms(1) CloseStop by (auto simp: orderly_def Let_def)
    then show ?thesis using assms CloseStop by (auto simp: worker_Close_def orderly_def Let_def)
  qed
next
  case (CloseWait i)
  then show ?thesis using assms by (auto simp: worker_Close_def orderly_def Let_def Suc_le_eq split: if_split_asm)
qed (use assms in \<open>auto simp: worker_Close_def orderly_def Let_def split: if_split_asm\<close>)

lemma processMatchResults_keeps:
  assumes "processMatchResults isReady dialable rpc w g = (w', g')"
  shows "matchPools w' = matchPools w \<and> mwClose w' = mwClose w \<and> mwStart w' = mwStart w \<and> mwWg w' = mwWg w \<and> mwProcessor w' = mwProcessor w
     \<and> mwStopped w' = mwStopped w"
  using assms by (auto simp: processMatchResults_def Let_def split: list.split_asm prod.split_asm)

fun march_orderly :: "MarchWorker \<times> 'r \<times> 'g \<Rightarrow> bool" where
  "march_orderly (w, s, g) = orderly w"

lemma march_step_orderly: "march_step R x y \<Longrightarrow> march_orderly x \<Longrightarrow> march_orderly y"
proof (induction rule: march_step.induct)
  case (go_enter i w pr s g)
  then show ?case by (simp, intro orderly_put) (auto simp: pool_ok_def matchLoop_enter_def Let_def split: if_split_asm)
next
  case (go_end i w s g)
  then show ?case by (simp, intro orderly_put) (auto simp: pool_ok_def matchLoop_end_def)
next
  case (go_result w isReady dialable rpc g w' g' s)
  then show ?case using processMatchResults_keeps [OF go_result(2)] by (simp add: orderly_def)
next
  case (go_start connects w w' s g)
  then show ?case using worker_Start_orderly by auto
next
  case (go_close closes w w' s g)
  then show ?case using worker_Close_orderly by auto
qed (auto simp: orderly_def processMatchResults_enter_def processMatchResults_end_def Let_def)

interpretation march: invariant_system "march_step R" march_orderly
  by unfold_locales (rule march_step_orderly)

section \<open>Close comes to its end\<close>

lemma worker_Close_no_panic:
  assumes "orderly w"
  shows "worker_Close closes w \<noteq> None"
proof (cases "mwClose w")
  case (CloseStop i)
  then have "\<not> prStopped (matchPools w ! i)" if "i < length (matchPools w)" using orderly_pool [OF assms that] by (simp add: pool_ok_def)
  then show ?thesis using CloseStop by (simp add: worker_Close_def pool_Stop_def)
qed (use orderlyD(4) [OF assms] in \<open>simp_all add: worker_Close_def\<close>)

text \<open>A run that leaves the queues and the game nodes alone.\<close>

definition closes_to :: "'r Redis \<Rightarrow> 'r \<Rightarrow> 'g \<Rightarrow> MarchWorker \<Rightarrow> close_at \<Rightarrow> bool" where
  "closes_to R s g w c \<longleftrightarrow> (\<exists>w'. (march_step R)\<^sup>*\<^sup>* (w, s, g) (w', s, g) \<and> mwClose w' = c \<and> length (matchPools w') = length (matchPools w))"

lemma closes_to_refl: "mwClose w = c \<Longrightarrow> closes_to R s g w c"
  by (auto simp: closes_to_def)

lemma closes_to_step:
  assumes "march_step R (w, s, g) (v, s, g)" "length (matchPools v) = length (matchPools w)" "closes_to R s g v c"
  shows "closes_to R s g w c"
  using assms by (auto simp: closes_to_def intro: converse_rtranclp_into_rtranclp)

lemma close_wait:
  fixes s :: 'r and g :: 'g
  assumes "orderly w" "mwClose w = CloseWait i" "\<And>v. orderly v \<Longrightarrow> length (matchPools v) = length (matchPools w) \<Longrightarrow> mwClose v = CloseStop (i + 1) \<Longrightarrow> closes_to R s g v c"
  shows "closes_to R s g w c"
proof -
  have fin: "closes_to R s g v c" if v: "orderly v" "mwClose v = CloseWait i" "prWg (matchPools v ! i) = 0" "length (matchPools v) = length (matchPools w)" for v
  proof -
    have c: "worker_Close (\<lambda>c. True) v = Some (v\<lparr>mwClose := CloseStop (i + 1)\<rparr>)" using v by (simp add: worker_Close_def pool_stopped_def)
    show ?thesis by (rule closes_to_step [OF go_close [OF c]], simp, rule assms(3)) (use worker_Close_orderly [OF v(1) c] v(4) in simp_all)
  qed
  have i: "i < length (matchPools w)" using orderlyD(1) [OF assms(1,2)] .
  then have ok: "pool_ok True (to_start (mwStart w) i) (matchPools w ! i)" using orderly_pool [OF assms(1)] assms(2) by fastforce
  show ?thesis
  proof (cases "prLoop (matchPools w ! i) = Looping")
    case True
    have e: "march_step R (w, s, g) (put_pool i (matchLoop_end (matchPools w ! i)) w, s, g)"
      by (rule go_end [OF i True]) (use ok in \<open>simp add: pool_ok_def\<close>)
    show ?thesis
      by (rule closes_to_step [OF e], simp, rule fin) (use march_step_orderly [OF e] assms(1,2) i ok True in \<open>simp_all add: matchLoop_end_def pool_ok_def\<close>)
  qed (use fin [OF assms(1,2)] ok in \<open>simp add: pool_ok_def\<close>)
qed

lemma close_join:
  assumes "orderly w" "mwClose w = CloseJoin"
  shows "closes_to R s g w CloseDone"
proof -
  have fin: "closes_to R s g v CloseDone" if v: "mwClose v = CloseJoin" "mwWg v = 0" for v
  proof -
    have "\<exists>v'. worker_Close (\<lambda>c. True) v = Some v' \<and> mwClose v' = CloseDone \<and> length (matchPools v') = length (matchPools v)"
      using v by (simp add: worker_Close_def)
    then show ?thesis by (metis closes_to_refl closes_to_step go_close)
  qed
  show ?thesis
  proof (cases "mwProcessor w = Looping")
    case True
    have e: "march_step R (w, s, g) (processMatchResults_end w, s, g)"
      by (rule go_processor_end [OF True]) (use orderlyD(4) [OF assms(1)] assms(2) in simp)
    show ?thesis
      by (rule closes_to_step [OF e], simp add: processMatchResults_end_def, rule fin)
        (use orderlyD(3) [OF assms(1)] assms(2) True in \<open>simp_all add: processMatchResults_end_def\<close>)
  qed (use fin [of w] orderlyD(3) [OF assms(1)] assms(2) in simp)
qed

lemma close_from_stop:
  assumes "orderly w" "mwClose w = CloseStop i"
  shows "closes_to R s g w CloseDone"
  using assms
proof (induction "length (matchPools w) - i" arbitrary: w i)
  case 0
  obtain v where v: "worker_Close (\<lambda>c. True) w = Some v" "mwClose v = CloseWorker" "length (matchPools v) = length (matchPools w)"
    using 0 by (simp add: worker_Close_def)
  have o: "orderly v" using worker_Close_orderly [OF 0(2) v(1)] .
  obtain u where u: "worker_Close (\<lambda>c. True) v = Some u" "mwClose u = CloseJoin" "length (matchPools u) = length (matchPools v)"
    using v(2) orderlyD(4) [OF o] by (simp add: worker_Close_def)
  show ?case
    by (rule closes_to_step [OF go_close [OF v(1)] v(3)], rule closes_to_step [OF go_close [OF u(1)] u(3)], rule close_join [OF worker_Close_orderly [OF o u(1)] u(2)])
next
  case (Suc n)
  obtain v where v: "worker_Close (\<lambda>c. True) w = Some v" using worker_Close_no_panic [OF Suc.prems(1)] by blast
  have l: "mwClose v = CloseWait i" "length (matchPools v) = length (matchPools w)"
    using v Suc.prems(2) Suc.hyps(2) by (auto simp: worker_Close_def bind_eq_Some_conv split: if_split_asm)
  have "closes_to R s g v CloseDone"
    by (rule close_wait [OF worker_Close_orderly [OF Suc.prems(1) v] l(1)], rule Suc.hyps(1)) (use Suc.hyps(2) l in simp_all)
  then show ?case by (rule closes_to_step [OF go_close [OF v] l(2)])
qed

lemma close_completes:
  assumes "orderly w"
  shows "closes_to R s g w CloseDone"
proof -
  obtain v where v: "worker_Close (\<lambda>c. True) w = Some v" using worker_Close_no_panic [OF assms] by blast
  note o = worker_Close_orderly [OF assms v]
  show ?thesis
  proof (cases "mwClose w")
    case CloseIdle
    then have "mwClose v = CloseStop 0" "length (matchPools v) = length (matchPools w)" using v by (auto simp: worker_Close_def)
    then show ?thesis by - (rule closes_to_step [OF go_close [OF v]], assumption, rule close_from_stop [OF o])
  next
    case (CloseWait i)
    then show ?thesis by (rule close_wait [OF assms]) (rule close_from_stop)
  next
    case CloseWorker
    then have "mwClose v = CloseJoin" "length (matchPools v) = length (matchPools w)" using v by (auto simp: worker_Close_def split: if_split_asm)
    then show ?thesis by - (rule closes_to_step [OF go_close [OF v]], assumption, rule close_join [OF o])
  qed (use assms in \<open>simp_all add: close_from_stop close_join closes_to_refl\<close>)
qed

section \<open>Nothing runs after Close\<close>

text \<open>Everything was started and every goroutine has come to its loop.\<close>

definition entered :: "MarchWorker \<Rightarrow> bool" where
  "entered w \<longleftrightarrow> mwStart w = StartDone \<and> mwProcessor w \<in> {Looping, Ended} \<and> (\<forall>i < length (matchPools w). prLoop (matchPools w ! i) \<in> {Looping, Ended})"

definition ending :: "MarchWorker \<Rightarrow> bool" where
  "ending w \<longleftrightarrow> orderly w \<and> entered w \<and> (mwClose w = CloseDone \<longrightarrow> mwProcessor w = Ended)
     \<and> (\<forall>i < length (matchPools w). i < waited (mwClose w) (length (matchPools w)) \<longrightarrow> prLoop (matchPools w ! i) = Ended)"

lemma worker_Close_entered:
  assumes "ending w" "worker_Close closes w = Some w'"
  shows "ending w'"
proof -
  have o: "orderly w" and e: "entered w" using assms(1) by (simp_all add: ending_def)
  have wg: "prWg (matchPools w ! i) = 0 \<Longrightarrow> i < length (matchPools w) \<Longrightarrow> prLoop (matchPools w ! i) = Ended" for i
    using orderly_pool [OF o, of i] e by (auto simp: pool_ok_def entered_def)
  have p: "mwWg w = 0 \<Longrightarrow> mwProcessor w = Ended" using orderlyD(3) [OF o] e by (auto simp: entered_def)
  show ?thesis
  proof (cases "mwClose w")
    case (CloseStop i)
    then show ?thesis using assms worker_Close_orderly [OF o assms(2)] orderlyD(2) [OF o CloseStop]
      by (auto simp: ending_def entered_def worker_Close_def pool_Stop_def bind_eq_Some_conv split: if_split_asm)
  next
    case (CloseWait i)
    then show ?thesis using assms worker_Close_orderly [OF o assms(2)] wg
      by (auto simp: ending_def entered_def worker_Close_def pool_stopped_def less_Suc_eq split: if_split_asm)
  qed (use assms worker_Close_orderly [OF o assms(2)] p in \<open>auto simp: ending_def entered_def worker_Close_def split: if_split_asm\<close>)
qed

fun march_ending :: "MarchWorker \<times> 'r \<times> 'g \<Rightarrow> bool" where
  "march_ending (w, s, g) = ending w"

lemma march_step_ending: "march_step R x y \<Longrightarrow> march_ending x \<Longrightarrow> march_ending y"
proof (induction rule: march_step.induct)
  case (go_end i w s g)
  then show ?case using march_step_orderly [OF march_step.go_end [of i w, OF go_end(1-3)], of s g] by (auto simp: ending_def entered_def matchLoop_end_def)
next
  case (go_result w isReady dialable rpc g w' g' s)
  then show ?case using processMatchResults_keeps [OF go_result(2)] march_step_orderly [OF march_step.go_result [OF go_result(1,2)], of s]
    by (auto simp: ending_def entered_def)
next
  case (go_processor_end w s g)
  then show ?case using march_step_orderly [OF march_step.go_processor_end [of w, OF go_processor_end(1,2)], of s g]
    by (auto simp: ending_def entered_def processMatchResults_end_def)
next
  case (go_close closes w w' s g)
  then show ?case using worker_Close_entered by auto
next
  case (go_tick i w mes pick s s' ch g)
  then show ?case by (auto simp: ending_def entered_def orderly_def)
qed (auto simp: ending_def entered_def worker_Start_def)

interpretation closing: invariant_system "march_step R" march_ending
  by unfold_locales (rule march_step_ending)

lemma closed_is_still:
  assumes "march_step R x y" "x = (w, s, g)" "ending w" "mwClose w = CloseDone"
  shows "y = x"
proof -
  have f: "mwStart w = StartDone" "mwProcessor w = Ended" "\<forall>i < length (matchPools w). prLoop (matchPools w ! i) = Ended"
    using assms(3,4) by (auto simp: ending_def entered_def)
  from assms(1) [unfolded assms(2)] show ?thesis
    unfolding assms(2) by cases (use f assms(4) in \<open>auto simp: worker_Start_def worker_Close_def\<close>)
qed

section \<open>Properties\<close>

lemma orderly_new: "orderly (NewMarchWorker nodeID (map pool_run cfgs))"
  by (rule orderlyI) (simp_all add: NewMarchWorker_def pool_run_def pool_ok_def)

text \<open>C36: the end of the march node.  In every state it can reach, with start, loops, results and end interleaved in any way, the next section of \<open>Close\<close>
  does not panic, and \<open>Close\<close> can come to its end without touching the queues or the game nodes again.  If every goroutine had come to
  its loop when \<open>Close\<close> was called, then after it has returned nothing happens any more.\<close>

theorem march_shutdown:
  assumes "(march_step R)\<^sup>*\<^sup>* (NewMarchWorker nodeID (map pool_run cfgs), s0, g0) (w, s, g)"
  shows "worker_Close closes w \<noteq> None
     \<and> (\<exists>w'. (march_step R)\<^sup>*\<^sup>* (w, s, g) (w', s, g) \<and> mwClose w' = CloseDone)
     \<and> (\<forall>w1 s1 g1 y. entered w \<and> mwClose w = CloseIdle \<and> (march_step R)\<^sup>*\<^sup>* (w, s, g) (w1, s1, g1) \<and> mwClose w1 = CloseDone
          \<and> march_step R (w1, s1, g1) y \<longrightarrow> y = (w1, s1, g1))"
proof -
  have o: "orderly w" using march.reach_keeps [OF assms] orderly_new by simp
  have "y = (w1, s1, g1)" if "entered w" "mwClose w = CloseIdle" "(march_step R)\<^sup>*\<^sup>* (w, s, g) (w1, s1, g1)" "mwClose w1 = CloseDone"
      "march_step R (w1, s1, g1) y" for w1 s1 g1 y
  proof (rule closed_is_still [OF that(5) refl _ that(4)])
    show "ending w1" using closing.reach_keeps [OF that(3)] that(1,2) o by (simp add: ending_def)
  qed
  then show ?thesis using worker_Close_no_panic [OF o] close_completes [OF o, of R s g] by (auto simp: closes_to_def)
qed

text \<open>Runs of \<open>Start\<close> alone.\<close>

lemma start_run: "(march_step R)\<^sup>*\<^sup>* (w, s, g) (((\<lambda>w. the (worker_Start True w)) ^^ n) w, s, g)"
proof (induction n)
  case (Suc n)
  have "worker_Start True v = Some (the (worker_Start True v))" for v by (cases "mwStart v") (simp_all add: worker_Start_def nats_Run_def)
  from go_start [OF this] Suc show ?case by (metis (no_types, lifting) comp_apply funpow.simps(2) rtranclp.rtrancl_into_rtrancl)
qed simp

definition casual_cfg :: MarchPoolConfig where
  "casual_cfg = \<lparr>cfgPoolID = ''classic:casual4'', cfgStrategy = ''classic:poll'', cfgBatchSize = 30, cfgInternal = 3000\<rparr>"

text \<open>C36 on a node with one pool whose \<open>Start\<close> has returned.\<close>

theorem march_shutdown_witness:
  "\<exists>w w'. (march_step mem_redis)\<^sup>*\<^sup>* (NewMarchWorker ''m'' (map pool_run [casual_cfg]), empty_store, ()) (w, empty_store, ()) \<and> mwStart w = StartDone
     \<and> (march_step mem_redis)\<^sup>*\<^sup>* (w, empty_store, ()) (w', empty_store, ()) \<and> mwClose w' = CloseDone"
proof -
  let ?w = "((\<lambda>w. the (worker_Start True w)) ^^ 4) (NewMarchWorker ''m'' (map pool_run [casual_cfg]))"
  have r: "(march_step mem_redis)\<^sup>*\<^sup>* (NewMarchWorker ''m'' (map pool_run [casual_cfg]), empty_store, ()) (?w, empty_store, ())" by (rule start_run)
  have "mwStart ?w = StartDone"
    by (simp add: numeral_eq_Suc worker_Start_def NewMarchWorker_def nats_Run_def pool_Start_def put_pool_def)
  then show ?thesis using march_shutdown [OF r] r by blast
qed

section \<open>Flaws\<close>

text \<open>A loop adds itself to the wait group only when it is scheduled: \<open>Close\<close> may return before it, and the loop then runs in a closed node.\<close>

lemma close_before_loop:
  assumes "mwClose w = CloseIdle" "matchPools w = [pr]" "prWg pr = 0" "\<not> prStopped pr" "\<not> mwStopped w" "mwWg w = 0"
  shows "\<exists>w'. (march_step R)\<^sup>*\<^sup>* (w, s, g) (w', s, g) \<and> mwClose w' = CloseDone \<and> matchPools w' = [pr\<lparr>prStopped := True\<rparr>]"
proof -
  let ?close = "worker_Close (\<lambda>c. True)" and ?w = "w\<lparr>matchPools := [pr\<lparr>prStopped := True\<rparr>]\<rparr>"
  have c1: "?close w = Some (w\<lparr>mwClose := CloseStop 0\<rparr>)" using assms(1) by (simp add: worker_Close_def)
  have c2: "?close (w\<lparr>mwClose := CloseStop 0\<rparr>) = Some (?w\<lparr>mwClose := CloseWait 0\<rparr>)"
    using assms by (simp add: worker_Close_def pool_Stop_def put_pool_def)
  have c3: "?close (?w\<lparr>mwClose := CloseWait 0\<rparr>) = Some (?w\<lparr>mwClose := CloseStop 1\<rparr>)" using assms by (simp add: worker_Close_def pool_stopped_def)
  have c4: "?close (?w\<lparr>mwClose := CloseStop 1\<rparr>) = Some (?w\<lparr>mwClose := CloseWorker\<rparr>)" by (simp add: worker_Close_def)
  have c5: "?close (?w\<lparr>mwClose := CloseWorker\<rparr>) = Some (?w\<lparr>mwStopped := True, mwClose := CloseJoin\<rparr>)" using assms by (simp add: worker_Close_def)
  obtain w' where c6: "?close (?w\<lparr>mwStopped := True, mwClose := CloseJoin\<rparr>) = Some w'" and w': "mwClose w' = CloseDone" "matchPools w' = [pr\<lparr>prStopped := True\<rparr>]"
    using assms(6) by (simp add: worker_Close_def)
  note go = go_close [where R = R and s = s and g = g]
  note next_step = converse_rtranclp_into_rtranclp [where r = "march_step R"]
  have "(march_step R)\<^sup>*\<^sup>* (w, s, g) (w', s, g)"
    by (rule next_step [OF go [OF c1]], rule next_step [OF go [OF c2]],
        rule next_step [OF go [OF c3]], rule next_step [OF go [OF c4]],
        rule next_step [OF go [OF c5]], rule r_into_rtranclp [where r = "march_step R", OF go [OF c6]])
  then show ?thesis using w' by blast
qed

lemma late_loop:
  "\<exists>w. (march_step R)\<^sup>*\<^sup>* (NewMarchWorker ''m'' (map pool_run [casual_cfg]), s, g) (w, s, g) \<and> mwClose w = CloseDone \<and> prLoop (matchPools w ! 0) = Looping"
proof -
  let ?w1 = "((\<lambda>w. the (worker_Start True w)) ^^ 3) (NewMarchWorker ''m'' (map pool_run [casual_cfg]))" and ?pr = "(pool_run casual_cfg)\<lparr>prLoop := Spawned\<rparr>"
  have "mwClose ?w1 = CloseIdle \<and> matchPools ?w1 = [?pr] \<and> \<not> mwStopped ?w1 \<and> mwWg ?w1 = 0"
    by (simp add: numeral_eq_Suc worker_Start_def NewMarchWorker_def nats_Run_def pool_Start_def put_pool_def)
  then obtain w where w: "(march_step R)\<^sup>*\<^sup>* (?w1, s, g) (w, s, g)" "mwClose w = CloseDone" "matchPools w = [?pr\<lparr>prStopped := True\<rparr>]"
    using close_before_loop [of ?w1 ?pr R s g] by (auto simp: pool_run_def)
  obtain pr where pr: "matchLoop_enter (matchPools w ! 0) = Some pr" "prLoop pr = Looping"
    using w(3) by (simp add: matchLoop_enter_def pool_run_def casual_cfg_def)
  have e: "march_step R (w, s, g) (put_pool 0 pr w, s, g)" by (rule go_enter [OF _ _ pr(1)]) (use w(3) in simp_all)
  show ?thesis
    using rtranclp.rtrancl_into_rtrancl [OF rtranclp_trans [OF start_run w(1)] e] w(2,3) pr(2) by (intro exI [of _ "put_pool 0 pr w"]) simp
qed

text \<open>A pool without an interval ends the node.\<close>

lemma no_interval_panics: "cfgInternal cfg \<le> 0 \<Longrightarrow> matchLoop_enter (pool_Start (pool_run cfg)) = None"
  by (simp add: matchLoop_enter_def pool_Start_def pool_run_def Let_def)

end
