(* ===== verification/Registry.thy ===== *)
theory Registry
  imports Discovery Rooms
begin

text \<open>
  How a node announces itself and its load: \<^verbatim>\<open>game/infrastructure/discovery/registry.go\<close>, \<^verbatim>\<open>game/runtime/load_info.go\<close> and
  \<^verbatim>\<open>game/runtime/monitor.go\<close>.

  \<^item> etcd is a parameter: the record \<open>Etcd\<close> of the client's calls on a state of any type.  The lemmas know it by the locale
    \<open>etcd\<close>: what its watchers see.
  \<^item> The JSON encoder of server entries is the parameter \<open>marshal\<close>.  The statistics of the operating system are parameters; loads and
    percentages, finite \<open>float64\<close> values, are rationals.
\<close>

section \<open>Load\<close>

record LoadInfo =
  GameCount :: int
  PlayerCount :: int
  CPUUsage :: rat
  MemUsage :: rat

definition CalculateLoad :: "LoadInfo \<Rightarrow> rat" where
  "CalculateLoad li =
     (let normalizedGameCount = of_int (GameCount li) / 100;
          normalizedGameCount = (if 1 < normalizedGameCount then 1 else normalizedGameCount);
          normalizedPlayerCount = of_int (PlayerCount li) / 100;
          normalizedPlayerCount = (if 1 < normalizedPlayerCount then 1 else normalizedPlayerCount)
      in CPUUsage li * (3 / 10) + MemUsage li * (2 / 10) + normalizedGameCount * 100 * (25 / 100) + normalizedPlayerCount * 100 * (25 / 100))"

text \<open>\<open>percentages\<close> is the reply of the statistics library, \<open>None\<close> for an error.\<close>

definition getCPUUsage :: "rat list option \<Rightarrow> rat" where
  "getCPUUsage percentages = (case percentages of
     None \<Rightarrow> 0
   | Some [] \<Rightarrow> 0
   | Some (c # cs) \<Rightarrow> let c = (if 100 < c then 100 else c) in if c < 0 then 0 else c)"

definition getMemoryUsage :: "nat \<Rightarrow> rat" where
  "getMemoryUsage sys =
     (let memUsage = of_nat sys / of_nat (8 * 1024 * 1024 * 1024) * 100;
          memUsage = (if 100 < memUsage then 100 else memUsage)
      in if memUsage < 0 then 0 else memUsage)"

definition collectLoadInfo :: "rat list option \<Rightarrow> nat \<Rightarrow> 'e RoomManager \<Rightarrow> LoadInfo" where
  "collectLoadInfo percentages sys rm =
     \<lparr>GameCount = fst (GetStats rm), PlayerCount = snd (GetStats rm), CPUUsage = getCPUUsage percentages, MemUsage = getMemoryUsage sys\<rparr>"

section \<open>The registry\<close>

record 'e Etcd =
  Grant :: "int \<Rightarrow> 'e \<Rightarrow> nat option \<times> 'e"
  Put :: "string \<Rightarrow> string \<Rightarrow> nat \<Rightarrow> 'e \<Rightarrow> bool \<times> 'e"
  KeepAlive :: "nat \<Rightarrow> 'e \<Rightarrow> bool \<times> 'e"
  Delete :: "string \<Rightarrow> 'e \<Rightarrow> bool \<times> 'e"
  Revoke :: "nat \<Rightarrow> 'e \<Rightarrow> bool \<times> 'e"

text \<open>\<open>keepAliveCh\<close> says whether the channel of lease replies is there; \<open>closeCh\<close> is nil, open or closed.\<close>

record Registry =
  leaseID :: nat
  keepAliveCh :: bool
  regInfo :: Server
  closeCh :: "bool option"

definition grantLease :: "'e Etcd \<Rightarrow> int \<Rightarrow> Registry \<Rightarrow> 'e \<Rightarrow> bool \<times> Registry \<times> 'e" where
  "grantLease E ttl r e = (case Grant E ttl e of
     (None, e) \<Rightarrow> (False, r, e)
   | (Some l, e) \<Rightarrow> (True, r\<lparr>leaseID := l\<rparr>, e))"

definition bindLease :: "'e Etcd \<Rightarrow> string \<Rightarrow> string \<Rightarrow> Registry \<Rightarrow> 'e \<Rightarrow> bool \<times> 'e" where
  "bindLease E key val r e = Put E key val (leaseID r) e"

definition doRegister :: "'e Etcd \<Rightarrow> (Server \<Rightarrow> string) \<Rightarrow> Registry \<Rightarrow> 'e \<Rightarrow> bool \<times> Registry \<times> 'e" where
  "doRegister E marshal r e = (case grantLease E (Ttl (regInfo r)) r e of
     (False, r, e) \<Rightarrow> (False, r, e)
   | (True, r, e) \<Rightarrow> (case bindLease E (buildKey (regInfo r)) (marshal (regInfo r)) r e of
       (False, e) \<Rightarrow> (False, r, e)
     | (True, e) \<Rightarrow> (case KeepAlive E (leaseID r) e of
         (False, e) \<Rightarrow> (False, r\<lparr>keepAliveCh := False\<rparr>, e)
       | (True, e) \<Rightarrow> (True, r\<lparr>keepAliveCh := True\<rparr>, e))))"

text \<open>\<open>Register\<close>; \<open>dialed\<close> says whether the client could be made.  The ticker of the goroutine it starts panics when half the time to live is not positive.\<close>

definition NewRegistry :: Registry where
  "NewRegistry = \<lparr>leaseID = 0, keepAliveCh = False, regInfo = zero_server, closeCh = None\<rparr>"

definition reg_Register :: "'e Etcd \<Rightarrow> (Server \<Rightarrow> string) \<Rightarrow> bool \<Rightarrow> Server \<Rightarrow> string \<Rightarrow> Registry \<Rightarrow> 'e \<Rightarrow> (bool \<times> Registry \<times> 'e) option" where
  "reg_Register E marshal dialed conf nodeID r e =
     (if nodeID = [] then Some (False, r, e)
      else if \<not> dialed then Some (False, r\<lparr>regInfo := conf\<lparr>serverID := nodeID, Load := 0\<rparr>\<rparr>, e)
      else case doRegister E marshal (r\<lparr>regInfo := conf\<lparr>serverID := nodeID, Load := 0\<rparr>\<rparr>) e of
             (False, r, e) \<Rightarrow> Some (False, r, e)
           | (True, r, e) \<Rightarrow> if Ttl (regInfo r) sdiv 2 \<le> 0 then None else Some (True, r\<lparr>closeCh := Some False\<rparr>, e))"

text \<open>The cases of \<open>watch\<close>: the channel of lease replies ends, a tick, the end of the node.\<close>

definition keepAlive_lost :: "'e Etcd \<Rightarrow> (Server \<Rightarrow> string) \<Rightarrow> Registry \<Rightarrow> 'e \<Rightarrow> Registry \<times> 'e" where
  "keepAlive_lost E marshal r e = snd (doRegister E marshal (r\<lparr>keepAliveCh := False\<rparr>) e)"

definition watch_tick :: "'e Etcd \<Rightarrow> (Server \<Rightarrow> string) \<Rightarrow> Registry \<Rightarrow> 'e \<Rightarrow> Registry \<times> 'e" where
  "watch_tick E marshal r e = (if keepAliveCh r then (r, e) else snd (doRegister E marshal r e))"

definition unregister :: "'e Etcd \<Rightarrow> Registry \<Rightarrow> 'e \<Rightarrow> bool \<times> 'e" where
  "unregister E r e = Delete E (buildKey (regInfo r)) e"

definition watch_close :: "'e Etcd \<Rightarrow> Registry \<Rightarrow> 'e \<Rightarrow> 'e" where
  "watch_close E r e = snd (Revoke E (leaseID r) (snd (unregister E r e)))"

definition UpdateLoad :: "'e Etcd \<Rightarrow> (Server \<Rightarrow> string) \<Rightarrow> rat \<Rightarrow> Registry \<Rightarrow> 'e \<Rightarrow> bool \<times> Registry \<times> 'e" where
  "UpdateLoad E marshal load r e =
     (let r = r\<lparr>regInfo := (regInfo r)\<lparr>Load := load\<rparr>\<rparr>
      in case Put E (buildKey (regInfo r)) (marshal (regInfo r)) (leaseID r) e of (ok, e) \<Rightarrow> (ok, r, e))"

definition reportLoad ::
    "'e Etcd \<Rightarrow> (Server \<Rightarrow> string) \<Rightarrow> rat list option \<Rightarrow> nat \<Rightarrow> 'g RoomManager \<Rightarrow> Registry \<Rightarrow> 'e \<Rightarrow> bool \<times> Registry \<times> 'e" where
  "reportLoad E marshal percentages sys rm = UpdateLoad E marshal (CalculateLoad (collectLoadInfo percentages sys rm))"

text \<open>\<open>Close\<close>: closing a nil or a closed channel panics.\<close>

definition reg_Close :: "Registry \<Rightarrow> Registry option" where
  "reg_Close r = (if closeCh r = Some False then Some (r\<lparr>closeCh := Some True\<rparr>) else None)"

section \<open>Bounds of the load\<close>

lemma usage_bounds: "0 \<le> getCPUUsage p \<and> getCPUUsage p \<le> 100" "0 \<le> getMemoryUsage n \<and> getMemoryUsage n \<le> 100"
  by (auto simp: getCPUUsage_def getMemoryUsage_def Let_def split: option.split list.split)

lemma CalculateLoad_bounds:
  assumes "0 \<le> GameCount li" "0 \<le> PlayerCount li" "0 \<le> CPUUsage li \<and> CPUUsage li \<le> 100" "0 \<le> MemUsage li \<and> MemUsage li \<le> 100"
  shows "0 \<le> CalculateLoad li \<and> CalculateLoad li \<le> 100"
    and "0 < GameCount li \<or> 0 < PlayerCount li \<or> 0 < CPUUsage li \<or> 0 < MemUsage li \<Longrightarrow> 0 < CalculateLoad li"
proof -
  define f :: "int \<Rightarrow> rat" where "f n = (if 1 < of_int n / (100 :: rat) then 1 else of_int n / 100) * 100 * (25 / 100)" for n
  have f: "0 \<le> f n" "f n \<le> 25" "0 < n \<Longrightarrow> 0 < f n" if "0 \<le> n" for n using that by (auto simp: f_def)
  have "CalculateLoad li = CPUUsage li * (3 / 10) + MemUsage li * (2 / 10) + f (GameCount li) + f (PlayerCount li)"
    by (simp add: CalculateLoad_def f_def Let_def)
  then show "0 \<le> CalculateLoad li \<and> CalculateLoad li \<le> 100"
    "0 < GameCount li \<or> 0 < PlayerCount li \<or> 0 < CPUUsage li \<or> 0 < MemUsage li \<Longrightarrow> 0 < CalculateLoad li"
    using f [OF assms(1)] f [OF assms(2)] assms(3,4) by (auto simp: add_pos_nonneg)
qed

section \<open>What watchers see\<close>

text \<open>The directory a watcher has built.\<close>

definition seen :: "('e \<Rightarrow> watch_event list) \<Rightarrow> (string \<Rightarrow> Server option) \<Rightarrow> 'e \<Rightarrow> string \<rightharpoonup> Server" where
  "seen history parse e = fold (apply_event parse) (history e) Map.empty"

text \<open>What the goroutines of a registered node do until it ends: report the load, lose the lease replies, tick.\<close>

datatype reg_op = Report rat | ReplyLost | Tick

fun reg_step :: "'e Etcd \<Rightarrow> (Server \<Rightarrow> string) \<Rightarrow> reg_op \<Rightarrow> Registry \<times> 'e \<Rightarrow> Registry \<times> 'e" where
  "reg_step E marshal (Report load) (r, e) = snd (UpdateLoad E marshal load r e)"
| "reg_step E marshal ReplyLost (r, e) = keepAlive_lost E marshal r e"
| "reg_step E marshal Tick (r, e) = watch_tick E marshal r e"

text \<open>A node is visible when the directory has its entry up to the load and its key is stored.\<close>

definition visible :: "('e \<Rightarrow> watch_event list) \<Rightarrow> ('e \<Rightarrow> string set) \<Rightarrow> (string \<Rightarrow> Server option) \<Rightarrow> Server \<Rightarrow> Registry \<times> 'e \<Rightarrow> bool" where
  "visible history keys parse s re \<longleftrightarrow> (\<exists>x. seen history parse (snd re) (Addr s) = Some (s\<lparr>Load := x\<rparr>)) \<and> (\<exists>x. regInfo (fst re) = s\<lparr>Load := x\<rparr>)
     \<and> buildKey s \<in> keys (snd re)"

lemma buildKey_load [simp]: "buildKey (s\<lparr>Load := x\<rparr>) = buildKey s"
  by (simp add: buildKey_def)

text \<open>The contract of etcd towards a watcher: \<open>history\<close> is the sequence of events it has delivered.  A successful put delivers the value,
  a successful deletion the key unless there was none, revoking a lease only deletions; nothing else delivers anything.\<close>

locale etcd =
  fixes E :: "'e Etcd" and history :: "'e \<Rightarrow> watch_event list" and keys :: "'e \<Rightarrow> string set"
  assumes put_event: "Put E k v l e = (True, e') \<Longrightarrow> history e' = history e @ [EventPut v] \<and> keys e' = insert k (keys e)"
    and put_failed: "Put E k v l e = (False, e') \<Longrightarrow> history e' = history e \<and> keys e' = keys e"
    and grant_quiet: "Grant E t e = (x, e') \<Longrightarrow> history e' = history e \<and> keys e' = keys e"
    and keepalive_quiet: "KeepAlive E l e = (y, e') \<Longrightarrow> history e' = history e \<and> keys e' = keys e"
    and delete_event: "Delete E k e = (True, e') \<Longrightarrow> keys e' = keys e - {k} \<and> history e' = history e @ (if k \<in> keys e then [EventDelete k] else [])"
    and revoke_deletes: "Revoke E l e = (z, e') \<Longrightarrow> \<exists>ks. set ks \<subseteq> keys e \<and> history e' = history e @ map EventDelete ks \<and> keys e' = keys e - set ks"
begin

lemma register_seen:
  assumes "doRegister E marshal r e = (True, r', e')" "parse (marshal (regInfo r)) = Some (regInfo r)"
  shows "seen history parse e' = (seen history parse e)(Addr (regInfo r) \<mapsto> regInfo r) \<and> regInfo r' = regInfo r \<and> keepAliveCh r' \<and> buildKey (regInfo r) \<in> keys e'"
proof -
  obtain l e1 where g: "Grant E (Ttl (regInfo r)) e = (Some l, e1)"
    using assms(1) by (auto simp: doRegister_def grantLease_def split: prod.splits option.splits bool.splits)
  obtain e2 where p: "Put E (buildKey (regInfo r)) (marshal (regInfo r)) l e1 = (True, e2)"
    using assms(1) g by (auto simp: doRegister_def grantLease_def bindLease_def split: prod.splits bool.splits)
  have k: "KeepAlive E l e2 = (True, e')" "r' = r\<lparr>leaseID := l, keepAliveCh := True\<rparr>"
    using assms(1) g p by (auto simp: doRegister_def grantLease_def bindLease_def split: prod.splits bool.splits)
  show ?thesis using grant_quiet [OF g] put_event [OF p] keepalive_quiet [OF k(1)] k(2) assms(2) by (simp add: seen_def)
qed

lemma update_seen:
  assumes "UpdateLoad E marshal load r e = (True, r', e')" "parse (marshal ((regInfo r)\<lparr>Load := load\<rparr>)) = Some ((regInfo r)\<lparr>Load := load\<rparr>)"
  shows "seen history parse e' = (seen history parse e)(Addr (regInfo r) \<mapsto> (regInfo r)\<lparr>Load := load\<rparr>) \<and> regInfo r' = (regInfo r)\<lparr>Load := load\<rparr>"
  using assms put_event [of "buildKey ((regInfo r)\<lparr>Load := load\<rparr>)" "marshal ((regInfo r)\<lparr>Load := load\<rparr>)" "leaseID r" e e']
  by (auto simp: UpdateLoad_def seen_def split: prod.splits)

text \<open>Deletions never bring a server back.\<close>

lemma deletes_keep_absent: "m a = None \<Longrightarrow> fold (apply_event parse) (map EventDelete ks) m a = None"
  by (induction ks arbitrary: m) (auto split: option.split)

lemma close_seen:
  assumes "fst (unregister E r e)" "buildKey (regInfo r) \<in> keys e"
    and "CHR ''/'' \<notin> set (Domain (regInfo r))" "CHR ''/'' \<notin> set (Version (regInfo r))" "CHR ''/'' \<notin> set (Addr (regInfo r))"
  shows "seen history parse (watch_close E r e) (Addr (regInfo r)) = None"
proof -
  let ?k = "buildKey (regInfo r)"
  obtain e1 where d: "Delete E ?k e = (True, e1)" using assms(1) by (cases "Delete E ?k e") (auto simp: unregister_def)
  obtain x e2 where v: "Revoke E (leaseID r) e1 = (x, e2)" by fastforce
  obtain ks where "history e2 = history e1 @ map EventDelete ks" using revoke_deletes [OF v] by blast
  moreover have "seen history parse e1 (Addr (regInfo r)) = None"
    using delete_event [OF d] assms(2) ParseKey_buildKey [OF assms(3-5)] by (simp add: seen_def)
  ultimately show ?thesis using d v deletes_keep_absent [of "seen history parse e1" "Addr (regInfo r)" parse ks]
    by (simp add: watch_close_def unregister_def seen_def)
qed

text \<open>Whatever fails in it, registering either delivers nothing or delivers the node's entry.\<close>

lemma doRegister_cases:
  assumes "doRegister E marshal r e = (ok, r', e')"
  shows "regInfo r' = regInfo r \<and> (history e' = history e \<and> keys e' = keys e
     \<or> history e' = history e @ [EventPut (marshal (regInfo r))] \<and> keys e' = insert (buildKey (regInfo r)) (keys e))"
proof (cases "Grant E (Ttl (regInfo r)) e")
  case g: (Pair x e1)
  show ?thesis
  proof (cases x)
    case None
    with g assms grant_quiet [OF g] show ?thesis by (auto simp: doRegister_def grantLease_def)
  next
    case (Some l)
    obtain p e2 where p: "Put E (buildKey (regInfo r)) (marshal (regInfo r)) l e1 = (p, e2)" by fastforce
    obtain a e3 where a: "KeepAlive E l e2 = (a, e3)" by fastforce
    show ?thesis using assms g Some p a grant_quiet [OF g] keepalive_quiet [OF a] put_event [of _ _ l e1 e2] put_failed [of _ _ l e1 e2]
      by (cases p; cases a) (auto simp: doRegister_def grantLease_def bindLease_def)
  qed
qed

text \<open>A visible node stays visible.\<close>

lemma put_visible:
  assumes "visible history keys parse s (r, e)" "regInfo r' = s\<lparr>Load := x\<rparr>" "\<And>x. parse (marshal (s\<lparr>Load := x\<rparr>)) = Some (s\<lparr>Load := x\<rparr>)"
    and "history e' = history e \<and> keys e' = keys e
       \<or> history e' = history e @ [EventPut (marshal (regInfo r'))] \<and> keys e' = insert (buildKey (regInfo r')) (keys e)"
  shows "visible history keys parse s (r', e')"
  using assms by (auto simp: visible_def seen_def)

lemma step_visible:
  assumes "visible history keys parse s re" "\<And>x. parse (marshal (s\<lparr>Load := x\<rparr>)) = Some (s\<lparr>Load := x\<rparr>)"
  shows "visible history keys parse s (reg_step E marshal op re)"
proof -
  obtain r e where re: "re = (r, e)" by fastforce
  obtain x where x: "regInfo r = s\<lparr>Load := x\<rparr>" using assms(1) re by (auto simp: visible_def)
  have reg: "visible history keys parse s (snd (doRegister E marshal r' e))" if "regInfo r' = regInfo r" for r'
  proof (cases "doRegister E marshal r' e")
    case (fields ok r2 e2)
    show ?thesis using put_visible [of parse s r e r2 x marshal e2] doRegister_cases [OF fields] assms re x that fields by auto
  qed
  show ?thesis
  proof (cases op)
    case (Report load)
    obtain p e2 where p: "Put E (buildKey ((regInfo r)\<lparr>Load := load\<rparr>)) (marshal ((regInfo r)\<lparr>Load := load\<rparr>)) (leaseID r) e = (p, e2)" by fastforce
    show ?thesis using put_visible [of parse s r e "r\<lparr>regInfo := (regInfo r)\<lparr>Load := load\<rparr>\<rparr>" load marshal e2] assms re x p Report
        put_event [of _ _ "leaseID r" e e2] put_failed [of _ _ "leaseID r" e e2]
      by (cases p) (auto simp: UpdateLoad_def)
  qed (use reg [of r] reg [of "r\<lparr>keepAliveCh := False\<rparr>"] assms(1) re in \<open>auto simp: keepAlive_lost_def watch_tick_def\<close>)
qed

lemma steps_visible:
  assumes "visible history keys parse s re" "\<And>x. parse (marshal (s\<lparr>Load := x\<rparr>)) = Some (s\<lparr>Load := x\<rparr>)"
  shows "visible history keys parse s (fold (reg_step E marshal) ops re)"
  using assms by (induction ops arbitrary: re) (auto simp: step_visible)

end

lemma Register_success:
  assumes "reg_Register E marshal dialed conf nodeID r e = Some (True, r', e')"
  obtains r'' where "doRegister E marshal (r\<lparr>regInfo := conf\<lparr>serverID := nodeID, Load := 0\<rparr>\<rparr>) e = (True, r'', e')" "r' = r''\<lparr>closeCh := Some False\<rparr>"
  using assms by (auto simp: reg_Register_def split: if_splits prod.splits bool.splits)

context etcd
begin

lemma Register_visible:
  assumes "reg_Register E marshal dialed conf nodeID r e = Some (True, r', e')" "parse (marshal (conf\<lparr>serverID := nodeID, Load := 0\<rparr>)) = Some (conf\<lparr>serverID := nodeID, Load := 0\<rparr>)"
  shows "visible history keys parse (conf\<lparr>serverID := nodeID\<rparr>) (r', e')"
proof -
  obtain r0 where r0: "doRegister E marshal (r\<lparr>regInfo := conf\<lparr>serverID := nodeID, Load := 0\<rparr>\<rparr>) e = (True, r0, e')" "r' = r0\<lparr>closeCh := Some False\<rparr>"
    by (rule Register_success [OF assms(1)])
  show ?thesis using register_seen [OF r0(1), of parse] r0(2) assms(2) by (auto simp: visible_def intro!: exI [of _ 0])
qed

end

section \<open>An etcd in memory\<close>

text \<open>Keys with their values and leases, the leases granted, the events delivered.  A put needs a lease that is granted; revoking
  a lease deletes the keys bound to it.\<close>

record mem_etcd =
  meStore :: "(string \<times> string \<times> nat) list"
  meLeases :: "nat list"
  meHistory :: "watch_event list"

definition mem_keys :: "mem_etcd \<Rightarrow> string set" where
  "mem_keys e = fst ` set (meStore e)"

definition mem_remove :: "string list \<Rightarrow> mem_etcd \<Rightarrow> mem_etcd" where
  "mem_remove ks e = e\<lparr>meStore := filter (\<lambda>kv. fst kv \<notin> set ks) (meStore e), meHistory := meHistory e @ map EventDelete ks\<rparr>"

definition memEtcd :: "mem_etcd Etcd" where
  "memEtcd = \<lparr>Grant = (\<lambda>ttl e. if ttl \<le> 0 then (None, e) else (Some (length (meLeases e)), e\<lparr>meLeases := length (meLeases e) # meLeases e\<rparr>)),
     Put = (\<lambda>k v l e. if l \<in> set (meLeases e) then (True, e\<lparr>meStore := (k, v, l) # filter (\<lambda>kv. fst kv \<noteq> k) (meStore e), meHistory := meHistory e @ [EventPut v]\<rparr>)
       else (False, e)),
     KeepAlive = (\<lambda>l e. (True, e)),
     Delete = (\<lambda>k e. (True, if k \<in> fst ` set (meStore e) then mem_remove [k] e else e)),
     Revoke = (\<lambda>l e. (l \<in> set (meLeases e), mem_remove (map fst (filter (\<lambda>(k, v, l'). l' = l) (meStore e))) e\<lparr>meLeases := filter (\<lambda>l'. l' \<noteq> l) (meLeases e)\<rparr>))\<rparr>"

lemma fst_image_other: "fst ` {x \<in> S. fst x \<noteq> k} = fst ` S - {k}"
  by force

interpretation mem_reg: etcd memEtcd meHistory mem_keys
proof unfold_locales
  fix l e z e' assume r: "Revoke memEtcd l e = (z, e')"
  let ?ks = "map fst (filter (\<lambda>(k, v, l'). l' = l) (meStore e))"
  have "set ?ks \<subseteq> mem_keys e \<and> meHistory e' = meHistory e @ map EventDelete ?ks \<and> mem_keys e' = mem_keys e - set ?ks"
    using r by (auto simp: memEtcd_def mem_keys_def mem_remove_def image_iff)
  then show "\<exists>ks. set ks \<subseteq> mem_keys e \<and> meHistory e' = meHistory e @ map EventDelete ks \<and> mem_keys e' = mem_keys e - set ks" by blast
qed (force simp: memEtcd_def mem_keys_def mem_remove_def fst_image_other split: if_splits)+

lemma mem_register:
  assumes "nodeID \<noteq> []" "2 \<le> Ttl conf"
  defines "s \<equiv> conf\<lparr>serverID := nodeID, Load := 0\<rparr>"
  shows "reg_Register memEtcd marshal True conf nodeID NewRegistry \<lparr>meStore = [], meLeases = [], meHistory = []\<rparr>
    = Some (True, \<lparr>leaseID = 0, keepAliveCh = True, regInfo = s, closeCh = Some False\<rparr>,
        \<lparr>meStore = [(buildKey s, marshal s, 0)], meLeases = [0], meHistory = [EventPut (marshal s)]\<rparr>)"
proof -
  have "Ttl s = Ttl conf" "\<not> Ttl conf sdiv 2 \<le> 0" "\<not> Ttl conf \<le> 0" using assms(2) by (simp_all add: s_def signed_divide_int_def)
  then show ?thesis using assms(1) unfolding s_def [symmetric]
    by (simp add: reg_Register_def doRegister_def grantLease_def bindLease_def memEtcd_def NewRegistry_def s_def [symmetric])
qed

section \<open>Properties\<close>

text \<open>What a selector that started empty has at an address after it has handled the events delivered so far.\<close>

definition known_at :: "('e \<Rightarrow> watch_event list) \<Rightarrow> (string \<Rightarrow> Server option) \<Rightarrow> string \<Rightarrow> 'e \<Rightarrow> Server option" where
  "known_at history parse a e = directory (GetGameNodes (handleWatchEvents parse (history e) \<lparr>gameServers = [], nsStrategy = LeastLoad\<rparr>)) a"

lemma known_at_seen: "known_at history parse a e = seen history parse e a"
  using fold_watch_directory [of "[]" parse "history e"] by (simp add: known_at_def GetGameNodes_def handleWatchEvents_def seen_def directory_def)

text \<open>The life of a node in the directory of the march node.  For any etcd that keeps its contract: after a successful registration and
  any number of load reports, lost lease replies and ticks, whether their calls succeed or not, the selector that follows the watch
  has the node at its address; a load report that succeeds puts in that load; and when the node ends and its key is deleted it is gone.\<close>

lemma registry_life_cycle:
  assumes "etcd E history keys" "\<And>x. parse (marshal (conf\<lparr>serverID := nodeID, Load := x\<rparr>)) = Some (conf\<lparr>serverID := nodeID, Load := x\<rparr>)"
    and "reg_Register E marshal dialed conf nodeID r e = Some (True, r1, e1)" "fold (reg_step E marshal) ops (r1, e1) = (r2, e2)"
    and "CHR ''/'' \<notin> set (Domain conf)" "CHR ''/'' \<notin> set (Version conf)" "CHR ''/'' \<notin> set (Addr conf)"
  shows "(\<exists>x. known_at history parse (Addr conf) e2 = Some (conf\<lparr>serverID := nodeID, Load := x\<rparr>))
     \<and> (\<forall>load r3 e3. UpdateLoad E marshal load r2 e2 = (True, r3, e3) \<longrightarrow>
          known_at history parse (Addr conf) e3 = Some (conf\<lparr>serverID := nodeID, Load := load\<rparr>))
     \<and> (fst (unregister E r2 e2) \<longrightarrow> known_at history parse (Addr conf) (watch_close E r2 e2) = None)"
proof -
  let ?s = "conf\<lparr>serverID := nodeID\<rparr>"
  from etcd.steps_visible [OF assms(1) etcd.Register_visible [OF assms(1,3), of parse], of marshal ops]
  have v: "visible history keys parse ?s (r2, e2)" using assms(2,4) by simp
  then obtain x y where x: "seen history parse e2 (Addr conf) = Some (conf\<lparr>serverID := nodeID, Load := x\<rparr>)"
    and y: "regInfo r2 = conf\<lparr>serverID := nodeID, Load := y\<rparr>" and k: "buildKey (regInfo r2) \<in> keys e2"
    by (auto simp: visible_def)
  show ?thesis using x y etcd.update_seen [OF assms(1), of marshal _ r2 e2 _ _ parse] assms(2) etcd.close_seen [OF assms(1) _ k, of parse] assms(5-7)
    by (fastforce simp: known_at_seen)
qed

text \<open>An encoding of entries that differ in their load only: sign, numerator and denominator in unary.\<close>

definition marshal_load :: "Server \<Rightarrow> string" where
  "marshal_load s = (case quotient_of (Load s) of (p, q) \<Rightarrow>
     (if p < 0 then CHR ''-'' else CHR ''+'') # replicate (nat \<bar>p\<bar>) CHR ''1'' @ CHR ''/'' # replicate (nat q) CHR ''1'')"

definition parse_load :: "Server \<Rightarrow> string \<Rightarrow> Server option" where
  "parse_load s v = (let p = length (takeWhile (\<lambda>c. c \<noteq> CHR ''/'') (tl v)); q = length v - p - 2
     in Some (s\<lparr>Load := (if hd v = CHR ''-'' then -1 else 1) * of_nat p / of_nat q\<rparr>))"

lemma parse_marshal_load: "parse_load s (marshal_load (s\<lparr>Load := x\<rparr>)) = Some (s\<lparr>Load := x\<rparr>)"
proof (cases "quotient_of x")
  case (Pair p q)
  have x: "of_int p / of_int q = x" "0 < q" using quotient_of_div [OF Pair] quotient_of_denom_pos [OF Pair] by auto
  have p: "(if p < 0 then -1 else 1) * of_nat (nat \<bar>p\<bar>) = (of_int p :: rat)" by simp
  have "parse_load s (marshal_load (s\<lparr>Load := x\<rparr>)) = Some (s\<lparr>Load := (if p < 0 then -1 else 1) * of_nat (nat \<bar>p\<bar>) / of_nat (nat q)\<rparr>)"
    using takeWhile_append2 [of "replicate (nat \<bar>p\<bar>) CHR ''1''" "\<lambda>c. c \<noteq> CHR ''/''"] by (simp add: parse_load_def marshal_load_def Pair Let_def)
  then show ?thesis using x p by simp
qed

definition node1 :: Server where
  "node1 = zero_server\<lparr>Domain := ''game'', Addr := ''a'', Ttl := 10, serverID := ''n1''\<rparr>"

text \<open>A registered node can be closed once.  Closing before the registration is through, or after it has failed, panics.\<close>

lemma close_registered:
  assumes "reg_Register E marshal dialed conf nodeID r e = Some (True, r', e')"
  shows "\<exists>r''. reg_Close r' = Some r'' \<and> reg_Close r'' = None"
  by (rule Register_success [OF assms]) (simp add: reg_Close_def)

lemma doRegister_closeCh: "doRegister E marshal r e = (ok, r', e') \<Longrightarrow> closeCh r' = closeCh r"
  by (auto simp: doRegister_def grantLease_def split: prod.splits option.splits bool.splits if_splits)

lemma close_unregistered_panics:
  assumes "reg_Register E marshal dialed conf nodeID NewRegistry e = Some (False, r', e')"
  shows "reg_Close r' = None" "reg_Close NewRegistry = None"
  using assms by (auto simp: reg_Register_def reg_Close_def NewRegistry_def dest!: doRegister_closeCh split: if_splits prod.splits bool.splits)

text \<open>Half a time to live below two seconds is not positive: the registered node's ticker panics.\<close>

lemma short_ttl_panics:
  assumes "doRegister E marshal (r\<lparr>regInfo := conf\<lparr>serverID := nodeID, Load := 0\<rparr>\<rparr>) e = (True, r', e')" "nodeID \<noteq> []" "0 \<le> Ttl conf" "Ttl conf < 2"
    and "regInfo r' = conf\<lparr>serverID := nodeID, Load := 0\<rparr>"
  shows "reg_Register E marshal True conf nodeID r e = None"
proof -
  have "Ttl conf = 0 \<or> Ttl conf = 1" using assms(3,4) by auto
  then have "Ttl conf sdiv 2 \<le> 0" by (auto simp: signed_divide_int_def)
  then show ?thesis using assms by (simp add: reg_Register_def)
qed

end
