(* ===== verification/Resolver.thy ===== *)
theory Resolver
  imports Discovery
begin

text \<open>
  How nodes read the registry: \<^verbatim>\<open>march/infrastructure/discovery/seeker.go\<close> with the constructor of the node selector, and the two
  gRPC address resolvers, \<^verbatim>\<open>connector/infrastructure/discovery/resolver.go\<close> and \<^verbatim>\<open>gate/infrastructure/discovery/resolver.go\<close>.

  \<^item> The reply of etcd to a read is an argument: \<open>None\<close> for an error, or the keys with their values in order.  An event carries its key.
  \<^item> What a resolver hands to the gRPC connection with \<open>UpdateState\<close> is appended to the field \<open>handed\<close>; the last element is what the
    connection uses.  \<open>accepted\<close> is its reply.
\<close>

datatype kv_event = KvPut string string | KvDelete string

section \<open>The seeker and the start of the node selector\<close>

definition GetServers :: "(string \<Rightarrow> Server option) \<Rightarrow> (string \<times> string) list option \<Rightarrow> Server list option" where
  "GetServers parse reply = map_option (\<lambda>kvs. List.map_filter (\<lambda>(k, v). parse v) kvs) reply"

definition NewNodeSelector :: "(string \<Rightarrow> Server option) \<Rightarrow> LoadBalanceStrategy \<Rightarrow> bool \<Rightarrow> (string \<times> string) list option \<Rightarrow> NodeSelector option" where
  "NewNodeSelector parse strategy dialed reply =
     (if \<not> dialed then None
      else case GetServers parse reply of
             None \<Rightarrow> None
           | Some servers \<Rightarrow> Some \<lparr>gameServers = servers, nsStrategy = strategy\<rparr>)"

section \<open>The resolver of the connector\<close>

record Address =
  adAddr :: string
  adWeight :: "int option"

record Resolver =
  rKey :: string
  srvAddrList :: "Address list"
  handed :: "Address list list"

definition UpdateState :: "Address list \<Rightarrow> Resolver \<Rightarrow> Resolver" where
  "UpdateState as r = r\<lparr>handed := handed r @ [as]\<rparr>"

fun findIndex :: "Address list \<Rightarrow> Address \<Rightarrow> int" where
  "findIndex [] addr = -1"
| "findIndex (a # as) addr = (if adAddr a = adAddr addr then 0 else let i = findIndex as addr in if i < 0 then -1 else i + 1)"

definition resolver_remove :: "Address list \<Rightarrow> Address \<Rightarrow> Address list option" where
  "resolver_remove as tar = (let i = findIndex as tar in if i < 0 then None else Some (butlast (as[nat i := last as])))"

text \<open>The test that skips a key under another name with the same beginning.\<close>

definition key_matches :: "string \<Rightarrow> string \<Rightarrow> bool" where
  "key_matches key keyStr \<longleftrightarrow> HasPrefix keyStr (key @ ''/'') \<or> keyStr = key"

definition weighted :: "Server \<Rightarrow> Address" where
  "weighted s = \<lparr>adAddr = Addr s, adWeight = Some (Weight s)\<rparr>"

definition addresses :: "(string \<Rightarrow> Server option) \<Rightarrow> string \<Rightarrow> (string \<times> string) list \<Rightarrow> Address list" where
  "addresses parse key kvs = List.map_filter (\<lambda>(k, v). if key_matches key k then map_option weighted (parse v) else None) kvs"

text \<open>The result is \<open>False\<close> for an error.\<close>

definition resolver_sync ::
    "(string \<Rightarrow> Server option) \<Rightarrow> (Address list \<Rightarrow> bool) \<Rightarrow> (string \<times> string) list option \<Rightarrow> Resolver \<Rightarrow> bool \<times> Resolver" where
  "resolver_sync parse accepted reply r = (case reply of
     None \<Rightarrow> (False, r)
   | Some kvs \<Rightarrow>
       let r = r\<lparr>srvAddrList := addresses parse (rKey r) kvs\<rparr>
       in if srvAddrList r = [] then (True, r) else (accepted (srvAddrList r), UpdateState (srvAddrList r) r))"

fun update_event :: "(string \<Rightarrow> Server option) \<Rightarrow> kv_event \<Rightarrow> Resolver \<Rightarrow> Resolver" where
  "update_event parse (KvPut k v) r =
     (if \<not> key_matches (rKey r) k then r
      else case parse v of
             None \<Rightarrow> r
           | Some server \<Rightarrow>
               let addr = weighted server; i = findIndex (srvAddrList r) addr;
                   r = r\<lparr>srvAddrList := (if 0 \<le> i then (srvAddrList r)[nat i := addr] else srvAddrList r @ [addr])\<rparr>
               in UpdateState (srvAddrList r) r)"
| "update_event parse (KvDelete k) r =
     (if \<not> key_matches (rKey r) k then r
      else case ParseKey k of
             None \<Rightarrow> r
           | Some server \<Rightarrow> (case resolver_remove (srvAddrList r) \<lparr>adAddr = Addr server, adWeight = None\<rparr> of
               None \<Rightarrow> r
             | Some list \<Rightarrow> UpdateState list (r\<lparr>srvAddrList := list\<rparr>)))"

definition resolver_update :: "(string \<Rightarrow> Server option) \<Rightarrow> kv_event list \<Rightarrow> Resolver \<Rightarrow> Resolver" where
  "resolver_update parse events r = fold (update_event parse) events r"

text \<open>\<open>Build\<close>: the key is the path of the target without its slash; \<open>None\<close> for an error.  The goroutine of \<open>watch\<close> then handles events and
  syncs on every tick.\<close>

definition TrimPrefix :: "string \<Rightarrow> string \<Rightarrow> string" where
  "TrimPrefix s p = (if HasPrefix s p then drop (length p) s else s)"

definition resolver_Build ::
    "(string \<Rightarrow> Server option) \<Rightarrow> (Address list \<Rightarrow> bool) \<Rightarrow> string \<Rightarrow> (string \<times> string) list option \<Rightarrow> Resolver option" where
  "resolver_Build parse accepted path reply =
     (case resolver_sync parse accepted reply \<lparr>rKey = TrimPrefix path ''/'', srvAddrList = [], handed = []\<rparr> of
        (ok, r) \<Rightarrow> if ok then Some r else None)"

datatype watch_op = Events "kv_event list" | SyncTick "(string \<times> string) list option"

fun resolver_step :: "(string \<Rightarrow> Server option) \<Rightarrow> (Address list \<Rightarrow> bool) \<Rightarrow> watch_op \<Rightarrow> Resolver \<Rightarrow> Resolver" where
  "resolver_step parse accepted (Events events) r = resolver_update parse events r"
| "resolver_step parse accepted (SyncTick reply) r = snd (resolver_sync parse accepted reply r)"

section \<open>The resolver of the gate\<close>

text \<open>\<open>services\<close> of the one domain the resolver watches, and the lists handed over.\<close>

record GateResolver =
  addrList :: "string list"
  gServices :: "string list"
  gHanded :: "string list list"

definition updateState :: "GateResolver \<Rightarrow> GateResolver" where
  "updateState r =
     (let r = r\<lparr>addrList := gServices r\<rparr>
      in if gServices r = [] then r else r\<lparr>gHanded := gHanded r @ [gServices r]\<rparr>)"

text \<open>The start of \<open>watch\<close>; \<open>None\<close> when the read fails and nothing is watched.\<close>

definition gate_start :: "(string \<Rightarrow> Server option) \<Rightarrow> (string \<times> string) list option \<Rightarrow> GateResolver \<Rightarrow> GateResolver option" where
  "gate_start parse reply r = map_option (\<lambda>kvs.
     let addrs = map Addr (List.map_filter (\<lambda>(k, v). parse v) kvs);
         r = r\<lparr>gServices := gServices r @ addrs, addrList := addrs\<rparr>
     in if addrs = [] then r else r\<lparr>gHanded := gHanded r @ [addrs]\<rparr>) reply"

fun gate_event :: "(string \<Rightarrow> Server option) \<Rightarrow> kv_event \<Rightarrow> GateResolver \<Rightarrow> GateResolver" where
  "gate_event parse (KvPut k v) r = (case parse v of
     None \<Rightarrow> r
   | Some server \<Rightarrow> updateState (r\<lparr>gServices := gServices r @ [Addr server]\<rparr>))"
| "gate_event parse (KvDelete k) r = (case ParseKey k of
     None \<Rightarrow> r
   | Some server \<Rightarrow> updateState (r\<lparr>gServices := filter (\<lambda>addr. addr \<noteq> Addr server) (gServices r)\<rparr>))"

section \<open>The list of addresses as a directory\<close>

definition addr_directory :: "Address list \<Rightarrow> string \<rightharpoonup> Address" where
  "addr_directory as = map_of (map (\<lambda>a. (adAddr a, a)) as)"

text \<open>What an event under the key does to the directory.\<close>

fun apply_kv :: "(string \<Rightarrow> Server option) \<Rightarrow> string \<Rightarrow> kv_event \<Rightarrow> (string \<rightharpoonup> Address) \<Rightarrow> (string \<rightharpoonup> Address)" where
  "apply_kv parse key (KvPut k v) m =
     (if key_matches key k then (case parse v of None \<Rightarrow> m | Some s \<Rightarrow> m(Addr s \<mapsto> weighted s)) else m)"
| "apply_kv parse key (KvDelete k) m =
     (if key_matches key k then (case ParseKey k of None \<Rightarrow> m | Some s \<Rightarrow> m(Addr s := None)) else m)"

fun apply_op :: "(string \<Rightarrow> Server option) \<Rightarrow> string \<Rightarrow> watch_op \<Rightarrow> (string \<rightharpoonup> Address) \<Rightarrow> (string \<rightharpoonup> Address)" where
  "apply_op parse key (Events events) m = fold (apply_kv parse key) events m"
| "apply_op parse key (SyncTick None) m = m"
| "apply_op parse key (SyncTick (Some kvs)) m = addr_directory (addresses parse key kvs)"

lemma findIndex_spec:
  "0 \<le> findIndex as a \<Longrightarrow> nat (findIndex as a) < length as \<and> adAddr (as ! nat (findIndex as a)) = adAddr a"
  "findIndex as a < 0 \<longleftrightarrow> adAddr a \<notin> adAddr ` set as"
  by (induction as) (auto simp: Let_def nat_add_distrib not_less split: if_splits)

lemma overwrite_by_key:
  assumes "distinct (map f xs)" "i < length xs" "f (xs ! i) = f x"
  shows "distinct (map f (xs[i := x])) \<and> map_of (map (\<lambda>x. (f x, x)) (xs[i := x])) = (map_of (map (\<lambda>x. (f x, x)) xs))(f x \<mapsto> x)"
proof -
  have d: "map f (xs[i := x]) = map f xs" using assms(2,3) by (simp add: map_update list_update_same_conv)
  have "y \<in> set (xs[i := x]) \<longleftrightarrow> y = x \<or> y \<in> set xs \<and> f y \<noteq> f x" for y
    using assms by (auto simp: in_set_conv_nth nth_list_update distinct_conv_nth split: if_splits; metis)
  then have "map_of (map (\<lambda>x. (f x, x)) (xs[i := x])) = (map_of (map (\<lambda>x. (f x, x)) xs))(f x \<mapsto> x)"
    using assms(1) d by (intro map_eqI) (auto simp: by_key_iff)
  then show ?thesis using assms(1) d by simp
qed

lemma append_by_key:
  "distinct (map f xs) \<Longrightarrow> f x \<notin> f ` set xs \<Longrightarrow> map_of (map (\<lambda>x. (f x, x)) (xs @ [x])) = (map_of (map (\<lambda>x. (f x, x)) xs))(f x \<mapsto> x)"
  by (intro map_eqI, subst by_key_iff) (auto simp: by_key_iff image_iff)

text \<open>A resolver is in step when it has one address per server and the connection has its list.\<close>

definition in_step :: "Resolver \<Rightarrow> bool" where
  "in_step r \<longleftrightarrow> distinct (map adAddr (srvAddrList r)) \<and> handed r \<noteq> [] \<and> last (handed r) = srvAddrList r"

lemma update_event_spec:
  assumes "in_step r"
  shows "in_step (update_event parse ev r) \<and> rKey (update_event parse ev r) = rKey r
     \<and> addr_directory (srvAddrList (update_event parse ev r)) = apply_kv parse (rKey r) ev (addr_directory (srvAddrList r))"
proof (cases ev)
  case (KvPut k v)
  have "distinct (map adAddr as) \<and> addr_directory as = (addr_directory (srvAddrList r))(adAddr a \<mapsto> a)"
    if "as = (if 0 \<le> findIndex (srvAddrList r) a then (srvAddrList r)[nat (findIndex (srvAddrList r) a) := a] else srvAddrList r @ [a])" for a as
  proof (cases "0 \<le> findIndex (srvAddrList r) a")
    case True
    then show ?thesis using overwrite_by_key [of adAddr "srvAddrList r"] findIndex_spec(1) [OF True] assms that by (simp add: in_step_def addr_directory_def)
  next
    case False
    then have "adAddr a \<notin> adAddr ` set (srvAddrList r)" using findIndex_spec(2) [of "srvAddrList r" a] by simp
    then show ?thesis using False assms that append_by_key [of adAddr "srvAddrList r" a] by (simp add: in_step_def addr_directory_def)
  qed
  then show ?thesis using assms KvPut by (auto simp: Let_def UpdateState_def in_step_def weighted_def split: option.split)
next
  case (KvDelete k)
  have "case resolver_remove (srvAddrList r) a of None \<Rightarrow> (addr_directory (srvAddrList r))(adAddr a := None) = addr_directory (srvAddrList r)
     | Some as \<Rightarrow> distinct (map adAddr as) \<and> addr_directory as = (addr_directory (srvAddrList r))(adAddr a := None)"
    if "\<exists>s. ParseKey k = Some s \<and> a = \<lparr>adAddr = Addr s, adWeight = None\<rparr>" for a
    using findIndex_spec [of "srvAddrList r" a] swap_remove_by_key [of adAddr "srvAddrList r" "nat (findIndex (srvAddrList r) a)" "adAddr a"]
      absent_key [of "adAddr a" adAddr "srvAddrList r"] assms
    by (auto simp: resolver_remove_def Let_def in_step_def addr_directory_def not_less)
  then show ?thesis using assms KvDelete by (force simp: UpdateState_def in_step_def split: option.split)
qed

lemma update_spec:
  assumes "in_step r"
  shows "in_step (resolver_update parse events r) \<and> rKey (resolver_update parse events r) = rKey r
     \<and> addr_directory (srvAddrList (resolver_update parse events r)) = fold (apply_kv parse (rKey r)) events (addr_directory (srvAddrList r))"
  using assms by (induction events arbitrary: r) (auto simp: resolver_update_def update_event_spec)

text \<open>A reply to a sync that can be kept: it failed, or it has servers, each at an address of its own.\<close>

definition good_reply :: "(string \<Rightarrow> Server option) \<Rightarrow> string \<Rightarrow> (string \<times> string) list option \<Rightarrow> bool" where
  "good_reply parse key reply = (case reply of None \<Rightarrow> True
     | Some kvs \<Rightarrow> addresses parse key kvs \<noteq> [] \<and> distinct (map adAddr (addresses parse key kvs)))"

fun good_op :: "(string \<Rightarrow> Server option) \<Rightarrow> string \<Rightarrow> watch_op \<Rightarrow> bool" where
  "good_op parse key (Events events) = True"
| "good_op parse key (SyncTick reply) = good_reply parse key reply"

lemma steps_in_step:
  assumes "in_step r" "list_all (good_op parse (rKey r)) ops"
  shows "in_step (fold (resolver_step parse accepted) ops r)
     \<and> addr_directory (srvAddrList (fold (resolver_step parse accepted) ops r)) = fold (apply_op parse (rKey r)) ops (addr_directory (srvAddrList r))"
  using assms
proof (induction ops arbitrary: r)
  case (Cons op ops)
  have "in_step (resolver_step parse accepted op r) \<and> rKey (resolver_step parse accepted op r) = rKey r
      \<and> addr_directory (srvAddrList (resolver_step parse accepted op r)) = apply_op parse (rKey r) op (addr_directory (srvAddrList r))"
    using Cons.prems update_spec [of r parse]
    by (cases op) (auto simp: good_reply_def resolver_sync_def in_step_def UpdateState_def Let_def split: option.splits)
  with Cons show ?case by simp
qed simp

section \<open>Properties\<close>


definition by_name :: "string \<Rightarrow> Server option" where
  "by_name v = Some (zero_server\<lparr>Addr := v, Weight := 1\<rparr>)"


text \<open>The gate: the set of addresses is right, and whenever it is not empty the connection has been handed the list.\<close>

definition gate_set_event :: "(string \<Rightarrow> Server option) \<Rightarrow> kv_event \<Rightarrow> string set \<Rightarrow> string set" where
  "gate_set_event parse ev A = (case ev of
     KvPut k v \<Rightarrow> (case parse v of None \<Rightarrow> A | Some s \<Rightarrow> insert (Addr s) A)
   | KvDelete k \<Rightarrow> (case ParseKey k of None \<Rightarrow> A | Some s \<Rightarrow> A - {Addr s}))"

lemma gate_addresses:
  assumes "gServices r \<noteq> [] \<Longrightarrow> gHanded r \<noteq> [] \<and> last (gHanded r) = gServices r"
  shows "let r' = fold (gate_event parse) events r in set (gServices r') = fold (gate_set_event parse) events (set (gServices r))
     \<and> (gServices r' \<noteq> [] \<longrightarrow> gHanded r' \<noteq> [] \<and> last (gHanded r') = gServices r')"
  using assms
proof (induction events arbitrary: r)
  case (Cons ev events)
  have "set (gServices (gate_event parse ev r)) = gate_set_event parse ev (set (gServices r))
      \<and> (gServices (gate_event parse ev r) \<noteq> [] \<longrightarrow> gHanded (gate_event parse ev r) \<noteq> [] \<and> last (gHanded (gate_event parse ev r)) = gServices (gate_event parse ev r))"
    using Cons.prems by (cases ev) (auto simp: gate_set_event_def updateState_def Let_def filter_empty_conv split: option.split)
  with Cons.IH [of "gate_event parse ev r"] show ?case by simp
qed (simp add: Let_def)

section \<open>Flaws\<close>

text \<open>A sync of the connector that finds no server leaves the connection with the addresses it had.\<close>

lemma empty_sync_keeps_stale: "addresses parse (rKey r) kvs = [] \<Longrightarrow> handed (snd (resolver_sync parse accepted (Some kvs) r)) = handed r"
  by (simp add: resolver_sync_def Let_def)

text \<open>In the gate every put of a known server, such as each report of its load, adds its address once more.\<close>

lemma gate_puts_accumulate:
  assumes "parse v = Some s"
  shows "gServices (fold (gate_event parse) (replicate n (KvPut k v)) r) = gServices r @ replicate n (Addr s)"
  using assms by (induction n arbitrary: r) (auto simp: updateState_def Let_def)

text \<open>When the last server goes, the gate's connection is not told.\<close>

lemma gate_last_server_stale:
  assumes "ParseKey k = Some s" "set (gServices r) \<subseteq> {Addr s}"
  shows "gServices (gate_event parse (KvDelete k) r) = [] \<and> gHanded (gate_event parse (KvDelete k) r) = gHanded r"
  using assms by (auto simp: updateState_def Let_def filter_empty_conv)

end
