(* ===== verification/Database.thy ===== *)
theory Database
  imports Prelude
begin

text \<open>
  The access to Redis of every node, \<^verbatim>\<open>march/infrastructure/database/redis.go\<close>; the other nodes have identical copies.

  \<^item> A Redis client is a parameter: the record \<open>Client\<close> of its calls on a state of any type.  A call returns the text of an error or
    its reply.  \<open>C\<close> is the client of a single server, \<open>K\<close> the one of a cluster; the fields of \<open>RedisManager\<close> say which of the two pointers are set.
  \<^item> What is relied on of a server that caches scripts is the locale \<open>script_server\<close>.
\<close>

section \<open>The manager\<close>

datatype redis_reply = RStr string | RInt int | RNil | RList "redis_reply list"

record 'r Client =
  cSet :: "string \<Rightarrow> string \<Rightarrow> 'r \<Rightarrow> string option \<times> 'r"
  cGet :: "string \<Rightarrow> 'r \<Rightarrow> string + redis_reply"
  cDel :: "string list \<Rightarrow> 'r \<Rightarrow> string option \<times> 'r"
  cExists :: "string list \<Rightarrow> 'r \<Rightarrow> string + int"
  cIncr :: "string \<Rightarrow> 'r \<Rightarrow> (string + int) \<times> 'r"
  cScriptLoad :: "string \<Rightarrow> 'r \<Rightarrow> (string + string) \<times> 'r"
  cEvalSha :: "string \<Rightarrow> string list \<Rightarrow> string list \<Rightarrow> 'r \<Rightarrow> (string + redis_reply) \<times> 'r"
  cEval :: "string \<Rightarrow> string list \<Rightarrow> string list \<Rightarrow> 'r \<Rightarrow> (string + redis_reply) \<times> 'r"

record RedisManager =
  Cli :: bool
  ClusterCli :: bool
  scriptSHAs :: "string \<rightharpoonup> string"

record RedisConf =
  rcAddr :: string
  rcHost :: string
  rcPort :: int
  rcClusterAddrs :: "string list"

text \<open>\<open>NewRedis\<close>: \<open>None\<close> for the panic on a missing address; the pings of the clients are \<open>pong\<close>, and a failed one ends the process.\<close>

definition NewRedis :: "bool \<Rightarrow> RedisConf \<Rightarrow> RedisManager option" where
  "NewRedis pong conf =
     (if rcAddr conf = [] \<and> \<not> (rcHost conf \<noteq> [] \<and> 0 < rcPort conf) then None
      else if \<not> pong then None
      else Some \<lparr>Cli = (rcClusterAddrs conf = []), ClusterCli = (rcClusterAddrs conf \<noteq> []), scriptSHAs = Map.empty\<rparr>)"

definition GetClient_redis :: "'r Client \<Rightarrow> 'r Client \<Rightarrow> RedisManager \<Rightarrow> 'r Client option" where
  "GetClient_redis C K m = (if Cli m then Some C else if ClusterCli m then Some K else None)"

definition manager_Set :: "'r Client \<Rightarrow> 'r Client \<Rightarrow> string \<Rightarrow> string \<Rightarrow> RedisManager \<Rightarrow> 'r \<Rightarrow> string option \<times> 'r" where
  "manager_Set C K key v m s = (if Cli m then cSet C key v s else if ClusterCli m then cSet K key v s else (None, s))"

text \<open>Without a client \<open>Get\<close> returns a nil command, on which every caller panics.\<close>

definition manager_Get :: "'r Client \<Rightarrow> 'r Client \<Rightarrow> string \<Rightarrow> RedisManager \<Rightarrow> 'r \<Rightarrow> (string + redis_reply) option" where
  "manager_Get C K key m s = (if Cli m then Some (cGet C key s) else if ClusterCli m then Some (cGet K key s) else None)"

definition manager_Del :: "'r Client \<Rightarrow> 'r Client \<Rightarrow> string list \<Rightarrow> RedisManager \<Rightarrow> 'r \<Rightarrow> string option \<times> 'r" where
  "manager_Del C K ks m s = (if Cli m then cDel C ks s else if ClusterCli m then cDel K ks s else (None, s))"

definition manager_Exists :: "'r Client \<Rightarrow> 'r Client \<Rightarrow> string list \<Rightarrow> RedisManager \<Rightarrow> 'r \<Rightarrow> string + int" where
  "manager_Exists C K ks m s = (if Cli m then cExists C ks s else if ClusterCli m then cExists K ks s else Inr 0)"

definition manager_Incr :: "'r Client \<Rightarrow> 'r Client \<Rightarrow> string \<Rightarrow> RedisManager \<Rightarrow> 'r \<Rightarrow> (string + int) \<times> 'r" where
  "manager_Incr C K key m s = (if Cli m then cIncr C key s else if ClusterCli m then cIncr K key s else (Inr 0, s))"

text \<open>\<open>Close\<close> succeeds when there is no client or its client closes.\<close>

definition manager_Close :: "bool \<Rightarrow> bool \<Rightarrow> RedisManager \<Rightarrow> bool" where
  "manager_Close closes clusterCloses m =
     (if \<not> Cli m \<and> \<not> ClusterCli m then True
      else if Cli m \<and> \<not> closes then False
      else if ClusterCli m \<and> \<not> clusterCloses then False
      else True)"

text \<open>The text of the error \<open>EvalScript\<close> looks for.\<close>

definition noscript_text :: string where
  "noscript_text = ''NOSCRIPT No matching script. Use EVAL.''"

text \<open>Loading the script and running it by its hash.\<close>

definition load_and_run ::
    "'r Client \<Rightarrow> string \<Rightarrow> string \<Rightarrow> string list \<Rightarrow> string list \<Rightarrow> RedisManager \<Rightarrow> 'r \<Rightarrow> (string + redis_reply) \<times> RedisManager \<times> 'r" where
  "load_and_run C scriptName script ks args m s = (case cScriptLoad C script s of
     (Inl err, s) \<Rightarrow> (Inl err, m, s)
   | (Inr sha, s) \<Rightarrow> (case cEvalSha C sha ks args s of (r, s) \<Rightarrow> (r, m\<lparr>scriptSHAs := (scriptSHAs m)(scriptName \<mapsto> sha)\<rparr>, s)))"

definition EvalScript ::
    "'r Client \<Rightarrow> 'r Client \<Rightarrow> string \<Rightarrow> string \<Rightarrow> string list \<Rightarrow> string list \<Rightarrow> RedisManager \<Rightarrow> 'r \<Rightarrow> (string + redis_reply) \<times> RedisManager \<times> 'r" where
  "EvalScript C K scriptName script ks args m s = (case GetClient_redis C K m of
     None \<Rightarrow> (Inl ''no client'', m, s)
   | Some cli \<Rightarrow>
       if Cli m \<and> scriptName \<noteq> [] then
         (case scriptSHAs m scriptName of
            Some sha \<Rightarrow> (case cEvalSha C sha ks args s of
                (Inl err, s) \<Rightarrow> if err = noscript_text then load_and_run C scriptName script ks args m s else (Inl err, m, s)
              | (Inr result, s) \<Rightarrow> (Inr result, m, s))
          | None \<Rightarrow> load_and_run C scriptName script ks args m s)
       else (case cEval cli script ks args s of (r, s) \<Rightarrow> (r, m, s)))"

section \<open>A server that keeps scripts\<close>

text \<open>The manager's table names scripts the server has; \<open>scripts\<close> gives the source that goes with a name.\<close>

definition cached :: "(string \<Rightarrow> string) \<Rightarrow> (string \<Rightarrow> 'r \<Rightarrow> bool) \<Rightarrow> (string \<Rightarrow> string) \<Rightarrow> RedisManager \<Rightarrow> 'r \<Rightarrow> bool" where
  "cached sha holds scripts m s \<longleftrightarrow> (\<forall>n h. scriptSHAs m n = Some h \<longrightarrow> h = sha (scripts n) \<and> holds (scripts n) s)"

text \<open>\<open>holds script s\<close>: the server has the script; \<open>data\<close> is what the scripts work on and \<open>run\<close> what they do.  A hash stands for one script; a hash
  the server does not have is answered with \<open>noscript\<close> and changes nothing.\<close>

locale script_server =
  fixes C :: "'r Client" and holds :: "string \<Rightarrow> 'r \<Rightarrow> bool" and content :: "'r \<Rightarrow> 'd"
    and run :: "string \<Rightarrow> string list \<Rightarrow> string list \<Rightarrow> 'd \<Rightarrow> (string + redis_reply) \<times> 'd" and sha :: "string \<Rightarrow> string" and noscript :: string
  assumes load: "cScriptLoad C script s = (Inr h, s') \<Longrightarrow> h = sha script \<and> content s' = content s \<and> (\<forall>x. holds x s' \<longleftrightarrow> x = script \<or> holds x s)"
    and load_failed: "cScriptLoad C script s = (Inl err, s') \<Longrightarrow> s' = s"
    and evalsha: "holds script s \<Longrightarrow> cEvalSha C (sha script) ks args s = (r, s') \<Longrightarrow> (r, content s') = run script ks args (content s) \<and> (\<forall>x. holds x s' = holds x s)"
    and evalsha_unknown: "\<not> holds script s \<Longrightarrow> cEvalSha C (sha script) ks args s = (Inl noscript, s)"
begin

lemma load_and_run_spec:
  assumes "load_and_run C n script ks args m s = (r, m', s')"
  shows "(r, content s') = run script ks args (content s) \<and> scriptSHAs m' = (scriptSHAs m)(n \<mapsto> sha script) \<and> (\<forall>x. holds x s' \<longleftrightarrow> x = script \<or> holds x s)
     \<or> (\<exists>err. cScriptLoad C script s = (Inl err, s) \<and> r = Inl err \<and> m' = m \<and> s' = s)"
proof (cases "cScriptLoad C script s")
  case (Pair h s1)
  show ?thesis
  proof (cases h)
    case (Inl err)
    then show ?thesis using assms Pair load_failed [of script s err s1] by (auto simp: load_and_run_def)
  next
    case (Inr x)
    obtain q s2 where e: "cEvalSha C x ks args s1 = (q, s2)" by fastforce
    have "holds script s1" "x = sha script" "content s1 = content s" "\<forall>y. holds y s1 \<longleftrightarrow> y = script \<or> holds y s" using load [of script s x s1] Pair Inr by auto
    then show ?thesis using assms Pair Inr e evalsha [of script s1 ks args q s2] by (auto simp: load_and_run_def)
  qed
qed

lemma EvalScript_spec:
  assumes "Cli m" "n \<noteq> []" "cached sha holds scripts m s" "fst (run (scripts n) ks args (content s)) \<noteq> Inl noscript_text"
    and "EvalScript C K n (scripts n) ks args m s = (r, m', s')"
  shows "cached sha holds scripts m' s' \<and> ((r, content s') = run (scripts n) ks args (content s)
     \<or> (\<exists>err. cScriptLoad C (scripts n) s = (Inl err, s) \<and> r = Inl err \<and> m' = m \<and> s' = s))"
proof (cases "scriptSHAs m n")
  case None
  then have "load_and_run C n (scripts n) ks args m s = (r, m', s')" using assms(1,2,5) by (simp add: EvalScript_def GetClient_redis_def)
  from load_and_run_spec [OF this] show ?thesis using assms(3) by (auto simp: cached_def split: if_splits)
next
  case (Some h)
  then have h: "h = sha (scripts n)" "holds (scripts n) s" using assms(3) by (auto simp: cached_def)
  obtain q s1 where e: "cEvalSha C h ks args s = (q, s1)" by fastforce
  have "(q, content s1) = run (scripts n) ks args (content s) \<and> (\<forall>x. holds x s1 = holds x s)" using evalsha [OF h(2)] e h(1) by simp
  moreover from this have "q \<noteq> Inl noscript_text" using assms(4) by (metis fst_conv)
  ultimately show ?thesis using assms(1-3,5) Some e by (auto simp: EvalScript_def GetClient_redis_def cached_def split: sum.splits)
qed

text \<open>A server that has lost the script, by a restart or a flush.  With the text the code looks for, the script would be loaded again; with
  another text every further call fails in the same way.\<close>

lemma EvalScript_forgotten:
  assumes "Cli m" "n \<noteq> []" "scriptSHAs m n = Some (sha script)" "\<not> holds script s"
  shows "noscript \<noteq> noscript_text \<Longrightarrow> EvalScript C K n script ks args m s = (Inl noscript, m, s)"
    and "noscript = noscript_text \<Longrightarrow> EvalScript C K n script ks args m s = load_and_run C n script ks args m s"
  using assms evalsha_unknown [OF assms(4)] by (simp_all add: EvalScript_def GetClient_redis_def)

end

section \<open>A server in memory\<close>

text \<open>Scripts held, and a number every script counts up; a script is its own hash.  The error is the text of Redis.\<close>

definition redis_noscript :: string where
  "redis_noscript = ''NOSCRIPT No matching script. Please use EVAL.''"

definition count_up :: "string \<Rightarrow> string list \<Rightarrow> string list \<Rightarrow> int \<Rightarrow> (string + redis_reply) \<times> int" where
  "count_up script ks args n = (Inr (RInt (n + 1)), n + 1)"

definition counter :: "(string list \<times> int) Client" where
  "counter = \<lparr>cSet = (\<lambda>k v s. (None, s)), cGet = (\<lambda>k s. Inr RNil), cDel = (\<lambda>ks s. (None, s)), cExists = (\<lambda>ks s. Inr 0), cIncr = (\<lambda>k s. (Inr (snd s + 1), (fst s, snd s + 1))),
     cScriptLoad = (\<lambda>x s. (Inr x, (x # fst s, snd s))),
     cEvalSha = (\<lambda>h ks args s. if h \<in> set (fst s) then (case count_up h ks args (snd s) of (r, n) \<Rightarrow> (r, (fst s, n))) else (Inl redis_noscript, s)),
     cEval = (\<lambda>x ks args s. case count_up x ks args (snd s) of (r, n) \<Rightarrow> (r, (fst s, n)))\<rparr>"

interpretation counting: script_server counter "\<lambda>x s. x \<in> set (fst s)" snd count_up "\<lambda>x. x" redis_noscript
  by unfold_locales (auto simp: counter_def split: prod.splits)

section \<open>Properties\<close>

text \<open>C40: the table of hashes is only a cache.  On a server that keeps its scripts, \<open>EvalScript\<close> does exactly what running the given script does,
  whether its hash is known or not, or fails to load it and changes nothing; and the table stays right for the next call.\<close>

theorem EvalScript_runs_script:
  assumes "script_server C holds content run sha noscript" "Cli m" "n \<noteq> []" "cached sha holds scripts m s"
    and "fst (run (scripts n) ks args (content s)) \<noteq> Inl noscript_text" "EvalScript C K n (scripts n) ks args m s = (r, m', s')"
  shows "cached sha holds scripts m' s' \<and> ((r, content s') = run (scripts n) ks args (content s)
     \<or> (\<exists>err. cScriptLoad C (scripts n) s = (Inl err, s) \<and> r = Inl err \<and> m' = m \<and> s' = s))"
  using script_server.EvalScript_spec [OF assms] .

text \<open>C40 on the first call of a script.\<close>

theorem EvalScript_runs_script_witness:
  "\<exists>m s. EvalScript counter counter ''join'' ''src'' [] [] \<lparr>Cli = True, ClusterCli = False, scriptSHAs = Map.empty\<rparr> ([], 4) = (Inr (RInt 5), m, s)
     \<and> cached (\<lambda>x. x) (\<lambda>x s. x \<in> set (fst s)) (\<lambda>n. ''src'') m s"
proof -
  let ?m = "\<lparr>Cli = True, ClusterCli = False, scriptSHAs = Map.empty\<rparr>"
  obtain r m s where e: "EvalScript counter counter ''join'' ((\<lambda>n. ''src'') ''join'') [] [] ?m ([], 4) = (r, m, s)" by (metis surj_pair)
  have "cached (\<lambda>x. x) (\<lambda>x s. x \<in> set (fst s)) (\<lambda>n. ''src'') ?m ([], 4)" by (simp add: cached_def)
  from EvalScript_runs_script [OF counting.script_server_axioms _ _ this _ e] e show ?thesis
    by (auto simp: counter_def count_up_def noscript_text_def)
qed

section \<open>Flaws\<close>

text \<open>The text of the error is not the one the code looks for: after Redis has lost its scripts, every script call fails.\<close>

lemma lost_script_never_reloaded:
  assumes "Cli m" "n \<noteq> []" "scriptSHAs m n = Some script" "script \<notin> set (fst s)"
  shows "EvalScript counter K n script ks args m s = (Inl redis_noscript, m, s)"
  using counting.EvalScript_forgotten(1) [OF assms] by (simp add: redis_noscript_def noscript_text_def)

end
