(* ===== verification/Startup.thy ===== *)
theory Startup
  imports MarchLife Registry Resolver Database
begin

text \<open>
  How nodes come up and go down: configuration, \<^verbatim>\<open>infrastructure/config/config.go\<close> and \<^verbatim>\<open>main.go\<close> of every node; the connection to MongoDB,
  \<^verbatim>\<open>infrastructure/database/mongo.go\<close>; the containers; RPC clients, \<^verbatim>\<open>connector/infrastructure/rpc/rpc.go\<close>; the start and end of the worker of the
  game node, \<^verbatim>\<open>game/runtime/worker.go\<close> and \<^verbatim>\<open>monitor.go\<close>; and \<open>Run\<close> of the nodes, \<^verbatim>\<open>app/app.go\<close>.

  \<^item> \<open>log.Fatal\<close> and \<open>os.Exit\<close> end the process, as a panic does: \<open>None\<close>.
  \<^item> What the configuration file, MongoDB, Redis, etcd, NATS and the network answer are parameters.  The path of a gRPC target is what follows
    the scheme and the empty authority.
\<close>

section \<open>Configuration\<close>

record LogConf =
  lgLevel :: string
  lgPath :: string

record RegisterServer =
  rsAddr :: string
  rsDomain :: string
  rsVersion :: string
  rsWeight :: int
  rsTtl :: int

record EtcdConf =
  ecAddrs :: "string list"
  ecRWTimeout :: int
  ecDialTimeout :: int
  ecRegister :: RegisterServer

record JwtConf =
  jcSecret :: string
  jcExpire :: int
  jcAllowTestPath :: bool

record MongoConf =
  mgUrl :: string
  mgDb :: string
  mgUsername :: string
  mgPassword :: string
  mgMinPoolSize :: int
  mgMaxPoolSize :: int

record DatabaseConf =
  dcMongo :: MongoConf
  dcRedis :: RedisConf

record DomainConf =
  dmName :: string
  dmLoadBalance :: bool

record MarchDomain =
  mdName :: string
  mdAddr :: string

text \<open>What all nodes have, which is all of the auth node, and what the others add.\<close>

record BaseConfig =
  cID :: string
  cServerType :: string
  cMetricPort :: int

record AuthConfiguration = BaseConfig +
  cDatabase :: DatabaseConf
  cJwt :: JwtConf
  cEtcd :: EtcdConf
  cLog :: LogConf

record MarchConfiguration = AuthConfiguration +
  cMarchNats :: string
  cMarchPools :: "MarchPoolConfig list"
  cMarchDomains :: "string \<rightharpoonup> MarchDomain"

record GameConfiguration = AuthConfiguration +
  cNats :: string
  cDomains :: "string \<rightharpoonup> DomainConf"

type_synonym ConnectorConfiguration = GameConfiguration

record GateConfiguration = GameConfiguration +
  cHttpPort :: int

datatype config_error = Unreadable | BadBase | NoNodeID | BadConfig

text \<open>\<open>Load\<close> of every node: the file, its values as a base and as a full configuration, and the environment variable with the id.\<close>

definition Load_config :: "bool \<Rightarrow> BaseConfig option \<Rightarrow> string \<Rightarrow> 'c BaseConfig_scheme option \<Rightarrow> config_error + 'c BaseConfig_scheme" where
  "Load_config readable base nodeID cfg =
     (if \<not> readable then Inl Unreadable
      else case base of
        None \<Rightarrow> Inl BadBase
      | Some base \<Rightarrow>
          if nodeID \<noteq> [] then
            (let base = base\<lparr>cID := nodeID\<rparr>
             in case cfg of None \<Rightarrow> Inl BadConfig | Some cfg \<Rightarrow> Inr (cfg\<lparr>cID := cID base\<rparr>))
          else Inl NoNodeID)"

text \<open>What \<open>main\<close> goes on with: the auth node only prints an error and runs with the configuration as it is, empty.\<close>

definition auth_main :: "AuthConfiguration \<Rightarrow> config_error + AuthConfiguration \<Rightarrow> AuthConfiguration option" where
  "auth_main AuthNodeConfig loaded = (case loaded of Inl e \<Rightarrow> Some AuthNodeConfig | Inr cfg \<Rightarrow> Some cfg)"

definition node_main :: "config_error + 'c BaseConfig_scheme \<Rightarrow> 'c BaseConfig_scheme option" where
  "node_main loaded = (case loaded of Inl e \<Rightarrow> None | Inr cfg \<Rightarrow> Some cfg)"

datatype log_level = DebugLevel | InfoLevel | WarnLevel | ErrorLevel

definition ToLower :: "string \<Rightarrow> string" where
  "ToLower s = map (\<lambda>c. if 65 \<le> (of_char c :: nat) \<and> (of_char c :: nat) \<le> 90 then char_of ((of_char c :: nat) + 32) else c) s"

definition InitLog :: "string \<Rightarrow> log_level" where
  "InitLog logLevel =
     (let logLevel = (if logLevel = [] then ''info'' else logLevel);
          logLevel = ToLower logLevel
      in if logLevel = ''debug'' then DebugLevel
         else if logLevel = ''warn'' then WarnLevel
         else if logLevel = ''error'' then ErrorLevel
         else InfoLevel)"

section \<open>MongoDB\<close>

record MongoManager =
  mmUrl :: string
  mmMinPool :: "64 word"
  mmMaxPool :: "64 word"
  mmAuth :: "(string \<times> string) option"
  mmDb :: string

definition NewMongo :: "bool \<Rightarrow> bool \<Rightarrow> MongoConf \<Rightarrow> MongoManager option" where
  "NewMongo connects pings conf =
     (let auth = (if mgUsername conf \<noteq> [] \<and> mgPassword conf \<noteq> [] then Some (mgUsername conf, mgPassword conf) else None)
      in if \<not> connects then None
         else if \<not> pings then None
         else Some \<lparr>mmUrl = mgUrl conf, mmMinPool = word_of_int (mgMinPoolSize conf), mmMaxPool = word_of_int (mgMaxPoolSize conf),
           mmAuth = auth, mmDb = mgDb conf\<rparr>)"

text \<open>\<open>Close\<close> of a nil manager does nothing; \<open>disconnects\<close> is the reply of the client.\<close>

definition mongo_Close :: "bool \<Rightarrow> MongoManager option \<Rightarrow> bool" where
  "mongo_Close disconnects m = (case m of None \<Rightarrow> True | Some m \<Rightarrow> disconnects)"

section \<open>Containers\<close>

text \<open>What a container closes, in order.  \<open>fails\<close> says whose \<open>Close\<close> returns an error.\<close>

datatype part = WorkerPart | NatsPart | SelectorPart | MongoPart | RedisPart

record Container =
  coWorker :: bool
  coNats :: bool
  coClosed :: bool

text \<open>\<open>Close\<close>: the parts closed, the number of errors and the container after it.  The workers return no error.\<close>

definition connector_Close :: "(part \<Rightarrow> bool) \<Rightarrow> Container \<Rightarrow> part list \<times> nat \<times> Container" where
  "connector_Close fails c =
     (if coClosed c then ([], 0, c)
      else let workers = (if coWorker c then [WorkerPart] else []) @ (if coNats c then [NatsPart] else []);
               errs = length (filter fails [MongoPart, RedisPart])
           in (workers @ [MongoPart, RedisPart], errs, c\<lparr>coClosed := True\<rparr>))"

definition march_Close :: "(part \<Rightarrow> bool) \<Rightarrow> Container \<Rightarrow> part list \<times> nat \<times> Container" where
  "march_Close fails c =
     (if coClosed c then ([], 0, c)
      else let workers = (if coWorker c then [WorkerPart] else []);
               errs = length (filter fails [SelectorPart, MongoPart, RedisPart])
           in (workers @ [SelectorPart, MongoPart, RedisPart], errs, c\<lparr>coClosed := True\<rparr>))"

text \<open>The container of the auth node has no flag and returns its first error.\<close>

definition auth_Close :: "(part \<Rightarrow> bool) \<Rightarrow> part list \<times> part option" where
  "auth_Close fails = ([MongoPart, RedisPart], if fails MongoPart then Some MongoPart else if fails RedisPart then Some RedisPart else None)"

text \<open>The database set-up of a container.\<close>

definition newBase :: "bool \<Rightarrow> bool \<Rightarrow> bool \<Rightarrow> DatabaseConf \<Rightarrow> (MongoManager \<times> RedisManager) option" where
  "newBase connects pings pong conf = do {
     mongo \<leftarrow> NewMongo connects pings (dcMongo conf);
     redis \<leftarrow> NewRedis pong (dcRedis conf);
     Some (mongo, redis)
   }"

section \<open>RPC clients of the connector\<close>

definition initClient :: "string \<Rightarrow> bool \<Rightarrow> string \<times> string option" where
  "initClient name loadBalance =
     (''etcd:///'' @ TrimPrefix name ''/'', if loadBalance then Some ''{\"LoadBalancingPolicy\": \"round_robin\"}'' else None)"

text \<open>\<open>Init\<close>: the clients for auth and march, in this order.\<close>

definition rpc_Init :: "(string \<rightharpoonup> DomainConf) \<Rightarrow> ((string \<times> string option) \<times> (string \<times> string option)) option" where
  "rpc_Init domains = do {
     auth \<leftarrow> domains ''auth'';
     march \<leftarrow> domains ''march'';
     Some (initClient (dmName auth) (dmLoadBalance auth), initClient (dmName march) (dmLoadBalance march))
   }"

definition target_path :: "string \<Rightarrow> string" where
  "target_path target = drop (length ''etcd://'') target"

text \<open>\<open>healthCheckMarch\<close> over the calls of the march node on its queues; the calls fail when \<open>up\<close> is false.\<close>

definition healthCheckMarch ::
    "bool \<Rightarrow> bool \<Rightarrow> 'r Redis \<Rightarrow> (string \<Rightarrow> int option) \<Rightarrow> int \<Rightarrow> 'r \<Rightarrow> bool \<times> 'r" where
  "healthCheckMarch reachable up R findByID time s =
     (if \<not> reachable then (False, s)
      else if QueryStatus ''health-check'' = STATUS_UNKNOWN then
        (case provider_JoinQueue up R findByID time ''health-check'' [] s of
           (Inl e, s) \<Rightarrow> (False, s)
         | (Inr secs, s) \<Rightarrow> (True, snd (provider_LeaveQueue up R ''health-check'' s)))
      else (True, s))"

section \<open>Start and end of the march node\<close>

record node_env =
  enReadable :: bool
  enBase :: "BaseConfig option"
  enNodeID :: string
  enConnects :: bool
  enPings :: bool
  enPong :: bool
  enDialed :: bool
  enNodes :: "(string \<times> string) list option"
  enListens :: bool

definition server_of :: "RegisterServer \<Rightarrow> Server" where
  "server_of conf = zero_server\<lparr>Domain := rsDomain conf, Addr := rsAddr conf, Weight := rsWeight conf, Version := rsVersion conf, Ttl := rsTtl conf\<rparr>"

definition march_NewContainer :: "(string \<Rightarrow> Server option) \<Rightarrow> node_env \<Rightarrow> MarchConfiguration \<Rightarrow> MarchWorker option" where
  "march_NewContainer parse env cfg = do {
     base \<leftarrow> newBase (enConnects env) (enPings env) (enPong env) (cDatabase cfg);
     nodeSelector \<leftarrow> NewNodeSelector parse LeastLoad (enDialed env) (enNodes env);
     case InitMatchPools (cMarchPools cfg) [] of
       (Some err, pools) \<Rightarrow> None
     | (None, pools) \<Rightarrow> Some (NewMarchWorker (cID cfg) (map pool_run (cMarchPools cfg)))
   }"

text \<open>\<open>Run\<close> up to the start of its goroutines.\<close>

definition march_Run ::
    "'e Etcd \<Rightarrow> (Server \<Rightarrow> string) \<Rightarrow> (string \<Rightarrow> Server option) \<Rightarrow> node_env \<Rightarrow> MarchConfiguration \<Rightarrow> 'e \<Rightarrow> (MarchWorker \<times> Registry \<times> 'e) option" where
  "march_Run E marshal parse env cfg e = do {
     worker \<leftarrow> march_NewContainer parse env cfg;
     if \<not> enListens env then None
     else do {
       (ok, registry, e) \<leftarrow> reg_Register E marshal (enDialed env) (server_of (ecRegister (cEtcd cfg))) (cID cfg) NewRegistry e;
       if ok then Some (worker, registry, e) else None
     }
   }"

definition march_main ::
    "'e Etcd \<Rightarrow> (Server \<Rightarrow> string) \<Rightarrow> (string \<Rightarrow> Server option) \<Rightarrow> node_env \<Rightarrow> MarchConfiguration option \<Rightarrow> 'e \<Rightarrow> (MarchWorker \<times> Registry \<times> 'e) option" where
  "march_main E marshal parse env cfg e = do {
     cfg \<leftarrow> node_main (Load_config (enReadable env) (enBase env) (enNodeID env) cfg);
     march_Run E marshal parse env cfg e
   }"

text \<open>\<open>stop\<close>: registry and container, after the gRPC server.\<close>

definition march_stop :: "(part \<Rightarrow> bool) \<Rightarrow> Registry \<times> Container \<Rightarrow> (Registry \<times> part list \<times> nat \<times> Container) option" where
  "march_stop fails rc = do {
     registry \<leftarrow> reg_Close (fst rc);
     Some (registry, march_Close fails (snd rc))
   }"

text \<open>\<open>stop\<close> of the auth node with the deferred end of its container; the goroutine that registers may not have come to it.\<close>

definition auth_stop :: "(part \<Rightarrow> bool) \<Rightarrow> Registry \<Rightarrow> (Registry \<times> part list \<times> part option) option" where
  "auth_stop fails registry = do {
     registry \<leftarrow> reg_Close registry;
     Some (registry, auth_Close fails)
   }"

section \<open>Start and end of the game node\<close>

record 'g GameRun =
  grWorker :: "'g Worker"
  grRegistry :: Registry
  grNats :: NatsWorker
  grMonitor :: goroutine
  grMonitorStop :: bool

definition NewGameRun :: "'g Worker \<Rightarrow> 'g GameRun" where
  "NewGameRun w = \<lparr>grWorker = w, grRegistry = NewRegistry, grNats = NewNatsWorker, grMonitor = Unstarted, grMonitorStop = False\<rparr>"

text \<open>\<open>Start\<close>: the result is \<open>False\<close> for an error.\<close>

definition game_Start ::
    "'e Etcd \<Rightarrow> (Server \<Rightarrow> string) \<Rightarrow> bool \<Rightarrow> Server \<Rightarrow> bool \<Rightarrow> 'g GameRun \<Rightarrow> 'e \<Rightarrow> (bool \<times> 'g GameRun \<times> 'e) option" where
  "game_Start E marshal dialed conf connects gr e = do {
     (ok, registry, e) \<leftarrow> reg_Register E marshal dialed conf (NodeID (grWorker gr)) (grRegistry gr) e;
     let gr = gr\<lparr>grRegistry := registry\<rparr>;
     if \<not> ok then Some (False, gr, e)
     else case nats_Run connects (grNats gr) of
       (False, nats) \<Rightarrow> Some (False, gr\<lparr>grNats := nats\<rparr>, e)
     | (True, nats) \<Rightarrow> Some (True, gr\<lparr>grNats := nats, grMonitor := Spawned\<rparr>, e)
   }"

text \<open>A report of \<open>Monitor.Report\<close>, the first or one on a tick.\<close>

definition Monitor_Report :: "'e Etcd \<Rightarrow> (Server \<Rightarrow> string) \<Rightarrow> rat list option \<Rightarrow> nat \<Rightarrow> 'g GameRun \<Rightarrow> 'e \<Rightarrow> 'g GameRun \<times> 'e" where
  "Monitor_Report E marshal percentages sys gr e = (case reportLoad E marshal percentages sys (wRooms (grWorker gr)) (grRegistry gr) e of
     (ok, registry, e) \<Rightarrow> (gr\<lparr>grRegistry := registry, grMonitor := Looping\<rparr>, e))"

definition Monitor_Stop :: "'g GameRun \<Rightarrow> 'g GameRun option" where
  "Monitor_Stop gr = (if grMonitorStop gr then None else Some (gr\<lparr>grMonitorStop := True\<rparr>))"

definition game_Close :: "'g GameRun \<Rightarrow> 'g GameRun option" where
  "game_Close gr = do {
     gr \<leftarrow> Monitor_Stop (gr\<lparr>grWorker := WorkerClose (grWorker gr)\<rparr>);
     registry \<leftarrow> reg_Close (grRegistry gr);
     Some (gr\<lparr>grRegistry := registry, grNats := nats_Close (grNats gr)\<rparr>)
   }"

text \<open>The container, whose \<open>Close\<close> ignores the errors of the databases, and the end of \<open>Run\<close>: \<open>stop\<close> and the deferred \<open>Close\<close>.\<close>

record 'g GameContainer =
  gcRun :: "'g GameRun"
  gcMongo :: bool
  gcRedis :: bool
  gcClosed :: bool

definition game_container_Close :: "'g GameContainer \<Rightarrow> 'g GameContainer option" where
  "game_container_Close c =
     (if gcClosed c then Some c
      else do {
        gr \<leftarrow> game_Close (gcRun c);
        Some (c\<lparr>gcRun := gr, gcMongo := False, gcRedis := False, gcClosed := True\<rparr>)
      })"

definition game_exit :: "'g GameContainer \<Rightarrow> 'g GameContainer option" where
  "game_exit c = do { c \<leftarrow> game_container_Close c; game_container_Close c }"

text \<open>What goes on in a running game node as far as its registration is concerned.\<close>

datatype 'g game_op = RoomsChange "'g RoomManager" | MonitorRound "rat list option" nat | LeaseOp reg_op

fun game_step :: "'e Etcd \<Rightarrow> (Server \<Rightarrow> string) \<Rightarrow> 'g game_op \<Rightarrow> 'g GameRun \<times> 'e \<Rightarrow> 'g GameRun \<times> 'e" where
  "game_step E marshal (RoomsChange rm) (gr, e) = (gr\<lparr>grWorker := (grWorker gr)\<lparr>wRooms := rm\<rparr>\<rparr>, e)"
| "game_step E marshal (MonitorRound percentages sys) (gr, e) = Monitor_Report E marshal percentages sys gr e"
| "game_step E marshal (LeaseOp op) (gr, e) = (case reg_step E marshal op (grRegistry gr, e) of (r, e) \<Rightarrow> (gr\<lparr>grRegistry := r\<rparr>, e))"

section \<open>Start-up\<close>

lemma Load_config_ok:
  "Load_config readable base nodeID cfg = Inr c \<longleftrightarrow> readable \<and> base \<noteq> None \<and> nodeID \<noteq> [] \<and> (\<exists>c'. cfg = Some c' \<and> c = c'\<lparr>cID := nodeID\<rparr>)"
  by (auto simp: Load_config_def Let_def split: option.split)

lemma march_main_up:
  assumes "march_main E marshal parse env cfg e = Some (w, r, e')"
  obtains c where "cfg = Some c" "enNodeID env \<noteq> []" "w = NewMarchWorker (enNodeID env) (map pool_run (cMarchPools c))"
    "\<forall>p \<in> set (cMarchPools c). cfgStrategy p = ''classic:poll''"
    "reg_Register E marshal (enDialed env) (server_of (ecRegister (cEtcd c))) (enNodeID env) NewRegistry e = Some (True, r, e')"
proof -
  obtain c' where c': "Load_config (enReadable env) (enBase env) (enNodeID env) cfg = Inr c'" "march_Run E marshal parse env c' e = Some (w, r, e')"
    using assms by (auto simp: march_main_def node_main_def bind_eq_Some_conv split: sum.split_asm)
  then obtain c where c: "cfg = Some c" "enNodeID env \<noteq> []" "c' = c\<lparr>cID := enNodeID env\<rparr>" by (auto simp: Load_config_ok)
  have "fst (InitMatchPools (cMarchPools c) []) = None" using c'(2) c(3)
    by (auto simp: march_Run_def march_NewContainer_def bind_eq_Some_conv split: prod.split_asm option.split_asm)
  then have "\<forall>p \<in> set (cMarchPools c). cfgStrategy p = ''classic:poll''"
    using InitMatchPools_spec [of "cMarchPools c" "[]"] by (auto simp: InitMatchPools_def split: sum.split_asm if_split_asm)
  moreover have "w = NewMarchWorker (enNodeID env) (map pool_run (cMarchPools c))"
    "reg_Register E marshal (enDialed env) (server_of (ecRegister (cEtcd c))) (enNodeID env) NewRegistry e = Some (True, r, e')"
    using c'(2) c(3) by (auto simp: march_Run_def march_NewContainer_def bind_eq_Some_conv split: prod.split_asm option.split_asm if_split_asm)
  ultimately show thesis using that c by blast
qed

text \<open>The key of a client for the domain of a server is the beginning of the server's key.\<close>

lemma client_key:
  assumes "name = d \<or> name = ''/'' @ d" "\<not> HasPrefix d ''/''"
  shows "TrimPrefix (target_path (fst (initClient name lb))) ''/'' = d"
  using assms by (auto simp: initClient_def target_path_def TrimPrefix_def HasPrefix_def)

definition service_name :: "Server \<Rightarrow> string" where
  "service_name s = (if Version s = [] then Domain s else Domain s @ ''/'' @ Version s)"

lemma buildKey_matches: "key_matches (service_name s) (buildKey s)"
  by (simp add: key_matches_def service_name_def buildKey_def HasPrefix_def)

lemma Build_finds:
  assumes "(buildKey s, v) \<in> set kvs" "parse v = Some s" "TrimPrefix path ''/'' = service_name s"
  shows "\<exists>res. resolver_Build parse (\<lambda>as. True) path (Some kvs) = Some res \<and> weighted s \<in> set (last (handed res))"
proof -
  have "weighted s \<in> set (addresses parse (service_name s) kvs)"
    using assms(1,2) buildKey_matches [of s] by (force simp: addresses_def map_filter_def image_iff)
  then show ?thesis using assms(3) by (auto simp: resolver_Build_def resolver_sync_def UpdateState_def Let_def)
qed

section \<open>Ends\<close>

lemma close_once: "snd (snd (march_Close fails c)) = c\<lparr>coClosed := True\<rparr>" "fst (march_Close fails' (c\<lparr>coClosed := True\<rparr>)) = []"
  by (auto simp: march_Close_def Let_def)

text \<open>The registration of a running game node goes through steps of the registry.\<close>

lemma game_steps_registry:
  "\<exists>rops. fold (reg_step E marshal) rops (grRegistry (fst ge), snd ge) = (grRegistry (fst (fold (game_step E marshal) ops ge)), snd (fold (game_step E marshal) ops ge))"
proof (induction ops arbitrary: ge)
  case (Cons op ops)
  obtain gr e where ge: "ge = (gr, e)" by fastforce
  have "\<exists>rop. fold (reg_step E marshal) rop (grRegistry gr, e) = (grRegistry (fst (game_step E marshal op ge)), snd (game_step E marshal op ge))"
  proof (cases op)
    case (RoomsChange rm)
    then show ?thesis using ge by (intro exI [of _ "[]"]) simp
  next
    case (MonitorRound p sys)
    then show ?thesis using ge
      by (intro exI [of _ "[Report (CalculateLoad (collectLoadInfo p sys (wRooms (grWorker gr))))]"])
        (auto simp: Monitor_Report_def reportLoad_def split: prod.split)
  next
    case (LeaseOp op)
    then show ?thesis using ge by (intro exI [of _ "[op]"]) (auto split: prod.split)
  qed
  then show ?case using Cons.IH [of "game_step E marshal op ge"] ge by (metis fold_Cons fold_append comp_apply fst_conv snd_conv)
qed (auto intro: exI [of _ "[]"])

lemma game_step_keeps:
  "grMonitorStop (fst (game_step E marshal op ge)) = grMonitorStop (fst ge) \<and> closeCh (grRegistry (fst (game_step E marshal op ge))) = closeCh (grRegistry (fst ge))"
proof -
  have "closeCh (fst (reg_step E marshal o' (r, e))) = closeCh r" for o' r e
  proof (cases o')
    case ReplyLost
    then show ?thesis using doRegister_closeCh [of E marshal "r\<lparr>keepAliveCh := False\<rparr>" e]
      by (cases "doRegister E marshal (r\<lparr>keepAliveCh := False\<rparr>) e") (auto simp: keepAlive_lost_def)
  next
    case Tick
    then show ?thesis using doRegister_closeCh [of E marshal r e] by (cases "doRegister E marshal r e") (auto simp: watch_tick_def)
  qed (simp add: UpdateLoad_def Let_def split: prod.split)
  then show ?thesis
    by (cases ge; cases op) (auto simp: Monitor_Report_def reportLoad_def UpdateLoad_def Let_def split: prod.split, metis fst_conv)
qed

lemma game_steps_keep:
  "grMonitorStop (fst (fold (game_step E marshal) ops ge)) = grMonitorStop (fst ge)
   \<and> closeCh (grRegistry (fst (fold (game_step E marshal) ops ge))) = closeCh (grRegistry (fst ge))"
  by (induction ops arbitrary: ge) (simp_all add: game_step_keeps)

lemma game_exit_ok:
  assumes "\<not> grMonitorStop (gcRun c)" "closeCh (grRegistry (gcRun c)) = Some False" "\<not> gcClosed c"
  shows "\<exists>c'. game_exit c = Some c' \<and> gcClosed c' \<and> \<not> gcMongo c' \<and> \<not> gcRedis c' \<and> destroyClosed (grWorker (gcRun c')) \<and> grMonitorStop (gcRun c')
     \<and> \<not> nwConnected (grNats (gcRun c')) \<and> closeCh (grRegistry (gcRun c')) = Some True"
  using assms by (simp add: game_exit_def game_container_Close_def game_Close_def Monitor_Stop_def reg_Close_def WorkerClose_def nats_Close_def)

section \<open>Properties\<close>

lemma doRegister_info: "doRegister E marshal r e = (ok, r', e') \<Longrightarrow> regInfo r' = regInfo r"
  by (auto simp: doRegister_def grantLease_def split: prod.splits option.splits bool.splits if_splits)

lemma Register_info:
  assumes "reg_Register E marshal dialed conf nodeID r e = Some (True, r', e')"
  shows "regInfo r' = conf\<lparr>serverID := nodeID, Load := 0\<rparr>" "closeCh r' = Some False"
proof -
  obtain r0 where "doRegister E marshal (r\<lparr>regInfo := conf\<lparr>serverID := nodeID, Load := 0\<rparr>\<rparr>) e = (True, r0, e')" "r' = r0\<lparr>closeCh := Some False\<rparr>"
    by (rule Register_success [OF assms])
  then show "regInfo r' = conf\<lparr>serverID := nodeID, Load := 0\<rparr>" "closeCh r' = Some False" by (auto dest: doRegister_info)
qed


text \<open>A march node with one pool and a name in two parts.\<close>

definition march_cfg :: MarchConfiguration where
  "march_cfg = \<lparr>cID = [], cServerType = ''march'', cMetricPort = 9096,
     cDatabase = \<lparr>dcMongo = \<lparr>mgUrl = ''mongodb'', mgDb = ''db'', mgUsername = [], mgPassword = [], mgMinPoolSize = 10, mgMaxPoolSize = 100\<rparr>,
       dcRedis = \<lparr>rcAddr = ''redis'', rcHost = [], rcPort = 0, rcClusterAddrs = []\<rparr>\<rparr>,
     cJwt = \<lparr>jcSecret = ''s'', jcExpire = 7, jcAllowTestPath = False\<rparr>,
     cEtcd = \<lparr>ecAddrs = [''etcd''], ecRWTimeout = 3, ecDialTimeout = 3, ecRegister = \<lparr>rsAddr = ''a'', rsDomain = ''march'', rsVersion = ''v1'', rsWeight = 10, rsTtl = 30\<rparr>\<rparr>,
     cLog = \<lparr>lgLevel = ''info'', lgPath = ''logs''\<rparr>, cMarchNats = ''nats'', cMarchPools = [casual_cfg], cMarchDomains = Map.empty\<rparr>"

definition march_env :: node_env where
  "march_env = \<lparr>enReadable = True, enBase = Some \<lparr>cID = [], cServerType = ''march'', cMetricPort = 9096\<rparr>, enNodeID = ''m1'', enConnects = True, enPings = True,
     enPong = True, enDialed = True, enNodes = Some [], enListens = True\<rparr>"

definition march_server :: Server where
  "march_server = \<lparr>Domain = ''march'', Addr = ''a'', Weight = 10, Version = ''v1'', Ttl = 30, Load = 0, serverID = ''m1''\<rparr>"




section \<open>Flaws\<close>

text \<open>A signal that comes before the registration is through ends the game and the auth node with a panic.\<close>

lemma early_signal_panics:
  "game_exit \<lparr>gcRun = NewGameRun gw, gcMongo = True, gcRedis = True, gcClosed = False\<rparr> = None" "auth_stop fails NewRegistry = None"
  by (simp_all add: game_exit_def game_container_Close_def game_Close_def Monitor_Stop_def NewGameRun_def reg_Close_def NewRegistry_def auth_stop_def)

text \<open>The auth node goes on without a configuration.\<close>

lemma auth_runs_unconfigured: "auth_main zero (Load_config readable base [] cfg) = Some zero"
  by (auto simp: auth_main_def Load_config_def split: option.split)

text \<open>The health check of the connector passes on a march node whose queues cannot be used: everybody is said to be waiting, so the queue is never tried.\<close>

lemma health_check_blind: "healthCheckMarch True up R findByID time s = (True, s)"
  by (simp add: healthCheckMarch_def QueryStatus_def)

end
