(* ===== verification/Gate.thy ===== *)
theory Gate
  imports AuthSpec Resolver Connector
begin

text \<open>
  The HTTP front: \<^verbatim>\<open>gate/infrastructure/http/{context,response,middleware}.go\<close> and the handlers of \<^verbatim>\<open>gate/api\<close>.

  \<^item> A request is a \<open>Context\<close>: its headers, path parameters and stored values, the parsed body, and the responses written, the
    status first.  gin itself is not modelled; \<open>c.Abort\<close> and \<open>c.Next\<close> are the flag \<open>aborted\<close> and the handler that follows.
  \<^item> Binding a JSON body is a parameter with the handler's struct as its result.  The texts shown to users are named by a datatype.
  \<^item> The RPC client is a parameter: a status error with its code (\<open>None\<close> for codes the handlers do not look at) and message, or another error.
\<close>

section \<open>Contexts and responses\<close>

datatype jval = JStr string | JInt int | JBool bool | JArr "jval list" | JObj "(string \<times> jval) list" | JText Text
and Text = TSuccess | BadParams | WrongPassword | NoSuchUser | LoginFailed | AccountTaken | RegisterFailed | NoToken | BadTokenFormat | NotAuthenticated
  | ProfileFailed | UpdateFailed | Updated | LogoutFailed | LoggedOut | CreateFailed | RoomCreated | RoomIDEmpty | JoinFailed string | RoomJoined
  | LeaveFailed | RoomLeft | Unhealthy | Plain string | RoomName nat | Tester

record Response =
  rspCode :: int
  rspMessage :: Text
  rspData :: "jval option"

record 'body Context =
  headers :: "string \<Rightarrow> string"
  params :: "string \<Rightarrow> string"
  stored_values :: "string \<rightharpoonup> jval"
  body :: 'body
  responses :: "(int \<times> Response) list"
  aborted :: bool

definition JSON :: "int \<Rightarrow> Response \<Rightarrow> 'b Context \<Rightarrow> 'b Context" where
  "JSON status rsp c = c\<lparr>responses := responses c @ [(status, rsp)]\<rparr>"

definition SuccessWithMessage :: "Text \<Rightarrow> jval option \<Rightarrow> 'b Context \<Rightarrow> 'b Context" where
  "SuccessWithMessage message d = JSON 200 \<lparr>rspCode = 0, rspMessage = message, rspData = d\<rparr>"

definition Success :: "jval option \<Rightarrow> 'b Context \<Rightarrow> 'b Context" where
  "Success d = JSON 200 \<lparr>rspCode = 0, rspMessage = TSuccess, rspData = d\<rparr>"

definition ErrorWithCode :: "int \<Rightarrow> Text \<Rightarrow> 'b Context \<Rightarrow> 'b Context" where
  "ErrorWithCode code message = JSON 200 \<lparr>rspCode = code, rspMessage = message, rspData = None\<rparr>"

definition BadRequest :: "Text \<Rightarrow> 'b Context \<Rightarrow> 'b Context" where
  "BadRequest message = JSON 400 \<lparr>rspCode = 400, rspMessage = message, rspData = None\<rparr>"

definition Unauthorized :: "Text \<Rightarrow> 'b Context \<Rightarrow> 'b Context" where
  "Unauthorized message = JSON 401 \<lparr>rspCode = 401, rspMessage = message, rspData = None\<rparr>"

definition rsp_NotFound :: "Text \<Rightarrow> 'b Context \<Rightarrow> 'b Context" where
  "rsp_NotFound message = JSON 404 \<lparr>rspCode = 404, rspMessage = message, rspData = None\<rparr>"

definition InternalServerError :: "Text \<Rightarrow> 'b Context \<Rightarrow> 'b Context" where
  "InternalServerError message = JSON 500 \<lparr>rspCode = 500, rspMessage = message, rspData = None\<rparr>"

definition GetString :: "string \<Rightarrow> 'b Context \<Rightarrow> string" where
  "GetString key c = (case stored_values c key of Some (JStr s) \<Rightarrow> s | _ \<Rightarrow> [])"

definition GetParam :: "string \<Rightarrow> 'b Context \<Rightarrow> string" where
  "GetParam key c = params c key"

text \<open>\<open>WrapHandler\<close>: the error a handler returns, if any, is answered.\<close>

definition WrapHandler :: "('b Context \<Rightarrow> string option \<times> 'b Context) \<Rightarrow> 'b Context \<Rightarrow> 'b Context" where
  "WrapHandler h c = (case h c of (None, c) \<Rightarrow> c | (Some err, c) \<Rightarrow> InternalServerError (Plain err) c)"

definition CorsMiddleware :: "string \<Rightarrow> ('b Context \<Rightarrow> 'b Context) \<Rightarrow> 'b Context \<Rightarrow> 'b Context" where
  "CorsMiddleware meth follow c = (if meth = ''OPTIONS'' then c\<lparr>aborted := True\<rparr> else follow c)"

definition AuthMiddleware :: "('b Context \<Rightarrow> 'b Context) \<Rightarrow> 'b Context \<Rightarrow> 'b Context" where
  "AuthMiddleware follow c =
     (let authHeader = headers c ''Authorization''
      in if authHeader = [] then (Unauthorized NoToken c)\<lparr>aborted := True\<rparr>
         else let token = TrimPrefix authHeader ''Bearer ''
              in if token = authHeader then (Unauthorized BadTokenFormat c)\<lparr>aborted := True\<rparr>
                 else follow (c\<lparr>stored_values := (stored_values c)(''userID'' \<mapsto> JStr token)\<rparr>))"

section \<open>Accounts\<close>

datatype rpc_error = StatusErr "grpc_code option" string | PlainErr

definition generateToken :: "string \<Rightarrow> string" where
  "generateToken uid = ''uid-token''"

text \<open>\<open>bindJSON\<close> gives the account and the password.\<close>

definition LoginHandler ::
    "('b \<Rightarrow> (string \<times> string) option) \<Rightarrow> (string \<Rightarrow> string \<Rightarrow> 's \<Rightarrow> (rpc_error + string) \<times> 's) \<Rightarrow> 'b Context \<Rightarrow> 's \<Rightarrow> (string option \<times> 'b Context) \<times> 's" where
  "LoginHandler bindJSON rpcLogin c s = (case bindJSON (body c) of
     None \<Rightarrow> ((None, BadRequest BadParams c), s)
   | Some (account, password) \<Rightarrow> (case rpcLogin account password s of
       (Inl (StatusErr (Some Unauthenticated) m), s) \<Rightarrow> ((None, Unauthorized WrongPassword c), s)
     | (Inl (StatusErr (Some NotFound) m), s) \<Rightarrow> ((None, rsp_NotFound NoSuchUser c), s)
     | (Inl _, s) \<Rightarrow> ((None, InternalServerError LoginFailed c), s)
     | (Inr uid, s) \<Rightarrow> ((None, Success (Some (JObj [(''token'', JStr (generateToken uid))])) c), s)))"

text \<open>\<open>bindJSON\<close> gives the account, the password and the email, which is not used further.\<close>

definition RegisterHandler ::
    "('b \<Rightarrow> (string \<times> string \<times> string) option) \<Rightarrow> (string \<Rightarrow> string \<Rightarrow> string \<Rightarrow> 's \<Rightarrow> (rpc_error + string) \<times> 's) \<Rightarrow>
     'b Context \<Rightarrow> 's \<Rightarrow> (string option \<times> 'b Context) \<times> 's" where
  "RegisterHandler bindJSON rpcRegister c s = (case bindJSON (body c) of
     None \<Rightarrow> ((None, BadRequest BadParams c), s)
   | Some (account, password, email) \<Rightarrow> (case rpcRegister account password ''0'' s of
       (Inl (StatusErr (Some AlreadyExists) m), s) \<Rightarrow> ((None, ErrorWithCode 40001 AccountTaken c), s)
     | (Inl (StatusErr (Some InvalidArgument) m), s) \<Rightarrow> ((None, BadRequest (Plain m) c), s)
     | (Inl _, s) \<Rightarrow> ((None, InternalServerError RegisterFailed c), s)
     | (Inr uid, s) \<Rightarrow> ((None, Success (Some (JObj [(''token'', JStr (generateToken uid))])) c), s)))"

definition RefreshTokenHandler :: "('b \<Rightarrow> string option) \<Rightarrow> 'b Context \<Rightarrow> string option \<times> 'b Context" where
  "RefreshTokenHandler bindJSON c = (case bindJSON (body c) of
     None \<Rightarrow> (None, BadRequest BadParams c)
   | Some refreshToken \<Rightarrow> (None, Success (Some (JObj [(''token'', JStr ''uid-token'')])) c))"

section \<open>Health\<close>

definition PingHandler :: "int \<Rightarrow> 'b Context \<Rightarrow> string option \<times> 'b Context" where
  "PingHandler now c =
     (None, Success (Some (JObj [(''message'', JStr ''pong''), (''timestamp'', JInt now), (''service'', JStr ''gate'')])) c)"

definition checkServiceHealth :: "int \<Rightarrow> (string \<times> jval) list" where
  "checkServiceHealth now =
     [(''healthy'', JBool True),
      (''services'', JObj [(''database'', JStr ''ok''), (''redis'', JStr ''ok''), (''user_service'', JStr ''ok'')]),
      (''timestamp'', JInt now)]"

text \<open>The outer \<open>option\<close> is the type assertion on the flag.\<close>

definition HealthHandler :: "int \<Rightarrow> 'b Context \<Rightarrow> (string option \<times> 'b Context) option" where
  "HealthHandler now c = (case map_of (checkServiceHealth now) ''healthy'' of
     Some (JBool b) \<Rightarrow> Some (None, if b then Success (Some (JObj (checkServiceHealth now))) c else ErrorWithCode 50001 Unhealthy c)
   | _ \<Rightarrow> None)"

section \<open>Profiles\<close>

definition getUserProfile :: "string \<Rightarrow> string + jval" where
  "getUserProfile userID = Inr (JObj [(''user_id'', JStr userID), (''username'', JStr ''test_user''), (''nickname'', JText Tester),
     (''email'', JStr ''test@example.com''), (''avatar'', JStr ''https://example.com/avatar.jpg'')])"

definition GetProfileHandler :: "'b Context \<Rightarrow> string option \<times> 'b Context" where
  "GetProfileHandler c =
     (let userID = GetString ''userID'' c
      in if userID = [] then (None, Unauthorized NotAuthenticated c)
         else case getUserProfile userID of
                Inl e \<Rightarrow> (None, InternalServerError ProfileFailed c)
              | Inr profile \<Rightarrow> (None, Success (Some profile) c))"

definition updateUserProfile :: "string \<Rightarrow> string \<Rightarrow> string \<Rightarrow> string \<Rightarrow> string option" where
  "updateUserProfile userID nickname avatar email = None"

definition UpdateProfileHandler :: "('b \<Rightarrow> (string \<times> string \<times> string) option) \<Rightarrow> 'b Context \<Rightarrow> string option \<times> 'b Context" where
  "UpdateProfileHandler bindJSON c =
     (let userID = GetString ''userID'' c
      in if userID = [] then (None, Unauthorized NotAuthenticated c)
         else case bindJSON (body c) of
                None \<Rightarrow> (None, BadRequest BadParams c)
              | Some (nickname, avatar, email) \<Rightarrow>
                  (None, if updateUserProfile userID nickname avatar email \<noteq> None then InternalServerError UpdateFailed c
                         else SuccessWithMessage Updated None c))"

definition clearUserSession :: "string \<Rightarrow> string option" where
  "clearUserSession userID = None"

definition LogoutHandler :: "'b Context \<Rightarrow> string option \<times> 'b Context" where
  "LogoutHandler c =
     (let userID = GetString ''userID'' c
      in (None, if userID = [] then Unauthorized NotAuthenticated c
         else if clearUserSession userID \<noteq> None then InternalServerError LogoutFailed c
         else SuccessWithMessage LoggedOut None c))"

section \<open>Rooms\<close>

definition room_entry :: "string \<Rightarrow> nat \<Rightarrow> int \<Rightarrow> bool \<Rightarrow> jval" where
  "room_entry i n users public = JObj [(''id'', JStr i), (''name'', JText (RoomName n)), (''current_users'', JInt users),
     (''max_users'', JInt 4), (''is_public'', JBool public)]"

definition getRoomList :: "jval list" where
  "getRoomList = [room_entry ''room_1'' 1 2 True, room_entry ''room_2'' 2 1 False]"

definition GetRoomsHandler :: "'b Context \<Rightarrow> string option \<times> 'b Context" where
  "GetRoomsHandler c =
     (let userID = GetString ''userID'' c
      in (None, if userID = [] then Unauthorized NotAuthenticated c
         else Success (Some (JObj [(''rooms'', JArr getRoomList), (''total'', JInt (int (length getRoomList)))])) c))"

definition createGameRoom :: "string \<Rightarrow> string \<Rightarrow> int \<Rightarrow> bool \<Rightarrow> string + string" where
  "createGameRoom userID name maxUsers isPublic = Inr (''room_'' @ userID @ ''_'' @ name)"

definition CreateRoomHandler :: "('b \<Rightarrow> (string \<times> int \<times> bool) option) \<Rightarrow> 'b Context \<Rightarrow> string option \<times> 'b Context" where
  "CreateRoomHandler bindJSON c =
     (let userID = GetString ''userID'' c
      in if userID = [] then (None, Unauthorized NotAuthenticated c)
         else case bindJSON (body c) of
                None \<Rightarrow> (None, BadRequest BadParams c)
              | Some (name, maxUsers, isPublic) \<Rightarrow> (case createGameRoom userID name maxUsers isPublic of
                    Inl e \<Rightarrow> (None, InternalServerError CreateFailed c)
                  | Inr roomID \<Rightarrow> (None, SuccessWithMessage RoomCreated (Some (JObj [(''room_id'', JStr roomID), (''name'', JStr name)])) c)))"

definition joinGameRoom :: "string \<Rightarrow> string \<Rightarrow> string option" where
  "joinGameRoom userID roomID = None"

definition JoinRoomHandler :: "'b Context \<Rightarrow> string option \<times> 'b Context" where
  "JoinRoomHandler c =
     (let userID = GetString ''userID'' c; roomID = GetParam ''id'' c
      in (None, if userID = [] then Unauthorized NotAuthenticated c
         else if roomID = [] then BadRequest RoomIDEmpty c
         else case joinGameRoom userID roomID of
                Some err \<Rightarrow> ErrorWithCode 40001 (JoinFailed err) c
              | None \<Rightarrow> SuccessWithMessage RoomJoined (Some (JObj [(''room_id'', JStr roomID)])) c))"

definition leaveGameRoom :: "string \<Rightarrow> string \<Rightarrow> string option" where
  "leaveGameRoom userID roomID = None"

definition LeaveRoomHandler :: "'b Context \<Rightarrow> string option \<times> 'b Context" where
  "LeaveRoomHandler c =
     (let userID = GetString ''userID'' c; roomID = GetParam ''id'' c
      in (None, if userID = [] then Unauthorized NotAuthenticated c
         else if roomID = [] then BadRequest RoomIDEmpty c
         else if leaveGameRoom userID roomID \<noteq> None then InternalServerError LeaveFailed c
         else SuccessWithMessage RoomLeft None c))"

section \<open>Routes\<close>

record ('b, 's) gate_env =
  geBindLogin :: "'b \<Rightarrow> (string \<times> string) option"
  geBindRegister :: "'b \<Rightarrow> (string \<times> string \<times> string) option"
  geBindRefresh :: "'b \<Rightarrow> string option"
  geLogin :: "string \<Rightarrow> string \<Rightarrow> 's \<Rightarrow> (rpc_error + string) \<times> 's"
  geRegister :: "string \<Rightarrow> string \<Rightarrow> string \<Rightarrow> 's \<Rightarrow> (rpc_error + string) \<times> 's"
  geNow :: int

text \<open>A handler with the state behind the RPC client; the recovery of gin answers a panic with the bare status.\<close>

definition route :: "('b Context \<Rightarrow> 's \<Rightarrow> (string option \<times> 'b Context) \<times> 's) \<Rightarrow> 'b Context \<Rightarrow> 's \<Rightarrow> 'b Context \<times> 's" where
  "route h c s = (WrapHandler (\<lambda>c. fst (h c s)) c, snd (h c s))"

definition recovered :: "('b Context \<Rightarrow> (string option \<times> 'b Context) option) \<Rightarrow> 'b Context \<Rightarrow> string option \<times> 'b Context" where
  "recovered h c = (case h c of None \<Rightarrow> (None, c\<lparr>aborted := True\<rparr>) | Some r \<Rightarrow> r)"

definition RegisterRoutes :: "('b, 's) gate_env \<Rightarrow> ((string \<times> string) \<times> ('b Context \<Rightarrow> 's \<Rightarrow> 'b Context \<times> 's)) list" where
  "RegisterRoutes env =
     [((''GET'', ''/ping''), route (\<lambda>c s. (PingHandler (geNow env) c, s))),
      ((''GET'', ''/health''), route (\<lambda>c s. (recovered (HealthHandler (geNow env)) c, s))),
      ((''POST'', ''/api/v1/auth/login''), route (LoginHandler (geBindLogin env) (geLogin env))),
      ((''POST'', ''/api/v1/auth/register''), route (RegisterHandler (geBindRegister env) (geRegister env))),
      ((''POST'', ''/api/v1/auth/refresh''), route (\<lambda>c s. (RefreshTokenHandler (geBindRefresh env) c, s)))]"

text \<open>\<open>None\<close>: no route.\<close>

definition serve :: "('b, 's) gate_env \<Rightarrow> string \<Rightarrow> string \<Rightarrow> 'b Context \<Rightarrow> 's \<Rightarrow> ('b Context \<times> 's) option" where
  "serve env meth path c s = map_option (\<lambda>h. h c s) (map_of (RegisterRoutes env) (meth, path))"

section \<open>The calls of the auth node\<close>

text \<open>How the gate sees the providers of the auth node; a panic there is a status error of another code.  \<open>text\<close> is the message.\<close>

definition rpcLogin :: "auth_env \<Rightarrow> 'db Mongo \<Rightarrow> string \<Rightarrow> string \<Rightarrow> string \<Rightarrow> 'db \<Rightarrow> (rpc_error + string) \<times> 'db" where
  "rpcLogin ae M text account password db = (case provider_Login ae M account password db of
     None \<Rightarrow> (Inl (StatusErr None text), db)
   | Some (Inl code, db) \<Rightarrow> (Inl (StatusErr (Some code) text), db)
   | Some (Inr uid, db) \<Rightarrow> (Inr uid, db))"

definition rpcRegister :: "auth_env \<Rightarrow> 'db Mongo \<Rightarrow> string \<Rightarrow> string \<Rightarrow> string \<Rightarrow> string \<Rightarrow> 'db \<Rightarrow> (rpc_error + string) \<times> 'db" where
  "rpcRegister ae M text account password smsCode db = (case provider_Register ae M account password smsCode db of
     (Inl code, db) \<Rightarrow> (Inl (StatusErr (Some code) text), db)
   | (Inr uid, db) \<Rightarrow> (Inr uid, db))"

section \<open>Properties\<close>

lemmas response_defs = JSON_def Success_def SuccessWithMessage_def ErrorWithCode_def BadRequest_def Unauthorized_def rsp_NotFound_def InternalServerError_def

text \<open>Every answer has the status its code stands for.\<close>

definition well_coded :: "int \<times> Response \<Rightarrow> bool" where
  "well_coded sr = (case sr of (status, rsp) \<Rightarrow>
     if status = 200 then rspCode rsp \<in> {0, 40001, 50001} \<and> (rspCode rsp \<noteq> 0 \<longrightarrow> rspData rsp = None)
     else rspCode rsp = status \<and> status \<in> {400, 401, 404, 500} \<and> rspData rsp = None)"

definition answered :: "'b Context \<Rightarrow> 'b Context \<Rightarrow> bool" where
  "answered c c' \<longleftrightarrow> (\<exists>sr. responses c' = responses c @ [sr] \<and> well_coded sr) \<and> aborted c' = aborted c"

lemma answered_JSON: "answered c (JSON status rsp c) = well_coded (status, rsp)"
  by (simp add: answered_def JSON_def)

named_theorems answers

lemma answered_response [answers]:
  "answered c (Success d c)" "answered c (SuccessWithMessage t d c)" "answered c (BadRequest t c)" "answered c (Unauthorized t c)"
  "answered c (rsp_NotFound t c)" "answered c (InternalServerError t c)" "n \<in> {40001, 50001} \<Longrightarrow> answered c (ErrorWithCode n t c)"
  by (auto simp: Success_def SuccessWithMessage_def ErrorWithCode_def BadRequest_def Unauthorized_def rsp_NotFound_def InternalServerError_def
      answered_JSON well_coded_def)

lemma LoginHandler_answers [answers]: "answered c (snd (fst (LoginHandler b l c s)))" "fst (fst (LoginHandler b l c s)) = None"
  by (auto simp: LoginHandler_def answers split: option.split prod.split sum.split rpc_error.split grpc_code.split)

lemma RegisterHandler_answers [answers]: "answered c (snd (fst (RegisterHandler b' r c s)))" "fst (fst (RegisterHandler b' r c s)) = None"
  by (auto simp: RegisterHandler_def answers split: option.split prod.split sum.split rpc_error.split grpc_code.split)

text \<open>C31: every request that has a route is answered exactly once, whatever its body and whatever the auth node replies or fails with; the
  answer's status and code agree, and only a success carries data.\<close>

theorem served_once:
  assumes "serve env meth path c s = Some (c', s')"
  shows "\<exists>status rsp. responses c' = responses c @ [(status, rsp)] \<and> well_coded (status, rsp) \<and> aborted c' = aborted c"
proof -
  have "answered c c'"
    using assms
    by (auto simp: serve_def RegisterRoutes_def route_def WrapHandler_def PingHandler_def recovered_def HealthHandler_def checkServiceHealth_def
        RefreshTokenHandler_def answers split_beta split: if_splits option.splits)
  then show ?thesis by (auto simp: answered_def)
qed

text \<open>C31 on a login whose body has no password.\<close>

theorem served_once_witness:
  "\<exists>c' s'. serve \<lparr>geBindLogin = (\<lambda>b. None), geBindRegister = (\<lambda>b. None), geBindRefresh = (\<lambda>b. None), geLogin = (\<lambda>a p s. (Inl PlainErr, s)),
       geRegister = (\<lambda>a p m s. (Inl PlainErr, s)), geNow = 0\<rparr> ''POST'' ''/api/v1/auth/login''
       \<lparr>headers = (\<lambda>h. []), params = (\<lambda>p. []), stored_values = Map.empty, body = (), responses = [], aborted = False\<rparr> () = Some (c', s')
     \<and> length (responses c') = 1"
proof -
  let ?env = "\<lparr>geBindLogin = (\<lambda>b. None), geBindRegister = (\<lambda>b. None), geBindRefresh = (\<lambda>b. None), geLogin = (\<lambda>a p s. (Inl PlainErr, s)),
       geRegister = (\<lambda>a p m s. (Inl PlainErr, s)), geNow = 0\<rparr>"
  let ?c = "\<lparr>headers = (\<lambda>h. []), params = (\<lambda>p. []), stored_values = Map.empty, body = (), responses = [], aborted = False\<rparr>"
  obtain c' s' where "serve ?env ''POST'' ''/api/v1/auth/login'' ?c () = Some (c', s')" by (simp add: serve_def RegisterRoutes_def route_def)
  with served_once [OF this] show ?thesis by auto
qed


text \<open>A gate in front of the auth node in memory, and a request with an account and a password as its body.\<close>

definition plain_gate :: "(string \<times> string, mem_db) gate_env" where
  "plain_gate = \<lparr>geBindLogin = Some, geBindRegister = (\<lambda>(a, p). Some (a, p, ''a@b.c'')), geBindRefresh = (\<lambda>b. None),
     geLogin = rpcLogin plain_auth mem_mongo [], geRegister = rpcRegister plain_auth mem_mongo [], geNow = 0\<rparr>"

definition request :: "string \<Rightarrow> string \<Rightarrow> (string \<times> string) Context" where
  "request account password =
     \<lparr>headers = (\<lambda>h. []), params = (\<lambda>p. []), stored_values = Map.empty, body = (account, password), responses = [], aborted = False\<rparr>"


section \<open>Flaws\<close>

text \<open>The token is the same for every user.\<close>

lemma token_for_everyone: "generateToken uid = generateToken uid'"
  by (simp add: generateToken_def)

text \<open>A parser of tokens that needs the two dots of a JWT rejects it: no client of the gate can connect with the token it was given.\<close>

lemma gate_token_rejected:
  assumes "\<And>t k u. parseToken t k = Some u \<Longrightarrow> CHR ''.'' \<in> set t" "extractUserIDFromTestPath allowTestPath path = None" "secret \<noteq> []"
  shows "identifyUser allowTestPath secret parseToken path (generateToken uid) = Inl BadToken"
  using assms(1) [of "''uid-token''" secret] assms(2,3) by (cases "parseToken ''uid-token'' secret") (auto simp: identifyUser_def generateToken_def)

text \<open>Behind the middleware any text after \<open>Bearer\<close> is the user: the handler answers for whoever the client says it is.\<close>

lemma any_bearer_is_user:
  assumes "headers c ''Authorization'' = ''Bearer '' @ user" "user \<noteq> []"
  shows "AuthMiddleware (WrapHandler GetProfileHandler) c =
     Success (Some (projr (getUserProfile user))) (c\<lparr>stored_values := (stored_values c)(''userID'' \<mapsto> JStr user)\<rparr>)"
  using assms by (simp add: AuthMiddleware_def TrimPrefix_def HasPrefix_def WrapHandler_def GetProfileHandler_def GetString_def getUserProfile_def)

end
