(* ===== verification/RouteCache.thy ===== *)
theory RouteCache
  imports Connector
begin

text \<open>
  The cache of game routes, \<^verbatim>\<open>connector/infrastructure/cache\<close>.  The connector is modelled with a map in its place; here the cache is what it
  is in the code, an in-memory cache that may forget, and its hits are shown to agree with the map.

  \<^item> The cache library is a parameter: the record \<open>Ristretto\<close> of its calls, of which the locale \<open>ristretto\<close> says what is relied on.  Times are in seconds.
\<close>

section \<open>Caches\<close>

text \<open>Values of type \<open>any\<close>: strings and others.\<close>

datatype cache_value = CStr string | COther nat

record 'c Ristretto =
  rcGet :: "string \<Rightarrow> int \<Rightarrow> 'c \<Rightarrow> cache_value option"
  rcSetWithTTL :: "string \<Rightarrow> cache_value \<Rightarrow> int \<Rightarrow> int \<Rightarrow> 'c \<Rightarrow> bool \<times> 'c"
  rcDel :: "string \<Rightarrow> 'c \<Rightarrow> 'c"

definition SetWithTTL :: "'c Ristretto \<Rightarrow> string \<Rightarrow> cache_value \<Rightarrow> int \<Rightarrow> int \<Rightarrow> 'c \<Rightarrow> bool \<times> 'c" where
  "SetWithTTL C key v ttl time c = rcSetWithTTL C key v ttl time c"

text \<open>\<open>Set\<close> of the general cache, with its default time to live.\<close>

definition general_Set :: "'c Ristretto \<Rightarrow> int \<Rightarrow> string \<Rightarrow> cache_value \<Rightarrow> int \<Rightarrow> 'c \<Rightarrow> bool \<times> 'c" where
  "general_Set C defaultTTL key v time c = SetWithTTL C key v defaultTTL time c"

definition cache_GetString :: "'c Ristretto \<Rightarrow> string \<Rightarrow> int \<Rightarrow> 'c \<Rightarrow> string \<times> bool" where
  "cache_GetString C key time c = (case rcGet C key time c of
     None \<Rightarrow> ([], False)
   | Some (CStr str) \<Rightarrow> (str, True)
   | Some (COther n) \<Rightarrow> ([], False))"

definition cache_Delete :: "'c Ristretto \<Rightarrow> string \<Rightarrow> 'c \<Rightarrow> 'c" where
  "cache_Delete C key c = rcDel C key c"

section \<open>The cache of game routes\<close>

definition routeKey :: string where "routeKey = ''user:route''"

definition route_ttl :: int where "route_ttl = 2 * 60 * 60"

definition route_Set :: "'c Ristretto \<Rightarrow> string \<Rightarrow> string \<Rightarrow> int \<Rightarrow> 'c \<Rightarrow> bool \<times> 'c" where
  "route_Set C userID gameNodeID time c =
     (if userID = [] \<or> gameNodeID = [] then (False, c)
      else let key = routeKey @ '':'' @ userID in SetWithTTL C key (CStr gameNodeID) route_ttl time c)"

definition route_Get :: "'c Ristretto \<Rightarrow> string \<Rightarrow> int \<Rightarrow> 'c \<Rightarrow> string \<times> bool" where
  "route_Get C userID time c = (let key = routeKey @ '':'' @ userID in cache_GetString C key time c)"

definition route_Delete :: "'c Ristretto \<Rightarrow> string \<Rightarrow> 'c \<Rightarrow> 'c" where
  "route_Delete C userID c = (let key = routeKey @ '':'' @ userID in cache_Delete C key c)"

definition route_DeleteBatch :: "'c Ristretto \<Rightarrow> string list \<Rightarrow> 'c \<Rightarrow> 'c" where
  "route_DeleteBatch C userIDs c = fold (\<lambda>userID. cache_Delete C (routeKey @ '':'' @ userID)) userIDs c"

text \<open>What may happen to the cache, each at its time.\<close>

datatype cache_op = SetRoute string string | DeleteRoute string | DeleteRoutes "string list"

fun cache_step :: "'c Ristretto \<Rightarrow> int \<times> cache_op \<Rightarrow> 'c \<Rightarrow> 'c" where
  "cache_step C (t, SetRoute u n) c = snd (route_Set C u n t c)"
| "cache_step C (t, DeleteRoute u) c = route_Delete C u c"
| "cache_step C (t, DeleteRoutes us) c = route_DeleteBatch C us c"

section \<open>A cache that may forget\<close>

text \<open>The last route set for a user and not deleted since, with the time it was set.\<close>

fun route_of :: "int \<times> cache_op \<Rightarrow> (string \<rightharpoonup> string \<times> int) \<Rightarrow> (string \<rightharpoonup> string \<times> int)" where
  "route_of (t, SetRoute u n) m = (if u = [] \<or> n = [] then m else m(u \<mapsto> (n, t)))"
| "route_of (t, DeleteRoute u) m = m(u := None)"
| "route_of (t, DeleteRoutes us) m = m |` (- set us)"

text \<open>\<open>holds_in c m\<close>: what the cache has is in the map with the time at which it expires.  A hit is in the map and has not expired; setting a key, whether or not the
  cache keeps the value, leaves no older value; a deleted key is gone.\<close>

locale ristretto =
  fixes C :: "'c Ristretto" and holds_in :: "'c \<Rightarrow> (string \<rightharpoonup> cache_value \<times> int) \<Rightarrow> bool"
  assumes hit: "holds_in c m \<Longrightarrow> rcGet C k t c = Some v \<Longrightarrow> \<exists>d. m k = Some (v, d) \<and> t < d"
    and set: "holds_in c m \<Longrightarrow> holds_in (snd (rcSetWithTTL C k v ttl t c)) (m(k \<mapsto> (v, t + ttl)))"
    and del: "holds_in c m \<Longrightarrow> holds_in (rcDel C k c) (m(k := None))"
begin

text \<open>The map of keys that stands for a map of users.\<close>

definition keyed :: "(string \<rightharpoonup> string \<times> int) \<Rightarrow> (string \<rightharpoonup> cache_value \<times> int) \<Rightarrow> bool" where
  "keyed m km \<longleftrightarrow> (\<forall>u. km (routeKey @ '':'' @ u) = map_option (\<lambda>(n, t). (CStr n, t + route_ttl)) (m u))"

lemma delete_batch: "holds_in c km \<Longrightarrow> holds_in (route_DeleteBatch C us c) (fold (\<lambda>u km. km(routeKey @ '':'' @ u := None)) us km)"
  unfolding route_DeleteBatch_def by (induction us arbitrary: c km) (simp_all add: cache_Delete_def del)

lemma keyed_batch: "keyed m km \<Longrightarrow> keyed (m |` (- set us)) (fold (\<lambda>u km. km(routeKey @ '':'' @ u := None)) us km)"
proof (induction us arbitrary: m km)
  case (Cons u us)
  have "keyed (m(u := None)) (km(routeKey @ '':'' @ u := None))" using Cons.prems by (simp add: keyed_def)
  from Cons.IH [OF this] have "keyed ((m(u := None)) |` (- set us)) (fold (\<lambda>u km. km(routeKey @ '':'' @ u := None)) (u # us) km)"
    by (simp only: fold_simps)
  moreover have "(m(u := None)) |` (- set us) = m |` (- set (u # us))" by (auto simp: restrict_map_def fun_eq_iff)
  ultimately show ?case by (simp only:)
qed (simp add: restrict_map_def)

lemma cache_step_within:
  assumes "holds_in c km" "keyed m km"
  shows "\<exists>km. holds_in (cache_step C op c) km \<and> keyed (route_of op m) km"
proof (cases op)
  case (Pair t o')
  show ?thesis
  proof (cases o')
    case (SetRoute u n)
    show ?thesis
    proof (cases "u = [] \<or> n = []")
      case False
      have "keyed (m(u \<mapsto> (n, t))) (km(routeKey @ '':'' @ u \<mapsto> (CStr n, t + route_ttl)))" using assms(2) by (auto simp: keyed_def)
      then show ?thesis using set [OF assms(1), of "routeKey @ '':'' @ u" "CStr n" route_ttl t] Pair SetRoute False
        by (auto simp: route_Set_def SetWithTTL_def Let_def)
    qed (use assms Pair SetRoute in \<open>auto simp: route_Set_def\<close>)
  next
    case (DeleteRoute u)
    have "keyed (m(u := None)) (km(routeKey @ '':'' @ u := None))" using assms(2) by (auto simp: keyed_def)
    then show ?thesis using del [OF assms(1)] Pair DeleteRoute by (auto simp: route_Delete_def cache_Delete_def)
  next
    case (DeleteRoutes us)
    then show ?thesis using delete_batch [OF assms(1)] keyed_batch [OF assms(2)] Pair by auto
  qed
qed

lemma cache_steps_within:
  assumes "holds_in c km" "keyed m km"
  shows "\<exists>km. holds_in (fold (cache_step C) ops c) km \<and> keyed (fold route_of ops m) km"
  using assms
proof (induction ops arbitrary: c km m)
  case (Cons op ops)
  obtain km' where "holds_in (cache_step C op c) km'" "keyed (route_of op m) km'" using cache_step_within [OF Cons.prems] by blast
  then show ?case using Cons.IH by fastforce
qed auto

lemma route_hit:
  assumes "holds_in c km" "keyed m km" "route_Get C u t c = (n, True)"
  shows "\<exists>t0. m u = Some (n, t0) \<and> t < t0 + route_ttl"
  using assms(2,3) hit [OF assms(1), of "routeKey @ '':'' @ u" t]
  by (fastforce simp: route_Get_def cache_GetString_def keyed_def Let_def split: option.split_asm cache_value.split_asm)

lemma route_cache_hits:
  assumes "holds_in c Map.empty" "route_Get C u t (fold (cache_step C) ops c) = (n, True)"
  shows "\<exists>t0. fold route_of ops Map.empty u = Some (n, t0) \<and> t < t0 + route_ttl"
proof -
  have "keyed Map.empty Map.empty" by (simp add: keyed_def)
  then show ?thesis using cache_steps_within [OF assms(1)] route_hit assms(2) by blast
qed

end

text \<open>A cache in memory that holds the last hundred keys.\<close>

definition mem_cache :: "(string \<times> cache_value \<times> int) list Ristretto" where
  "mem_cache = \<lparr>rcGet = (\<lambda>k t c. case map_of c k of Some (v, d) \<Rightarrow> if t < d then Some v else None | None \<Rightarrow> None),
     rcSetWithTTL = (\<lambda>k v ttl t c. (True, take 100 ((k, v, t + ttl) # filter (\<lambda>e. fst e \<noteq> k) c))),
     rcDel = (\<lambda>k c. filter (\<lambda>e. fst e \<noteq> k) c)\<rparr>"

lemma map_of_filter_fst: "map_of (filter (\<lambda>e. fst e \<noteq> k) c) = (map_of c)(k := None)"
  by (induction c) auto

lemma map_of_take: "map_of (take n c) \<subseteq>\<^sub>m map_of c"
proof -
  have "map_of c = map_of (drop n c) ++ map_of (take n c)" using map_of_append [of "take n c" "drop n c"] by simp
  then show ?thesis by simp
qed

interpretation mem_routes: ristretto mem_cache "\<lambda>c m. map_of c \<subseteq>\<^sub>m m"
proof unfold_locales
  fix c :: "(string \<times> cache_value \<times> int) list" and m k v ttl t
  assume c: "map_of c \<subseteq>\<^sub>m m"
  from c have "(map_of c)(k \<mapsto> (v, t + ttl)) \<subseteq>\<^sub>m m(k \<mapsto> (v, t + ttl))" by (auto simp: map_le_def)
  then show "map_of (snd (rcSetWithTTL mem_cache k v ttl t c)) \<subseteq>\<^sub>m m(k \<mapsto> (v, t + ttl))"
    using map_le_trans [OF map_of_take [of 100 "(k, v, t + ttl) # filter (\<lambda>e. fst e \<noteq> k) c"]]
    by (simp add: mem_cache_def map_of_filter_fst del: take_Suc_Cons)
  show "map_of (rcDel mem_cache k c) \<subseteq>\<^sub>m m(k := None)" using c by (auto simp: mem_cache_def map_of_filter_fst map_le_def)
next
  fix c :: "(string \<times> cache_value \<times> int) list" and m k v t
  assume c: "map_of c \<subseteq>\<^sub>m m" and "rcGet mem_cache k t c = Some v"
  then obtain d where d: "map_of c k = Some (v, d)" "t < d" by (auto simp: mem_cache_def split: option.split_asm if_split_asm)
  have "map_of c k = m k" using c domI [of "map_of c" k, OF d(1)] unfolding map_le_def by blast
  with d show "\<exists>d. m k = Some (v, d) \<and> t < d" by metis
qed

text \<open>The connector's own calls are sets only: the map in its model is the one the hits agree with.\<close>

lemma sets_route_map:
  "map_option fst (fold route_of (map (\<lambda>(t, u, n). (t, SetRoute u n)) sets) m u)
     = GameRouteCache (fold (\<lambda>(t, u, n). cache_Set u n) sets (w\<lparr>GameRouteCache := \<lambda>u. map_option fst (m u)\<rparr>)) u"
proof (induction sets arbitrary: m)
  case (Cons s sets)
  obtain t v n where s: "s = (t, v, n)" by (cases s) auto
  have "cache_Set v n (w\<lparr>GameRouteCache := \<lambda>u. map_option fst (m u)\<rparr>) = w\<lparr>GameRouteCache := \<lambda>u. map_option fst (route_of (t, SetRoute v n) m u)\<rparr>"
    by (auto simp: cache_Set_def fun_eq_iff)
  then show ?case using Cons.IH [of "route_of (t, SetRoute v n) m"] s by (simp del: route_of.simps)
qed simp

lemma route_cache_agrees:
  assumes "ristretto C holds_in" "holds_in c Map.empty"
    and "route_Get C u t (fold (cache_step C) (map (\<lambda>(t, u, n). (t, SetRoute u n)) sets) c) = (n, True)"
  shows "GameRouteCache (fold (\<lambda>(t, u, n). cache_Set u n) sets (w\<lparr>GameRouteCache := Map.empty\<rparr>)) u = Some n"
  using ristretto.route_cache_hits [OF assms] sets_route_map [of sets Map.empty u w] by auto

end
