(* ===== verification/Servers.thy ===== *)
theory Servers
  imports Startup Gate RouteCache
begin

text \<open>
  The servers that face the clients: start and end of the connector, \<^verbatim>\<open>connector/app/app.go\<close>, \<^verbatim>\<open>connector/container/container.go\<close> and \<open>Run\<close> and
  \<open>Close\<close> of \<^verbatim>\<open>connector/runtime/worker.go\<close>; the HTTP server of the gate, \<^verbatim>\<open>gate/infrastructure/http/server.go\<close>, its RPC client and \<^verbatim>\<open>gate/app/app.go\<close>;
  the pushes of the game worker to a connector, \<^verbatim>\<open>game/runtime/worker.go\<close>; and the NATS client, \<^verbatim>\<open>connector/infrastructure/message/node/nats_client.go\<close>.

  \<^item> The HTTP servers themselves, which only end with the process, are not modelled; \<open>Run\<close> is what is done before they listen.
  \<^item> Of a cache only whether it is open counts here.
\<close>

section \<open>The connector\<close>

record ConnRun =
  crWorker :: ConnWorker
  crNats :: NatsWorker
  crRunning :: bool
  crCache :: bool
  crOpenCaches :: nat
  crContainer :: Container

text \<open>\<open>GetWorker\<close>, on a container that has none: the option opens a cache, the constructor replaces it by another one.\<close>

definition GetWorker :: "string \<Rightarrow> nat \<Rightarrow> Container \<Rightarrow> ConnRun" where
  "GetWorker nodeID workerCount c =
     \<lparr>crWorker = NewWorkerWithDeps nodeID workerCount, crNats = NewNatsWorker, crRunning = False, crCache = True, crOpenCaches = 2,
      crContainer = c\<lparr>coWorker := True\<rparr>\<rparr>"

definition conn_Run :: "bool \<Rightarrow> ConnRun \<Rightarrow> ConnRun option" where
  "conn_Run connects w =
     (if crRunning w then Some w
      else let w = w\<lparr>crRunning := True\<rparr>
           in case nats_Run connects (crNats w) of
                (False, nats) \<Rightarrow> None
              | (True, nats) \<Rightarrow> Some (w\<lparr>crNats := nats\<rparr>))"

definition conn_worker_Close :: "ConnRun \<Rightarrow> ConnRun" where
  "conn_worker_Close w =
     (if crRunning w then
        (let w = w\<lparr>crNats := nats_Close (crNats w)\<rparr>;
             w = (if crCache w then w\<lparr>crCache := False, crOpenCaches := crOpenCaches w - 1\<rparr> else w)
         in w\<lparr>crRunning := False\<rparr>)
      else w)"

text \<open>\<open>Run\<close> of the application up to the start of the worker; \<open>health\<close> is the result of the health check of the march node.\<close>

definition connector_Run :: "node_env \<Rightarrow> bool \<Rightarrow> nat \<Rightarrow> bool \<Rightarrow> ConnectorConfiguration \<Rightarrow> ConnRun option" where
  "connector_Run env health workerCount connects cfg = do {
     base \<leftarrow> newBase (enConnects env) (enPings env) (enPong env) (cDatabase cfg);
     clients \<leftarrow> rpc_Init (cDomains cfg);
     if \<not> health then None
     else conn_Run connects (GetWorker (cID cfg) workerCount \<lparr>coWorker = False, coNats = False, coClosed = False\<rparr>)
   }"

text \<open>\<open>Close\<close> of the container, which closes the worker too, and the end of \<open>Run\<close>: \<open>stop\<close> and the deferred \<open>Close\<close>.\<close>

definition connector_container_Close :: "(part \<Rightarrow> bool) \<Rightarrow> ConnRun \<Rightarrow> part list \<times> nat \<times> ConnRun" where
  "connector_container_Close fails w = (case connector_Close fails (crContainer w) of
     (parts, errs, c) \<Rightarrow> (parts, errs, (if WorkerPart \<in> set parts then conn_worker_Close w else w)\<lparr>crContainer := c\<rparr>))"

definition connector_exit :: "(part \<Rightarrow> bool) \<Rightarrow> ConnRun \<Rightarrow> part list \<times> nat \<times> ConnRun" where
  "connector_exit fails w = connector_container_Close fails (conn_worker_Close w)"

section \<open>The HTTP server of the gate\<close>

datatype gin_mode = DebugMode | ReleaseMode | TestMode

text \<open>The mode of gin is global; \<open>hsServer\<close> is the port the server listens on, once started.\<close>

record HttpServer =
  hsPort :: int
  hsMode :: gin_mode
  hsRecovery :: bool
  hsServer :: "int option"

definition WithPort :: "int \<Rightarrow> HttpServer \<Rightarrow> HttpServer" where
  "WithPort port s = s\<lparr>hsPort := port\<rparr>"

definition WithMode :: "string \<Rightarrow> HttpServer \<Rightarrow> HttpServer" where
  "WithMode mode s =
     (if mode = ''debug'' then s\<lparr>hsMode := DebugMode\<rparr>
      else if mode = ''warn'' \<or> mode = ''error'' then s\<lparr>hsMode := ReleaseMode\<rparr>
      else s\<lparr>hsMode := TestMode\<rparr>)"

definition NewHttpServer :: "(HttpServer \<Rightarrow> HttpServer) list \<Rightarrow> HttpServer" where
  "NewHttpServer opts = (fold (\<lambda>opt s. opt s) opts \<lparr>hsPort = 8080, hsMode = DebugMode, hsRecovery = False, hsServer = None\<rparr>)\<lparr>hsRecovery := True\<rparr>"

definition http_Start :: "HttpServer \<Rightarrow> HttpServer" where
  "http_Start s = s\<lparr>hsServer := Some (hsPort s)\<rparr>"

text \<open>\<open>Shutdown\<close>: whether it succeeds; \<open>drained\<close> is the reply of the server in time.\<close>

definition http_Shutdown :: "bool \<Rightarrow> HttpServer \<Rightarrow> bool" where
  "http_Shutdown drained s = (case hsServer s of None \<Rightarrow> True | Some port \<Rightarrow> drained)"

definition gate_rpc_Init :: "(string \<rightharpoonup> DomainConf) \<Rightarrow> (string \<times> string option) option" where
  "gate_rpc_Init domains = do {
     authDomain \<leftarrow> domains ''auth'';
     Some (initClient (dmName authDomain) (dmLoadBalance authDomain))
   }"

text \<open>\<open>Run\<close> with the routes and the client of the auth node.\<close>

definition gate_Run ::
    "('b, 's) gate_env \<Rightarrow> GateConfiguration \<Rightarrow>
     (HttpServer \<times> (string \<times> string option) \<times> ((string \<times> string) \<times> ('b Context \<Rightarrow> 's \<Rightarrow> 'b Context \<times> 's)) list) option" where
  "gate_Run genv cfg = do {
     let server = NewHttpServer [WithPort (cHttpPort cfg), WithMode (lgLevel (cLog cfg))];
     client \<leftarrow> gate_rpc_Init (cDomains cfg);
     Some (http_Start server, client, RegisterRoutes genv)
   }"

section \<open>Pushes of the game worker\<close>

definition PushConnector :: "string \<Rightarrow> string \<Rightarrow> string \<Rightarrow> byte list \<Rightarrow> NatsWorker \<Rightarrow> bool \<times> NatsWorker" where
  "PushConnector nodeID connectorNodeID rt bs nw =
     (if connectorNodeID = [] then (False, nw)
      else let packet = \<lparr>spBody = push_message rt (Some bs), spSource = nodeID, spDestination = connectorNodeID, spRoute = rt, spPushUser = []\<rparr>
           in nats_PushMessage packet nw)"

section \<open>The NATS client\<close>

text \<open>\<open>ncConn\<close>: no connection, or whether it is up.\<close>

record NatsClient =
  ncTopic :: string
  ncConn :: "bool option"
  ncReadChan :: "byte list list"

definition NewNatsClient :: "string \<Rightarrow> NatsClient" where
  "NewNatsClient topic = \<lparr>ncTopic = topic, ncConn = None, ncReadChan = []\<rparr>"

definition IsConnected :: "NatsClient \<Rightarrow> bool" where
  "IsConnected nc = (ncConn nc \<noteq> None \<and> ncConn nc = Some True)"

definition client_Run :: "bool \<Rightarrow> NatsClient \<Rightarrow> bool \<times> NatsClient" where
  "client_Run connects nc = (if connects then (True, nc\<lparr>ncConn := Some True\<rparr>) else (False, nc\<lparr>ncConn := None\<rparr>))"

text \<open>The callback of \<open>Subscribe\<close> for a message under a subject; \<open>None\<close> while the channel is full.\<close>

definition client_Subscribe :: "string \<times> byte list \<Rightarrow> NatsClient \<Rightarrow> NatsClient option" where
  "client_Subscribe m nc =
     (if fst m = ncTopic nc then
        if length (ncReadChan nc) < 1024 then Some (nc\<lparr>ncReadChan := ncReadChan nc @ [snd m]\<rparr>) else None
      else Some nc)"

definition client_Close :: "NatsClient \<Rightarrow> NatsClient" where
  "client_Close nc = (case ncConn nc of None \<Rightarrow> nc | Some up \<Rightarrow> nc\<lparr>ncConn := Some False\<rparr>)"

section \<open>Properties\<close>

lemma connector_Run_spec:
  "connector_Run env health workerCount connects cfg = Some w \<longleftrightarrow>
     newBase (enConnects env) (enPings env) (enPong env) (cDatabase cfg) \<noteq> None \<and> rpc_Init (cDomains cfg) \<noteq> None \<and> health \<and> connects
   \<and> w = \<lparr>crWorker = NewWorkerWithDeps (cID cfg) workerCount, crNats = NewNatsWorker\<lparr>nwConnected := True\<rparr>, crRunning = True, crCache = True, crOpenCaches = 2,
          crContainer = \<lparr>coWorker = True, coNats = False, coClosed = False\<rparr>\<rparr>"
  by (auto simp: connector_Run_def conn_Run_def GetWorker_def nats_Run_def bind_eq_Some_conv Let_def split: if_split_asm bool.split_asm)

text \<open>The connector ends in order: the worker, which is closed twice, is closed once, the databases after it, and nothing happens to it any more when the
  container is closed again.  One of the two caches stays open.\<close>

lemma connector_ends:
  assumes "connector_Run env health workerCount connects cfg = Some w" "connector_exit fails w = (parts, errs, w')"
  shows "parts = [WorkerPart, MongoPart, RedisPart]" "\<not> crRunning w'" "\<not> nwConnected (crNats w')" "coClosed (crContainer w')"
    "connector_container_Close fails w' = ([], 0, w')" "crOpenCaches w' = 1"
  using assms
  by (auto simp: connector_Run_spec connector_exit_def connector_container_Close_def connector_Close_def conn_worker_Close_def nats_Close_def Let_def)

text \<open>The gate listens on the configured port with all its routes, and only with a configured auth domain.\<close>

lemma gate_Run_spec:
  "gate_Run genv cfg = Some (server, client, rs) \<longleftrightarrow>
     (\<exists>auth. cDomains cfg ''auth'' = Some auth \<and> client = initClient (dmName auth) (dmLoadBalance auth))
   \<and> rs = RegisterRoutes genv \<and> hsServer server = Some (cHttpPort cfg) \<and> hsPort server = cHttpPort cfg \<and> hsRecovery server
   \<and> hsMode server = (if lgLevel (cLog cfg) = ''debug'' then DebugMode else if lgLevel (cLog cfg) \<in> {''warn'', ''error''} then ReleaseMode else TestMode)"
  by (cases server) (auto simp: gate_Run_def gate_rpc_Init_def NewHttpServer_def WithPort_def WithMode_def http_Start_def bind_eq_Some_conv)

text \<open>A signal before the server is started shuts nothing down.\<close>

lemma early_shutdown: "http_Shutdown drained (NewHttpServer [WithPort p, WithMode m])"
  by (simp add: http_Shutdown_def NewHttpServer_def WithPort_def WithMode_def)

text \<open>A push to a connector is published under its name.\<close>

lemma PushConnector_published:
  assumes "nwConnected nw" "writeChan nw = []" "connectorNodeID \<noteq> []" "PushConnector nodeID connectorNodeID rt bs nw = (ok, nw')"
  shows "ok" "\<exists>sp. fst (write_all marshal 1 nw') = [(connectorNodeID, marshal sp)] \<and> spSource sp = nodeID \<and> msgData (spBody sp) = Some bs \<and> msgRoute (spBody sp) = rt"
  using assms by (auto simp: PushConnector_def nats_PushMessage_def writeChanMessage_def nats_SendMessage_def push_message_def)

text \<open>The client behind a worker: its connection is that of the model of the worker, through start and end.\<close>

lemma client_connected:
  "fst (client_Run connects nc) = fst (nats_Run connects nw)"
  "IsConnected (snd (client_Run connects nc)) = nwConnected (snd (nats_Run connects nw))"
  "IsConnected (client_Close nc) = nwConnected (nats_Close nw)"
  by (auto simp: client_Run_def nats_Run_def IsConnected_def client_Close_def nats_Close_def split: option.split)

text \<open>What is published for a node is what its client queues, in order, up to the length of its channel.\<close>

fun deliver :: "(string \<times> byte list) list \<Rightarrow> NatsClient \<Rightarrow> NatsClient option" where
  "deliver [] nc = Some nc"
| "deliver (m # ms) nc = do { nc \<leftarrow> client_Subscribe m nc; deliver ms nc }"

lemma published_is_queued:
  assumes "length (ncReadChan nc) + length (published_to (ncTopic nc) out) \<le> 1024"
  shows "deliver out nc = Some (nc\<lparr>ncReadChan := ncReadChan nc @ published_to (ncTopic nc) out\<rparr>)"
  using assms
proof (induction out arbitrary: nc)
  case (Cons m out)
  then show ?case using Cons.IH [of "nc\<lparr>ncReadChan := ncReadChan nc @ [snd m]\<rparr>"] by (cases m) (auto simp: client_Subscribe_def published_to_def)
qed (simp add: published_to_def)

section \<open>Flaws\<close>

text \<open>The cache that an option of the worker opens is never closed, and a level of \<open>info\<close> runs gin in its test mode.\<close>

lemma first_cache_leaks: "crOpenCaches (conn_worker_Close ((GetWorker nodeID n c)\<lparr>crRunning := True\<rparr>)) = 1"
  by (simp add: conn_worker_Close_def GetWorker_def)

lemma info_is_test_mode: "hsMode (NewHttpServer [WithPort p, WithMode ''info'']) = TestMode"
  by (simp add: NewHttpServer_def WithMode_def WithPort_def)

end
