(* ===== verification/Token.thy ===== *)
theory Token
  imports Connector
begin

text \<open>
  Tokens of the connector, \<^verbatim>\<open>connector/infrastructure/jwt/jwt.go\<close>, and what they mean for the identification of a connection.

  \<^item> The JWT library is a parameter: \<open>sign\<close> makes a token of claims and a secret, \<open>verify\<close> gives the signing method and the claims of a token whose signature
    fits the secret.  What is relied on is the locale \<open>jwt\<close>.
  \<^item> Claims are dynamic values; \<open>show_number\<close> is how the verb \<^verbatim>\<open>%v\<close> prints a number.
\<close>

datatype claim = ClString string | ClNumber rat | ClBool bool

type_synonym claims = "(string \<times> claim) list"

datatype signing_method = HMAC | OtherMethod

record CustomClaims =
  ccUserID :: string
  ccRegistered :: claims

text \<open>The JSON of the claims: the user first, then the registered claims that are set.\<close>

definition claims_of :: "CustomClaims \<Rightarrow> claims" where
  "claims_of c = (''userID'', ClString (ccUserID c)) # ccRegistered c"

definition GetToken :: "(claims \<Rightarrow> string \<Rightarrow> string option) \<Rightarrow> CustomClaims \<Rightarrow> string \<Rightarrow> string option" where
  "GetToken sign c secret = sign (claims_of c) secret"

text \<open>The verb \<^verbatim>\<open>%v\<close> on a value that may be missing.\<close>

fun format_v :: "(rat \<Rightarrow> string) \<Rightarrow> claim option \<Rightarrow> string" where
  "format_v show_number None = ''<nil>''"
| "format_v show_number (Some (ClString s)) = s"
| "format_v show_number (Some (ClNumber x)) = show_number x"
| "format_v show_number (Some (ClBool b)) = (if b then ''true'' else ''false'')"

definition ParseToken :: "(string \<Rightarrow> string \<Rightarrow> (signing_method \<times> claims) option) \<Rightarrow> (rat \<Rightarrow> string) \<Rightarrow> string \<Rightarrow> string \<Rightarrow> string option" where
  "ParseToken verify show_number token secret = (case verify token secret of
     None \<Rightarrow> None
   | Some (meth, cl) \<Rightarrow> if meth \<noteq> HMAC then None else Some (format_v show_number (map_of cl ''userID'')))"

text \<open>The contract of the library: a signed token verifies with its secret, as signed, and with no other secret.\<close>

locale jwt =
  fixes sign :: "claims \<Rightarrow> string \<Rightarrow> string option" and verify :: "string \<Rightarrow> string \<Rightarrow> (signing_method \<times> claims) option"
  assumes signed: "sign cl secret = Some token \<Longrightarrow> token \<noteq> [] \<and> verify token secret = Some (HMAC, cl)"
    and forged: "sign cl secret = Some token \<Longrightarrow> secret' \<noteq> secret \<Longrightarrow> verify token secret' = None"
begin

lemma parse_signed: "GetToken sign c secret = Some token \<Longrightarrow> ParseToken verify sn token secret = Some (ccUserID c)"
  using signed [of "claims_of c" secret token] by (simp add: GetToken_def ParseToken_def claims_of_def)

lemma parse_other_secret: "GetToken sign c secret = Some token \<Longrightarrow> secret' \<noteq> secret \<Longrightarrow> ParseToken verify sn token secret' = None"
  using forged [of "claims_of c" secret token secret'] by (simp add: GetToken_def ParseToken_def)

lemma identified:
  assumes "GetToken sign c secret = Some token" "secret \<noteq> []" "ccUserID c \<noteq> []" "extractUserIDFromTestPath allow path = None"
  shows "identifyUser allow secret (ParseToken verify sn) path token = Inr (ccUserID c, ''token'')"
    and "secret' \<noteq> secret \<Longrightarrow> secret' \<noteq> [] \<Longrightarrow> identifyUser allow secret' (ParseToken verify sn) path token = Inl BadToken"
  using assms parse_signed [OF assms(1)] parse_other_secret [OF assms(1)] signed [of "claims_of c" secret token]
  by (simp_all add: identifyUser_def GetToken_def)

end

text \<open>A library for the witnesses that writes the secret, a dot and an encoding of the claims; only single string claims are signed.\<close>

definition plain_sign :: "claims \<Rightarrow> string \<Rightarrow> string option" where
  "plain_sign cl secret = (case cl of
     [(n, ClString v)] \<Rightarrow> if n = ''userID'' \<and> CHR ''.'' \<notin> set secret then Some (secret @ CHR ''.'' # v) else None
   | _ \<Rightarrow> None)"

definition plain_verify :: "string \<Rightarrow> string \<Rightarrow> (signing_method \<times> claims) option" where
  "plain_verify token secret =
     (let s = takeWhile (\<lambda>c. c \<noteq> CHR ''.'') token
      in if s = secret \<and> length s < length token then Some (HMAC, [(''userID'', ClString (drop (length s + 1) token))]) else None)"

interpretation plain: jwt plain_sign plain_verify
proof unfold_locales
  fix cl secret token assume "plain_sign cl secret = Some token"
  then obtain v where "cl = [(''userID'', ClString v)]" "CHR ''.'' \<notin> set secret" "token = secret @ CHR ''.'' # v"
    by (auto simp: plain_sign_def split: list.splits prod.splits claim.splits if_splits)
  moreover have "takeWhile (\<lambda>c. c \<noteq> CHR ''.'') (secret @ CHR ''.'' # v) = secret"
    using calculation(2) by (induction secret) auto
  ultimately show "token \<noteq> [] \<and> plain_verify token secret = Some (HMAC, cl)" "\<And>secret'. secret' \<noteq> secret \<Longrightarrow> plain_verify token secret' = None"
    by (auto simp: plain_verify_def Let_def)
qed

section \<open>Properties\<close>

text \<open>Tokens identify their users.  A token made for a user identifies a connection as that user at every connector with the same secret, and is
  rejected at every connector with another one.\<close>

lemma token_identifies:
  assumes "jwt sign verify" "GetToken sign c secret = Some token" "secret \<noteq> []" "ccUserID c \<noteq> []" "extractUserIDFromTestPath allow path = None"
  shows "identifyUser allow secret (ParseToken verify sn) path token = Inr (ccUserID c, ''token'')
     \<and> (\<forall>secret'. secret' \<noteq> secret \<and> secret' \<noteq> [] \<longrightarrow> identifyUser allow secret' (ParseToken verify sn) path token = Inl BadToken)"
  using jwt.identified [OF assms] by blast

section \<open>Flaws\<close>

text \<open>A valid token without a user is not rejected: its bearer is the user \<^verbatim>\<open><nil>\<close>.\<close>

lemma nil_user:
  assumes "verify token secret = Some (HMAC, cl)" "map_of cl ''userID'' = None" "token \<noteq> []" "secret \<noteq> []" "extractUserIDFromTestPath allow path = None"
  shows "identifyUser allow secret (ParseToken verify sn) path token = Inr (''<nil>'', ''token'')"
  using assms by (simp add: identifyUser_def ParseToken_def)

end
