(* ===== verification/WebTest.thy ===== *)
theory WebTest
  imports Protocol
begin

text \<open>
  The client side of the length-prefixed protocol, \<^verbatim>\<open>test/webtest/codec\<close> and \<^verbatim>\<open>test/webtest/client.go\<close>: envelopes with route, payload and sequence
  number on a TCP stream.

  \<^item> Protobuf is a parameter: \<open>marshal\<close> and \<open>unmarshal\<close> of envelopes, \<open>encode\<close> of messages.
  \<^item> A reader is the bytes that are still to come until the stream ends; \<open>None\<close> is a nil reader, and as a result a panic.
\<close>

unbundle bit_operations_syntax

section \<open>Length prefixes\<close>

definition LengthFieldLength :: nat where [simp]: "LengthFieldLength = 4"
definition MaxMessageSize :: "32 word" where [simp]: "MaxMessageSize = 65536"

definition PutUint32 :: "32 word \<Rightarrow> byte list" where
  "PutUint32 n = [ucast (drop_bit 24 n), ucast (drop_bit 16 n), ucast (drop_bit 8 n), ucast n]"

definition Uint32 :: "byte list \<Rightarrow> 32 word" where
  "Uint32 b = ucast (b ! 3) OR push_bit 8 (ucast (b ! 2)) OR push_bit 16 (ucast (b ! 1)) OR push_bit 24 (ucast (b ! 0))"

definition length_Encode :: "byte list \<Rightarrow> byte list" where
  "length_Encode bs = PutUint32 (word_of_nat (length bs)) @ bs"

definition EncodeWithLength :: "byte list \<Rightarrow> 32 word \<times> byte list" where
  "EncodeWithLength bs = (word_of_nat (length bs), bs)"

datatype codec_error = ReadLength | TooLarge "32 word" | ReadPayload | BadEnvelope | BadPayload

text \<open>\<open>io.ReadFull\<close>: a stream that ends early is read to its end.\<close>

definition ReadFull :: "nat \<Rightarrow> byte list \<Rightarrow> byte list option \<times> byte list" where
  "ReadFull n r = (if n \<le> length r then (Some (take n r), drop n r) else (None, []))"

definition length_Decode :: "byte list option \<Rightarrow> ((codec_error + byte list) \<times> byte list) option" where
  "length_Decode r = do {
     r \<leftarrow> r;
     case ReadFull LengthFieldLength r of
       (None, r) \<Rightarrow> Some (Inl ReadLength, r)
     | (Some lenBuf, r) \<Rightarrow>
         (let len = Uint32 lenBuf
          in if MaxMessageSize < len then Some (Inl (TooLarge len), r)
             else case ReadFull (unat len) r of
               (None, r) \<Rightarrow> Some (Inl ReadPayload, r)
             | (Some payload, r) \<Rightarrow> Some (Inr payload, r))
   }"

section \<open>Envelopes\<close>

record Envelope =
  evRoute :: string
  evPayload :: "byte list"
  evClientSeq :: "64 word"

definition EncodeEnvelope ::
    "(Envelope \<Rightarrow> byte list option) \<Rightarrow> ('m \<Rightarrow> byte list option) \<Rightarrow> string \<Rightarrow> 'm option \<Rightarrow> 64 word \<Rightarrow> codec_error + byte list" where
  "EncodeEnvelope marshal encode route msg seq =
     (case (case msg of None \<Rightarrow> Some [] | Some msg \<Rightarrow> encode msg) of
        None \<Rightarrow> Inl BadPayload
      | Some payload \<Rightarrow> (case marshal \<lparr>evRoute = route, evPayload = payload, evClientSeq = seq\<rparr> of
          None \<Rightarrow> Inl BadEnvelope
        | Some envelopeBytes \<Rightarrow> Inr (length_Encode envelopeBytes)))"

definition DecodeRaw :: "(byte list \<Rightarrow> Envelope option) \<Rightarrow> byte list \<Rightarrow> codec_error + Envelope" where
  "DecodeRaw unmarshal bs = (case unmarshal bs of None \<Rightarrow> Inl BadEnvelope | Some envelope \<Rightarrow> Inr envelope)"

text \<open>\<open>DecodeEnvelope\<close> first decodes a nil reader.\<close>

definition DecodeEnvelope :: "(byte list \<Rightarrow> Envelope option) \<Rightarrow> byte list \<Rightarrow> (codec_error + Envelope) option" where
  "DecodeEnvelope unmarshal bs = do {
     (res, r) \<leftarrow> length_Decode None;
     case res of Inl err \<Rightarrow> Some (Inl err) | Inr envelopeBytes \<Rightarrow> Some (DecodeRaw unmarshal bs)
   }"

definition EncodeRaw :: "(Envelope \<Rightarrow> byte list option) \<Rightarrow> string \<Rightarrow> byte list \<Rightarrow> 64 word \<Rightarrow> byte list option" where
  "EncodeRaw marshal route payload seq = marshal \<lparr>evRoute = route, evPayload = payload, evClientSeq = seq\<rparr>"

text \<open>The message codec numbers what it encodes; its state is the last number.\<close>

definition codec_Encode ::
    "(Envelope \<Rightarrow> byte list option) \<Rightarrow> ('m \<Rightarrow> byte list option) \<Rightarrow> string \<Rightarrow> 'm option \<Rightarrow> 64 word \<Rightarrow> (codec_error + byte list) \<times> 64 word" where
  "codec_Encode marshal encode route msg seq = (let seq = seq + 1 in (EncodeEnvelope marshal encode route msg seq, seq))"

definition codec_EncodeRaw :: "(Envelope \<Rightarrow> byte list option) \<Rightarrow> string \<Rightarrow> byte list \<Rightarrow> 64 word \<Rightarrow> byte list option \<times> 64 word" where
  "codec_EncodeRaw marshal route payload seq = (let seq = seq + 1 in (EncodeRaw marshal route payload seq, seq))"

definition UnmarshalPayload :: "(byte list \<Rightarrow> 'm option) \<Rightarrow> Envelope \<Rightarrow> 'm option" where
  "UnmarshalPayload decode envelope = (if evPayload envelope = [] then None else decode (evPayload envelope))"

section \<open>The client\<close>

record TCPMessage =
  tmRoute :: string
  tmPayload :: "byte list"

text \<open>\<open>tcWritten\<close> is what went out on the connection, \<open>tcStream\<close> what is still to come.\<close>

record TCPClient =
  sendCh :: "byte list list"
  RecvChan :: "TCPMessage list"
  tcDone :: bool
  connected :: bool
  tcSeq :: "64 word"
  tcConn :: bool
  tcWritten :: "byte list"
  tcStream :: "byte list"

definition NewTCPClient :: TCPClient where
  "NewTCPClient = \<lparr>sendCh = [], RecvChan = [], tcDone = False, connected = False, tcSeq = 0, tcConn = False, tcWritten = [], tcStream = []\<rparr>"

text \<open>\<open>Connect\<close>; \<open>dialed\<close> is the stream of the new connection.\<close>

definition tcp_Connect :: "byte list option \<Rightarrow> TCPClient \<Rightarrow> bool \<times> TCPClient" where
  "tcp_Connect dialed c = (case dialed of
     None \<Rightarrow> (False, c)
   | Some stream \<Rightarrow> (True, c\<lparr>tcConn := True, tcStream := stream, tcWritten := [], connected := True\<rparr>))"

definition tcp_Close :: "TCPClient \<Rightarrow> TCPClient option" where
  "tcp_Close c =
     (if \<not> connected c then Some c
      else if tcDone c then None
      else Some (c\<lparr>connected := False, tcDone := True, tcStream := []\<rparr>))"

datatype send_error = NotConnected | MarshalPayload | MarshalEnvelope | UnsupportedPayload | SendBufferFull

text \<open>The common end of \<open>SendProtoMessage\<close> and \<open>SendMessage\<close>.\<close>

definition send_envelope :: "(Envelope \<Rightarrow> byte list option) \<Rightarrow> string \<Rightarrow> byte list \<Rightarrow> TCPClient \<Rightarrow> send_error option \<times> TCPClient" where
  "send_envelope marshal route payloadBytes c =
     (let seq = tcSeq c + 1; c = c\<lparr>tcSeq := seq\<rparr>
      in case marshal \<lparr>evRoute = route, evPayload = payloadBytes, evClientSeq = seq\<rparr> of
           None \<Rightarrow> (Some MarshalEnvelope, c)
         | Some envelopeBytes \<Rightarrow>
             (let buf = PutUint32 (word_of_nat (length envelopeBytes)) @ envelopeBytes
              in if length (sendCh c) < 100 then (None, c\<lparr>sendCh := sendCh c @ [buf]\<rparr>) else (Some SendBufferFull, c)))"

definition SendProtoMessage ::
    "(Envelope \<Rightarrow> byte list option) \<Rightarrow> ('m \<Rightarrow> byte list option) \<Rightarrow> string \<Rightarrow> 'm option \<Rightarrow> TCPClient \<Rightarrow> send_error option \<times> TCPClient" where
  "SendProtoMessage marshal encode route msg c =
     (if \<not> connected c then (Some NotConnected, c)
      else case (case msg of None \<Rightarrow> Some [] | Some msg \<Rightarrow> encode msg) of
        None \<Rightarrow> (Some MarshalPayload, c)
      | Some payloadBytes \<Rightarrow> send_envelope marshal route payloadBytes c)"

datatype 'm any_payload = RawBytes "byte list" | ProtoMessage 'm | OtherPayload

definition tcp_SendMessage ::
    "(Envelope \<Rightarrow> byte list option) \<Rightarrow> ('m \<Rightarrow> byte list option) \<Rightarrow> string \<Rightarrow> 'm any_payload \<Rightarrow> TCPClient \<Rightarrow> send_error option \<times> TCPClient" where
  "tcp_SendMessage marshal encode route payload c =
     (if \<not> connected c then (Some NotConnected, c)
      else case payload of
        RawBytes p \<Rightarrow> send_envelope marshal route p c
      | ProtoMessage p \<Rightarrow> (case encode p of None \<Rightarrow> (Some MarshalPayload, c) | Some payloadBytes \<Rightarrow> send_envelope marshal route payloadBytes c)
      | OtherPayload \<Rightarrow> (Some UnsupportedPayload, c))"

text \<open>A round of \<open>writeLoop\<close>: whether the loop goes on, and the client.  \<open>ends\<close> is the choice of \<open>select\<close> when both channels are ready, \<open>fails\<close> the
  number of bytes after which the write fails.  A loop that has to wait stays as it is.\<close>

definition tcp_writeLoop :: "bool \<Rightarrow> nat option \<Rightarrow> TCPClient \<Rightarrow> (bool \<times> TCPClient) option" where
  "tcp_writeLoop ends fails c =
     (if tcDone c \<and> (ends \<or> sendCh c = []) then Some (False, c)
      else case sendCh c of
        [] \<Rightarrow> Some (True, c)
      | buf # bufs \<Rightarrow>
          (let c = c\<lparr>sendCh := bufs\<rparr>
           in if \<not> tcConn c then Some (True, c)
              else case fails of
                None \<Rightarrow> Some (True, c\<lparr>tcWritten := tcWritten c @ buf\<rparr>)
              | Some n \<Rightarrow> do { c \<leftarrow> tcp_Close (c\<lparr>tcWritten := tcWritten c @ take n buf\<rparr>); Some (False, c) }))"

text \<open>A round of \<open>readLoop\<close>, which closes the client when it ends.\<close>

definition tcp_readLoop :: "(byte list \<Rightarrow> Envelope option) \<Rightarrow> TCPClient \<Rightarrow> (bool \<times> TCPClient) option" where
  "tcp_readLoop unmarshal c =
     (let quit = (\<lambda>c. do { c \<leftarrow> tcp_Close c; Some (False, c) })
      in if tcDone c then quit c
         else case ReadFull 4 (tcStream c) of
           (None, r) \<Rightarrow> quit (c\<lparr>tcStream := r\<rparr>)
         | (Some lenBuf, r) \<Rightarrow>
             (let len = Uint32 lenBuf; c = c\<lparr>tcStream := r\<rparr>
              in if 65536 < len then quit c
                 else case ReadFull (unat len) r of
                   (None, r) \<Rightarrow> quit (c\<lparr>tcStream := r\<rparr>)
                 | (Some payloadBuf, r) \<Rightarrow>
                     (let c = c\<lparr>tcStream := r\<rparr>
                      in case unmarshal payloadBuf of
                           None \<Rightarrow> Some (True, c)
                         | Some envelope \<Rightarrow>
                             (let msg = \<lparr>tmRoute = evRoute envelope, tmPayload = evPayload envelope\<rparr>
                              in Some (True, if length (RecvChan c) < 100 then c\<lparr>RecvChan := RecvChan c @ [msg]\<rparr> else c)))))"

section \<open>Frames\<close>

lemma Uint32_PutUint32: "Uint32 (PutUint32 n) = n"
proof (rule bit_word_eqI)
  fix m assume "m < LENGTH(32)"
  then consider "m < 8" | "8 \<le> m" "m < 16" | "16 \<le> m" "m < 24" | "24 \<le> m" "m < 32" by fastforce
  then show "bit (Uint32 (PutUint32 n)) m = bit n m" by cases (auto simp: Uint32_def PutUint32_def bit_simps)
qed

lemma ReadFull_append: "length bs = n \<Longrightarrow> ReadFull n (bs @ r) = (Some bs, r)"
  by (simp add: ReadFull_def)

lemma ReadFull_prefix: "ReadFull 4 (PutUint32 n @ r) = (Some (PutUint32 n), r)"
  by (rule ReadFull_append) (simp add: PutUint32_def)

text \<open>A message of at most 64 KB is read back from the stream, whatever follows it; a longer one is refused.\<close>

lemma length_roundtrip:
  assumes "length bs \<le> 65536"
  shows "length_Decode (Some (length_Encode bs @ r)) = Some (Inr bs, r)"
  using assms
  by (simp add: length_Decode_def length_Encode_def ReadFull_prefix ReadFull_append Uint32_PutUint32 unat_of_nat word_less_nat_alt Let_def)

lemma long_message_refused:
  assumes "65536 < length bs" "length bs < 2 ^ 32"
  shows "length_Decode (Some (length_Encode bs @ r)) = Some (Inl (TooLarge (word_of_nat (length bs))), bs @ r)"
  using assms by (simp add: length_Decode_def length_Encode_def ReadFull_prefix Uint32_PutUint32 unat_of_nat word_less_nat_alt Let_def)

section \<open>The stream\<close>

fun frames :: "(Envelope \<Rightarrow> byte list option) \<Rightarrow> 64 word \<Rightarrow> (string \<times> byte list) list \<Rightarrow> byte list list" where
  "frames marshal seq [] = []"
| "frames marshal seq ((route, p) # ms) =
     length_Encode (the (marshal \<lparr>evRoute = route, evPayload = p, evClientSeq = seq + 1\<rparr>)) # frames marshal (seq + 1) ms"

fun rounds_of :: "(TCPClient \<Rightarrow> (bool \<times> TCPClient) option) \<Rightarrow> nat \<Rightarrow> TCPClient \<Rightarrow> (bool \<times> TCPClient) option" where
  "rounds_of loop 0 c = Some (True, c)"
| "rounds_of loop (Suc n) c = (case loop c of Some (True, c) \<Rightarrow> rounds_of loop n c | stop \<Rightarrow> stop)"

text \<open>What is relied on of protobuf, and that every envelope fits a frame.\<close>

definition fits :: "(Envelope \<Rightarrow> byte list option) \<Rightarrow> (byte list \<Rightarrow> Envelope option) \<Rightarrow> (string \<times> byte list) \<Rightarrow> bool" where
  "fits marshal unmarshal m \<longleftrightarrow> (\<forall>seq. \<exists>bs. marshal \<lparr>evRoute = fst m, evPayload = snd m, evClientSeq = seq\<rparr> = Some bs \<and> length bs \<le> 65536
     \<and> unmarshal bs = Some \<lparr>evRoute = fst m, evPayload = snd m, evClientSeq = seq\<rparr>)"

lemma sends_queued:
  assumes "connected c" "length (sendCh c) + length ms \<le> 100" "list_all (fits marshal unmarshal) ms"
  shows "fold (\<lambda>m c. snd (tcp_SendMessage marshal encode (fst m) (RawBytes (snd m)) c)) ms c
     = c\<lparr>tcSeq := tcSeq c + of_nat (length ms), sendCh := sendCh c @ frames marshal (tcSeq c) ms\<rparr>"
  using assms
proof (induction ms arbitrary: c)
  case (Cons m ms)
  obtain bs where bs: "marshal \<lparr>evRoute = fst m, evPayload = snd m, evClientSeq = tcSeq c + 1\<rparr> = Some bs" using Cons.prems(3) by (auto simp: fits_def)
  let ?c = "c\<lparr>tcSeq := tcSeq c + 1, sendCh := sendCh c @ [length_Encode bs]\<rparr>"
  have "snd (tcp_SendMessage marshal encode (fst m) (RawBytes (snd m)) c) = ?c"
    using Cons.prems(1,2) by (simp add: tcp_SendMessage_def send_envelope_def bs length_Encode_def Let_def)
  moreover have "frames marshal (tcSeq c) (m # ms) = length_Encode bs # frames marshal (tcSeq c + 1) ms" by (cases m) (use bs in simp)
  ultimately show ?case using Cons.IH [of ?c] Cons.prems by (simp add: add.assoc)
qed simp

lemma writes_all:
  assumes "\<not> tcDone c" "tcConn c"
  shows "rounds_of (tcp_writeLoop ends None) (length (sendCh c)) c = Some (True, c\<lparr>sendCh := [], tcWritten := tcWritten c @ concat (sendCh c)\<rparr>)"
proof -
  have "rounds_of (tcp_writeLoop ends None) (length q) (c\<lparr>sendCh := q\<rparr>) = Some (True, c\<lparr>sendCh := [], tcWritten := tcWritten c @ concat q\<rparr>)" for q
    using assms
  proof (induction q arbitrary: c)
    case (Cons buf q)
    let ?c = "c\<lparr>tcWritten := tcWritten c @ buf\<rparr>"
    have "tcp_writeLoop ends None (c\<lparr>sendCh := buf # q\<rparr>) = Some (True, ?c\<lparr>sendCh := q\<rparr>)" using Cons.prems by (simp add: tcp_writeLoop_def Let_def)
    moreover have "rounds_of (tcp_writeLoop ends None) (length q) (?c\<lparr>sendCh := q\<rparr>) = Some (True, ?c\<lparr>sendCh := [], tcWritten := tcWritten ?c @ concat q\<rparr>)"
      by (rule Cons.IH) (use Cons.prems in simp_all)
    ultimately show ?case by simp
  qed simp
  from this [of "sendCh c"] show ?thesis by simp
qed

lemma reads_one:
  assumes "\<not> tcDone c" "tcStream c = length_Encode bs @ r" "length bs \<le> 65536" "unmarshal bs = Some e" "length (RecvChan c) < 100"
  shows "tcp_readLoop unmarshal c = Some (True, c\<lparr>tcStream := r, RecvChan := RecvChan c @ [\<lparr>tmRoute = evRoute e, tmPayload = evPayload e\<rparr>]\<rparr>)"
  using assms
  by (simp add: tcp_readLoop_def length_Encode_def ReadFull_prefix ReadFull_append Uint32_PutUint32 unat_of_nat word_less_nat_alt Let_def)

lemma reads_all:
  assumes "\<not> tcDone c" "tcStream c = concat (frames marshal seq ms) @ r" "list_all (fits marshal unmarshal) ms" "length (RecvChan c) + length ms \<le> 100"
  shows "rounds_of (tcp_readLoop unmarshal) (length ms) c
     = Some (True, c\<lparr>tcStream := r, RecvChan := RecvChan c @ map (\<lambda>m. \<lparr>tmRoute = fst m, tmPayload = snd m\<rparr>) ms\<rparr>)"
  using assms
proof (induction ms arbitrary: c seq)
  case (Cons m ms)
  obtain bs where bs: "marshal \<lparr>evRoute = fst m, evPayload = snd m, evClientSeq = seq + 1\<rparr> = Some bs" "length bs \<le> 65536"
    "unmarshal bs = Some \<lparr>evRoute = fst m, evPayload = snd m, evClientSeq = seq + 1\<rparr>" using Cons.prems(3) by (auto simp: fits_def)
  have "tcStream c = length_Encode bs @ concat (frames marshal (seq + 1) ms) @ r" using Cons.prems(2) bs(1) by (cases m) simp
  note one = reads_one [of c bs _ unmarshal, OF Cons.prems(1) this bs(2,3)]
  show ?case using one Cons.prems Cons.IH [of _ "seq + 1"] by simp
qed simp

text \<open>What one client sends on a fresh connection, the client at the other end receives, in order and up to the hundred messages its channels hold.\<close>

lemma stream_delivered:
  assumes "length ms \<le> 100" "list_all (fits marshal unmarshal) ms"
  shows "\<exists>a b. rounds_of (tcp_writeLoop ends None) (length ms)
         (fold (\<lambda>m c. snd (tcp_SendMessage marshal encode (fst m) (RawBytes (snd m)) c)) ms (snd (tcp_Connect (Some s) NewTCPClient))) = Some (True, a)
     \<and> rounds_of (tcp_readLoop unmarshal) (length ms) (snd (tcp_Connect (Some (tcWritten a)) NewTCPClient)) = Some (True, b)
     \<and> RecvChan b = map (\<lambda>m. \<lparr>tmRoute = fst m, tmPayload = snd m\<rparr>) ms \<and> tcStream b = [] \<and> sendCh a = []"
proof -
  let ?c = "snd (tcp_Connect (Some s) NewTCPClient)"
  let ?q = "?c\<lparr>tcSeq := of_nat (length ms), sendCh := frames marshal 0 ms\<rparr>"
  have c: "connected ?c" "\<not> tcDone ?c" "tcConn ?c" "sendCh ?c = []" "tcWritten ?c = []" "tcSeq ?c = 0" by (simp_all add: tcp_Connect_def NewTCPClient_def)
  have l: "length (frames marshal seq ms) = length ms" for seq by (induction marshal seq ms rule: frames.induct) auto
  have f: "fold (\<lambda>m c. snd (tcp_SendMessage marshal encode (fst m) (RawBytes (snd m)) c)) ms ?c = ?q"
    using sends_queued [of ?c ms marshal unmarshal encode] assms c by simp
  have w: "rounds_of (tcp_writeLoop ends None) (length ms) ?q = Some (True, ?q\<lparr>sendCh := [], tcWritten := concat (frames marshal 0 ms)\<rparr>)"
    using writes_all [of ?q ends] l c by simp
  let ?b = "snd (tcp_Connect (Some (concat (frames marshal 0 ms))) NewTCPClient)"
  have "rounds_of (tcp_readLoop unmarshal) (length ms) ?b = Some (True, ?b\<lparr>tcStream := [], RecvChan := map (\<lambda>m. \<lparr>tmRoute = fst m, tmPayload = snd m\<rparr>) ms\<rparr>)"
    using reads_all [of ?b marshal 0 ms "[]" unmarshal] assms by (simp add: tcp_Connect_def NewTCPClient_def)
  then show ?thesis unfolding f using w by simp
qed

text \<open>A message that is too long ends the receiver's connection.\<close>

lemma long_frame_closes:
  assumes "\<not> tcDone c" "connected c" "tcStream c = length_Encode bs @ r" "65536 < length bs" "length bs < 2 ^ 32"
  shows "tcp_readLoop unmarshal c = Some (False, c\<lparr>connected := False, tcDone := True, tcStream := []\<rparr>)"
  using assms by (simp add: tcp_readLoop_def length_Encode_def ReadFull_prefix Uint32_PutUint32 unat_of_nat word_less_nat_alt tcp_Close_def Let_def)

section \<open>Flaws\<close>

text \<open>\<open>DecodeEnvelope\<close> panics on every input.\<close>

lemma DecodeEnvelope_panics: "DecodeEnvelope unmarshal bs = None"
  by (simp add: DecodeEnvelope_def length_Decode_def)

text \<open>A client that connects again after it was closed panics when it is closed the second time, and its loops end at once.\<close>

lemma reconnect_panics:
  assumes "tcp_Close c = Some c'" "connected c"
  shows "tcp_Close (snd (tcp_Connect (Some s) c')) = None" "sendCh c' = [] \<Longrightarrow> tcp_writeLoop ends fails (snd (tcp_Connect (Some s) c')) = Some (False, snd (tcp_Connect (Some s) c'))"
  using assms by (auto simp: tcp_Close_def tcp_Connect_def tcp_writeLoop_def split: if_split_asm)

end
