(* ===== verification/WebBridge.thy ===== *)
theory WebBridge
  imports WebTest Reach
begin

text \<open>
  The web server of the test client, \<^verbatim>\<open>test/webtest/handler_http.go\<close>, \<^verbatim>\<open>handler_ws.go\<close>, \<^verbatim>\<open>server.go\<close> and \<^verbatim>\<open>types.go\<close>: it keeps a TCP client for every player and
  passes commands of a web page to it and what it receives back.

  \<^item> Sessions are shared between goroutines: they live in a store, and the map of players has their places.
  \<^item> Bodies of requests are what their decoding gives; protobuf, JSON and the network are the record \<open>bridge_env\<close> and further parameters.  Log messages have no
    timestamp.  \<open>None\<close> is a panic.
\<close>

section \<open>State\<close>

record LogMessage =
  lmPlayerID :: string
  lmLevel :: string
  lmMessage :: string

record PlayerSession =
  psPlayerID :: string
  psClient :: TCPClient
  psSocket :: "nat option"
  psLogs :: "LogMessage list"
  psDone :: bool

text \<open>What goes to a web page: log messages, and messages with their payload.\<close>

datatype 'j page_payload = NoPayload | JsonPayload 'j | TextPayload "byte list" | MarshalError | UnmarshalError | UnknownBinary nat

datatype 'j page_message = PageLog LogMessage | PageMessage string "'j page_payload"

record 'j WebServer =
  wbPlayers :: "(string \<times> nat) list"
  wbSessions :: "PlayerSession list"
  wbDone :: bool
  wbOut :: "(nat \<times> 'j page_message) list"

record ('m, 'j) bridge_env =
  beMarshal :: "Envelope \<Rightarrow> byte list option"
  beUnmarshal :: "byte list \<Rightarrow> Envelope option"
  beEncode :: "'m \<Rightarrow> byte list option"
  beAuth :: "string \<Rightarrow> 'm"
  beCreateRoom :: "int \<Rightarrow> string list \<Rightarrow> 'm"
  beFromJson :: "string \<Rightarrow> byte list \<Rightarrow> 'm option"
  bePush :: "string \<Rightarrow> byte list \<Rightarrow> 'm option"
  beToJson :: "'m \<Rightarrow> byte list option"
  beJson :: "byte list \<Rightarrow> 'j option"

definition requestRouteRegistry :: "string list" where
  "requestRouteRegistry = [''auth.login'', ''heartbeat.ping'', ''rmj4p.snapshoot'', ''rmj4p.playTile'', ''rmj4p.meld'', ''rmj4p.ankan'', ''rmj4p.kakan'', ''rmj4p.riichi'',
     ''rmj4p.skip'', ''rmj4p.kyuushuKyuukai'', ''rmj4p.debug.createRoom'']"

definition pushRouteRegistry :: "string list" where
  "pushRouteRegistry = [''auth.login.response'', ''heartbeat.pong'', ''rmj4p.roundStart'', ''rmj4p.drawTile'', ''rmj4p.discardTile'', ''rmj4p.riichi'', ''rmj4p.meldAction'',
     ''rmj4p.ankan'', ''rmj4p.kakan'', ''rmj4p.ron'', ''rmj4p.tsumo'', ''rmj4p.roundEnd'', ''rmj4p.gameEnd'', ''rmj4p.playerDisconnect'', ''rmj4p.playerReconnect'',
     ''rmj4p.operations'', ''rmj4p.gameState'', ''rmj4p.debug.createRoom.response'']"

definition NewWebServer :: "'j WebServer" where
  "NewWebServer = \<lparr>wbPlayers = [], wbSessions = [], wbDone = False, wbOut = []\<rparr>"

definition put_session :: "nat \<Rightarrow> PlayerSession \<Rightarrow> 'j WebServer \<Rightarrow> 'j WebServer" where
  "put_session i session s = s\<lparr>wbSessions := (wbSessions s)[i := session]\<rparr>"

section \<open>Log messages\<close>

definition sendLog :: "string \<Rightarrow> string \<Rightarrow> PlayerSession \<Rightarrow> PlayerSession" where
  "sendLog level message session =
     (if length (psLogs session) < 100
      then session\<lparr>psLogs := psLogs session @ [\<lparr>lmPlayerID = psPlayerID session, lmLevel = level, lmMessage = message\<rparr>]\<rparr>
      else session)"

text \<open>A round of \<open>forwardLogs\<close> for a socket: whether it goes on.  \<open>ends\<close> is the choice of \<open>select\<close> when the session or the server is done as well.\<close>

definition forwardLogs :: "bool \<Rightarrow> bool \<Rightarrow> nat \<Rightarrow> nat \<Rightarrow> 'j WebServer \<Rightarrow> bool \<times> 'j WebServer" where
  "forwardLogs ends writes socket i s =
     (let session = wbSessions s ! i
      in if (psDone session \<or> wbDone s) \<and> (ends \<or> psLogs session = []) then (False, s)
         else case psLogs session of
           [] \<Rightarrow> (True, s)
         | logMsg # logs \<Rightarrow>
             (let s = put_session i (session\<lparr>psLogs := logs\<rparr>) s
              in if writes then (True, s\<lparr>wbOut := wbOut s @ [(socket, PageLog logMsg)]\<rparr>) else (False, s)))"

section \<open>HTTP handlers\<close>

datatype http_reply = HttpError nat | Players "(string \<times> bool \<times> bool) list" | Connected string | Disconnected | SentRoom "string list"

definition handleGetPlayers :: "'j WebServer \<Rightarrow> http_reply" where
  "handleGetPlayers s = Players (map (\<lambda>(i, p). (i, connected (psClient (wbSessions s ! p)), psSocket (wbSessions s ! p) \<noteq> None)) (wbPlayers s))"

definition SendAuth :: "('m, 'j) bridge_env \<Rightarrow> string \<Rightarrow> TCPClient \<Rightarrow> send_error option \<times> TCPClient" where
  "SendAuth env token = SendProtoMessage (beMarshal env) (beEncode env) ''auth.login'' (Some (beAuth env token))"

definition handleConnectPlayer :: "('m, 'j) bridge_env \<Rightarrow> (string \<times> string) option \<Rightarrow> byte list option \<Rightarrow> 'j WebServer \<Rightarrow> http_reply \<times> 'j WebServer" where
  "handleConnectPlayer env req dialed s = (case req of
     None \<Rightarrow> (HttpError 400, s)
   | Some (playerID, token) \<Rightarrow>
       if playerID = [] then (HttpError 400, s)
       else if map_of (wbPlayers s) playerID \<noteq> None then (HttpError 400, s)
       else case tcp_Connect dialed NewTCPClient of
         (False, client) \<Rightarrow> (HttpError 500, s)
       | (True, client) \<Rightarrow>
           (let session = \<lparr>psPlayerID = playerID, psClient = client, psSocket = None, psLogs = [], psDone = False\<rparr>;
                session = (if token \<noteq> [] then
                    (case SendAuth env token client of
                       (Some err, client) \<Rightarrow> sendLog ''ERROR'' ''Auth failed'' (session\<lparr>psClient := client\<rparr>)
                     | (None, client) \<Rightarrow> sendLog ''SEND'' ''auth.login'' (session\<lparr>psClient := client\<rparr>))
                  else session)
            in (Connected playerID, s\<lparr>wbPlayers := wbPlayers s @ [(playerID, length (wbSessions s))], wbSessions := wbSessions s @ [session]\<rparr>)))"

text \<open>Closing a session: its client, then its channel, which panics when it is closed already.\<close>

definition close_session :: "nat \<Rightarrow> 'j WebServer \<Rightarrow> 'j WebServer option" where
  "close_session i s = do {
     let session = wbSessions s ! i;
     client \<leftarrow> tcp_Close (psClient session);
     if psDone session then None
     else Some (put_session i (session\<lparr>psClient := client, psDone := True\<rparr>) s)
   }"

definition handleDisconnectPlayer :: "string option \<Rightarrow> 'j WebServer \<Rightarrow> (http_reply \<times> 'j WebServer) option" where
  "handleDisconnectPlayer req s = (case req of
     None \<Rightarrow> Some (HttpError 400, s)
   | Some playerID \<Rightarrow> (case map_of (wbPlayers s) playerID of
       None \<Rightarrow> Some (HttpError 404, s)
     | Some i \<Rightarrow> do {
         s \<leftarrow> close_session i s;
         Some (Disconnected, s\<lparr>wbPlayers := filter (\<lambda>e. fst e \<noteq> playerID) (wbPlayers s)\<rparr>)
       }))"

text \<open>\<open>handleCreateRoom\<close>; the map is ranged over in the order \<open>order\<close> gives.\<close>

definition handleCreateRoom ::
    "('m, 'j) bridge_env \<Rightarrow> ((string \<times> nat) list \<Rightarrow> (string \<times> nat) list) \<Rightarrow> string \<Rightarrow> (string list \<times> int) option \<Rightarrow> 'j WebServer \<Rightarrow> http_reply \<times> 'j WebServer" where
  "handleCreateRoom env order meth req s =
     (if meth \<noteq> ''POST'' then (HttpError 405, s)
      else case req of
        None \<Rightarrow> (HttpError 400, s)
      | Some (playerIDs, engineType) \<Rightarrow>
          if playerIDs = [] then (HttpError 400, s)
          else let engineType = (if engineType = 0 then 1 else engineType)
               in case find (\<lambda>e. connected (psClient (wbSessions s ! snd e))) (order (wbPlayers s)) of
                    None \<Rightarrow> (HttpError 400, s)
                  | Some (i, p) \<Rightarrow>
                      (let session = wbSessions s ! p
                       in case SendProtoMessage (beMarshal env) (beEncode env) ''rmj4p.debug.createRoom'' (Some (beCreateRoom env engineType playerIDs)) (psClient session) of
                            (Some err, client) \<Rightarrow> (HttpError 500, put_session p (session\<lparr>psClient := client\<rparr>) s)
                          | (None, client) \<Rightarrow> (SentRoom playerIDs, put_session p (session\<lparr>psClient := client\<rparr>) s)))"

section \<open>Web pages\<close>

text \<open>\<open>handleWebSocket\<close> up to its loop: the session of the page, if there is one.\<close>

definition ws_open :: "string \<Rightarrow> nat \<Rightarrow> 'j WebServer \<Rightarrow> nat option \<times> 'j WebServer" where
  "ws_open playerID socket s = (case map_of (wbPlayers s) playerID of
     None \<Rightarrow> (None, s)
   | Some i \<Rightarrow> (Some i, put_session i (sendLog ''INFO'' ''WebSocket connected'' ((wbSessions s ! i)\<lparr>psSocket := Some socket\<rparr>)) s))"

text \<open>A command: a known route is converted from JSON, an unknown one sent as it is.\<close>

definition ws_command :: "('m, 'j) bridge_env \<Rightarrow> string \<Rightarrow> byte list \<Rightarrow> nat \<Rightarrow> 'j WebServer \<Rightarrow> 'j WebServer" where
  "ws_command env route payload i s =
     (let session = wbSessions s ! i;
          log_send = (\<lambda>(err, client). (let session = session\<lparr>psClient := client\<rparr>
             in case err of Some e \<Rightarrow> sendLog ''ERROR'' ''Send failed'' session | None \<Rightarrow> sendLog ''SEND'' route session))
      in put_session i
          (if route \<in> set requestRouteRegistry then
             (case beFromJson env route payload of
                None \<Rightarrow> sendLog ''ERROR'' ''decode error'' session
              | Some msg \<Rightarrow> log_send (SendProtoMessage (beMarshal env) (beEncode env) route (Some msg) (psClient session)))
           else log_send (tcp_SendMessage (beMarshal env) (beEncode env) route (RawBytes payload) (psClient session))) s)"

definition ws_end :: "nat \<Rightarrow> 'j WebServer \<Rightarrow> 'j WebServer" where
  "ws_end i s = put_session i ((wbSessions s ! i)\<lparr>psSocket := None\<rparr>) s"

text \<open>The payload shown for a received message.\<close>

definition payloadForWS :: "('m, 'j) bridge_env \<Rightarrow> TCPMessage \<Rightarrow> 'j page_payload" where
  "payloadForWS env msg =
     (if tmPayload msg \<noteq> [] then
        if tmRoute msg \<in> set pushRouteRegistry then
          (case bePush env (tmRoute msg) (tmPayload msg) of
             Some pbMsg \<Rightarrow> (case beToJson env pbMsg of
                 Some jsonBytes \<Rightarrow> (case beJson env jsonBytes of Some j \<Rightarrow> JsonPayload j | None \<Rightarrow> TextPayload jsonBytes)
               | None \<Rightarrow> MarshalError)
           | None \<Rightarrow> (case beJson env (tmPayload msg) of Some j \<Rightarrow> JsonPayload j | None \<Rightarrow> UnmarshalError))
        else (case beJson env (tmPayload msg) of Some j \<Rightarrow> JsonPayload j | None \<Rightarrow> UnknownBinary (length (tmPayload msg)))
      else NoPayload)"

text \<open>A round of \<open>forwardTCPMessages\<close>: whether it goes on.\<close>

definition forwardTCPMessages :: "('m, 'j) bridge_env \<Rightarrow> bool \<Rightarrow> nat \<Rightarrow> 'j WebServer \<Rightarrow> bool \<times> 'j WebServer" where
  "forwardTCPMessages env ends i s =
     (let session = wbSessions s ! i; client = psClient session
      in if (psDone session \<or> wbDone s) \<and> (ends \<or> RecvChan client = []) then (False, s)
         else case RecvChan client of
           [] \<Rightarrow> (True, s)
         | msg # msgs \<Rightarrow>
             (let session = sendLog ''RECV'' (tmRoute msg) (session\<lparr>psClient := client\<lparr>RecvChan := msgs\<rparr>\<rparr>);
                  s = put_session i session s
              in (True, case psSocket session of
                    None \<Rightarrow> s
                  | Some socket \<Rightarrow> s\<lparr>wbOut := wbOut s @ [(socket, PageMessage (tmRoute msg) (payloadForWS env msg))]\<rparr>)))"

section \<open>Loops of the clients and the end\<close>

text \<open>A round of a loop of a session's client.\<close>

definition client_round :: "(TCPClient \<Rightarrow> (bool \<times> TCPClient) option) \<Rightarrow> nat \<Rightarrow> 'j WebServer \<Rightarrow> 'j WebServer option" where
  "client_round loop i s = do {
     (go, client) \<leftarrow> loop (psClient (wbSessions s ! i));
     Some (put_session i ((wbSessions s ! i)\<lparr>psClient := client\<rparr>) s)
   }"

fun close_sessions :: "(string \<times> nat) list \<Rightarrow> 'j WebServer \<Rightarrow> 'j WebServer option" where
  "close_sessions [] s = Some s"
| "close_sessions ((i, p) # ps) s = do { s \<leftarrow> close_session p s; close_sessions ps s }"

definition web_Stop :: "'j WebServer \<Rightarrow> 'j WebServer option" where
  "web_Stop s =
     (if wbDone s then None
      else do {
        s \<leftarrow> close_sessions (wbPlayers s) (s\<lparr>wbDone := True\<rparr>);
        Some (s\<lparr>wbPlayers := []\<rparr>)
      })"

section \<open>The running server\<close>

inductive bridge_step :: "('m, 'j) bridge_env \<Rightarrow> 'j WebServer \<Rightarrow> 'j WebServer \<Rightarrow> bool" for env where
  do_connect: "handleConnectPlayer env req dialed s = (rep, s') \<Longrightarrow> bridge_step env s s'"
| do_disconnect: "handleDisconnectPlayer req s = Some (rep, s') \<Longrightarrow> bridge_step env s s'"
| do_room: "set (order (wbPlayers s)) = set (wbPlayers s) \<Longrightarrow> handleCreateRoom env order meth body s = (rep, s') \<Longrightarrow> bridge_step env s s'"
| do_open: "ws_open playerID socket s = (i, s') \<Longrightarrow> bridge_step env s s'"
| do_command: "i < length (wbSessions s) \<Longrightarrow> bridge_step env s (ws_command env route payload i s)"
| do_end: "i < length (wbSessions s) \<Longrightarrow> bridge_step env s (ws_end i s)"
| do_logs: "i < length (wbSessions s) \<Longrightarrow> forwardLogs ends writes socket i s = (go, s') \<Longrightarrow> bridge_step env s s'"
| do_forward: "i < length (wbSessions s) \<Longrightarrow> forwardTCPMessages env ends i s = (go, s') \<Longrightarrow> bridge_step env s s'"
| do_read: "i < length (wbSessions s) \<Longrightarrow> client_round (tcp_readLoop (beUnmarshal env)) i s = Some s' \<Longrightarrow> bridge_step env s s'"
| do_write: "i < length (wbSessions s) \<Longrightarrow> client_round (tcp_writeLoop ends fails) i s = Some s' \<Longrightarrow> bridge_step env s s'"
| do_stop: "web_Stop s = Some s' \<Longrightarrow> bridge_step env s s'"

text \<open>A connected client is not done; the players are different, their sessions are different and open.\<close>

definition client_ok :: "TCPClient \<Rightarrow> bool" where
  "client_ok c \<longleftrightarrow> (connected c \<longrightarrow> \<not> tcDone c)"

definition bridge_ok :: "'j WebServer \<Rightarrow> bool" where
  "bridge_ok s \<longleftrightarrow> distinct (map fst (wbPlayers s)) \<and> distinct (map snd (wbPlayers s))
     \<and> (\<forall>session \<in> set (wbSessions s). client_ok (psClient session))
     \<and> (\<forall>p \<in> snd ` set (wbPlayers s). p < length (wbSessions s) \<and> \<not> psDone (wbSessions s ! p))"

lemma tcp_Close_ok: "client_ok c \<Longrightarrow> \<exists>c'. tcp_Close c = Some c' \<and> client_ok c' \<and> \<not> connected c'"
  by (auto simp: tcp_Close_def client_ok_def)

lemma sends_ok:
  "client_ok c \<Longrightarrow> client_ok (snd (SendProtoMessage marshal encode route msg c))"
  "client_ok c \<Longrightarrow> client_ok (snd (tcp_SendMessage marshal encode route payload c))"
  by (auto simp: SendProtoMessage_def tcp_SendMessage_def send_envelope_def client_ok_def Let_def split: option.split any_payload.split)

text \<open>Neither loop of a client panics.\<close>

lemma readLoop_ok: "client_ok c \<Longrightarrow> \<exists>go c'. tcp_readLoop unmarshal c = Some (go, c') \<and> client_ok c'"
  by (auto simp: tcp_readLoop_def tcp_Close_def client_ok_def Let_def split: prod.split option.split)

lemma writeLoop_ok: "client_ok c \<Longrightarrow> \<exists>go c'. tcp_writeLoop ends fails c = Some (go, c') \<and> client_ok c'"
  by (auto simp: tcp_writeLoop_def tcp_Close_def client_ok_def Let_def split: list.split option.split)

lemma sendLog_keeps [simp]: "psClient (sendLog l m session) = psClient session" "psDone (sendLog l m session) = psDone session"
  "psSocket (sendLog l m session) = psSocket session"
  by (simp_all add: sendLog_def)

text \<open>Changing a session keeps the invariant as long as its client is in order and it is not closed behind the back of the map.\<close>

lemma put_session_ok:
  assumes "bridge_ok s" "client_ok (psClient session)" "psDone session \<longrightarrow> i \<notin> snd ` set (wbPlayers s)"
  shows "bridge_ok (put_session i session s)"
proof -
  have "\<not> psDone ((wbSessions s)[i := session] ! p)" if "p \<in> snd ` set (wbPlayers s)" for p
    using assms(1,3) that by (cases "p = i") (auto simp: bridge_ok_def)
  moreover have "client_ok (psClient session')" if "session' \<in> set ((wbSessions s)[i := session])" for session'
    using set_update_subset_insert [THEN subsetD, OF that] assms(1,2) by (auto simp: bridge_ok_def)
  ultimately show ?thesis using assms(1) by (simp add: bridge_ok_def put_session_def)
qed

lemma bridge_ok_simps [simp]: "bridge_ok (s\<lparr>wbOut := out\<rparr>) = bridge_ok s" "bridge_ok (s\<lparr>wbDone := d\<rparr>) = bridge_ok s"
  by (simp_all add: bridge_ok_def)

lemma bridge_ok_session: "bridge_ok s \<Longrightarrow> i < length (wbSessions s) \<Longrightarrow> client_ok (psClient (wbSessions s ! i))"
  by (simp add: bridge_ok_def)

lemma bridge_ok_open: "bridge_ok s \<Longrightarrow> psDone (wbSessions s ! i) \<Longrightarrow> i \<notin> snd ` set (wbPlayers s)"
  by (auto simp: bridge_ok_def)

lemma bridge_ok_player: "bridge_ok s \<Longrightarrow> map_of (wbPlayers s) playerID = Some i \<Longrightarrow> i < length (wbSessions s) \<and> \<not> psDone (wbSessions s ! i)"
  by (force simp: bridge_ok_def dest: map_of_SomeD)

text \<open>Closing the session of a player who leaves the map.\<close>

lemma close_session_ok:
  assumes "bridge_ok (s\<lparr>wbPlayers := (playerID, i) # ps\<rparr>)"
  shows "\<exists>s'. close_session i s = Some s' \<and> bridge_ok (s'\<lparr>wbPlayers := ps\<rparr>) \<and> wbPlayers s' = wbPlayers s \<and> wbDone s' = wbDone s"
proof -
  have i: "i < length (wbSessions s)" "\<not> psDone (wbSessions s ! i)" "i \<notin> snd ` set ps" "client_ok (psClient (wbSessions s ! i))" using assms by (auto simp: bridge_ok_def)
  obtain c where c: "tcp_Close (psClient (wbSessions s ! i)) = Some c" "client_ok c" using tcp_Close_ok [OF i(4)] by blast
  let ?session = "(wbSessions s ! i)\<lparr>psClient := c, psDone := True\<rparr>"
  have "bridge_ok (s\<lparr>wbPlayers := ps\<rparr>)" using assms by (simp add: bridge_ok_def)
  then have "bridge_ok (put_session i ?session (s\<lparr>wbPlayers := ps\<rparr>))" by (rule put_session_ok) (use c(2) i(3) in simp_all)
  then have "bridge_ok ((put_session i ?session s)\<lparr>wbPlayers := ps\<rparr>)" by (simp add: bridge_ok_def put_session_def)
  moreover have "close_session i s = Some (put_session i ?session s)" using i(2) c(1) by (simp add: close_session_def)
  ultimately show ?thesis by (simp add: put_session_def)
qed

lemma close_sessions_ok:
  assumes "bridge_ok (s\<lparr>wbPlayers := ps\<rparr>)"
  shows "\<exists>s'. close_sessions ps s = Some s' \<and> bridge_ok (s'\<lparr>wbPlayers := []\<rparr>) \<and> wbDone s' = wbDone s"
  using assms
proof (induction ps s rule: close_sessions.induct)
  case (2 i p ps s)
  obtain s' where "close_session p s = Some s'" "bridge_ok (s'\<lparr>wbPlayers := ps\<rparr>)" "wbDone s' = wbDone s" using close_session_ok [OF 2(2)] by blast
  then show ?case using 2(1) by simp
qed simp

lemma disconnect_ok:
  assumes "bridge_ok s"
  shows "\<exists>rep s'. handleDisconnectPlayer req s = Some (rep, s') \<and> bridge_ok s'"
proof (cases "req = None \<or> map_of (wbPlayers s) (the req) = None")
  case False
  then obtain playerID i where r: "req = Some playerID" "map_of (wbPlayers s) playerID = Some i" by auto
  let ?ps = "filter (\<lambda>e. fst e \<noteq> playerID) (wbPlayers s)"
  have m: "(playerID, i) \<in> set (wbPlayers s)" using map_of_SomeD [OF r(2)] .
  have "i \<notin> snd ` set ?ps"
  proof
    assume "i \<in> snd ` set ?ps"
    then obtain q where "(q, i) \<in> set (wbPlayers s)" "q \<noteq> playerID" by auto
    then show False using assms m inj_onD [of snd "set (wbPlayers s)" "(q, i)" "(playerID, i)"] by (auto simp: bridge_ok_def distinct_map)
  qed
  then have "bridge_ok (s\<lparr>wbPlayers := (playerID, i) # ?ps\<rparr>)" using assms m by (auto simp: bridge_ok_def distinct_map_filter)
  from close_session_ok [OF this] show ?thesis using r by (auto simp: handleDisconnectPlayer_def)
next
  case True
  then have "\<exists>rep. handleDisconnectPlayer req s = Some (rep, s)" by (cases req) (auto simp: handleDisconnectPlayer_def)
  then show ?thesis using assms by blast
qed

lemma stop_ok:
  assumes "bridge_ok s" "\<not> wbDone s"
  shows "\<exists>s'. web_Stop s = Some s' \<and> bridge_ok s'"
  using close_sessions_ok [where s = "s\<lparr>wbDone := True\<rparr>" and ps = "wbPlayers s"] assms by (auto simp: web_Stop_def bridge_ok_def)

lemma connect_ok:
  assumes "bridge_ok s" "handleConnectPlayer env req dialed s = (rep, s')"
  shows "bridge_ok s'"
proof -
  have new: "bridge_ok (s\<lparr>wbPlayers := wbPlayers s @ [(playerID, length (wbSessions s))], wbSessions := wbSessions s @ [session]\<rparr>)"
    if "map_of (wbPlayers s) playerID = None" "client_ok (psClient session)" "\<not> psDone session" for playerID session
    using assms(1) that by (auto simp: bridge_ok_def map_of_eq_None_iff nth_append)
  have c: "client_ok (snd (tcp_Connect dialed NewTCPClient))" by (auto simp: tcp_Connect_def NewTCPClient_def client_ok_def split: option.split)
  show ?thesis
  proof (cases "s' = s")
    case False
    note h = assms(2) [unfolded handleConnectPlayer_def]
    obtain playerID token where r: "req = Some (playerID, token)" using h False by (cases req) auto
    have n: "map_of (wbPlayers s) playerID = None" using h False by (auto simp: r split: if_split_asm)
    obtain client where t: "tcp_Connect dialed NewTCPClient = (True, client)"
      using h False n by (cases "tcp_Connect dialed NewTCPClient"; cases "fst (tcp_Connect dialed NewTCPClient)") (auto simp: r split: if_split_asm)
    obtain err client' where a: "SendAuth env token client = (err, client')" by fastforce
    have ok: "client_ok client" using c t by simp
    then have "client_ok (snd (SendAuth env token client))" unfolding SendAuth_def by (rule sends_ok(1))
    with a have ok': "client_ok client'" by simp
    have "\<exists>session. s' = s\<lparr>wbPlayers := wbPlayers s @ [(playerID, length (wbSessions s))], wbSessions := wbSessions s @ [session]\<rparr>
        \<and> client_ok (psClient session) \<and> \<not> psDone session"
      using h False n ok ok' by (cases err; cases "token = []") (auto simp: r t a Let_def split: if_split_asm)
    then show ?thesis using new [OF n] by blast
  qed (use assms in simp)
qed

lemma room_ok:
  assumes "bridge_ok s" "set (order (wbPlayers s)) = set (wbPlayers s)" "handleCreateRoom env order meth body s = (rep, s')"
  shows "bridge_ok s'"
proof -
  have p: "p < length (wbSessions s) \<and> \<not> psDone (wbSessions s ! p)" if "find P (order (wbPlayers s)) = Some (i, p)" for P i p
  proof -
    have "(i, p) \<in> set (wbPlayers s)" using that assms(2) by (metis find_Some_iff nth_mem)
    then show ?thesis using assms(1) by (force simp: bridge_ok_def)
  qed
  have "bridge_ok (put_session p ((wbSessions s ! p)\<lparr>psClient := snd (SendProtoMessage (beMarshal env) (beEncode env) route msg (psClient (wbSessions s ! p)))\<rparr>) s)"
    if "find P (order (wbPlayers s)) = Some (i, p)" for P i p route msg
    using p [OF that] by (intro put_session_ok assms) (simp_all add: sends_ok bridge_ok_session [OF assms(1)])
  then show ?thesis using assms(1,3) by (auto simp: handleCreateRoom_def Let_def split: if_split_asm option.split_asm prod.split_asm) (metis snd_conv)+
qed

text \<open>A change of one session that keeps its channel and has a client in order.\<close>

lemma edit_ok:
  assumes "bridge_ok s" "i < length (wbSessions s)" "client_ok (psClient session)" "psDone session = psDone (wbSessions s ! i)"
  shows "bridge_ok (put_session i session s)"
  using put_session_ok [OF assms(1,3)] bridge_ok_open [OF assms(1), of i] assms(4) by simp

lemma client_round_ok:
  assumes "bridge_ok s" "i < length (wbSessions s)" "\<And>c. client_ok c \<Longrightarrow> \<exists>go c'. loop c = Some (go, c') \<and> client_ok c'"
  shows "\<exists>s'. client_round loop i s = Some s' \<and> bridge_ok s'"
proof -
  obtain go c' where "loop (psClient (wbSessions s ! i)) = Some (go, c')" "client_ok c'" using assms(3) [OF bridge_ok_session [OF assms(1,2)]] by blast
  then show ?thesis using edit_ok [OF assms(1,2), of "(wbSessions s ! i)\<lparr>psClient := c'\<rparr>"] by (simp add: client_round_def)
qed

lemma command_ok:
  assumes "bridge_ok s" "i < length (wbSessions s)"
  shows "bridge_ok (ws_command env route payload i s)"
proof -
  let ?c = "psClient (wbSessions s ! i)"
  have c: "client_ok ?c" by (rule bridge_ok_session [OF assms])
  have m: "client_ok c'" if "tcp_SendMessage (beMarshal env) (beEncode env) route (RawBytes payload) ?c = (e, c')" for e c'
    using sends_ok(2) [OF c, of "beMarshal env" "beEncode env" route "RawBytes payload"] that by simp
  have p: "client_ok c'" if "SendProtoMessage (beMarshal env) (beEncode env) route msg ?c = (e, c')" for msg e c'
    using sends_ok(1) [OF c, of "beMarshal env" "beEncode env" route msg] that by simp
  show ?thesis unfolding ws_command_def Let_def
    by (intro edit_ok assms) (auto simp: c dest: m p split: option.split prod.split)
qed

lemma bridge_step_ok: "bridge_step env s s' \<Longrightarrow> bridge_ok s \<Longrightarrow> bridge_ok s'"
proof (induction rule: bridge_step.induct)
  case (do_disconnect req s rep s')
  then show ?case using disconnect_ok [of s req] by auto
next
  case (do_open playerID socket s i s')
  then show ?case using bridge_ok_player [of s playerID] edit_ok [of s] bridge_ok_session [of s]
    by (fastforce simp: ws_open_def split: option.split_asm)
next
  case (do_end i s)
  then show ?case using edit_ok [of s i "(wbSessions s ! i)\<lparr>psSocket := None\<rparr>"] bridge_ok_session [of s i] by (simp add: ws_end_def)
next
  case (do_logs i s ends writes socket go s')
  then show ?case using edit_ok [of s i] bridge_ok_session [of s i]
    by (fastforce simp: forwardLogs_def Let_def split: if_split_asm list.split_asm)
next
  case (do_forward i s ends go s')
  then have "client_ok ((psClient (wbSessions s ! i))\<lparr>RecvChan := msgs\<rparr>)" for msgs using bridge_ok_session [of s i] by (simp add: client_ok_def)
  then show ?case using do_forward edit_ok [of s i]
    by (fastforce simp: forwardTCPMessages_def Let_def split: if_split_asm list.split_asm option.split_asm)
next
  case (do_read i s s')
  then show ?case using client_round_ok [of s i "tcp_readLoop (beUnmarshal env)"] readLoop_ok by fastforce
next
  case (do_write i s ends fails s')
  then show ?case using client_round_ok [of s i "tcp_writeLoop ends fails"] writeLoop_ok by fastforce
next
  case (do_stop s s')
  then show ?case using stop_ok [of s] by (cases "wbDone s") (auto simp: web_Stop_def)
qed (auto intro: connect_ok room_ok command_ok)

interpretation bridge: invariant_system "bridge_step env" bridge_ok
  by unfold_locales (blast intro: bridge_step_ok)

section \<open>Properties\<close>

text \<open>In every state the server can reach, whatever pages, players and the network do, disconnecting a player, the loops of the clients and
  the first \<open>Stop\<close> do not panic, and no player is connected twice.\<close>

lemma bridge_never_panics:
  assumes "(bridge_step env)\<^sup>*\<^sup>* NewWebServer s" "i < length (wbSessions s)"
  shows "handleDisconnectPlayer req s \<noteq> None" "client_round (tcp_readLoop (beUnmarshal env)) i s \<noteq> None" "client_round (tcp_writeLoop ends fails) i s \<noteq> None"
    "\<not> wbDone s \<Longrightarrow> web_Stop s \<noteq> None" "distinct (map fst (wbPlayers s))"
proof -
  have "bridge_ok NewWebServer" by (simp add: bridge_ok_def NewWebServer_def)
  then have ok: "bridge_ok s" using bridge.reach_keeps [OF assms(1)] by blast
  show "handleDisconnectPlayer req s \<noteq> None" using disconnect_ok [OF ok, of req] by auto
  show "client_round (tcp_readLoop (beUnmarshal env)) i s \<noteq> None" using client_round_ok [OF ok assms(2), of "tcp_readLoop (beUnmarshal env)", OF readLoop_ok] by auto
  show "client_round (tcp_writeLoop ends fails) i s \<noteq> None" using client_round_ok [OF ok assms(2), of "tcp_writeLoop ends fails", OF writeLoop_ok] by auto
  show "\<not> wbDone s \<Longrightarrow> web_Stop s \<noteq> None" using stop_ok [OF ok] by auto
  show "distinct (map fst (wbPlayers s))" using ok by (simp add: bridge_ok_def)
qed

text \<open>What a connected player's client has received goes to the page in order.\<close>

fun forward_rounds :: "('m, 'j) bridge_env \<Rightarrow> nat \<Rightarrow> nat \<Rightarrow> 'j WebServer \<Rightarrow> 'j WebServer" where
  "forward_rounds env 0 i s = s"
| "forward_rounds env (Suc n) i s = forward_rounds env n i (snd (forwardTCPMessages env False i s))"

lemma received_in_order:
  assumes "i < length (wbSessions s)" "psSocket (wbSessions s ! i) = Some socket" "RecvChan (psClient (wbSessions s ! i)) = msgs"
  shows "wbOut (forward_rounds env (length msgs) i s) = wbOut s @ map (\<lambda>msg. (socket, PageMessage (tmRoute msg) (payloadForWS env msg))) msgs"
  using assms
proof (induction msgs arbitrary: s)
  case (Cons msg msgs)
  let ?s = "snd (forwardTCPMessages env False i s)"
  have s: "i < length (wbSessions ?s)" "psSocket (wbSessions ?s ! i) = Some socket" "RecvChan (psClient (wbSessions ?s ! i)) = msgs"
    "wbOut ?s = wbOut s @ [(socket, PageMessage (tmRoute msg) (payloadForWS env msg))]"
    using Cons.prems by (simp_all add: forwardTCPMessages_def put_session_def Let_def)
  show ?case using Cons.IH [OF s(1-3)] s(4) by simp
qed simp

section \<open>Flaws\<close>

text \<open>A page that ends takes the session's socket with it, also when it is that of a newer page: the player's messages go nowhere then.\<close>

lemma older_page_unsets_newer:
  assumes "ws_open playerID new s = (Some i, s')" "i < length (wbSessions s)"
  shows "psSocket (wbSessions s' ! i) = Some new" "psSocket (wbSessions (ws_end i s') ! i) = None"
  using assms by (auto simp: ws_open_def ws_end_def put_session_def split: option.split_asm)

text \<open>A second \<open>Stop\<close> panics.\<close>

lemma second_stop_panics: "wbDone s \<Longrightarrow> web_Stop s = None"
  by (simp add: web_Stop_def)

end
