(* ===== verification/Spec2Isabelle.thy ===== *)
theory Spec2Isabelle
  imports Shanten SettleSpec GameSpec Servers Token WebBridge
begin

text \<open>
  A verification library for GoMahjong, a distributed riichi mahjong server in Go.

  \<^bold>\<open>The program.\<close>  Clients hold a websocket to a \<^emph>\<open>connector\<close> node.  The connector decodes their packets, asks the
  \<^emph>\<open>march\<close> node over RPC to queue them for a match, and hands game messages to a \<^emph>\<open>game\<close> node over NATS.  The march node
  keeps the queues in Redis, takes players from them in batches, picks a game node from the directory it
  watches in etcd, and asks it to create a room.  The game node runs one engine per room: an actor goroutine that handles
  the events of its players, goroutines for the four clocks, and a record of the game.  What the engine
  sends goes back over NATS to the connectors and from there to the clients.  Accounts are made and checked by the \<^emph>\<open>auth\<close> node, which
  keeps them in MongoDB; the \<^emph>\<open>gate\<close> node offers that over HTTP.

  \<^bold>\<open>Theories and sources.\<close>  All paths are below \<^verbatim>\<open>src/GoMahjong\<close>; definitions keep the names of the code.

  \<^item> \<open>Prelude\<close>: operations that may panic, Go slices, arithmetic and strings.
  \<^item> \<open>Material\<close>, \<open>Deck\<close>: tiles, wall and dead wall, \<^verbatim>\<open>game/runtime/engines/mahjong/material.go\<close>.  The locale \<open>tile_supply\<close> is
    what the engine needs of a source of tiles; it is interpreted for every way to take or show a tile.
  \<^item> \<open>Player\<close>: \<^verbatim>\<open>player_image.go\<close>.  \<open>Searcher\<close>, \<open>Agari\<close>, \<open>Waits\<close>, \<open>Shanten\<close>: \<^verbatim>\<open>searcher.go\<close>; the backtracking searches against
    declarative specifications, the caches through the locale \<open>memo\<close>.
  \<^item> \<open>Yaku\<close>, \<open>YakuSpec\<close>, \<open>Score\<close>: \<^verbatim>\<open>yaku.go\<close> and \<^verbatim>\<open>score_calculator.go\<close>.  \<open>Options\<close>: \<^verbatim>\<open>checker.go\<close> and \<^verbatim>\<open>opt_selector.go\<close>.  \<open>Ticker\<close>:
    \<^verbatim>\<open>turn_manager.go\<close>.  \<open>Persist\<close>: \<^verbatim>\<open>persist.go\<close> and the record entities.  \<open>EngineState\<close>, \<open>Push\<close>, \<open>Settle\<close>, \<open>Engine\<close>:
    \<^verbatim>\<open>push.go\<close> and \<^verbatim>\<open>riichi_mahjong_4p_engine.go\<close>.
  \<^item> \<open>EngineInv\<close>, \<open>SettleInv\<close>, \<open>DealInv\<close>, \<open>HandlerInv\<close>, \<open>KanInv\<close>: every handler keeps the invariant of the engine and returns.  \<open>Reach\<close>:
    the engine with its goroutines as a step relation, and the locales \<open>total_handler\<close> and \<open>invariant_system\<close>.  \<open>SettleSpec\<close>, \<open>PushSpec\<close>,
    \<open>GameSpec\<close>: what single operations do.
  \<^item> \<open>Rooms\<close>, \<open>RoomsSpec\<close>: rooms, worker and service of the game node, \<^verbatim>\<open>game/runtime\<close>.  The locale \<open>game_engine\<close> is the contract of the
    Go interface \<open>Engine\<close>; the riichi engine is its interpretation, so the node's lemmas rest on those of the engine.
  \<^item> \<open>Protocol\<close>, \<open>ProtocolSpec\<close>: packets and messages byte by byte, \<^verbatim>\<open>connector/infrastructure/message/protocol\<close>; the other nodes have
    identical copies.
  \<^item> \<open>Discovery\<close>: server keys, balancer and node selector, \<^verbatim>\<open>march/infrastructure/discovery\<close>.  \<open>Match\<close>, \<open>MatchSpec\<close>: queue scripts, pools,
    worker and service of the march node.  The locale \<open>redis\<close> is what the scripts rely on of Redis, interpreted on
    stores in memory.
  \<^item> \<open>Connector\<close>, \<open>ConnectorSpec\<close>: sessions, pooled connections, client buckets, binding of users, packet handlers, NATS handlers and
    the rate limiter, \<^verbatim>\<open>connector/runtime\<close>.  \<open>Websocket\<close>: the read and write loops of a connection, with pings and deadlines, and the order
    of its messages.  \<open>RouteCache\<close>: the cache of game routes, \<^verbatim>\<open>connector/infrastructure/cache\<close>, under the locale \<open>ristretto\<close>, against the map the connector model
    has in its place.  \<open>Nodes\<close>: the NATS worker, and the way of a broadcast from the engine of one node to the
    websockets of another.
  \<^item> \<open>Registry\<close>: registration, lease, load reports and end of a node, \<^verbatim>\<open>game/infrastructure/discovery/registry.go\<close>, \<^verbatim>\<open>game/runtime/monitor.go\<close> and
    \<^verbatim>\<open>load_info.go\<close>; the locale \<open>etcd\<close> is what watchers see of the registry.  \<open>Resolver\<close>: the seeker and the gRPC address
    resolvers of connector and gate.
  \<^item> \<open>Records\<close>, \<open>RecordsSpec\<close>: game records in MongoDB, \<^verbatim>\<open>game/infrastructure/persistence\<close>, with the dynamic types documents come back with; the
    locales \<open>bson_codec\<close> and \<open>mongo\<close> are what the repositories rely on of the driver.
  \<^item> \<open>Auth\<close>, \<open>AuthSpec\<close>, \<open>EventLog\<close>: the auth node, \<^verbatim>\<open>auth\<close>; the locale \<open>accounts\<close> extends \<open>mongo\<close> by the hashing of passwords.  \<open>Gate\<close>: the
    HTTP handlers, \<^verbatim>\<open>gate/api\<close> and \<^verbatim>\<open>gate/infrastructure/http\<close>.  \<open>MarchNode\<close>: RPC provider, routes and game connections of the march
    node, the RPC provider of the game node, and the ways of a new user into a queue and of a match to a room.  \<open>MarchLife\<close>: start and end of
    the worker of the march node with the loops of its pools, \<^verbatim>\<open>march/runtime/worker.go\<close> and \<^verbatim>\<open>match_pool.go\<close>, as a step relation.
  \<^item> \<open>Startup\<close>: configuration, containers, RPC clients and \<open>Run\<close> of the nodes, start and end of the worker of the game node with its load
    monitor, \<^verbatim>\<open>infrastructure/config\<close>, \<^verbatim>\<open>container\<close>, \<^verbatim>\<open>app\<close> and \<^verbatim>\<open>main.go\<close> of every node.  \<open>Servers\<close>: start and end of the connector and of the HTTP server of
    the gate.  \<open>WebTest\<close>, \<open>WebBridge\<close>: framing and TCP client of the test client, and its web
    server, \<^verbatim>\<open>test/webtest\<close>.
  \<^item> \<open>Database\<close>: the access to Redis with its table of script hashes, \<^verbatim>\<open>march/infrastructure/database/redis.go\<close>, under the locale \<open>script_server\<close>.
    \<open>Token\<close>: \<^verbatim>\<open>connector/infrastructure/jwt\<close> under the locale \<open>jwt\<close>.

  \<^bold>\<open>What is shown.\<close>

  \<^item> Over whole games, with all goroutines interleaved: points and tiles are conserved, the actor never panics, the
    record is well formed; the deal, the payments, the choice among reactions and the final ranking are exact.
  \<^item> The hand searches are sound and complete, and caching does not change their results.
  \<^item> A game node's routes lead to the rooms that seat their users, rooms that ask for it are destroyed, and a match becomes a room
    with its four players.
  \<^item> A user waits in at most one queue; joining and leaving are inverse; a batch is the longest-waiting users.
  \<^item> What one side of the wire encodes the other decodes; a client's game message reaches NATS as sent, and a push reaches exactly
    the connections of its users.  The connector counts its clients exactly and keeps its rate limit.
    A broadcast of an engine reaches the websockets of its players on every connector, and the messages of a connection keep their order.
  \<^item> A game node is in the directory of the march node with its last load from its start to its end, and its end closes everything; the end of the
    march worker never panics or hangs, however its goroutines interleave; a connector finds the march node by its configured name; the resolver of the connector follows
    the registry; the weighted choice is proportional.
  \<^item> Who registers can log in, over RPC and over HTTP, and can queue for a ranked match; every HTTP request is answered once.  Saved
    game records are found again; the event log keeps its order; tokens identify their users; caching script hashes changes nothing.

  Where the code does not do what it means to, the behaviour is stated as it is, e.g. the fifteenth tile of the dealer, the seat
  whose clock ran out and blocks the table, players lost by a failed match, keys of connector routes that differ between the
  nodes, the panics of a closing connection, saved rounds that cannot be read back, tokens that identify nobody, loops that start in a
  closed march node, and nodes that panic on an early signal.

  \<^bold>\<open>Modelling.\<close>  A panic is \<open>None\<close>: no goroutine recovers, so it ends the process.  Go errors are values.  A pointer that may be nil is an
  option; connection objects, which are shared and recycled, live in an explicit store.  A map that is ranged over is an
  association list, and the order of a \<open>range\<close> statement is a parameter wherever it could matter.  A goroutine is the sequence of
  its sections between two waits; the step relations \<open>eg_step\<close>, \<open>node_step\<close>, \<open>queue_step\<close>, \<open>conn_step\<close>, \<open>march_step\<close> and \<open>bridge_step\<close> interleave them in any order.
  An operation under one lock is one step.  Integers are unbounded where no input can make them overflow; bytes,
  ids, hashes and lengths on the wire are words, and the counts of a hand carry the wrap of \<open>uint8\<close>.  Finite \<open>float64\<close> values are
  rationals.  No definition uses fuel: every loop is structural or has a termination proof.

  Random numbers, times, JSON, zlib, tokens, object ids, password hashes and the replies of Redis, etcd, MongoDB, NATS and RPC peers are parameters.
  What is assumed of them is a hypothesis of the lemmas: \<open>env_ok\<close> for the order of map iteration and the shuffle, and the locales
  \<open>redis\<close>, \<open>script_server\<close>, \<open>etcd\<close>, \<open>bson_codec\<close>, \<open>mongo\<close>, \<open>accounts\<close>, \<open>jwt\<close> and \<open>ristretto\<close>, each with an instance in memory.

  \<^bold>\<open>Not modelled.\<close>  The clients of etcd, NATS, Redis and MongoDB and wrappers that only call them; the printing of logs and
  metrics; the HTTP, gRPC and websocket libraries; the parsing of configuration files; generated code; the operating-system statistics of the load
  monitor; the creation of database indexes; times to live in Redis; the game node in C++.  The copies
  of the wire protocol, the NATS worker, the registry, the database managers, the logger and the user repository in other nodes are identical to the
  modelled files up to their imports and comments.
\<close>

end
